(* ===== verification/Prelude.thy ===== *)
theory Prelude
  imports Main "HOL-Library.Char_ord" "HOL-Library.List_Lexorder" "HOL-Library.Sublist"
begin

text \<open>
  Shared ground of the development: Go strings as byte lists, the functions of package
  \<open>strings\<close> that the sources call, 64-bit integers with their wrap-around, and the two
  interfaces (a codec and a transition system) that several components implement.
\<close>

named_theorems tx_simps \<open>inversion of database transactions that return a value\<close>
named_theorems tx_run \<open>forward evaluation of database transactions\<close>
named_theorems go_defs \<open>small Go predicates that proofs unfold\<close>

section \<open>Go strings\<close>

text \<open>
  A Go string is a sequence of bytes, and \<^typ>\<open>string\<close> is a list of 8-bit characters, so
  \<open>len(s)\<close> is \<^term>\<open>length s\<close>, indexing is list indexing and comparison is the
  lexicographic order on bytes.
\<close>

definition HasPrefix :: "string \<Rightarrow> string \<Rightarrow> bool" where
  "HasPrefix s p \<longleftrightarrow> take (length p) s = p"

definition HasSuffix :: "string \<Rightarrow> string \<Rightarrow> bool" where
  "HasSuffix s p \<longleftrightarrow> HasPrefix (rev s) (rev p)"

definition TrimSuffix :: "string \<Rightarrow> string \<Rightarrow> string" where
  "TrimSuffix s p = (if HasSuffix s p then take (length s - length p) s else s)"

fun Contains :: "string \<Rightarrow> string \<Rightarrow> bool" where
  "Contains [] p \<longleftrightarrow> p = []"
| "Contains (c # s) p \<longleftrightarrow> HasPrefix (c # s) p \<or> Contains s p"

fun Join :: "string list \<Rightarrow> string \<Rightarrow> string" where
  "Join [] sep = []"
| "Join [s] sep = s"
| "Join (s # t # ss) sep = s @ sep @ Join (t # ss) sep"

definition ContainsAny :: "string \<Rightarrow> string \<Rightarrow> bool" where
  "ContainsAny s cs \<longleftrightarrow> list_ex (\<lambda>c. c \<in> set cs) s"

text \<open>ASCII lower case; the texts that the sources fold are ASCII on at least one side.\<close>

definition lower_char :: "char \<Rightarrow> char" where
  "lower_char c = (if CHR ''A'' \<le> c \<and> c \<le> CHR ''Z'' then char_of (of_char c + 32 :: nat) else c)"

definition ToLower :: "string \<Rightarrow> string" where
  "ToLower = map lower_char"

text \<open>
  \<open>strings.EqualFold\<close> and the field-name matching of \<open>encoding/json\<close> fold Unicode case.
  Against an ASCII text only two non-ASCII runes matter: the Kelvin sign (folds to k) and
  the long s (folds to s).
\<close>

fun fold_name :: "string \<Rightarrow> string" where
  "fold_name [] = []"
| "fold_name (c # s) =
     (if c = CHR 0xE2 \<and> take 2 s = [CHR 0x84, CHR 0xAA] then CHR ''k'' # fold_name (drop 2 s)
      else if c = CHR 0xC5 \<and> take 1 s = [CHR 0xBF] then CHR ''s'' # fold_name (drop 1 s)
      else lower_char c # fold_name s)"

definition EqualFold :: "string \<Rightarrow> string \<Rightarrow> bool" where
  "EqualFold s t \<longleftrightarrow> fold_name s = fold_name t"

text \<open>
  \<open>strings.TrimSpace\<close> removes Unicode white space at both ends. In UTF-8 these are the
  byte sequences below; no one of them is a proper prefix or suffix of another, so matching
  bytes at either end is the same as decoding the first or last rune.
\<close>

definition space_runes :: "string list" where
  "space_runes =
     [[CHR 0x09], [CHR 0x0A], [CHR 0x0B], [CHR 0x0C], [CHR 0x0D], [CHR 0x20],
      [CHR 0xC2, CHR 0x85], [CHR 0xC2, CHR 0xA0], [CHR 0xE1, CHR 0x9A, CHR 0x80],
      [CHR 0xE2, CHR 0x80, CHR 0x80], [CHR 0xE2, CHR 0x80, CHR 0x81],
      [CHR 0xE2, CHR 0x80, CHR 0x82], [CHR 0xE2, CHR 0x80, CHR 0x83],
      [CHR 0xE2, CHR 0x80, CHR 0x84], [CHR 0xE2, CHR 0x80, CHR 0x85],
      [CHR 0xE2, CHR 0x80, CHR 0x86], [CHR 0xE2, CHR 0x80, CHR 0x87],
      [CHR 0xE2, CHR 0x80, CHR 0x88], [CHR 0xE2, CHR 0x80, CHR 0x89],
      [CHR 0xE2, CHR 0x80, CHR 0x8A], [CHR 0xE2, CHR 0x80, CHR 0xA8],
      [CHR 0xE2, CHR 0x80, CHR 0xA9], [CHR 0xE2, CHR 0x80, CHR 0xAF],
      [CHR 0xE2, CHR 0x81, CHR 0x9F], [CHR 0xE3, CHR 0x80, CHR 0x80]]"

fun match_len :: "string list \<Rightarrow> string \<Rightarrow> nat" where
  "match_len [] s = 0"
| "match_len (r # rs) s = (if r \<noteq> [] \<and> HasPrefix s r then length r else match_len rs s)"

lemma match_len_le: "match_len rs s \<le> length s"
  by (induction rs) (auto simp: HasPrefix_def min_def dest: arg_cong [where f = length] split: if_splits)

lemma match_len_Nil [simp]: "match_len rs [] = 0"
  using match_len_le [of rs "[]"] by simp

function trim_with :: "string list \<Rightarrow> string \<Rightarrow> string" where
  "trim_with rs s = (if match_len rs s = 0 then s else trim_with rs (drop (match_len rs s) s))"
  by pat_completeness auto
termination
proof (relation "measure (\<lambda>(rs, s). length s)", goal_cases)
  case (2 rs s)
  then have "s \<noteq> []" by auto
  with 2 show ?case by simp
qed simp

declare trim_with.simps [simp del]

definition TrimLeftSpace :: "string \<Rightarrow> string" where
  "TrimLeftSpace s = trim_with space_runes s"

definition TrimRightSpace :: "string \<Rightarrow> string" where
  "TrimRightSpace s = rev (trim_with (map rev space_runes) (rev s))"

definition TrimSpace :: "string \<Rightarrow> string" where
  "TrimSpace s = TrimRightSpace (TrimLeftSpace s)"

section \<open>Lemmas on strings\<close>

lemma HasPrefix_iff: "HasPrefix s p \<longleftrightarrow> (\<exists>t. s = p @ t)"
  by (metis HasPrefix_def append_eq_conv_conj)

lemma HasSuffix_iff: "HasSuffix s p \<longleftrightarrow> (\<exists>t. s = t @ p)"
  by (metis HasSuffix_def HasPrefix_iff rev_append rev_rev_ident)

lemma HasPrefix_append [simp]: "HasPrefix (p @ t) p"
  by (simp add: HasPrefix_iff)

lemma HasSuffix_append [simp]: "HasSuffix (t @ p) p"
  by (simp add: HasSuffix_iff)

lemma TrimSuffix_append [simp]: "TrimSuffix (t @ p) p = t"
  by (simp add: TrimSuffix_def)

lemma match_len_trim_with: "match_len rs (trim_with rs s) = 0"
proof (induction rs s rule: trim_with.induct)
  case (1 rs s)
  then show ?case by (cases "match_len rs s = 0") (simp_all add: trim_with.simps [of rs s])
qed

lemma trim_with_fix: "match_len rs s = 0 \<Longrightarrow> trim_with rs s = s"
  by (simp add: trim_with.simps)

lemma trim_with_suffix: "\<exists>t. s = t @ trim_with rs s"
proof (induction rs s rule: trim_with.induct)
  case (1 rs s)
  show ?case
  proof (cases "match_len rs s = 0")
    case True
    then show ?thesis by (simp add: trim_with_fix)
  next
    case False
    with 1 obtain t where "drop (match_len rs s) s = t @ trim_with rs (drop (match_len rs s) s)"
      by blast
    then have "s = (take (match_len rs s) s @ t) @ trim_with rs s"
      using False by (metis append.assoc append_take_drop_id trim_with.simps)
    then show ?thesis by blast
  qed
qed

lemma length_trim_with: "length (trim_with rs s) \<le> length s"
  using trim_with_suffix [of s rs] by (metis length_append le_add2)

lemma length_TrimSpace: "length (TrimSpace s) \<le> length s"
  unfolding TrimSpace_def TrimRightSpace_def TrimLeftSpace_def
  by (metis length_rev length_trim_with le_trans)

lemma match_len_prefix: "match_len rs (s @ t) = 0 \<Longrightarrow> match_len rs s = 0"
  by (induction rs) (auto simp: HasPrefix_iff split: if_splits)

lemma TrimSpace_idem [simp]: "TrimSpace (TrimSpace s) = TrimSpace s"
proof -
  let ?l = "trim_with space_runes s"
  obtain t where t: "rev ?l = t @ trim_with (map rev space_runes) (rev ?l)"
    using trim_with_suffix by blast
  then have "?l = TrimSpace s @ rev t"
    unfolding TrimSpace_def TrimRightSpace_def TrimLeftSpace_def
    by (metis rev_append rev_rev_ident)
  then have "match_len space_runes (TrimSpace s) = 0"
    using match_len_trim_with [of space_runes s] by (metis match_len_prefix)
  then have "TrimLeftSpace (TrimSpace s) = TrimSpace s"
    by (simp add: TrimLeftSpace_def trim_with_fix)
  moreover have "TrimRightSpace (TrimSpace s) = TrimSpace s"
    by (simp add: TrimSpace_def TrimRightSpace_def trim_with_fix match_len_trim_with)
  ultimately show ?thesis by (simp add: TrimSpace_def)
qed

lemma match_len_plain: "\<forall>c \<in> set s. c \<notin> set (concat rs) \<Longrightarrow> match_len rs s = 0"
  by (induction rs) (auto simp: HasPrefix_iff neq_Nil_conv)

lemma TrimSpace_plain:
  assumes "\<forall>c \<in> set s. c \<notin> set (concat space_runes)"
  shows "TrimSpace s = s"
proof -
  have "set (concat (map rev space_runes)) = set (concat space_runes)" by simp
  then have "match_len space_runes s = 0" "match_len (map rev space_runes) (rev s) = 0"
    using assms by (auto simp del: set_concat intro!: match_len_plain)
  then show ?thesis by (simp add: TrimSpace_def TrimRightSpace_def TrimLeftSpace_def trim_with_fix)
qed

lemma match_len_0_iff: "match_len rs s = 0 \<longleftrightarrow> (\<forall>r \<in> set rs. r \<noteq> [] \<longrightarrow> \<not> HasPrefix s r)"
  by (induction rs) auto

lemma space_runes_not_Nil: "r \<in> set space_runes \<Longrightarrow> r \<noteq> []"
  by (auto simp: space_runes_def)

text \<open>A text is trimmed already when its first byte starts and its last byte ends no white space.\<close>

lemma TrimSpace_ends:
  assumes "s \<noteq> []" "\<forall>r \<in> set space_runes. hd r \<noteq> hd s \<and> last r \<noteq> last s"
  shows "TrimSpace s = s"
proof -
  have "hd p = hd s" if "HasPrefix s p" "p \<noteq> []" for p s using that by (auto simp: HasPrefix_iff)
  then have "match_len space_runes s = 0" "match_len (map rev space_runes) (rev s) = 0"
    using assms by (fastforce simp: match_len_0_iff hd_rev)+
  then show ?thesis by (simp add: TrimSpace_def TrimLeftSpace_def TrimRightSpace_def trim_with_fix)
qed

lemma mod_less_of_bounds:
  assumes "k * q \<le> (m :: nat)" "m < k * q + b" "b \<le> k"
  shows "m mod k < b"
proof -
  have "m = k * q + (m - k * q)" "m - k * q < k" using assms by linarith+
  then have "m mod k = m - k * q" by (metis mod_mult_self3 mult.commute mod_less)
  then show ?thesis using assms by linarith
qed

section \<open>64-bit integers\<close>

text \<open>Go's \<open>int64\<close> is an \<^typ>\<open>int\<close> in the range below; arithmetic wraps around.\<close>

definition max_int64 :: int where
  "max_int64 = 2 ^ 63 - 1"

definition in_int64 :: "int \<Rightarrow> bool" where
  "in_int64 x \<longleftrightarrow> - (2 ^ 63) \<le> x \<and> x \<le> max_int64"

definition wrap64 :: "int \<Rightarrow> int" where
  "wrap64 x = (x + 2 ^ 63) mod 2 ^ 64 - 2 ^ 63"

lemma wrap64_id [simp]: "in_int64 x \<Longrightarrow> wrap64 x = x"
  by (simp add: in_int64_def wrap64_def max_int64_def)

lemma wrap64_range: "in_int64 (wrap64 x)"
proof -
  have "0 \<le> (x + 2 ^ 63) mod 2 ^ 64 \<and> (x + 2 ^ 63) mod 2 ^ 64 < (2 ^ 64 :: int)"
    by simp
  then show ?thesis by (simp add: in_int64_def wrap64_def max_int64_def)
qed

lemma wrap64_succ: "in_int64 x \<Longrightarrow> wrap64 (x + 1) = (if x = max_int64 then - (2 ^ 63) else x + 1)"
  by (auto simp: in_int64_def wrap64_def max_int64_def)

lemma wrap64_succ_pos: "in_int64 x \<Longrightarrow> 0 < wrap64 (x + 1) \<Longrightarrow> wrap64 (x + 1) = x + 1"
  by (auto simp: wrap64_succ split: if_splits)

section \<open>Interfaces\<close>

text \<open>
  A codec: every well-formed value survives encoding and decoding. Cursors, decimal
  numbers, JSON strings and documents, and timestamps are codecs of the sources.
\<close>

locale codec =
  fixes enc :: "'a \<Rightarrow> string"
    and dec :: "string \<Rightarrow> 'a option"
    and wf :: "'a \<Rightarrow> bool"
  assumes dec_enc: "wf x \<Longrightarrow> dec (enc x) = Some x"
begin

lemma enc_inject: "wf x \<Longrightarrow> wf y \<Longrightarrow> enc x = enc y \<longleftrightarrow> x = y"
  by (metis dec_enc option.inject)

lemma inj_on_enc: "inj_on enc (Collect wf)"
  by (auto simp: inj_on_def enc_inject)

end

text \<open>
  A transition system with an invariant: what holds at the start and is kept by every step
  holds in every state that a finite sequence of steps reaches.
\<close>

locale invariant_system =
  fixes start :: "'s \<Rightarrow> bool"
    and step :: "'s \<Rightarrow> 's \<Rightarrow> bool"
    and inv :: "'s \<Rightarrow> bool"
  assumes inv_start: "start s \<Longrightarrow> inv s"
    and inv_step: "inv s \<Longrightarrow> step s t \<Longrightarrow> inv t"
begin

lemma inv_rtranclp: "inv s \<Longrightarrow> step\<^sup>*\<^sup>* s t \<Longrightarrow> inv t"
  by (rotate_tac, induction rule: rtranclp_induct) (auto intro: inv_step)

lemma inv_reachable: "start s \<Longrightarrow> step\<^sup>*\<^sup>* s t \<Longrightarrow> inv t"
  using inv_start inv_rtranclp by blast

end

end
