(* ===== verification/Strconv.thy ===== *)
theory Strconv
  imports Prelude
begin

text \<open>
  Decimal text of 64-bit integers, as \<open>strconv.FormatInt\<close> and \<open>strconv.ParseInt\<close>
  (base 10) read and write it, and what the sources build on it: entity tags
  (\<open>VersionETag\<close> of \<open>store.go\<close>) and the comparison of dotted SQLite versions
  (\<open>compareVersions\<close> of \<open>store.go\<close>).
\<close>

section \<open>Decimal digits\<close>

definition isDigit :: "char \<Rightarrow> bool" where
  "isDigit c \<longleftrightarrow> CHR ''0'' \<le> c \<and> c \<le> CHR ''9''"

definition digit_char :: "nat \<Rightarrow> char" where
  "digit_char n = char_of (48 + n)"

definition digit_val :: "char \<Rightarrow> nat" where
  "digit_val c = of_char c - 48"

fun showNat :: "nat \<Rightarrow> string" where
  "showNat n = (if n < 10 then [digit_char n] else showNat (n div 10) @ [digit_char (n mod 10)])"

declare showNat.simps [simp del]

definition readNat :: "string \<Rightarrow> nat" where
  "readNat = foldl (\<lambda>n c. 10 * n + digit_val c) 0"

definition FormatInt :: "int \<Rightarrow> string" where
  "FormatInt i = (if i < 0 then CHR ''-'' # showNat (nat (- i)) else showNat (nat i))"

definition ParseInt :: "string \<Rightarrow> int option" where
  "ParseInt s =
    (case s of [] \<Rightarrow> None
     | c # r \<Rightarrow>
        (let neg = (c = CHR ''-''); ds = (if c = CHR ''+'' \<or> c = CHR ''-'' then r else s)
         in if ds = [] \<or> \<not> list_all isDigit ds then None
            else let v = int (readNat ds)
              in if \<not> neg \<and> max_int64 < v then None
                 else if neg \<and> 2 ^ 63 < v then None
                 else Some (if neg then - v else v)))"

text \<open>On a 64-bit platform \<open>strconv.Atoi\<close> accepts the same texts as \<open>ParseInt(s, 10, 64)\<close>.\<close>

abbreviation Atoi :: "string \<Rightarrow> int option" where
  "Atoi \<equiv> ParseInt"

definition VersionETag :: "int \<Rightarrow> string" where
  "VersionETag version = CHR 0x22 # FormatInt version @ [CHR 0x22]"

section \<open>Round trips\<close>

lemma of_char_digit_char: "n < 10 \<Longrightarrow> of_char (digit_char n) = 48 + n"
  by (simp add: digit_char_def)

lemma digit_val_char [simp]: "n < 10 \<Longrightarrow> digit_val (digit_char n) = n"
  by (simp add: digit_val_def of_char_digit_char)

lemma isDigit_iff: "isDigit c \<longleftrightarrow> 48 \<le> (of_char c :: nat) \<and> (of_char c :: nat) \<le> 57"
  by (simp add: isDigit_def less_eq_char_def)

lemma isDigit_digit_char [simp]: "n < 10 \<Longrightarrow> isDigit (digit_char n)"
  by (simp add: isDigit_iff of_char_digit_char)

lemma showNat_digits: "list_all isDigit (showNat n)"
proof (induction n rule: showNat.induct)
  case (1 n)
  then show ?case by (subst showNat.simps) auto
qed

lemma showNat_not_Nil [simp]: "showNat n \<noteq> []"
  by (subst showNat.simps) simp

lemma readNat_snoc: "readNat (s @ [c]) = 10 * readNat s + digit_val c"
  by (simp add: readNat_def)

lemma readNat_showNat [simp]: "readNat (showNat n) = n"
proof (induction n rule: showNat.induct)
  case (1 n)
  show ?case
  proof (cases "n < 10")
    case True
    then show ?thesis by (subst showNat.simps) (simp add: readNat_def)
  next
    case False
    with 1 show ?thesis by (subst showNat.simps) (simp add: readNat_snoc)
  qed
qed

lemma hd_showNat_digit: "isDigit (hd (showNat n))"
  using showNat_digits [of n] by (cases "showNat n") auto

lemma not_isDigit_sign [simp]: "\<not> isDigit (CHR ''-'')" "\<not> isDigit (CHR ''+'')"
  by (simp_all add: isDigit_iff)

lemma ParseInt_FormatInt: "in_int64 i \<Longrightarrow> ParseInt (FormatInt i) = Some i"
proof (cases "i < 0")
  case True
  assume "in_int64 i"
  with True show ?thesis
    by (simp add: FormatInt_def ParseInt_def showNat_digits in_int64_def max_int64_def)
next
  case False
  assume r: "in_int64 i"
  obtain c r' where c: "showNat (nat i) = c # r'" by (cases "showNat (nat i)") auto
  then have "c \<noteq> CHR ''-''" and "c \<noteq> CHR ''+''"
    using hd_showNat_digit [of "nat i"] by (auto simp: isDigit_iff)
  then show ?thesis
    using False r showNat_digits [of "nat i"] readNat_showNat [of "nat i"]
    by (auto simp: FormatInt_def ParseInt_def c in_int64_def Let_def)
qed

interpretation decimal: codec FormatInt ParseInt in_int64
  by unfold_locales (rule ParseInt_FormatInt)

lemma FormatInt_inject: "in_int64 i \<Longrightarrow> in_int64 j \<Longrightarrow> FormatInt i = FormatInt j \<longleftrightarrow> i = j"
  by (rule decimal.enc_inject)

lemma VersionETag_inject: "in_int64 i \<Longrightarrow> in_int64 j \<Longrightarrow> VersionETag i = VersionETag j \<longleftrightarrow> i = j"
  by (simp add: VersionETag_def FormatInt_inject)

lemma ParseInt_range: "ParseInt s = Some i \<Longrightarrow> in_int64 i"
  by (auto simp: ParseInt_def in_int64_def max_int64_def Let_def split: list.splits if_splits)

lemma FormatInt_not_Nil [simp]: "FormatInt i \<noteq> []"
  by (simp add: FormatInt_def)

lemma FormatInt_chars:
  "c \<in> set (FormatInt i) \<Longrightarrow> isDigit c \<or> c = CHR ''-''"
  using showNat_digits by (auto simp: FormatInt_def list_all_iff split: if_splits)

section \<open>Dotted versions\<close>

text \<open>
  \<open>compareVersions\<close> reads at most three dot-separated numbers; a part that is not a number
  counts as \<open>Atoi\<close>'s result for it, which is 0 (or the clamped bound when the number is
  out of range).
\<close>

datatype ver3 = Ver3 int int int

instantiation ver3 :: linorder
begin

fun less_eq_ver3 :: "ver3 \<Rightarrow> ver3 \<Rightarrow> bool" where
  "less_eq_ver3 (Ver3 a b c) (Ver3 x y z) \<longleftrightarrow> a < x \<or> a = x \<and> (b < y \<or> b = y \<and> c \<le> z)"

definition less_ver3 :: "ver3 \<Rightarrow> ver3 \<Rightarrow> bool" where
  "less_ver3 v w \<longleftrightarrow> v \<le> w \<and> \<not> w \<le> (v :: ver3)"

instance
proof
  fix x y z :: ver3
  show "x < y \<longleftrightarrow> x \<le> y \<and> \<not> y \<le> x" by (simp add: less_ver3_def)
  show "x \<le> x" by (cases x) simp
  show "x \<le> y \<Longrightarrow> y \<le> z \<Longrightarrow> x \<le> z" by (cases x; cases y; cases z) auto
  show "x \<le> y \<Longrightarrow> y \<le> x \<Longrightarrow> x = y" by (cases x; cases y) auto
  show "x \<le> y \<or> y \<le> x" by (cases x; cases y) auto
qed

end

fun Split :: "string \<Rightarrow> char \<Rightarrow> string list" where
  "Split [] sep = [[]]"
| "Split (c # s) sep =
     (if c = sep then [] # Split s sep
      else (case Split s sep of [] \<Rightarrow> [[c]] | p # ps \<Rightarrow> (c # p) # ps))"

text \<open>The value that \<open>Atoi\<close> returns together with its error: 0 for a malformed text, the
  nearest bound for a number out of range.\<close>

definition Atoi_value :: "string \<Rightarrow> int" where
  "Atoi_value s =
    (case ParseInt s of Some i \<Rightarrow> i
     | None \<Rightarrow>
       (case s of [] \<Rightarrow> 0
        | c # r \<Rightarrow>
           (let ds = (if c = CHR ''+'' \<or> c = CHR ''-'' then r else s)
            in if ds = [] \<or> \<not> list_all isDigit ds then 0
               else if c = CHR ''-'' then - (2 ^ 63) else max_int64)))"

definition parse_version :: "string \<Rightarrow> ver3" where
  "parse_version v =
    (let ps = map Atoi_value (take 3 (Split v CHR ''.''));
         qs = ps @ replicate (3 - length ps) 0
     in Ver3 (qs ! 0) (qs ! 1) (qs ! 2))"

fun compare_triples :: "ver3 \<Rightarrow> ver3 \<Rightarrow> int" where
  "compare_triples (Ver3 a b c) (Ver3 x y z) =
    (if a < x then -1 else if a > x then 1
     else if b < y then -1 else if b > y then 1
     else if c < z then -1 else if c > z then 1 else 0)"

definition compareVersions :: "string \<Rightarrow> string \<Rightarrow> int" where
  "compareVersions a b = compare_triples (parse_version a) (parse_version b)"

definition minimumSQLite :: string where
  "minimumSQLite = ''3.51.3''"

lemma compare_triples_less: "compare_triples v w < 0 \<longleftrightarrow> v < w"
  by (cases v; cases w) (auto simp: less_ver3_def)

end
