(* ===== verification/Errors.thy ===== *)
theory Errors
  imports Strconv
begin

text \<open>
  Errors as values: the sentinels and \<open>ConflictError\<close> of \<open>store.go\<close>, errors wrapped with
  \<open>fmt.Errorf("%w: ...")\<close>, and errors of the database driver. \<open>errors.Is\<close> against a sentinel
  is the predicate \<open>err_is\<close>.
\<close>

section \<open>Types\<close>

datatype sentinel =
    ErrNotFound
  | ErrConflict
  | ErrVersionConflict
  | ErrPreconditionRequired
  | ErrForbidden
  | ErrInvalid
  | ErrCorrupt

fun sentinel_text :: "sentinel \<Rightarrow> string" where
  "sentinel_text ErrNotFound = ''resource not found''"
| "sentinel_text ErrConflict = ''operation conflicts with current state''"
| "sentinel_text ErrVersionConflict = ''resource changed since it was read''"
| "sentinel_text ErrPreconditionRequired = ''precondition required''"
| "sentinel_text ErrForbidden = ''operation forbidden''"
| "sentinel_text ErrInvalid = ''invalid resource''"
| "sentinel_text ErrCorrupt = ''database verification failed''"

text \<open>The \<open>Base\<close> field is a Go error that may be nil.\<close>

record ConflictError =
  Base :: "sentinel option"
  Reason :: string
  ResourceType :: string
  ResourceID :: string
  ExpectedVersion :: int
  CurrentVersion :: int
  CurrentState :: string
  RequestedState :: string
  Holder :: string

text \<open>What the SQLite driver reports for a statement: a violated constraint, an abort raised by a
  trigger, or any other failure (I/O, a busy database, a cancelled context).\<close>

datatype sql_error =
    UniqueFailed string
  | CheckFailed string
  | ForeignKeyFailed
  | TriggerAbort string
  | DriverFailure

datatype go_error =
    Sentinel sentinel
  | Wrapped sentinel string
  | Conflict ConflictError
  | SqlError sql_error
  | PlainError string
  | Annotated string go_error

section \<open>Operations\<close>

definition conflict_Unwrap :: "ConflictError \<Rightarrow> sentinel" where
  "conflict_Unwrap e = (case Base e of None \<Rightarrow> ErrConflict | Some b \<Rightarrow> b)"

definition conflict_Error :: "ConflictError \<Rightarrow> string" where
  "conflict_Error e =
    (let base = (case Base e of None \<Rightarrow> ErrConflict | Some b \<Rightarrow> b);
         parts = (if Reason e \<noteq> '''' then [Reason e] else [])
           @ (if ResourceType e \<noteq> '''' \<and> ResourceID e \<noteq> '''' then [ResourceType e @ '' '' @ ResourceID e] else [])
           @ (if CurrentState e \<noteq> '''' then [''current state='' @ CurrentState e] else [])
           @ (if CurrentVersion e > 0 then [''current version='' @ FormatInt (CurrentVersion e)] else [])
           @ (if Holder e \<noteq> '''' then [''holder='' @ Holder e] else [])
     in if length parts = 0 then sentinel_text base
        else sentinel_text base @ '': '' @ Join parts '', '')"

definition conflictError ::
    "sentinel option \<Rightarrow> string \<Rightarrow> string \<Rightarrow> string \<Rightarrow> int \<Rightarrow> int \<Rightarrow> string \<Rightarrow> string \<Rightarrow> go_error" where
  "conflictError base reason resourceType resourceID expected current currentState requested =
    Conflict \<lparr>Base = Some (case base of None \<Rightarrow> ErrConflict | Some b \<Rightarrow> b), Reason = reason,
      ResourceType = resourceType, ResourceID = resourceID, ExpectedVersion = expected,
      CurrentVersion = current, CurrentState = currentState, RequestedState = requested, Holder = ''''\<rparr>"

fun err_is :: "go_error \<Rightarrow> sentinel \<Rightarrow> bool" where
  "err_is (Sentinel s) t \<longleftrightarrow> s = t"
| "err_is (Wrapped s msg) t \<longleftrightarrow> s = t"
| "err_is (Conflict c) t \<longleftrightarrow> conflict_Unwrap c = t"
| "err_is (SqlError e) t \<longleftrightarrow> False"
| "err_is (PlainError msg) t \<longleftrightarrow> False"
| "err_is (Annotated msg e) t \<longleftrightarrow> err_is e t"

text \<open>The text of an error; the text of a driver error is the driver's.\<close>

fun err_text :: "(sql_error \<Rightarrow> string) \<Rightarrow> go_error \<Rightarrow> string" where
  "err_text drv (Sentinel s) = sentinel_text s"
| "err_text drv (Wrapped s msg) = sentinel_text s @ '': '' @ msg"
| "err_text drv (Conflict c) = conflict_Error c"
| "err_text drv (SqlError e) = drv e"
| "err_text drv (PlainError msg) = msg"
| "err_text drv (Annotated msg e) = msg @ '': '' @ err_text drv e"

text \<open>\<open>isUnique\<close> looks for a unique or primary-key violation in the text of an error.\<close>

definition isUnique :: "(sql_error \<Rightarrow> string) \<Rightarrow> go_error \<Rightarrow> bool" where
  "isUnique drv err =
    (let txt = ToLower (err_text drv err)
     in Contains txt ''unique constraint'' \<or> (Contains txt ''constraint failed'' \<and> Contains txt ''primary key''))"

section \<open>Lemmas\<close>

lemma err_is_conflictError [simp]:
  "err_is (conflictError b r t i x v s q) e \<longleftrightarrow> e = (case b of None \<Rightarrow> ErrConflict | Some y \<Rightarrow> y)"
  by (auto simp: conflictError_def conflict_Unwrap_def)

lemma err_is_unique: "err_is e s \<Longrightarrow> err_is e t \<Longrightarrow> s = t"
  by (induction e) auto

end
