(* ===== verification/GoTime.thy ===== *)
theory GoTime
  imports Strconv "HOL-Library.Monad_Syntax"
begin

text \<open>
  Instants and their RFC 3339 text. A \<open>time.Time\<close> is modelled by its instant: the number
  of nanoseconds since the zero time 0001-01-01T00:00:00Z, so \<open>IsZero\<close> is \<open>t = 0\<close> and
  \<open>Equal\<close> is equality. \<open>Format(time.RFC3339Nano)\<close> on a UTC time and \<open>time.Parse\<close> with the
  same layout are the text forms that the database columns hold.
\<close>

type_synonym time = int

section \<open>The calendar\<close>

text \<open>Days are counted from 0001-01-01; years start in March inside the computation, so that
  the leap day is the last day of its year.\<close>

definition civil :: "int \<Rightarrow> int \<times> int \<times> int" where
  "civil n =
    (let z = n + 306; era = z div 146097; doe = z mod 146097;
         c = min 3 (doe div 36524); r = doe - 36524 * c;
         q = r div 1461; r2 = r mod 1461;
         a = min 3 (r2 div 365); doy = r2 - 365 * a;
         mp = (5 * doy + 2) div 153;
         d = doy - (153 * mp + 2) div 5 + 1;
         m = (if mp < 10 then mp + 3 else mp - 9)
     in (400 * era + 100 * c + 4 * q + a + (if m \<le> 2 then 1 else 0), m, d))"

definition days_of :: "int \<Rightarrow> int \<Rightarrow> int \<Rightarrow> int" where
  "days_of y m d =
    (let y' = (if m \<le> 2 then y - 1 else y); era = y' div 400; yoe = y' mod 400;
         doy = (153 * (if m > 2 then m - 3 else m + 9) + 2) div 5 + d - 1
     in 146097 * era + 365 * yoe + yoe div 4 - yoe div 100 + doy - 306)"

definition is_leap :: "int \<Rightarrow> bool" where
  "is_leap y \<longleftrightarrow> y mod 4 = 0 \<and> (y mod 100 \<noteq> 0 \<or> y mod 400 = 0)"

definition days_in :: "int \<Rightarrow> int \<Rightarrow> int" where
  "days_in y m = (if m = 2 then (if is_leap y then 29 else 28)
     else if m = 4 \<or> m = 6 \<or> m = 9 \<or> m = 11 then 30 else 31)"

section \<open>Formatting\<close>

definition pad :: "nat \<Rightarrow> nat \<Rightarrow> string" where
  "pad w n = replicate (w - length (showNat n)) (CHR ''0'') @ showNat n"

definition format_year :: "int \<Rightarrow> string" where
  "format_year y = (if y < 0 then CHR ''-'' # pad 4 (nat (- y)) else pad 4 (nat y))"

definition strip_zeros :: "string \<Rightarrow> string" where
  "strip_zeros s = rev (dropWhile (\<lambda>c. c = CHR ''0'') (rev s))"

definition format_frac :: "nat \<Rightarrow> string" where
  "format_frac ns = (if ns = 0 then [] else CHR ''.'' # strip_zeros (pad 9 ns))"

definition nanos_per_sec :: int where
  "nanos_per_sec = 1000000000"

definition time_year :: "time \<Rightarrow> int" where
  "time_year t = fst (civil (t div nanos_per_sec div 86400))"

definition formatRFC3339Nano :: "time \<Rightarrow> string" where
  "formatRFC3339Nano t =
    (let secs = t div nanos_per_sec; ns = nat (t mod nanos_per_sec);
         sod = nat (secs mod 86400); (y, m, d) = civil (secs div 86400)
     in format_year y @ ''-'' @ pad 2 (nat m) @ ''-'' @ pad 2 (nat d) @ ''T''
        @ pad 2 (sod div 3600) @ '':'' @ pad 2 (sod div 60 mod 60) @ '':'' @ pad 2 (sod mod 60)
        @ format_frac ns @ ''Z'')"

section \<open>Parsing\<close>

definition digs :: "nat \<Rightarrow> string \<Rightarrow> (nat \<times> string) option" where
  "digs n s = (if n \<le> length s \<and> list_all isDigit (take n s)
     then Some (readNat (take n s), drop n s) else None)"

definition lit :: "char \<Rightarrow> string \<Rightarrow> string option" where
  "lit c s = (if take 1 s = [c] then Some (drop 1 s) else None)"

text \<open>The hour may have one or two digits (\<open>getnum\<close> without \<open>fixed\<close>).\<close>

definition parse_hour :: "string \<Rightarrow> (nat \<times> string) option" where
  "parse_hour s = (case digs 2 s of Some r \<Rightarrow> Some r | None \<Rightarrow> digs 1 s)"

text \<open>A fraction starts with a period or a comma and a digit; digits after the ninth are
  dropped.\<close>

definition parse_frac :: "string \<Rightarrow> nat \<times> string" where
  "parse_frac s =
    (case s of c # r \<Rightarrow>
       if (c = CHR ''.'' \<or> c = CHR '','') \<and> takeWhile isDigit r \<noteq> []
       then (let ds = take 9 (takeWhile isDigit r)
             in (readNat ds * 10 ^ (9 - length ds), dropWhile isDigit r))
       else (0, s)
     | [] \<Rightarrow> (0, s))"

definition parse_zone :: "string \<Rightarrow> int option" where
  "parse_zone s =
    (if s = ''Z'' then Some 0
     else do {
       (hh, s1) \<leftarrow> digs 2 (drop 1 s);
       s2 \<leftarrow> lit (CHR '':'') s1;
       (mm, s3) \<leftarrow> digs 2 s2;
       (if s3 \<noteq> [] \<or> 24 < hh \<or> 60 < mm then None
        else if take 1 s = ''+'' then Some (int (3600 * hh + 60 * mm))
        else if take 1 s = ''-'' then Some (- int (3600 * hh + 60 * mm))
        else None)
     })"

definition parseRFC3339 :: "string \<Rightarrow> time option" where
  "parseRFC3339 s = do {
     (y, s1) \<leftarrow> digs 4 s;  s2 \<leftarrow> lit (CHR ''-'') s1;
     (m, s3) \<leftarrow> digs 2 s2; s4 \<leftarrow> lit (CHR ''-'') s3;
     (d, s5) \<leftarrow> digs 2 s4; s6 \<leftarrow> lit (CHR ''T'') s5;
     (h, s7) \<leftarrow> parse_hour s6; s8 \<leftarrow> lit (CHR '':'') s7;
     (mi, s9) \<leftarrow> digs 2 s8; s10 \<leftarrow> lit (CHR '':'') s9;
     (sec, s11) \<leftarrow> digs 2 s10;
     let (ns, s12) = parse_frac s11;
     off \<leftarrow> parse_zone s12;
     (if 1 \<le> m \<and> m \<le> 12 \<and> 1 \<le> d \<and> int d \<le> days_in (int y) (int m) \<and> h \<le> 23 \<and> mi \<le> 59 \<and> sec \<le> 59
      then Some ((86400 * days_of (int y) (int m) (int d) + int (3600 * h + 60 * mi + sec) - off)
                 * nanos_per_sec + int ns)
      else None)
   }"

text \<open>The sources drop the error of \<open>time.Parse\<close>; the value is then the zero time.\<close>

definition parse_time_or_zero :: "string \<Rightarrow> time" where
  "parse_time_or_zero s = (case parseRFC3339 s of Some t \<Rightarrow> t | None \<Rightarrow> 0)"

text \<open>Instants whose UTC year has four digits.\<close>

definition time_ok :: "time \<Rightarrow> bool" where
  "time_ok t \<longleftrightarrow> 0 \<le> time_year t \<and> time_year t \<le> 9999"

section \<open>The calendar round trip\<close>

lemma civil_parts:
  fixes n :: int
  defines "z \<equiv> n + 306"
  defines "era \<equiv> z div 146097" and "doe \<equiv> z mod 146097"
  defines "c \<equiv> min 3 (doe div 36524)"
  defines "r \<equiv> doe - 36524 * c"
  defines "q \<equiv> r div 1461" and "r2 \<equiv> r mod 1461"
  defines "a \<equiv> min 3 (r2 div 365)"
  defines "doy \<equiv> r2 - 365 * a"
  shows "0 \<le> c \<and> c \<le> 3" "0 \<le> q \<and> q \<le> 24" "0 \<le> a \<and> a \<le> 3" "0 \<le> doy \<and> doy \<le> 365"
    and "n = 146097 * era + 36524 * c + 1461 * q + 365 * a + doy - 306"
    and "doy = 365 \<Longrightarrow> a = 3 \<and> (q = 24 \<longrightarrow> c = 3)"
proof -
  have doe: "0 \<le> doe" "doe < 146097" by (simp_all add: doe_def)
  show c: "0 \<le> c \<and> c \<le> 3" using doe by (auto simp: c_def)
  have r: "0 \<le> r" "r \<le> 36524" and r3: "r = 36524 \<Longrightarrow> c = 3"
    using doe unfolding r_def c_def by (auto simp: min_def split: if_splits)
  show q: "0 \<le> q \<and> q \<le> 24" using r unfolding q_def by auto
  have r2: "0 \<le> r2" "r2 < 1461" by (simp_all add: r2_def)
  show a: "0 \<le> a \<and> a \<le> 3" using r2 by (auto simp: a_def)
  show doy: "0 \<le> doy \<and> doy \<le> 365"
    using r2 unfolding doy_def a_def by (auto simp: min_def split: if_splits)
  have rq: "r = 1461 * q + r2" by (simp add: q_def r2_def)
  have "z = 146097 * era + doe" by (simp add: era_def doe_def)
  then show "n = 146097 * era + 36524 * c + 1461 * q + 365 * a + doy - 306"
    using rq unfolding z_def r_def doy_def by linarith
  show "doy = 365 \<Longrightarrow> a = 3 \<and> (q = 24 \<longrightarrow> c = 3)"
  proof
    assume d: "doy = 365"
    then show a3: "a = 3" using r2 unfolding doy_def a_def by (auto simp: min_def split: if_splits)
    show "q = 24 \<longrightarrow> c = 3"
    proof
      assume "q = 24"
      with d a3 have "r = 36524" using rq r2 by (simp add: doy_def)
      then show "c = 3" by (rule r3)
    qed
  qed
qed

lemma civil_year_parts:
  fixes c q a :: int
  assumes "0 \<le> c \<and> c \<le> 3" "0 \<le> q \<and> q \<le> 24" "0 \<le> a \<and> a \<le> 3"
  defines "yoe \<equiv> 100 * c + 4 * q + a"
  shows "yoe div 4 = 25 * c + q" "yoe div 100 = c"
    "(400 * era + yoe) div 400 = era" "(400 * era + yoe) mod 400 = yoe"
proof -
  have yoe: "0 \<le> yoe" "yoe < 400" using assms by auto
  show "yoe div 4 = 25 * c + q" using assms by auto
  show "yoe div 100 = c" using assms by auto
  show "(400 * era + yoe) div 400 = era" "(400 * era + yoe) mod 400 = yoe" using yoe by auto
qed

lemma civil_month:
  fixes doy :: int
  assumes "0 \<le> doy \<and> doy \<le> 365"
  defines "mp \<equiv> (5 * doy + 2) div 153"
  defines "m \<equiv> (if mp < 10 then mp + 3 else mp - 9)"
  defines "d \<equiv> doy - (153 * mp + 2) div 5 + 1"
  shows "1 \<le> m \<and> m \<le> 12" "(if m > 2 then m - 3 else m + 9) = mp" "1 \<le> d"
    and "m = 2 \<Longrightarrow> d \<le> 29 \<and> (d = 29 \<longrightarrow> doy = 365)"
    and "m \<in> {4, 6, 9, 11} \<Longrightarrow> d \<le> 30" and "d \<le> 31"
proof -
  have mp: "0 \<le> mp" "mp \<le> 11" using assms(1) by (auto simp: mp_def)
  show "1 \<le> m \<and> m \<le> 12" "(if m > 2 then m - 3 else m + 9) = mp" using mp by (auto simp: m_def)
  have b: "153 * mp \<le> 5 * doy + 2" "5 * doy + 2 < 153 * mp + 153"
    unfolding mp_def by auto
  have "mp = 0 \<or> mp = 1 \<or> mp = 2 \<or> mp = 3 \<or> mp = 4 \<or> mp = 5 \<or> mp = 6 \<or> mp = 7
      \<or> mp = 8 \<or> mp = 9 \<or> mp = 10 \<or> mp = 11" using mp by arith
  then have "1 \<le> d \<and> (m = 2 \<longrightarrow> d \<le> 29 \<and> (d = 29 \<longrightarrow> doy = 365))
      \<and> (m \<in> {4, 6, 9, 11} \<longrightarrow> d \<le> 30) \<and> d \<le> 31"
    using b assms(1) unfolding d_def m_def by (elim disjE) simp_all
  then show "1 \<le> d" "m = 2 \<Longrightarrow> d \<le> 29 \<and> (d = 29 \<longrightarrow> doy = 365)"
    "m \<in> {4, 6, 9, 11} \<Longrightarrow> d \<le> 30" "d \<le> 31" by blast+
qed

lemma civil_ok:
  assumes "civil n = (y, m, d)"
  shows "days_of y m d = n" "1 \<le> m \<and> m \<le> 12" "1 \<le> d" "d \<le> days_in y m"
proof -
  define era doe where "era = (n + 306) div 146097" and "doe = (n + 306) mod 146097"
  define c where "c = min 3 (doe div 36524)"
  define q r2 where "q = (doe - 36524 * c) div 1461" and "r2 = (doe - 36524 * c) mod 1461"
  define a where "a = min 3 (r2 div 365)"
  define doy where "doy = r2 - 365 * a"
  define mp where "mp = (5 * doy + 2) div 153"
  note parts = civil_parts [of n, folded era_def doe_def, folded c_def, folded q_def r2_def,
      folded a_def, folded doy_def]
  note month = civil_month [OF parts(4), folded mp_def]
  note year = civil_year_parts [OF parts(1-3)]
  have civ: "civil n = (400 * era + 100 * c + 4 * q + a + (if (if mp < 10 then mp + 3 else mp - 9) \<le> 2 then 1 else 0),
      (if mp < 10 then mp + 3 else mp - 9), doy - (153 * mp + 2) div 5 + 1)"
    unfolding civil_def Let_def era_def doe_def c_def q_def r2_def a_def doy_def mp_def by (rule refl)
  have mdy: "m = (if mp < 10 then mp + 3 else mp - 9)" "d = doy - (153 * mp + 2) div 5 + 1"
    "y = 400 * era + (100 * c + 4 * q + a) + (if m \<le> 2 then 1 else 0)"
    using assms civ by auto
  show "1 \<le> m \<and> m \<le> 12" "1 \<le> d" using month(1,3) mdy by simp_all
  have y': "(if m \<le> 2 then y - 1 else y) = 400 * era + (100 * c + 4 * q + a)" using mdy(3) by simp
  have "days_of y m d = 146097 * era + 365 * (100 * c + 4 * q + a) + (25 * c + q) - c + doy - 306"
    unfolding days_of_def Let_def y' year month(2) [folded mdy(1)] using mdy(2) by simp
  also have "\<dots> = n" using parts(5) by simp
  finally show "days_of y m d = n" .
  show "d \<le> days_in y m"
  proof (cases "m = 2")
    case True
    have "is_leap y" if "d = 29"
    proof -
      from month(4) that True mdy have "doy = 365" by simp
      with parts(6) have a: "a = 3" and q: "q = 24 \<longrightarrow> c = 3" by blast+
      have y: "y = 400 * era + 100 * c + 4 * (q + 1)" using mdy(3) True a by simp
      show ?thesis
      proof (cases "q = 24")
        case True
        with q y have "y = 400 * (era + 1)" by simp
        then show ?thesis by (simp add: is_leap_def)
      next
        case False
        with parts(2) have "0 < 4 * (q + 1)" "4 * (q + 1) < 100" by auto
        moreover have "y mod 100 = (4 * (q + 1)) mod 100"
        proof -
          have "y = 4 * (q + 1) + 100 * (4 * era + c)" using y by simp
          then show ?thesis by (metis mod_mult_self2)
        qed
        moreover have "y mod 4 = 0"
        proof -
          have "y = 4 * (100 * era + 25 * c + q + 1)" using y by simp
          then show ?thesis by simp
        qed
        ultimately show ?thesis by (simp add: is_leap_def)
      qed
    qed
    moreover have "d \<le> 29" using month(4) True mdy by simp
    ultimately show ?thesis using True by (cases "d = 29") (auto simp: days_in_def)
  next
    case False
    with month(5,6) mdy show ?thesis by (auto simp: days_in_def)
  qed
qed

section \<open>The text round trip\<close>

lemma readNat_append: "readNat (s @ t) = readNat s * 10 ^ length t + readNat t"
proof (induction t rule: rev_induct)
  case (snoc c t)
  have "readNat (s @ t @ [c]) = 10 * readNat (s @ t) + digit_val c"
    using readNat_snoc [of "s @ t" c] by simp
  with snoc show ?case by (simp add: readNat_snoc algebra_simps)
qed (simp add: readNat_def)

lemma readNat_zeros [simp]: "readNat (replicate k (CHR ''0'')) = 0"
  by (induction k) (simp_all add: readNat_def digit_val_def)

lemma length_showNat: "n < 10 ^ w \<Longrightarrow> 0 < w \<Longrightarrow> length (showNat n) \<le> w"
proof (induction w arbitrary: n)
  case (Suc w)
  show ?case
  proof (cases "n < 10")
    case False
    with Suc.prems have "n div 10 < 10 ^ w" by (simp add: less_mult_imp_div_less mult.commute)
    moreover from False Suc.prems have "0 < w" by (cases w) auto
    ultimately have "length (showNat (n div 10)) \<le> w" by (rule Suc.IH)
    with False show ?thesis by (subst showNat.simps) simp
  qed (subst showNat.simps, simp)
qed simp

lemma pad_facts:
  assumes "n < 10 ^ w" "0 < w"
  shows "length (pad w n) = w" "list_all isDigit (pad w n)" "readNat (pad w n) = n"
  using length_showNat [OF assms] showNat_digits [of n]
  by (auto simp: pad_def readNat_append list_all_iff isDigit_iff)

lemma digs_pad: "n < 10 ^ w \<Longrightarrow> 0 < w \<Longrightarrow> digs w (pad w n @ s) = Some (n, s)"
  by (simp add: digs_def pad_facts)

lemma lit_Cons [simp]: "lit c (c # s) = Some s"
  by (simp add: lit_def)

lemma strip_zeros_decomp: "\<exists>k. s = strip_zeros s @ replicate k (CHR ''0'')"
proof -
  let ?z = "takeWhile (\<lambda>c. c = CHR ''0'') (rev s)"
  have "rev s = ?z @ dropWhile (\<lambda>c. c = CHR ''0'') (rev s)" by simp
  then have "s = strip_zeros s @ rev ?z" unfolding strip_zeros_def by (metis rev_append rev_rev_ident)
  moreover have "rev ?z = replicate (length ?z) (CHR ''0'')"
    by (rule replicate_eqI) (auto dest: set_takeWhileD)
  ultimately show ?thesis by metis
qed

lemma parse_frac_format:
  assumes "ns < 10 ^ 9" and "\<not> isDigit c" and "c \<noteq> CHR ''.''" and "c \<noteq> CHR '',''"
  shows "parse_frac (format_frac ns @ c # s) = (ns, c # s)"
proof (cases "ns = 0")
  case True
  then show ?thesis using assms by (simp add: format_frac_def parse_frac_def)
next
  case False
  let ?d = "strip_zeros (pad 9 ns)"
  obtain k where k: "pad 9 ns = ?d @ replicate k (CHR ''0'')" using strip_zeros_decomp by blast
  note p = pad_facts [OF assms(1)]
  have len: "length ?d + k = 9" using p(1) arg_cong [OF k, of length] by simp
  have digits: "list_all isDigit ?d" using p(2) arg_cong [OF k, of "list_all isDigit"] by simp
  have val: "readNat ?d * 10 ^ k = ns" using p(3) arg_cong [OF k, of readNat] by (simp add: readNat_append)
  have ne: "?d \<noteq> []" using val False by (auto simp: readNat_def)
  have tw: "takeWhile isDigit (?d @ c # s) = ?d" "dropWhile isDigit (?d @ c # s) = c # s"
    using digits assms(2) by (simp_all add: list_all_iff)
  have "9 - length ?d = k" using len by simp
  moreover have "take 9 ?d = ?d" using len by simp
  ultimately show ?thesis
    using False ne tw val by (simp add: format_frac_def parse_frac_def Let_def)
qed

lemma sod_parts:
  fixes sod :: nat
  assumes "sod < 86400"
  shows "sod div 3600 \<le> 23" "sod div 60 mod 60 \<le> 59" "sod mod 60 \<le> 59"
    "3600 * (sod div 3600) + 60 * (sod div 60 mod 60) + sod mod 60 = sod"
proof -
  show "sod div 3600 \<le> 23" using assms by simp
  show "sod div 60 mod 60 \<le> 59" "sod mod 60 \<le> 59"
    using mod_less_divisor [of 60 "sod div 60"] mod_less_divisor [of 60 sod] by linarith+
  have "sod div 3600 = sod div 60 div 60" by (simp add: div_mult2_eq)
  then show "3600 * (sod div 3600) + 60 * (sod div 60 mod 60) + sod mod 60 = sod"
    using div_mult_mod_eq [of "sod div 60" 60] div_mult_mod_eq [of sod 60] by linarith
qed

lemma parse_formatRFC3339Nano:
  assumes "time_ok t"
  shows "parseRFC3339 (formatRFC3339Nano t) = Some t"
proof -
  define secs sod ns where "secs = t div nanos_per_sec" and "sod = nat (secs mod 86400)"
    and "ns = nat (t mod nanos_per_sec)"
  obtain y m d where civ: "civil (secs div 86400) = (y, m, d)" by (metis prod_cases3)
  note c = civil_ok [OF civ]
  have y: "0 \<le> y" "y \<le> 9999" using assms civ by (auto simp: time_ok_def time_year_def secs_def)
  have sod: "sod < 86400" by (simp add: sod_def nat_less_iff)
  note sp = sod_parts [OF sod]
  have ns: "ns < 10 ^ 9" by (simp add: ns_def nanos_per_sec_def nat_less_iff)
  have d31: "d \<le> 31" using c(4) by (auto simp: days_in_def split: if_splits)
  have small: "nat y < 10 ^ 4" "nat m < 10 ^ 2" "nat d < 10 ^ 2" "sod div 3600 < 10 ^ 2"
    "sod div 60 mod 60 < 10 ^ 2" "sod mod 60 < 10 ^ 2"
    using y c(2) d31 sp by auto
  have tx: "formatRFC3339Nano t = pad 4 (nat y) @ CHR ''-'' # pad 2 (nat m) @ CHR ''-'' # pad 2 (nat d)
      @ CHR ''T'' # pad 2 (sod div 3600) @ CHR '':'' # pad 2 (sod div 60 mod 60) @ CHR '':'' # pad 2 (sod mod 60)
      @ format_frac ns @ CHR ''Z'' # []"
    using civ y by (simp add: formatRFC3339Nano_def Let_def secs_def sod_def ns_def format_year_def)
  have frac: "parse_frac (format_frac ns @ CHR ''Z'' # []) = (ns, ''Z'')"
    using ns by (intro parse_frac_format) (auto simp: isDigit_iff)
  have val: "(86400 * days_of y m d + int (3600 * (sod div 3600) + 60 * (sod div 60 mod 60) + sod mod 60) - 0)
      * nanos_per_sec + int ns = t"
  proof -
    have "int sod = secs mod 86400" by (simp add: sod_def)
    then have "86400 * (secs div 86400) + int sod = secs" by simp
    moreover have "secs * nanos_per_sec + int ns = t"
      by (simp add: secs_def ns_def nanos_per_sec_def)
    ultimately show ?thesis using sp(4) c(1) by simp
  qed
  have guard: "1 \<le> nat m \<and> nat m \<le> 12 \<and> 1 \<le> nat d \<and> int (nat d) \<le> days_in (int (nat y)) (int (nat m))"
    using y c by auto
  show ?thesis
    unfolding parseRFC3339_def tx
    using small frac val guard sp y c
    by (simp add: digs_pad parse_hour_def parse_zone_def)
qed

interpretation rfc3339: codec formatRFC3339Nano parseRFC3339 time_ok
  by unfold_locales (rule parse_formatRFC3339Nano)

lemma parse_time_or_zero_format [simp]:
  "time_ok t \<Longrightarrow> parse_time_or_zero (formatRFC3339Nano t) = t"
  by (simp add: parse_time_or_zero_def parse_formatRFC3339Nano)

end
