(* ===== verification/Database.thy ===== *)
theory Database
  imports Errors GoTime
begin

text \<open>
  The SQLite database of \<open>schema.sql\<close>: four tables as lists of rows in insertion order, the
  statements that the sources execute with the constraints and triggers that guard them, and
  transactions. SQLite's own functions and failures are parameters (\<open>env\<close>): \<open>json_valid\<close>
  and \<open>length\<close> of the CHECK clauses, the text of an error, and a fault oracle that may make
  any statement, begin or commit fail. The environment also holds the clock (\<open>Store.now\<close>) and
  the digest \<open>sha256\<close> as a function on byte strings; no theorem depends on which digest it is.
\<close>

section \<open>Tables\<close>

record maintenance_row =
  mr_rowid :: int
  mr_id :: string
  mr_state :: string
  mr_change_ticket :: string
  mr_workflow_version :: string
  mr_metadata_json :: string
  mr_version :: int
  mr_created_at :: string
  mr_updated_at :: string

record capture_row =
  cr_maintenance_id :: string
  cr_captured_at :: string
  cr_payload_json :: string
  cr_sha256 :: string

record target_row =
  tr_maintenance_id :: string
  tr_id :: string
  tr_lock_key :: string
  tr_state :: string
  tr_original_state :: string
  tr_kind :: string
  tr_host :: string
  tr_observed_at :: "string option"
  tr_metadata_json :: string
  tr_version :: int
  tr_created_at :: string
  tr_updated_at :: string

record event_row =
  er_journal_id :: int
  er_event_type :: string
  er_occurred_at :: string
  er_request_id :: string
  er_actor :: string
  er_role :: string
  er_resource_type :: string
  er_resource_id :: string
  er_maintenance_id :: "string option"
  er_target_id :: "string option"
  er_from_state :: "string option"
  er_to_state :: "string option"
  er_from_version :: "int option"
  er_to_version :: "int option"
  er_aggregate_version :: "int option"
  er_payload_json :: string

record database =
  maintenance_t :: "maintenance_row list"
  captures_t :: "capture_row list"
  targets_t :: "target_row list"
  events_t :: "event_row list"

definition empty_db :: database where
  "empty_db = \<lparr>maintenance_t = [], captures_t = [], targets_t = [], events_t = []\<rparr>"

record env =
  clock :: "nat \<Rightarrow> time"
  fault :: "nat \<Rightarrow> bool"
  sql_json_valid :: "string \<Rightarrow> bool"
  sql_length :: "string \<Rightarrow> nat"
  sql_text :: "sql_error \<Rightarrow> string"
  sha256_hex :: "string \<Rightarrow> string"

section \<open>Constraints and triggers of the schema\<close>

definition maintenance_checks :: "env \<Rightarrow> maintenance_row \<Rightarrow> bool" where
  "maintenance_checks E r \<longleftrightarrow> 0 < mr_version r
     \<and> 1 \<le> sql_length E (mr_id r) \<and> sql_length E (mr_id r) \<le> 200
     \<and> sql_json_valid E (mr_metadata_json r)"

definition target_checks :: "env \<Rightarrow> target_row \<Rightarrow> bool" where
  "target_checks E r \<longleftrightarrow> 0 < tr_version r
     \<and> 1 \<le> sql_length E (tr_id r) \<and> sql_length E (tr_id r) \<le> 200
     \<and> 1 \<le> sql_length E (tr_lock_key r) \<and> sql_length E (tr_lock_key r) \<le> 512
     \<and> sql_json_valid E (tr_metadata_json r)"

text \<open>
  The last CHECK of \<open>journal_events\<close> in SQL's three-valued logic: it rejects a row only when
  the condition is false, not when a NULL makes it unknown.
\<close>

definition transition_check :: "event_row \<Rightarrow> bool" where
  "transition_check r \<longleftrightarrow>
     (er_from_state r = None \<and> er_to_state r = None \<and> er_from_version r = None \<and> er_to_version r = None)
   \<or> \<not> (er_from_state r = None \<or> er_to_state r = None
        \<or> (case er_from_version r of None \<Rightarrow> False | Some v \<Rightarrow> \<not> 0 < v)
        \<or> (case (er_from_version r, er_to_version r) of (Some v, Some w) \<Rightarrow> w \<noteq> v + 1 | _ \<Rightarrow> False))"

definition event_checks :: "env \<Rightarrow> event_row \<Rightarrow> bool" where
  "event_checks E r \<longleftrightarrow> sql_json_valid E (er_payload_json r)
     \<and> (er_target_id r = None \<or> er_maintenance_id r \<noteq> None) \<and> transition_check r"

text \<open>Keys of the two partial unique indexes: NULLs are distinct.\<close>

definition same_aggregate_version :: "event_row \<Rightarrow> event_row \<Rightarrow> bool" where
  "same_aggregate_version a b \<longleftrightarrow> er_aggregate_version a \<noteq> None \<and> er_maintenance_id a \<noteq> None
     \<and> er_aggregate_version a = er_aggregate_version b \<and> er_maintenance_id a = er_maintenance_id b"

definition same_observation :: "event_row \<Rightarrow> event_row \<Rightarrow> bool" where
  "same_observation a b \<longleftrightarrow> er_event_type a = ''target.observed'' \<and> er_event_type b = ''target.observed''
     \<and> er_maintenance_id a \<noteq> None \<and> er_target_id a \<noteq> None
     \<and> er_maintenance_id a = er_maintenance_id b \<and> er_target_id a = er_target_id b
     \<and> er_request_id a = er_request_id b"

definition maintenance_identity_changed :: "maintenance_row \<Rightarrow> maintenance_row \<Rightarrow> bool" where
  "maintenance_identity_changed old new \<longleftrightarrow> mr_id new \<noteq> mr_id old
     \<or> mr_change_ticket new \<noteq> mr_change_ticket old \<or> mr_workflow_version new \<noteq> mr_workflow_version old
     \<or> mr_metadata_json new \<noteq> mr_metadata_json old \<or> mr_created_at new \<noteq> mr_created_at old"

definition targets_identity_changed :: "target_row \<Rightarrow> target_row \<Rightarrow> bool" where
  "targets_identity_changed old new \<longleftrightarrow> tr_maintenance_id new \<noteq> tr_maintenance_id old
     \<or> tr_id new \<noteq> tr_id old \<or> tr_lock_key new \<noteq> tr_lock_key old
     \<or> tr_original_state new \<noteq> tr_original_state old \<or> tr_kind new \<noteq> tr_kind old
     \<or> tr_host new \<noteq> tr_host old
     \<or> (case tr_observed_at new of None \<Rightarrow> '''' | Some x \<Rightarrow> x) \<noteq> (case tr_observed_at old of None \<Rightarrow> '''' | Some x \<Rightarrow> x)
     \<or> tr_metadata_json new \<noteq> tr_metadata_json old \<or> tr_created_at new \<noteq> tr_created_at old"

definition lock_released :: "string \<Rightarrow> bool" where
  "lock_released state \<longleftrightarrow> state = ''completed'' \<or> state = ''cancelled''"

text \<open>The targets that hold a lock key: rows joined with a run that has not released it.\<close>

definition lock_holders :: "database \<Rightarrow> string \<Rightarrow> target_row list" where
  "lock_holders db key =
    filter (\<lambda>t. tr_lock_key t = key \<and>
        list_ex (\<lambda>m. mr_id m = tr_maintenance_id t \<and> \<not> lock_released (mr_state m)) (maintenance_t db))
      (targets_t db)"

definition targets_lock_exclusive :: "database \<Rightarrow> target_row \<Rightarrow> bool" where
  "targets_lock_exclusive db new \<longleftrightarrow>
     list_ex (\<lambda>t. tr_maintenance_id t \<noteq> tr_maintenance_id new) (lock_holders db (tr_lock_key new))"

section \<open>Statements\<close>

text \<open>Rowids count up from the largest one in use.\<close>

definition next_rowid :: "int list \<Rightarrow> int" where
  "next_rowid ids = 1 + foldr max ids 0"

definition insert_maintenance :: "env \<Rightarrow> maintenance_row \<Rightarrow> database \<Rightarrow> sql_error + database" where
  "insert_maintenance E r db =
    (if \<not> maintenance_checks E r then Inl (CheckFailed ''maintenance'')
     else if list_ex (\<lambda>x. mr_id x = mr_id r) (maintenance_t db) then Inl (UniqueFailed ''maintenance.id'')
     else Inr (db\<lparr>maintenance_t := maintenance_t db
            @ [r\<lparr>mr_rowid := next_rowid (map mr_rowid (maintenance_t db))\<rparr>]\<rparr>))"

definition insert_capture :: "env \<Rightarrow> capture_row \<Rightarrow> database \<Rightarrow> sql_error + database" where
  "insert_capture E r db =
    (if \<not> sql_json_valid E (cr_payload_json r) then Inl (CheckFailed ''maintenance_captures'')
     else if list_ex (\<lambda>x. cr_maintenance_id x = cr_maintenance_id r) (captures_t db)
       then Inl (UniqueFailed ''maintenance_captures.maintenance_id'')
     else if \<not> list_ex (\<lambda>m. mr_id m = cr_maintenance_id r) (maintenance_t db) then Inl ForeignKeyFailed
     else Inr (db\<lparr>captures_t := captures_t db @ [r]\<rparr>))"

definition insert_target :: "env \<Rightarrow> target_row \<Rightarrow> database \<Rightarrow> sql_error + database" where
  "insert_target E r db =
    (if targets_lock_exclusive db r then Inl (TriggerAbort ''lock_key is held by another maintenance'')
     else if \<not> target_checks E r then Inl (CheckFailed ''targets'')
     else if list_ex (\<lambda>x. tr_maintenance_id x = tr_maintenance_id r \<and> tr_id x = tr_id r) (targets_t db)
       then Inl (UniqueFailed ''targets.maintenance_id, targets.id'')
     else if \<not> list_ex (\<lambda>m. mr_id m = tr_maintenance_id r) (maintenance_t db) then Inl ForeignKeyFailed
     else Inr (db\<lparr>targets_t := targets_t db @ [r]\<rparr>))"

definition insert_event :: "env \<Rightarrow> event_row \<Rightarrow> database \<Rightarrow> sql_error + database" where
  "insert_event E r db =
    (if \<not> event_checks E r then Inl (CheckFailed ''journal_events'')
     else if list_ex (same_aggregate_version r) (events_t db)
       then Inl (UniqueFailed ''journal_events.maintenance_id, journal_events.aggregate_version'')
     else if list_ex (same_observation r) (events_t db)
       then Inl (UniqueFailed ''journal_events.maintenance_id, journal_events.target_id, journal_events.request_id'')
     else if (case er_maintenance_id r of None \<Rightarrow> False
         | Some m \<Rightarrow> \<not> list_ex (\<lambda>x. mr_id x = m) (maintenance_t db)
           \<or> (case er_target_id r of None \<Rightarrow> False
              | Some t \<Rightarrow> \<not> list_ex (\<lambda>x. tr_maintenance_id x = m \<and> tr_id x = t) (targets_t db)))
       then Inl ForeignKeyFailed
     else Inr (db\<lparr>events_t := events_t db
            @ [r\<lparr>er_journal_id := next_rowid (map er_journal_id (events_t db))\<rparr>]\<rparr>))"

text \<open>
  An UPDATE applies \<open>f\<close> to the rows that \<open>p\<close> selects; the result is the number of rows. The
  identity triggers and the CHECK clauses guard every changed row.
\<close>

definition update_maintenance ::
    "env \<Rightarrow> (maintenance_row \<Rightarrow> bool) \<Rightarrow> (maintenance_row \<Rightarrow> maintenance_row) \<Rightarrow> database
      \<Rightarrow> sql_error + (database \<times> nat)" where
  "update_maintenance E p f db =
    (let rows = filter p (maintenance_t db)
     in if list_ex (\<lambda>r. maintenance_identity_changed r (f r)) rows
          then Inl (TriggerAbort ''maintenance identity is immutable'')
        else if \<not> list_all (\<lambda>r. maintenance_checks E (f r)) rows then Inl (CheckFailed ''maintenance'')
        else Inr (db\<lparr>maintenance_t := map (\<lambda>r. if p r then f r else r) (maintenance_t db)\<rparr>, length rows))"

definition update_targets ::
    "env \<Rightarrow> (target_row \<Rightarrow> bool) \<Rightarrow> (target_row \<Rightarrow> target_row) \<Rightarrow> database
      \<Rightarrow> sql_error + (database \<times> nat)" where
  "update_targets E p f db =
    (let rows = filter p (targets_t db)
     in if list_ex (\<lambda>r. targets_identity_changed r (f r)) rows
          then Inl (TriggerAbort ''target identity is immutable'')
        else if \<not> list_all (\<lambda>r. target_checks E (f r)) rows then Inl (CheckFailed ''targets'')
        else Inr (db\<lparr>targets_t := map (\<lambda>r. if p r then f r else r) (targets_t db)\<rparr>, length rows))"

section \<open>Transactions\<close>

text \<open>
  A session is the database with a counter of the calls made so far; the counter indexes the
  clock and the fault oracle. A transaction step returns a value or an error and the session
  after it.
\<close>

record session =
  s_db :: database
  s_ticks :: nat

type_synonym ('s, 'a) st = "'s \<Rightarrow> (go_error + 'a) \<times> 's"
type_synonym 'a tx = "(session, 'a) st"

definition tick :: "session \<Rightarrow> session" where
  "tick s = s\<lparr>s_ticks := Suc (s_ticks s)\<rparr>"

definition returnT :: "'a \<Rightarrow> ('s, 'a) st" where
  "returnT x s = (Inr x, s)"

definition throwT :: "go_error \<Rightarrow> ('s, 'a) st" where
  "throwT e s = (Inl e, s)"

definition liftT :: "go_error + 'a \<Rightarrow> ('s, 'a) st" where
  "liftT r s = (r, s)"

definition bindT :: "('s, 'a) st \<Rightarrow> ('a \<Rightarrow> ('s, 'b) st) \<Rightarrow> ('s, 'b) st" where
  "bindT m f s = (case m s of (Inl e, s') \<Rightarrow> (Inl e, s') | (Inr x, s') \<Rightarrow> f x s')"

definition mapErrT :: "(go_error \<Rightarrow> go_error) \<Rightarrow> ('s, 'a) st \<Rightarrow> ('s, 'a) st" where
  "mapErrT g m s = (case m s of (Inl e, s') \<Rightarrow> (Inl (g e), s') | (Inr x, s') \<Rightarrow> (Inr x, s'))"

text \<open>\<open>Store.now\<close>.\<close>

definition nowT :: "env \<Rightarrow> time tx" where
  "nowT E s = (Inr (clock E (s_ticks s)), tick s)"

definition queryT :: "env \<Rightarrow> (database \<Rightarrow> 'a) \<Rightarrow> 'a tx" where
  "queryT E q s =
    (if fault E (s_ticks s) then (Inl (SqlError DriverFailure), tick s)
     else (Inr (q (s_db s)), tick s))"

definition execT :: "env \<Rightarrow> (database \<Rightarrow> sql_error + database) \<Rightarrow> unit tx" where
  "execT E f s =
    (if fault E (s_ticks s) then (Inl (SqlError DriverFailure), tick s)
     else (case f (s_db s) of Inl e \<Rightarrow> (Inl (SqlError e), tick s)
           | Inr db \<Rightarrow> (Inr (), (tick s)\<lparr>s_db := db\<rparr>)))"

definition execCountT :: "env \<Rightarrow> (database \<Rightarrow> sql_error + (database \<times> nat)) \<Rightarrow> nat tx" where
  "execCountT E f s =
    (if fault E (s_ticks s) then (Inl (SqlError DriverFailure), tick s)
     else (case f (s_db s) of Inl e \<Rightarrow> (Inl (SqlError e), tick s)
           | Inr (db, n) \<Rightarrow> (Inr n, (tick s)\<lparr>s_db := db\<rparr>)))"

text \<open>
  \<open>Store.write\<close>: begin, run the function, commit; an error at any point leaves the database as
  it was. The mutex serialises writes, so a write is one step of the store.
\<close>

definition writeT :: "env \<Rightarrow> 'a tx \<Rightarrow> 'a tx" where
  "writeT E fn s =
    (if fault E (s_ticks s) then (Inl (SqlError DriverFailure), tick s)
     else (case fn (tick s) of
        (Inl e, s') \<Rightarrow> (Inl e, s'\<lparr>s_db := s_db s\<rparr>)
      | (Inr x, s') \<Rightarrow>
          if fault E (s_ticks s') then (Inl (SqlError DriverFailure), (tick s')\<lparr>s_db := s_db s\<rparr>)
          else (Inr x, tick s')))"

section \<open>Inversion of successful steps\<close>

lemma s_db_tick [simp]: "s_db (tick s) = s_db s"
  by (simp add: tick_def)

lemma returnT_Inr [tx_simps]: "returnT x s = (Inr y, s') \<longleftrightarrow> y = x \<and> s' = s"
  by (auto simp: returnT_def)

lemma throwT_Inr [tx_simps]: "throwT e s = (Inr y, s') \<longleftrightarrow> False"
  by (simp add: throwT_def)

lemma liftT_Inr [tx_simps]: "liftT r s = (Inr y, s') \<longleftrightarrow> r = Inr y \<and> s' = s"
  by (auto simp: liftT_def)

lemma bindT_Inr [tx_simps]:
  "bindT m f s = (Inr y, s') \<longleftrightarrow> (\<exists>x s1. m s = (Inr x, s1) \<and> f x s1 = (Inr y, s'))"
  by (auto simp: bindT_def split: prod.splits sum.splits)

lemma mapErrT_Inr [tx_simps]: "mapErrT g m s = (Inr y, s') \<longleftrightarrow> m s = (Inr y, s')"
  by (auto simp: mapErrT_def split: prod.splits sum.splits)

lemma nowT_Inr [tx_simps]: "nowT E s = (Inr y, s') \<longleftrightarrow> y = clock E (s_ticks s) \<and> s' = tick s"
  by (auto simp: nowT_def)

lemma queryT_Inr [tx_simps]:
  "queryT E q s = (Inr y, s') \<longleftrightarrow> \<not> fault E (s_ticks s) \<and> y = q (s_db s) \<and> s' = tick s"
  by (auto simp: queryT_def)

lemma execT_Inr [tx_simps]:
  "execT E f s = (Inr u, s') \<longleftrightarrow>
     \<not> fault E (s_ticks s) \<and> (\<exists>db. f (s_db s) = Inr db \<and> s' = (tick s)\<lparr>s_db := db\<rparr>)"
  by (auto simp: execT_def split: sum.splits)

lemma execCountT_Inr [tx_simps]:
  "execCountT E f s = (Inr n, s') \<longleftrightarrow>
     \<not> fault E (s_ticks s) \<and> (\<exists>db. f (s_db s) = Inr (db, n) \<and> s' = (tick s)\<lparr>s_db := db\<rparr>)"
  by (auto simp: execCountT_def split: sum.splits)

lemma writeT_Inr:
  "writeT E fn s = (Inr x, s') \<longleftrightarrow>
     (\<exists>s1. \<not> fault E (s_ticks s) \<and> fn (tick s) = (Inr x, s1) \<and> \<not> fault E (s_ticks s1) \<and> s' = tick s1)"
  by (auto simp: writeT_def split: prod.splits sum.splits if_splits)

lemma writeT_Inl_db: "writeT E fn s = (Inl e, s') \<Longrightarrow> s_db s' = s_db s"
  by (auto simp: writeT_def split: prod.splits sum.splits if_splits)

end
