(* ===== verification/Utf8.thy ===== *)
theory Utf8
  imports Prelude
begin

text \<open>
  UTF-8 as package \<open>unicode/utf8\<close> decodes it, and the escaping of JSON strings: what
  \<open>encoding/json\<close> writes for a Go string (with HTML escaping, its default) and what it
  reads back.
\<close>

section \<open>Runes\<close>

abbreviation byte_val :: "char \<Rightarrow> nat" where
  "byte_val \<equiv> of_char"

definition is_cont :: "char \<Rightarrow> bool" where
  "is_cont c \<longleftrightarrow> 0x80 \<le> byte_val c \<and> byte_val c \<le> 0xBF"

text \<open>The length of a rune that starts with a given byte, and the narrower range of the second
  byte for four first bytes.\<close>

definition rune_size :: "char \<Rightarrow> nat" where
  "rune_size c =
    (let n = byte_val c in
     if n < 0x80 then 1 else if n < 0xC2 then 0 else if n < 0xE0 then 2
     else if n < 0xF0 then 3 else if n < 0xF5 then 4 else 0)"

definition second_ok :: "char \<Rightarrow> char \<Rightarrow> bool" where
  "second_ok c a =
    (if c = CHR 0xE0 then 0xA0 \<le> byte_val a
     else if c = CHR 0xED then byte_val a \<le> 0x9F
     else if c = CHR 0xF0 then 0x90 \<le> byte_val a
     else if c = CHR 0xF4 then byte_val a \<le> 0x8F
     else True)"

text \<open>The number of bytes of the valid rune at the start of a string; 0 if there is none.\<close>

definition rune_len :: "string \<Rightarrow> nat" where
  "rune_len s =
    (case s of [] \<Rightarrow> 0
     | c # r \<Rightarrow>
       (let k = rune_size c in
        if k \<le> Suc (length r) \<and> (k < 2 \<or> second_ok c (hd r)) \<and> list_all is_cont (take (k - 1) r)
        then k else 0))"

lemma rune_len_Nil [simp]: "rune_len [] = 0"
  by (simp add: rune_len_def)

lemma rune_len_ascii: "byte_val c < 0x80 \<Longrightarrow> rune_len (c # s) = 1"
  by (simp add: rune_len_def rune_size_def)

lemma rune_len_le: "rune_len s \<le> length s"
  by (auto simp: rune_len_def Let_def split: list.splits)

lemma rune_len_append: "rune_len s \<noteq> 0 \<Longrightarrow> rune_len (s @ t) = rune_len s"
  by (cases "tl s") (auto simp: rune_len_def Let_def split: list.splits if_splits)

lemma rune_len_take: "rune_len s \<noteq> 0 \<Longrightarrow> rune_len (take (rune_len s) s) = rune_len s"
proof (cases s)
  case (Cons c r)
  assume "rune_len s \<noteq> 0"
  with Cons have k: "rune_len s = rune_size c" "rune_size c \<le> Suc (length r)" "0 < rune_size c"
    "rune_size c < 2 \<or> second_ok c (hd r)" "list_all is_cont (take (rune_size c - 1) r)"
    by (auto simp: rune_len_def Let_def split: if_splits)
  then obtain n where n: "rune_size c = Suc n" by (cases "rune_size c") auto
  with k show ?thesis
    by (cases n) (auto simp: Cons rune_len_def)
qed simp

lemma rune_len_Cons_cont:
  "rune_len (c # r) = k \<Longrightarrow> list_all is_cont (take (k - 1) r)"
  by (auto simp: rune_len_def Let_def split: if_splits)

function valid_utf8 :: "string \<Rightarrow> bool" where
  "valid_utf8 s =
    (if s = [] then True else if rune_len s = 0 then False else valid_utf8 (drop (rune_len s) s))"
  by pat_completeness auto
termination
proof (relation "measure length", goal_cases)
  case (2 s)
  then show ?case by (cases s) auto
qed simp

declare valid_utf8.simps [simp del]

lemma valid_utf8_Nil [simp]: "valid_utf8 []"
  by (simp add: valid_utf8.simps)

lemma valid_utf8_step:
  "s \<noteq> [] \<Longrightarrow> valid_utf8 s \<longleftrightarrow> rune_len s \<noteq> 0 \<and> valid_utf8 (drop (rune_len s) s)"
  by (subst valid_utf8.simps) simp

lemma valid_utf8_append: "valid_utf8 s \<Longrightarrow> valid_utf8 t \<Longrightarrow> valid_utf8 (s @ t)"
proof (induction s rule: valid_utf8.induct)
  case (1 s)
  show ?case
  proof (cases "s = []")
    case False
    with "1.prems" have r: "rune_len s \<noteq> 0" "valid_utf8 (drop (rune_len s) s)"
      by (simp_all add: valid_utf8_step)
    with 1 False have "valid_utf8 (drop (rune_len s) s @ t)" by blast
    then show ?thesis
      using False r rune_len_le [of s] by (simp add: valid_utf8_step rune_len_append)
  qed (use 1 in simp)
qed

lemma valid_utf8_rune: "rune_len s \<noteq> 0 \<Longrightarrow> valid_utf8 (take (rune_len s) s)"
  by (subst valid_utf8.simps) (simp add: rune_len_take)

lemma valid_utf8_ascii: "list_all (\<lambda>c. byte_val c < 0x80) s \<Longrightarrow> valid_utf8 s"
proof (induction s)
  case (Cons c s)
  then show ?case by (subst valid_utf8.simps) (simp add: rune_len_ascii)
qed simp

section \<open>Quoting\<close>

definition hex_char :: "nat \<Rightarrow> char" where
  "hex_char n = (if n < 10 then char_of (48 + n) else char_of (87 + n))"

definition hex_val :: "char \<Rightarrow> nat option" where
  "hex_val c =
    (let n = byte_val c in
     if 48 \<le> n \<and> n \<le> 57 then Some (n - 48)
     else if 97 \<le> n \<and> n \<le> 102 then Some (n - 87)
     else if 65 \<le> n \<and> n \<le> 70 then Some (n - 55)
     else None)"

abbreviation bslash :: char where
  "bslash \<equiv> CHR 0x5C"

abbreviation dquote :: char where
  "dquote \<equiv> CHR 0x22"

text \<open>The escape of one ASCII byte in \<open>appendString\<close> with HTML escaping.\<close>

definition esc_ascii :: "char \<Rightarrow> string" where
  "esc_ascii c =
    (if c = dquote \<or> c = bslash then [bslash, c]
     else if c = CHR 0x08 then [bslash, CHR ''b'']
     else if c = CHR 0x0C then [bslash, CHR ''f'']
     else if c = CHR 0x0A then [bslash, CHR ''n'']
     else if c = CHR 0x0D then [bslash, CHR ''r'']
     else if c = CHR 0x09 then [bslash, CHR ''t'']
     else if byte_val c < 0x20 \<or> c = CHR ''<'' \<or> c = CHR ''>'' \<or> c = CHR ''&''
       then [bslash, CHR ''u'', CHR ''0'', CHR ''0'', hex_char (byte_val c div 16), hex_char (byte_val c mod 16)]
     else [c])"

definition esc_rune :: "string \<Rightarrow> string" where
  "esc_rune r =
    (if r = [CHR 0xE2, CHR 0x80, CHR 0xA8] then bslash # ''u2028''
     else if r = [CHR 0xE2, CHR 0x80, CHR 0xA9] then bslash # ''u2029''
     else r)"

text \<open>The text for the first unit of a string and the number of further bytes it covers.\<close>

definition esc_unit :: "string \<Rightarrow> string \<times> nat" where
  "esc_unit s =
    (if byte_val (hd s) < 0x80 then (esc_ascii (hd s), 0)
     else if rune_len s = 0 then (bslash # ''ufffd'', 0)
     else (esc_rune (take (rune_len s) s), rune_len s - 1))"

function esc :: "string \<Rightarrow> string" where
  "esc s = (if s = [] then [] else fst (esc_unit s) @ esc (drop (Suc (snd (esc_unit s))) s))"
  by pat_completeness auto
termination
proof (relation "measure length", goal_cases)
  case (2 s)
  then show ?case by (cases s) auto
qed simp

declare esc.simps [simp del]

definition quote :: "string \<Rightarrow> string" where
  "quote s = dquote # esc s @ [dquote]"

section \<open>Unquoting\<close>

fun hex4 :: "string \<Rightarrow> nat option" where
  "hex4 (a # b # c # d # _) =
    (case (hex_val a, hex_val b, hex_val c, hex_val d) of
       (Some w, Some x, Some y, Some z) \<Rightarrow> Some (4096 * w + 256 * x + 16 * y + z)
     | _ \<Rightarrow> None)"
| "hex4 _ = None"

text \<open>\<open>utf8.EncodeRune\<close> for code points that are not surrogates.\<close>

definition encode_rune :: "nat \<Rightarrow> string" where
  "encode_rune n =
    (if n < 0x80 then [char_of n]
     else if n < 0x800 then [char_of (0xC0 + n div 64), char_of (0x80 + n mod 64)]
     else if n < 0x10000 then
       [char_of (0xE0 + n div 4096), char_of (0x80 + n div 64 mod 64), char_of (0x80 + n mod 64)]
     else
       [char_of (0xF0 + n div 262144), char_of (0x80 + n div 4096 mod 64),
        char_of (0x80 + n div 64 mod 64), char_of (0x80 + n mod 64)])"

definition replacement :: string where
  "replacement = [CHR 0xEF, CHR 0xBF, CHR 0xBD]"

definition unesc_simple :: "char \<Rightarrow> char option" where
  "unesc_simple e =
    (if e = dquote \<or> e = bslash \<or> e = CHR ''/'' then Some e
     else if e = CHR ''b'' then Some (CHR 0x08)
     else if e = CHR ''f'' then Some (CHR 0x0C)
     else if e = CHR ''n'' then Some (CHR 0x0A)
     else if e = CHR ''r'' then Some (CHR 0x0D)
     else if e = CHR ''t'' then Some (CHR 0x09)
     else None)"

definition is_surrogate :: "nat \<Rightarrow> bool" where
  "is_surrogate r \<longleftrightarrow> 0xD800 \<le> r \<and> r < 0xE000"

text \<open>The code unit of a \<open>\u\<close> escape at the start of a string, if there is one.\<close>

definition getu4 :: "string \<Rightarrow> nat option" where
  "getu4 s = (if take 2 s = [bslash, CHR ''u''] then hex4 (drop 2 s) else None)"

text \<open>
  One unit of a JSON string: the bytes it denotes and the number of further input bytes it
  covers. \<open>None\<close> is a scanner error.
\<close>

definition unq_unit :: "string \<Rightarrow> (string \<times> nat) option" where
  "unq_unit s =
    (if hd s = bslash then
       (case tl s of [] \<Rightarrow> None
        | e # _ \<Rightarrow>
          if e = CHR ''u'' then
            (case getu4 s of None \<Rightarrow> None
             | Some r \<Rightarrow>
               if \<not> is_surrogate r then Some (encode_rune r, 5)
               else (case getu4 (drop 6 s) of
                   Some r1 \<Rightarrow> if r < 0xDC00 \<and> 0xDC00 \<le> r1 \<and> r1 < 0xE000
                     then Some (encode_rune (0x10000 + (r - 0xD800) * 1024 + (r1 - 0xDC00)), 11)
                     else Some (replacement, 5)
                 | None \<Rightarrow> Some (replacement, 5)))
          else (case unesc_simple e of None \<Rightarrow> None | Some c \<Rightarrow> Some ([c], 1)))
     else if byte_val (hd s) < 0x20 then None
     else if rune_len s = 0 then Some (replacement, 0)
     else Some (take (rune_len s) s, rune_len s - 1))"

text \<open>The string whose opening quote has been read: its value and the rest of the input.\<close>

function unq :: "string \<Rightarrow> (string \<times> string) option" where
  "unq s =
    (if s = [] then None
     else if hd s = dquote then Some ([], tl s)
     else (case unq_unit s of None \<Rightarrow> None
       | Some (out, k) \<Rightarrow>
          (case unq (drop (Suc k) s) of None \<Rightarrow> None | Some (v, r) \<Rightarrow> Some (out @ v, r))))"
  by pat_completeness auto
termination
proof (relation "measure length", goal_cases)
  case (2 s)
  then show ?case by (cases s) auto
qed simp

declare unq.simps [simp del]

section \<open>Round trip\<close>

lemma hex_val_char: "n < 16 \<Longrightarrow> hex_val (hex_char n) = Some n"
  by (auto simp: hex_val_def hex_char_def)

lemma hex_char_neq: "n < 16 \<Longrightarrow> hex_char n \<noteq> dquote"
  by (auto simp: hex_char_def dest: arg_cong [where f = "of_char :: char \<Rightarrow> nat"])

lemma esc_ascii_not_Nil [simp]: "esc_ascii c \<noteq> []"
  by (simp add: esc_ascii_def)

lemma hd_esc_ascii: "hd (esc_ascii c @ t) \<noteq> dquote"
  by (simp add: esc_ascii_def)

lemma encode_rune_ascii: "byte_val c < 0x80 \<Longrightarrow> encode_rune (byte_val c) = [c]"
  by (simp add: encode_rune_def)

lemma unq_unit_u00:
  assumes "byte_val c < 0x80"
  shows "unq_unit (bslash # CHR ''u'' # CHR ''0'' # CHR ''0'' # hex_char (byte_val c div 16)
           # hex_char (byte_val c mod 16) # t) = Some ([c], 5)"
proof -
  have "hex_val (CHR ''0'') = Some 0" by (simp add: hex_val_def)
  moreover have "hex_val (hex_char (byte_val c div 16)) = Some (byte_val c div 16)"
    "hex_val (hex_char (byte_val c mod 16)) = Some (byte_val c mod 16)"
    using assms by (intro hex_val_char; simp)+
  ultimately show ?thesis
    using assms by (simp add: unq_unit_def getu4_def is_surrogate_def encode_rune_ascii)
qed

lemma unq_unit_esc_ascii:
  assumes "byte_val c < 0x80"
  shows "unq_unit (esc_ascii c @ t) = Some ([c], length (esc_ascii c) - 1)"
proof (cases "byte_val c < 0x20 \<or> c = CHR ''<'' \<or> c = CHR ''>'' \<or> c = CHR ''&''")
  case True
  have "esc_ascii c = [bslash, CHR ''u'', CHR ''0'', CHR ''0'', hex_char (byte_val c div 16), hex_char (byte_val c mod 16)]
    \<or> c \<in> {CHR 0x08, CHR 0x0C, CHR 0x0A, CHR 0x0D, CHR 0x09}"
  proof (cases "c \<in> {CHR 0x08, CHR 0x0C, CHR 0x0A, CHR 0x0D, CHR 0x09}")
    case other: False
    have "c \<noteq> dquote \<and> c \<noteq> bslash" using True by (elim disjE) auto
    with True other show ?thesis by (simp add: esc_ascii_def)
  qed simp
  then show ?thesis
  proof
    assume "c \<in> {CHR 0x08, CHR 0x0C, CHR 0x0A, CHR 0x0D, CHR 0x09}"
    then show ?thesis
      by (elim insertE emptyE) (simp_all add: esc_ascii_def unq_unit_def unesc_simple_def)
  next
    assume "esc_ascii c = [bslash, CHR ''u'', CHR ''0'', CHR ''0'', hex_char (byte_val c div 16), hex_char (byte_val c mod 16)]"
    then show ?thesis using unq_unit_u00 [OF assms] by simp
  qed
next
  case False
  then have "c \<noteq> CHR 0x08" "c \<noteq> CHR 0x0C" "c \<noteq> CHR 0x0A" "c \<noteq> CHR 0x0D" "c \<noteq> CHR 0x09"
    by (elim contrapos_nn; simp)+
  with False have plain: "c = dquote \<or> c = bslash \<or> esc_ascii c = [c] \<and> c \<noteq> bslash"
    by (simp add: esc_ascii_def)
  have "rune_len (c # t) = 1" using assms by (rule rune_len_ascii)
  with False have "unq_unit (c # t) = Some ([c], 0)" if "c \<noteq> bslash"
    using that by (simp add: unq_unit_def)
  with plain show ?thesis
    by (elim disjE conjE) (simp_all add: unq_unit_def esc_ascii_def unesc_simple_def)
qed

lemma unq_unit_esc_rune:
  assumes "rune_len s \<noteq> 0" and "0x80 \<le> byte_val (hd s)"
  shows "unq_unit (esc_rune (take (rune_len s) s) @ t)
    = Some (take (rune_len s) s, length (esc_rune (take (rune_len s) s)) - 1)"
    and "hd (esc_rune (take (rune_len s) s) @ t) \<noteq> dquote"
    and "esc_rune (take (rune_len s) s) \<noteq> []"
proof -
  let ?r = "take (rune_len s) s"
  obtain c u where s: "s = c # u" using assms by (cases s) auto
  have r: "?r \<noteq> []" "hd ?r = c" "length ?r = rune_len s"
    using assms(1) rune_len_le [of s] by (auto simp: s take_Cons split: nat.splits)
  have len: "rune_len (?r @ t) = rune_len s"
    using assms(1) rune_len_append [of ?r t] by (simp add: rune_len_take)
  have c: "c \<noteq> bslash" "c \<noteq> dquote" "\<not> byte_val c < 0x20"
    using assms(2) by (auto simp: s)
  have plain: "unq_unit (?r @ t) = Some (?r, length ?r - 1)"
    using r c len assms(1) by (simp add: unq_unit_def)
  have u: "unq_unit (bslash # CHR ''u'' # CHR ''2'' # CHR ''0'' # CHR ''2'' # CHR ''8'' # t)
      = Some ([CHR 0xE2, CHR 0x80, CHR 0xA8], 5)"
    "unq_unit (bslash # CHR ''u'' # CHR ''2'' # CHR ''0'' # CHR ''2'' # CHR ''9'' # t)
      = Some ([CHR 0xE2, CHR 0x80, CHR 0xA9], 5)"
    by (simp_all add: unq_unit_def getu4_def hex_val_def is_surrogate_def encode_rune_def
        char_of_def bit_iff_odd_drop_bit drop_bit_eq_div)
  show "unq_unit (esc_rune ?r @ t) = Some (?r, length (esc_rune ?r) - 1)"
    using plain u by (simp add: esc_rune_def)
  show "hd (esc_rune ?r @ t) \<noteq> dquote" "esc_rune ?r \<noteq> []"
    using r c by (auto simp: esc_rune_def)
qed

lemma unq_step:
  assumes "unq_unit (p @ t) = Some (out, length p - 1)" and "p \<noteq> []" and "hd (p @ t) \<noteq> dquote"
  shows "unq (p @ t) = (case unq t of None \<Rightarrow> None | Some (v, r) \<Rightarrow> Some (out @ v, r))"
proof -
  have "drop (Suc (length p - 1)) (p @ t) = t" using assms(2) by simp
  then show ?thesis using assms by (subst unq.simps) simp
qed

lemma unq_esc: "valid_utf8 s \<Longrightarrow> unq (esc s @ dquote # t) = Some (s, t)"
proof (induction s rule: esc.induct)
  case (1 s)
  show ?case
  proof (cases "s = []")
    case True
    then show ?thesis by (simp add: esc.simps unq.simps [of "dquote # t"])
  next
    case False
    then have len: "rune_len s \<noteq> 0" and v: "valid_utf8 (drop (rune_len s) s)"
      using "1.prems" by (simp_all add: valid_utf8_step)
    have unit: "drop (Suc (snd (esc_unit s))) s = drop (rune_len s) s"
      using False len by (cases s) (auto simp: esc_unit_def rune_len_ascii drop_Cons')
    then have IH: "unq (esc (drop (rune_len s) s) @ dquote # t) = Some (drop (rune_len s) s, t)"
      using 1 False v by simp
    have e: "esc s = fst (esc_unit s) @ esc (drop (rune_len s) s)"
      using False unit by (subst esc.simps) simp
    show ?thesis
    proof (cases "byte_val (hd s) < 0x80")
      case True
      then have "rune_len s = 1" "take 1 s = [hd s]" using False by (cases s; simp add: rune_len_ascii)+
      moreover have "fst (esc_unit s) = esc_ascii (hd s)" using True by (simp add: esc_unit_def)
      ultimately show ?thesis
        using e IH unq_step [OF unq_unit_esc_ascii [OF True] esc_ascii_not_Nil hd_esc_ascii]
        by (metis append_Cons append_Nil append_assoc append_take_drop_id case_prod_conv option.simps(5))
    next
      case big: False
      then have "fst (esc_unit s) = esc_rune (take (rune_len s) s)" using len by (simp add: esc_unit_def)
      then show ?thesis
        using e IH unq_step [OF unq_unit_esc_rune(1,3,2)] len big by simp
    qed
  qed
qed

interpretation json_string:
  codec quote "\<lambda>s. case s of [] \<Rightarrow> None
      | c # r \<Rightarrow> if c = dquote then (case unq r of Some (v, []) \<Rightarrow> Some v | _ \<Rightarrow> None) else None"
    valid_utf8
  by unfold_locales (simp add: quote_def unq_esc)

section \<open>What unquoting yields\<close>

lemma of_char_char_of_small: "n < 256 \<Longrightarrow> of_char (char_of n) = (n :: nat)"
  by simp

lemma valid_utf8_replacement: "valid_utf8 replacement"
  by (simp add: replacement_def valid_utf8.simps rune_len_def rune_size_def second_ok_def is_cont_def)

lemma valid_utf8_single: "rune_len s = length s \<Longrightarrow> valid_utf8 s"
  by (cases s) (simp_all add: valid_utf8_step)

lemma is_cont_low [simp]: "is_cont (char_of (0x80 + m mod 64 :: nat))"
  using mod_less_divisor [of 64 m] by (auto simp: is_cont_def simp del: mod_less_divisor)

lemma valid_utf8_encode_rune:
  assumes "\<not> is_surrogate n" and "n < 0x110000"
  shows "valid_utf8 (encode_rune n)"
proof (rule valid_utf8_single)
  consider "n < 0x80" | "0x80 \<le> n" "n < 0x800" | "0x800 \<le> n" "n < 0x10000" | "0x10000 \<le> n"
    by linarith
  then show "rune_len (encode_rune n) = length (encode_rune n)"
  proof cases
    case 1
    then show ?thesis by (simp add: encode_rune_def rune_len_def rune_size_def)
  next
    case 2
    let ?c = "char_of (0xC0 + n div 64) :: char"
    have b: "byte_val ?c = 0xC0 + n div 64" using 2 by simp
    have "rune_size ?c = 2" unfolding rune_size_def Let_def b using 2 by auto
    moreover have "?c \<noteq> CHR 0xE0" "?c \<noteq> CHR 0xED" "?c \<noteq> CHR 0xF0" "?c \<noteq> CHR 0xF4"
      using b 2 by (auto dest!: arg_cong [where f = byte_val])
    ultimately show ?thesis
      using 2 by (simp add: encode_rune_def rune_len_def second_ok_def)
  next
    case 3
    let ?c = "char_of (0xE0 + n div 4096) :: char" and ?a = "char_of (0x80 + n div 64 mod 64) :: char"
    have b: "byte_val ?c = 0xE0 + n div 4096" "byte_val ?a = 0x80 + n div 64 mod 64"
      using 3 by simp_all
    have "rune_size ?c = 3" unfolding rune_size_def Let_def b using 3 by auto
    moreover have "second_ok ?c ?a"
    proof -
      have "?c = CHR 0xE0 \<Longrightarrow> n < 4096" "?c = CHR 0xED \<Longrightarrow> n div 4096 = 13"
        using b(1) 3 by (auto dest!: arg_cong [where f = byte_val])
      moreover have "?c \<noteq> CHR 0xF0" "?c \<noteq> CHR 0xF4"
        using b(1) 3 by (auto dest!: arg_cong [where f = byte_val])
      moreover have "n < 4096 \<Longrightarrow> 0x20 \<le> n div 64 mod 64" using 3 by auto
      moreover have "n div 4096 = 13 \<Longrightarrow> n div 64 mod 64 \<le> 0x1F"
      proof -
        assume "n div 4096 = 13"
        then have "n < 0xE000" "0xD000 \<le> n" by linarith+
        with assms(1) have "n < 0xD800" by (simp add: is_surrogate_def)
        with \<open>0xD000 \<le> n\<close> have "0x340 \<le> n div 64" "n div 64 < 0x360" by simp_all
        then show ?thesis using mod_less_of_bounds [of 64 13 "n div 64" 32] by simp
      qed
      ultimately show ?thesis by (auto simp: second_ok_def b)
    qed
    ultimately show ?thesis
      using 3 b by (simp add: encode_rune_def rune_len_def)
  next
    case 4
    let ?c = "char_of (0xF0 + n div 262144) :: char" and ?a = "char_of (0x80 + n div 4096 mod 64) :: char"
    have b: "byte_val ?c = 0xF0 + n div 262144" "byte_val ?a = 0x80 + n div 4096 mod 64"
      using assms(2) by simp_all
    have "n div 262144 < 5" using assms(2) by simp
    then have "rune_size ?c = 4" unfolding rune_size_def Let_def b by auto
    moreover have "second_ok ?c ?a"
    proof -
      have "?c = CHR 0xF0 \<Longrightarrow> n < 262144" "?c = CHR 0xF4 \<Longrightarrow> n div 262144 = 4"
        "?c \<noteq> CHR 0xE0" "?c \<noteq> CHR 0xED"
        using b(1) by (auto dest!: arg_cong [where f = byte_val])
      moreover have "n < 262144 \<Longrightarrow> 0x10 \<le> n div 4096 mod 64" using 4 by auto
      moreover have "n div 262144 = 4 \<Longrightarrow> n div 4096 mod 64 \<le> 0xF"
      proof -
        assume "n div 262144 = 4"
        with assms(2) have "256 \<le> n div 4096" "n div 4096 < 272" by linarith+
        then show ?thesis using mod_less_of_bounds [of 64 4 "n div 4096" 16] by simp
      qed
      ultimately show ?thesis by (auto simp: second_ok_def b)
    qed
    ultimately show ?thesis
      using 4 b by (simp add: encode_rune_def rune_len_def)
  qed
qed

lemma hex_val_bound: "hex_val c = Some n \<Longrightarrow> n < 16"
  by (auto simp: hex_val_def Let_def split: if_splits)

lemma hex4_bound: "hex4 s = Some n \<Longrightarrow> n < 0x10000"
  by (cases s rule: hex4.cases) (auto dest!: hex_val_bound split: option.splits)

lemma getu4_bound: "getu4 s = Some n \<Longrightarrow> n < 0x10000"
  by (auto simp: getu4_def dest: hex4_bound split: if_splits)

lemma valid_utf8_unesc: "unesc_simple e = Some c \<Longrightarrow> valid_utf8 [c]"
  by (rule valid_utf8_ascii) (auto simp: unesc_simple_def split: if_splits)

lemma valid_utf8_unq_unit:
  assumes "unq_unit s = Some (out, k)"
  shows "valid_utf8 out"
proof (cases "hd s = bslash")
  case True
  then obtain e t where e: "tl s = e # t"
    using assms by (auto simp: unq_unit_def split: list.splits)
  show ?thesis
  proof (cases "e = CHR ''u''")
    case u: True
    then obtain r where r: "getu4 s = Some r"
      using assms True e by (auto simp: unq_unit_def split: option.splits)
    from getu4_bound [OF r] have "r < 0x110000" by simp
    with assms True e u r show ?thesis
      by (auto simp: unq_unit_def is_surrogate_def valid_utf8_replacement
          intro!: valid_utf8_encode_rune split: if_splits option.splits)
  next
    case False
    with assms True e show ?thesis
      by (auto simp: unq_unit_def dest: valid_utf8_unesc split: option.splits)
  qed
next
  case False
  with assms show ?thesis
    by (auto simp: unq_unit_def valid_utf8_replacement valid_utf8_rune split: if_splits)
qed

lemma unq_Some_cases:
  assumes "unq s = Some (v, r)"
  obtains "s \<noteq> []" "hd s = dquote" "v = []" "r = tl s"
  | out k w where "s \<noteq> []" "hd s \<noteq> dquote" "unq_unit s = Some (out, k)"
      "unq (drop (Suc k) s) = Some (w, r)" "v = out @ w"
  using assms
  by (subst (asm) unq.simps) (auto split: if_splits option.splits prod.splits)

lemma valid_utf8_unq: "unq s = Some (v, r) \<Longrightarrow> valid_utf8 v"
proof (induction s arbitrary: v rule: unq.induct)
  case (1 s)
  from "1.prems" show ?case
  proof (cases rule: unq_Some_cases)
    case (2 out k w)
    then have "valid_utf8 w" using "1.IH" by auto
    with 2 show ?thesis by (simp add: valid_utf8_append valid_utf8_unq_unit)
  qed simp
qed

lemma unq_shorter: "unq s = Some (v, r) \<Longrightarrow> length r < length s"
proof (induction s arbitrary: v rule: unq.induct)
  case (1 s)
  from "1.prems" show ?case
  proof (cases rule: unq_Some_cases)
    case 1
    then show ?thesis by simp
  next
    case (2 out k w)
    then have "length r < length (drop (Suc k) s)" using "1.IH" by auto
    then show ?thesis by simp
  qed
qed

end
