(* ===== verification/Json.thy ===== *)
theory Json
  imports Utf8 Strconv
begin

text \<open>
  JSON documents as \<open>encoding/json\<close> reads and writes them: the scanner with its nesting
  limit, decoding into generic values with \<open>UseNumber\<close> (numbers stay text), and
  marshalling of generic values (object keys sorted, HTML escaping). The sources use them in
  \<open>normalizeJSON\<close> and \<open>canonicalJSON\<close> of \<open>store.go\<close> and in \<open>canonicalJSONDefault\<close> and
  \<open>canonicalJSONObject\<close> of \<open>mutations.go\<close>.
\<close>

section \<open>Values\<close>

datatype json =
    JNull
  | JBool bool
  | JNum string
  | JStr string
  | JArr "json list"
  | JObj "(string \<times> json) list"

section \<open>The scanner\<close>

definition is_ws :: "char \<Rightarrow> bool" where
  "is_ws c \<longleftrightarrow> c = CHR '' '' \<or> c = CHR 0x09 \<or> c = CHR 0x0D \<or> c = CHR 0x0A"

abbreviation skip_ws :: "string \<Rightarrow> string" where
  "skip_ws \<equiv> dropWhile is_ws"

text \<open>The states of the number automaton of \<open>scanner.go\<close>.\<close>

datatype num_state = NBegin | NNeg | NZero | NInt | NDot | NFrac | NExp | NExpSign | NExpDigits

fun num_step :: "num_state \<Rightarrow> char \<Rightarrow> num_state option" where
  "num_step NBegin c =
     (if c = CHR ''-'' then Some NNeg else if c = CHR ''0'' then Some NZero
      else if isDigit c then Some NInt else None)"
| "num_step NNeg c =
     (if c = CHR ''0'' then Some NZero else if isDigit c then Some NInt else None)"
| "num_step NInt c =
     (if isDigit c then Some NInt else if c = CHR ''.'' then Some NDot
      else if c = CHR ''e'' \<or> c = CHR ''E'' then Some NExp else None)"
| "num_step NZero c =
     (if c = CHR ''.'' then Some NDot else if c = CHR ''e'' \<or> c = CHR ''E'' then Some NExp else None)"
| "num_step NDot c = (if isDigit c then Some NFrac else None)"
| "num_step NFrac c =
     (if isDigit c then Some NFrac else if c = CHR ''e'' \<or> c = CHR ''E'' then Some NExp else None)"
| "num_step NExp c =
     (if c = CHR ''+'' \<or> c = CHR ''-'' then Some NExpSign else if isDigit c then Some NExpDigits else None)"
| "num_step NExpSign c = (if isDigit c then Some NExpDigits else None)"
| "num_step NExpDigits c = (if isDigit c then Some NExpDigits else None)"

definition num_final :: "num_state \<Rightarrow> bool" where
  "num_final st \<longleftrightarrow> st = NZero \<or> st = NInt \<or> st = NFrac \<or> st = NExpDigits"

fun lex_num :: "num_state \<Rightarrow> string \<Rightarrow> (string \<times> string) option" where
  "lex_num st [] = (if num_final st then Some ([], []) else None)"
| "lex_num st (c # s) =
     (case num_step st c of
        Some st' \<Rightarrow> (case lex_num st' s of None \<Rightarrow> None | Some (t, r) \<Rightarrow> Some (c # t, r))
      | None \<Rightarrow> if num_final st then Some ([], c # s) else None)"

text \<open>A string, a literal or a number at the start of the text.\<close>

definition parse_scalar :: "string \<Rightarrow> (json \<times> string) option" where
  "parse_scalar s =
    (case s of [] \<Rightarrow> None
     | c # r \<Rightarrow>
       if c = dquote then map_option (apfst JStr) (unq r)
       else if c = CHR ''n'' then (if take 3 r = ''ull'' then Some (JNull, drop 3 r) else None)
       else if c = CHR ''t'' then (if take 3 r = ''rue'' then Some (JBool True, drop 3 r) else None)
       else if c = CHR ''f'' then (if take 4 r = ''alse'' then Some (JBool False, drop 4 r) else None)
       else map_option (apfst JNum) (lex_num NBegin (c # r)))"

text \<open>
  One value with the text after it. The first argument is fuel: at most two calls start at one
  byte, so \<open>2 * length s + 1\<close> is enough, see \<open>parse_fuel\<close>. The second is the nesting depth
  still allowed (\<open>maxNestingDepth\<close> of the scanner is 10000).
\<close>

fun parse_value :: "nat \<Rightarrow> nat \<Rightarrow> string \<Rightarrow> (json \<times> string) option"
  and parse_elems :: "nat \<Rightarrow> nat \<Rightarrow> string \<Rightarrow> (json list \<times> string) option"
  and parse_members :: "nat \<Rightarrow> nat \<Rightarrow> string \<Rightarrow> ((string \<times> json) list \<times> string) option" where
  "parse_value 0 d s = None"
| "parse_value (Suc n) d s =
    (case skip_ws s of [] \<Rightarrow> None
     | c # r \<Rightarrow>
       if c = CHR ''{'' then
         (if d = 0 then None
          else if take 1 (skip_ws r) = ''}'' then Some (JObj [], drop 1 (skip_ws r))
          else map_option (apfst JObj) (parse_members n (d - 1) r))
       else if c = CHR ''['' then
         (if d = 0 then None
          else if take 1 (skip_ws r) = '']'' then Some (JArr [], drop 1 (skip_ws r))
          else map_option (apfst JArr) (parse_elems n (d - 1) r))
       else parse_scalar (c # r))"
| "parse_elems 0 d s = None"
| "parse_elems (Suc n) d s =
    (case parse_value n d s of None \<Rightarrow> None
     | Some (v, r) \<Rightarrow>
       (case skip_ws r of [] \<Rightarrow> None
        | c # r' \<Rightarrow>
          if c = CHR '','' then map_option (apfst (Cons v)) (parse_elems n d r')
          else if c = CHR '']'' then Some ([v], r')
          else None))"
| "parse_members 0 d s = None"
| "parse_members (Suc n) d s =
    (case skip_ws s of [] \<Rightarrow> None
     | q # s' \<Rightarrow>
       if q \<noteq> dquote then None
       else (case unq s' of None \<Rightarrow> None
         | Some (k, r) \<Rightarrow>
           (case skip_ws r of [] \<Rightarrow> None
            | c # r' \<Rightarrow>
              if c \<noteq> CHR '':'' then None
              else (case parse_value n d r' of None \<Rightarrow> None
                | Some (v, r2) \<Rightarrow>
                  (case skip_ws r2 of [] \<Rightarrow> None
                   | e # r3 \<Rightarrow>
                     if e = CHR '','' then map_option (apfst (Cons (k, v))) (parse_members n d r3)
                     else if e = CHR ''}'' then Some ([(k, v)], r3)
                     else None)))))"

definition maxNestingDepth :: nat where
  "maxNestingDepth = 10000"

text \<open>\<open>Decoder.Decode\<close> into a generic value: the next value of the stream.\<close>

definition decode_next :: "string \<Rightarrow> (json \<times> string) option" where
  "decode_next s = parse_value (Suc (2 * length s)) maxNestingDepth s"

text \<open>\<open>json.Valid\<close>, and the value of a valid text (\<open>json.Unmarshal\<close> checks validity first).\<close>

definition json_parse :: "string \<Rightarrow> json option" where
  "json_parse s =
    (case decode_next s of Some (v, r) \<Rightarrow> if skip_ws r = [] then Some v else None | None \<Rightarrow> None)"

definition json_valid :: "string \<Rightarrow> bool" where
  "json_valid s \<longleftrightarrow> json_parse s \<noteq> None"

section \<open>Marshalling\<close>

fun render :: "json \<Rightarrow> string"
  and render_elems :: "json list \<Rightarrow> string"
  and render_members :: "(string \<times> json) list \<Rightarrow> string" where
  "render JNull = ''null''"
| "render (JBool b) = (if b then ''true'' else ''false'')"
| "render (JNum n) = n"
| "render (JStr s) = quote s"
| "render (JArr vs) = CHR ''['' # render_elems vs @ '']''"
| "render (JObj ms) = CHR ''{'' # render_members ms @ ''}''"
| "render_elems [] = []"
| "render_elems [v] = render v"
| "render_elems (v # w # vs) = render v @ CHR '','' # render_elems (w # vs)"
| "render_members [] = []"
| "render_members [(k, v)] = quote k @ CHR '':'' # render v"
| "render_members ((k, v) # m # ms) = quote k @ CHR '':'' # render v @ CHR '','' # render_members (m # ms)"

text \<open>
  Decoding an object into a Go map keeps the last value of a key; marshalling the map sorts
  the keys by bytes.
\<close>

fun put_member :: "string \<Rightarrow> json \<Rightarrow> (string \<times> json) list \<Rightarrow> (string \<times> json) list" where
  "put_member k v [] = [(k, v)]"
| "put_member k v ((k', v') # ms) =
     (if k = k' then (k, v) # ms
      else if k < k' then (k, v) # (k', v') # ms
      else (k', v') # put_member k v ms)"

definition sort_members :: "(string \<times> json) list \<Rightarrow> (string \<times> json) list" where
  "sort_members ms = foldl (\<lambda>acc (k, v). put_member k v acc) [] ms"

fun norm_json :: "json \<Rightarrow> json"
  and norm_elems :: "json list \<Rightarrow> json list"
  and norm_members :: "(string \<times> json) list \<Rightarrow> (string \<times> json) list" where
  "norm_json JNull = JNull"
| "norm_json (JBool b) = JBool b"
| "norm_json (JNum n) = JNum n"
| "norm_json (JStr s) = JStr s"
| "norm_json (JArr vs) = JArr (norm_elems vs)"
| "norm_json (JObj ms) = JObj (sort_members (norm_members ms))"
| "norm_elems [] = []"
| "norm_elems (v # vs) = norm_json v # norm_elems vs"
| "norm_members [] = []"
| "norm_members ((k, v) # ms) = (k, norm_json v) # norm_members ms"

section \<open>Canonical text\<close>

text \<open>
  The functions of the sources; errors carry the text after the sentinel \<open>ErrInvalid\<close>.
\<close>

definition normalizeJSON :: "string \<Rightarrow> string + string" where
  "normalizeJSON raw =
    (let raw = (if length raw = 0 then ''{}'' else raw)
     in if \<not> json_valid raw then Inl ''payload must be valid JSON'' else Inr raw)"

definition canonicalJSON :: "string \<Rightarrow> string + string" where
  "canonicalJSON raw =
    (case decode_next raw of None \<Rightarrow> Inl ''invalid JSON''
     | Some (value, rest) \<Rightarrow>
       (case decode_next rest of Some extra \<Rightarrow> Inl ''multiple JSON values''
        | None \<Rightarrow> Inr (render (norm_json value))))"

definition canonicalJSONDefault :: "string \<Rightarrow> string + string" where
  "canonicalJSONDefault raw =
    (case normalizeJSON raw of Inl e \<Rightarrow> Inl e | Inr normalized \<Rightarrow> canonicalJSON normalized)"

definition is_object :: "json \<Rightarrow> bool" where
  "is_object v = (case v of JObj ms \<Rightarrow> True | _ \<Rightarrow> False)"

text \<open>Unmarshalling into a Go map succeeds with a non-nil map exactly for an object.\<close>

definition canonicalJSONObject :: "string \<Rightarrow> string + string" where
  "canonicalJSONObject raw =
    (case canonicalJSONDefault raw of Inl e \<Rightarrow> Inl e
     | Inr canonical \<Rightarrow>
       (case json_parse canonical of
          Some v \<Rightarrow> if is_object v then Inr canonical else Inl ''payload must be a JSON object''
        | None \<Rightarrow> Inl ''payload must be a JSON object''))"

section \<open>Reading consumes input\<close>

declare dropWhile_eq_Nil_conv [simp del]

lemma skip_ws_le: "length (skip_ws s) \<le> length s"
  by (induction s) auto

lemma skip_ws_Cons_le: "skip_ws s = c # r \<Longrightarrow> length r < length s"
  using skip_ws_le [of s] by simp

lemma lex_num_le: "lex_num st s = Some (t, r) \<Longrightarrow> s = t @ r"
  by (induction st s arbitrary: t r rule: lex_num.induct) (auto split: option.splits if_splits)

lemma lex_num_begin_shorter: "lex_num NBegin s = Some (t, r) \<Longrightarrow> length r < length s"
  by (cases s) (auto simp: num_final_def dest: lex_num_le split: option.splits if_splits)

lemma parse_scalar_shorter: "parse_scalar s = Some (v, r) \<Longrightarrow> length r < length s"
  by (auto simp: parse_scalar_def simp del: lex_num.simps
      dest: unq_shorter lex_num_begin_shorter split: list.splits if_splits)

lemma parse_value_SucE:
  assumes "parse_value (Suc n) d s = Some (v, r)"
  obtains (empty_obj) t where "skip_ws s = CHR ''{'' # t" "0 < d" "take 1 (skip_ws t) = ''}''"
      "v = JObj []" "r = drop 1 (skip_ws t)"
  | (obj) t ms where "skip_ws s = CHR ''{'' # t" "0 < d" "take 1 (skip_ws t) \<noteq> ''}''"
      "parse_members n (d - 1) t = Some (ms, r)" "v = JObj ms"
  | (empty_arr) t where "skip_ws s = CHR ''['' # t" "0 < d" "take 1 (skip_ws t) = '']''"
      "v = JArr []" "r = drop 1 (skip_ws t)"
  | (arr) t vs where "skip_ws s = CHR ''['' # t" "0 < d" "take 1 (skip_ws t) \<noteq> '']''"
      "parse_elems n (d - 1) t = Some (vs, r)" "v = JArr vs"
  | (scalar) c t where "skip_ws s = c # t" "c \<noteq> CHR ''{''" "c \<noteq> CHR ''[''"
      "parse_scalar (c # t) = Some (v, r)"
  using assms by (auto split: list.splits if_splits)

lemma parse_elems_SucE:
  assumes "parse_elems (Suc n) d s = Some (vs, r)"
  obtains (more) v r1 t ws where "parse_value n d s = Some (v, r1)" "skip_ws r1 = CHR '','' # t"
      "parse_elems n d t = Some (ws, r)" "vs = v # ws"
  | (last) v r1 where "parse_value n d s = Some (v, r1)" "skip_ws r1 = CHR '']'' # r" "vs = [v]"
  using assms by (auto split: option.splits list.splits if_splits)

lemma parse_members_SucE:
  assumes "parse_members (Suc n) d s = Some (ms, r)"
  obtains (more) s' k r1 r2 v r3 r4 ws where "skip_ws s = dquote # s'" "unq s' = Some (k, r1)"
      "skip_ws r1 = CHR '':'' # r2" "parse_value n d r2 = Some (v, r3)" "skip_ws r3 = CHR '','' # r4"
      "parse_members n d r4 = Some (ws, r)" "ms = (k, v) # ws"
  | (last) s' k r1 r2 v r3 where "skip_ws s = dquote # s'" "unq s' = Some (k, r1)"
      "skip_ws r1 = CHR '':'' # r2" "parse_value n d r2 = Some (v, r3)" "skip_ws r3 = CHR ''}'' # r"
      "ms = [(k, v)]"
  using assms by (auto split: option.splits list.splits if_splits)

lemma parse_shorter:
  "parse_value n d s = Some (v, r) \<Longrightarrow> length r < length s"
  "parse_elems n d s = Some (vs, r) \<Longrightarrow> length r < length s"
  "parse_members n d s = Some (ms, r) \<Longrightarrow> length r < length s"
proof (induction n arbitrary: d s v vs ms r)
  case (Suc n)
  {
    case 1
    from 1 show ?case
    proof (cases rule: parse_value_SucE)
      case (empty_obj t)
      then show ?thesis using skip_ws_Cons_le [OF empty_obj(1)] skip_ws_le [of t] by simp
    next
      case (obj t ms)
      then show ?thesis using skip_ws_Cons_le [OF obj(1)] Suc.IH(3) by fastforce
    next
      case (empty_arr t)
      then show ?thesis using skip_ws_Cons_le [OF empty_arr(1)] skip_ws_le [of t] by simp
    next
      case (arr t vs)
      then show ?thesis using skip_ws_Cons_le [OF arr(1)] Suc.IH(2) by fastforce
    next
      case (scalar c t)
      then show ?thesis using parse_scalar_shorter skip_ws_le [of s] by fastforce
    qed
  next
    case 2
    from 2 show ?case
    proof (cases rule: parse_elems_SucE)
      case (more v r1 t ws)
      then show ?thesis
        using Suc.IH(1) Suc.IH(2) skip_ws_Cons_le [OF more(2)] by fastforce
    next
      case (last v r1)
      then show ?thesis using Suc.IH(1) skip_ws_Cons_le [OF last(2)] by fastforce
    qed
  next
    case 3
    from 3 show ?case
    proof (cases rule: parse_members_SucE)
      case (more s' k r1 r2 v r3 r4 ws)
      then show ?thesis
        using skip_ws_Cons_le [OF more(1)] unq_shorter [OF more(2)] skip_ws_Cons_le [OF more(3)]
          Suc.IH(1) [OF more(4)] skip_ws_Cons_le [OF more(5)] Suc.IH(3) [OF more(6)] by linarith
    next
      case (last s' k r1 r2 v r3)
      then show ?thesis
        using skip_ws_Cons_le [OF last(1)] unq_shorter [OF last(2)] skip_ws_Cons_le [OF last(3)]
          Suc.IH(1) [OF last(4)] skip_ws_Cons_le [OF last(5)] by linarith
    qed
  }
qed auto

section \<open>Fuel\<close>

text \<open>
  More fuel than the length of the input never changes the result, so the fuel of
  \<open>decode_next\<close> stands for the unbounded loop of the scanner.
\<close>

lemma parse_fuel_step:
  "2 * length s < n \<Longrightarrow> parse_value (Suc n) d s = parse_value n d s"
  "2 * length s + 1 < n \<Longrightarrow> parse_elems (Suc n) d s = parse_elems n d s"
  "2 * length s + 1 < n \<Longrightarrow> parse_members (Suc n) d s = parse_members n d s"
proof (induction n arbitrary: d s)
  case (Suc n)
  {
    case 1
    show ?case
    proof (cases "skip_ws s")
      case Nil
      then show ?thesis by simp
    next
      case (Cons c t)
      from skip_ws_Cons_le [OF this] 1 have "2 * length t + 1 < n" by linarith
      then show ?thesis
        using Cons Suc.IH(2,3) by (simp add: parse_value.simps(2) [of "Suc n" d s] parse_value.simps(2) [of n d s]
            del: parse_value.simps parse_elems.simps parse_members.simps)
    qed
  next
    case 2
    then have v: "parse_value (Suc n) d s = parse_value n d s" using Suc.IH(1) by simp
    have "parse_elems (Suc n) d t = parse_elems n d t"
      if "parse_value n d s = Some (w, r)" "skip_ws r = c # t" for w r c t
      using that 2 parse_shorter(1) [OF that(1)] skip_ws_Cons_le [OF that(2)] by (intro Suc.IH(2)) linarith
    with v show ?case
      by (simp add: parse_elems.simps(2) [of "Suc n" d s] parse_elems.simps(2) [of n d s]
          del: parse_value.simps parse_elems.simps split: option.split list.split)
  next
    case 3
    have v: "parse_value (Suc n) d r2 = parse_value n d r2"
      if "skip_ws s = q # s'" "unq s' = Some (k, r)" "skip_ws r = c # r2" for q s' k r c r2
      using that 3 unq_shorter [OF that(2)] skip_ws_Cons_le [OF that(1)] skip_ws_Cons_le [OF that(3)]
      by (intro Suc.IH(1)) linarith
    have m: "parse_members (Suc n) d r4 = parse_members n d r4"
      if "skip_ws s = q # s'" "unq s' = Some (k, r)" "skip_ws r = c # r2"
        "parse_value n d r2 = Some (w, r3)" "skip_ws r3 = e # r4" for q s' k r c r2 w r3 e r4
      using that 3 unq_shorter [OF that(2)] skip_ws_Cons_le [OF that(1)] skip_ws_Cons_le [OF that(3)]
        parse_shorter(1) [OF that(4)] skip_ws_Cons_le [OF that(5)]
      by (intro Suc.IH(3)) linarith
    show ?case
      by (simp add: parse_members.simps(2) [of "Suc n" d s] parse_members.simps(2) [of n d s] v m
          del: parse_value.simps parse_members.simps split: option.split list.split)
  }
qed auto

lemma parse_fuel:
  assumes "2 * length s < n" and "n \<le> m"
  shows "parse_value m d s = parse_value n d s"
  using assms(2,1) by (induction m rule: dec_induct) (simp_all add: parse_fuel_step(1) del: parse_value.simps)

lemma parse_mono_step:
  "parse_value n d s = Some (v, r) \<Longrightarrow> parse_value (Suc n) d s = Some (v, r)"
  "parse_elems n d s = Some (vs, r) \<Longrightarrow> parse_elems (Suc n) d s = Some (vs, r)"
  "parse_members n d s = Some (ms, r) \<Longrightarrow> parse_members (Suc n) d s = Some (ms, r)"
proof (induction n arbitrary: d s v vs ms r)
  case (Suc n)
  {
    case 1
    then show ?case
      by (rule parse_value_SucE)
        (simp_all add: parse_value.simps(2) [of "Suc n"] Suc.IH(2,3) del: parse_value.simps parse_elems.simps parse_members.simps)
  next
    case 2
    then show ?case
      by (rule parse_elems_SucE)
        (simp_all add: parse_elems.simps(2) [of "Suc n"] Suc.IH(1,2) del: parse_value.simps parse_elems.simps)
  next
    case 3
    then show ?case
      by (rule parse_members_SucE)
        (simp_all add: parse_members.simps(2) [of "Suc n"] Suc.IH(1,3) del: parse_value.simps parse_members.simps)
  }
qed simp_all

lemma parse_mono: "parse_value n d s = Some (v, r) \<Longrightarrow> n \<le> m \<Longrightarrow> parse_value m d s = Some (v, r)"
  by (rotate_tac, induction m rule: dec_induct) (auto intro: parse_mono_step simp del: parse_value.simps)

lemma decode_next_of_fuel:
  assumes "parse_value n maxNestingDepth s = Some (v, r)"
  shows "decode_next s = Some (v, r)"
proof -
  let ?m = "max n (Suc (2 * length s))"
  have "parse_value ?m maxNestingDepth s = Some (v, r)" using assms by (rule parse_mono) simp
  then show ?thesis using parse_fuel [of s "Suc (2 * length s)" ?m] by (simp add: decode_next_def)
qed

section \<open>Reading back what was written\<close>

definition valid_num :: "string \<Rightarrow> bool" where
  "valid_num n \<longleftrightarrow> lex_num NBegin n = Some (n, [])"

text \<open>
  Values that text can denote: numbers are number texts, strings and keys are valid UTF-8,
  and the nesting stays within the given depth.
\<close>

fun wf_json :: "nat \<Rightarrow> json \<Rightarrow> bool"
  and wf_elems :: "nat \<Rightarrow> json list \<Rightarrow> bool"
  and wf_members :: "nat \<Rightarrow> (string \<times> json) list \<Rightarrow> bool" where
  "wf_json d JNull \<longleftrightarrow> True"
| "wf_json d (JBool b) \<longleftrightarrow> True"
| "wf_json d (JNum n) \<longleftrightarrow> valid_num n"
| "wf_json d (JStr s) \<longleftrightarrow> valid_utf8 s"
| "wf_json d (JArr vs) \<longleftrightarrow> 0 < d \<and> wf_elems (d - 1) vs"
| "wf_json d (JObj ms) \<longleftrightarrow> 0 < d \<and> wf_members (d - 1) ms"
| "wf_elems d [] \<longleftrightarrow> True"
| "wf_elems d (v # vs) \<longleftrightarrow> wf_json d v \<and> wf_elems d vs"
| "wf_members d [] \<longleftrightarrow> True"
| "wf_members d ((k, v) # ms) \<longleftrightarrow> valid_utf8 k \<and> wf_json d v \<and> wf_members d ms"

definition num_stop :: "string \<Rightarrow> bool" where
  "num_stop r = (case r of [] \<Rightarrow> True
     | c # _ \<Rightarrow> \<not> isDigit c \<and> c \<noteq> CHR ''.'' \<and> c \<noteq> CHR ''e'' \<and> c \<noteq> CHR ''E'')"

lemma num_stop_simps [simp]:
  "num_stop []" "num_stop (CHR '','' # r)" "num_stop (CHR '']'' # r)" "num_stop (CHR ''}'' # r)"
  by (simp_all add: num_stop_def isDigit_iff)

lemma num_stop_ws: "is_ws c \<Longrightarrow> num_stop (c # r)"
  by (auto simp: num_stop_def is_ws_def isDigit_iff)

lemma lex_num_append:
  "lex_num st n = Some (t, []) \<Longrightarrow> num_stop r \<Longrightarrow> lex_num st (n @ r) = Some (t, r)"
proof (induction st n arbitrary: t rule: lex_num.induct)
  case (1 st)
  then show ?case
    by (cases r; cases st) (auto simp: num_stop_def num_final_def split: if_splits)
next
  case (2 st c s)
  then show ?case by (auto split: option.splits if_splits)
qed

lemma lex_num_idem: "lex_num st s = Some (t, r) \<Longrightarrow> lex_num st t = Some (t, [])"
  by (induction st s arbitrary: t r rule: lex_num.induct) (auto split: option.splits if_splits)

lemma valid_num_hd:
  assumes "valid_num n"
  obtains c t where "n = c # t" "c = CHR ''-'' \<or> isDigit c"
  using assms
  by (cases n) (auto simp: valid_num_def num_final_def isDigit_iff split: option.splits if_splits)

lemma render_hd:
  assumes "wf_json d v"
  obtains c t where "render v = c # t" "\<not> is_ws c" "c \<noteq> CHR '']''" "c \<noteq> CHR ''}''"
proof (cases v)
  case (JNum n)
  with assms obtain c t where "n = c # t" "c = CHR ''-'' \<or> isDigit c"
    by (auto elim: valid_num_hd)
  with JNum show ?thesis by (intro that [of c t]) (auto simp: is_ws_def isDigit_iff)
next
  case (JBool b)
  with that show ?thesis by (cases b) (auto simp: is_ws_def)
qed (use that in \<open>auto simp: is_ws_def quote_def\<close>)

lemma parse_scalar_render:
  assumes "wf_json d v" and "num_stop r" and "\<And>vs. v \<noteq> JArr vs" and "\<And>ms. v \<noteq> JObj ms"
  shows "parse_scalar (render v @ r) = Some (v, r)"
proof (cases v)
  case (JNum n)
  with assms obtain c t where c: "n = c # t" "c = CHR ''-'' \<or> isDigit c"
    by (auto elim: valid_num_hd)
  then have "c \<noteq> dquote" "c \<noteq> CHR ''n''" "c \<noteq> CHR ''t''" "c \<noteq> CHR ''f''"
    by (auto simp: isDigit_iff)
  moreover have "lex_num NBegin (n @ r) = Some (n, r)"
    using assms JNum by (auto simp: valid_num_def intro: lex_num_append)
  ultimately show ?thesis using JNum c by (simp add: parse_scalar_def del: lex_num.simps)
qed (use assms in \<open>auto simp: parse_scalar_def quote_def unq_esc\<close>)

lemma skip_ws_render: "wf_json d v \<Longrightarrow> skip_ws (render v @ r) = render v @ r"
  by (erule render_hd) simp

lemma render_elems_hd:
  assumes "wf_elems d vs" and "vs \<noteq> []"
  obtains c t where "render_elems vs = c # t" "\<not> is_ws c" "c \<noteq> CHR '']''"
proof -
  obtain v ws where v: "vs = v # ws" using assms(2) by (cases vs) auto
  with assms(1) have "wf_json d v" by simp
  then obtain c t where "render v = c # t" "\<not> is_ws c" "c \<noteq> CHR '']''" by (rule render_hd)
  with v that show ?thesis by (cases ws) auto
qed

lemma render_members_hd:
  assumes "ms \<noteq> []"
  obtains t where "render_members ms = dquote # t"
  using assms that by (cases ms rule: render_members.cases) (auto simp: quote_def)

lemma skip_ws_quote [simp]: "skip_ws (quote k @ r) = quote k @ r"
  by (simp add: quote_def is_ws_def)

lemma parse_render:
  "wf_json d v \<Longrightarrow> num_stop r \<Longrightarrow> 2 * length (render v @ r) < n \<Longrightarrow>
     parse_value n d (render v @ r) = Some (v, r)"
  "wf_elems d vs \<Longrightarrow> vs \<noteq> [] \<Longrightarrow> 2 * length (render_elems vs @ CHR '']'' # r) + 1 < n \<Longrightarrow>
     parse_elems n d (render_elems vs @ CHR '']'' # r) = Some (vs, r)"
  "wf_members d ms \<Longrightarrow> ms \<noteq> [] \<Longrightarrow> 2 * length (render_members ms @ CHR ''}'' # r) + 1 < n \<Longrightarrow>
     parse_members n d (render_members ms @ CHR ''}'' # r) = Some (ms, r)"
proof (induction v and vs and ms arbitrary: d r n and d r n and d r n
    rule: render_render_elems_render_members.induct)
  case (5 vs)
  then obtain m where m: "n = Suc m" by (cases n) auto
  show ?case
  proof (cases "vs = []")
    case False
    with 5 obtain c t where c: "render_elems vs = c # t" "\<not> is_ws c" "c \<noteq> CHR '']''"
      by (auto elim: render_elems_hd)
    from 5 m False have "parse_elems m (d - 1) (render_elems vs @ CHR '']'' # r) = Some (vs, r)"
      by (intro "5.IH") auto
    with 5 m c show ?thesis by (simp add: is_ws_def)
  qed (use 5 m in \<open>simp add: is_ws_def\<close>)
next
  case (6 ms)
  then obtain m where m: "n = Suc m" by (cases n) auto
  show ?case
  proof (cases "ms = []")
    case False
    then obtain t where c: "render_members ms = dquote # t" by (rule render_members_hd)
    from 6 m False have "parse_members m (d - 1) (render_members ms @ CHR ''}'' # r) = Some (ms, r)"
      by (intro "6.IH") auto
    with 6 m c show ?thesis by (simp add: is_ws_def)
  qed (use 6 m in \<open>simp add: is_ws_def\<close>)
next
  case (8 v)
  then obtain m where m: "n = Suc m" by (cases n) auto
  with 8 have "parse_value m d (render v @ CHR '']'' # r) = Some (v, CHR '']'' # r)"
    by (intro "8.IH") auto
  with m show ?case by (simp add: is_ws_def)
next
  case (9 v w vs)
  then obtain m where m: "n = Suc m" by (cases n) auto
  let ?rest = "render_elems (w # vs) @ CHR '']'' # r"
  have "parse_value m d (render v @ CHR '','' # ?rest) = Some (v, CHR '','' # ?rest)"
    using 9 m by (intro "9.IH"(1)) auto
  moreover have "parse_elems m d ?rest = Some (w # vs, r)"
    using 9 m by (intro "9.IH"(2)) auto
  ultimately show ?case using m by (simp add: is_ws_def)
next
  case (11 k v)
  then obtain m where m: "n = Suc m" by (cases n) auto
  with 11 have "parse_value m d (render v @ CHR ''}'' # r) = Some (v, CHR ''}'' # r)"
    by (intro "11.IH") auto
  with 11 m show ?case by (simp add: is_ws_def quote_def unq_esc)
next
  case (12 k v x ms)
  then obtain m where m: "n = Suc m" by (cases n) auto
  let ?rest = "render_members (x # ms) @ CHR ''}'' # r"
  have "parse_value m d (render v @ CHR '','' # ?rest) = Some (v, CHR '','' # ?rest)"
    using 12 m by (intro "12.IH"(1)) auto
  moreover have "parse_members m d ?rest = Some (x # ms, r)"
    using 12 m by (intro "12.IH"(2)) (cases x; auto)+
  ultimately show ?case using 12 m by (simp add: is_ws_def quote_def unq_esc)
next
  case (1)
  then show ?case by (cases n) (auto simp: is_ws_def parse_scalar_def)
next
  case (2 b)
  then show ?case by (cases n) (auto simp: is_ws_def parse_scalar_def)
next
  case (3 x)
  then obtain c t where c: "x = c # t" "c = CHR ''-'' \<or> isDigit c"
    by (auto elim: valid_num_hd)
  then have "\<not> is_ws c" "c \<noteq> CHR ''{''" "c \<noteq> CHR ''[''" by (auto simp: is_ws_def isDigit_iff)
  with 3 c parse_scalar_render [of d "JNum x" r] show ?case by (cases n) auto
next
  case (4 x)
  with parse_scalar_render [of d "JStr x" r] show ?case
    by (cases n) (auto simp: is_ws_def quote_def)
qed auto

lemma json_parse_render: "wf_json maxNestingDepth v \<Longrightarrow> json_parse (render v) = Some v"
  using parse_render(1) [of maxNestingDepth v "[]" "Suc (2 * length (render v))"]
  by (simp add: json_parse_def decode_next_def del: parse_value.simps)

section \<open>What reading yields\<close>

lemma parse_scalar_wf: "parse_scalar s = Some (v, r) \<Longrightarrow> wf_json d v"
  by (auto simp: parse_scalar_def valid_num_def simp del: lex_num.simps
      dest: valid_utf8_unq lex_num_idem split: list.splits if_splits)

lemma parse_wf:
  "parse_value n d s = Some (v, r) \<Longrightarrow> wf_json d v"
  "parse_elems n d s = Some (vs, r) \<Longrightarrow> wf_elems d vs"
  "parse_members n d s = Some (ms, r) \<Longrightarrow> wf_members d ms"
proof (induction n arbitrary: d s v vs ms r)
  case (Suc n)
  {
    case 1
    from 1 show ?case
      by (cases rule: parse_value_SucE) (auto simp: Suc.IH intro: parse_scalar_wf)
  next
    case 2
    from 2 show ?case by (cases rule: parse_elems_SucE) (auto simp: Suc.IH)
  next
    case 3
    from 3 show ?case
      by (cases rule: parse_members_SucE) (auto simp: Suc.IH dest: valid_utf8_unq)
  }
qed auto

lemma decode_next_wf: "decode_next s = Some (v, r) \<Longrightarrow> wf_json maxNestingDepth v"
  unfolding decode_next_def by (rule parse_wf)

lemma json_parse_wf: "json_parse s = Some v \<Longrightarrow> wf_json maxNestingDepth v"
  by (auto simp: json_parse_def dest: decode_next_wf split: option.splits if_splits)

section \<open>Normal forms\<close>

lemma put_member_wf: "wf_members d ms \<Longrightarrow> valid_utf8 k \<Longrightarrow> wf_json d v \<Longrightarrow> wf_members d (put_member k v ms)"
  by (induction k v ms rule: put_member.induct) auto

lemma set_put_member: "set (put_member k v ms) \<subseteq> insert (k, v) (set ms)"
  by (induction k v ms rule: put_member.induct) auto

lemma keys_put_member: "fst ` set (put_member k v ms) = insert k (fst ` set ms)"
  by (induction k v ms rule: put_member.induct) auto

lemma sorted_put_member:
  "sorted_wrt (<) (map fst ms) \<Longrightarrow> sorted_wrt (<) (map fst (put_member k v ms))"
proof (induction k v ms rule: put_member.induct)
  case (2 k v k' v' ms)
  then have "sorted_wrt (<) (map fst (put_member k v ms))" if "\<not> k < k'" "k \<noteq> k'"
    using that by simp
  moreover have "x \<in> fst ` set (put_member k v ms) \<Longrightarrow> k' < x" if "\<not> k < k'" "k \<noteq> k'" for x
    using 2 that by (auto simp: keys_put_member)
  ultimately show ?case using 2 by (auto intro: less_trans)
qed simp

lemma put_member_last:
  "\<forall>k' \<in> fst ` set ms. k' < k \<Longrightarrow> put_member k v ms = ms @ [(k, v)]"
  by (induction k v ms rule: put_member.induct) auto

lemma sort_members_wf: "wf_members d ms \<Longrightarrow> wf_members d (sort_members ms)"
proof -
  have "wf_members d acc \<Longrightarrow> wf_members d ms \<Longrightarrow>
      wf_members d (foldl (\<lambda>acc (k, v). put_member k v acc) acc ms)" for acc
    by (induction ms arbitrary: acc) (auto simp: put_member_wf)
  then show "wf_members d ms \<Longrightarrow> wf_members d (sort_members ms)"
    by (simp add: sort_members_def)
qed

lemma set_sort_members: "set (sort_members ms) \<subseteq> set ms"
proof -
  have "set (foldl (\<lambda>acc (k, v). put_member k v acc) acc ms) \<subseteq> set acc \<union> set ms" for acc
  proof (induction ms arbitrary: acc)
    case (Cons m ms)
    obtain k v where "m = (k, v)" by force
    with Cons [of "put_member k v acc"] set_put_member [of k v acc] show ?case by auto
  qed simp
  from this [of "[]"] show ?thesis by (simp add: sort_members_def)
qed

lemma sorted_sort_members: "sorted_wrt (<) (map fst (sort_members ms))"
proof -
  have "sorted_wrt (<) (map fst acc) \<Longrightarrow>
      sorted_wrt (<) (map fst (foldl (\<lambda>acc (k, v). put_member k v acc) acc ms))" for acc
    by (induction ms arbitrary: acc) (auto intro: sorted_put_member)
  then show ?thesis by (simp add: sort_members_def)
qed

lemma sort_members_sorted:
  assumes "sorted_wrt (<) (map fst ms)"
  shows "sort_members ms = ms"
proof -
  have "sorted_wrt (<) (map fst (acc @ ms)) \<Longrightarrow>
      foldl (\<lambda>acc (k, v). put_member k v acc) acc ms = acc @ ms" for acc
  proof (induction ms arbitrary: acc)
    case (Cons m ms)
    obtain k v where m: "m = (k, v)" by force
    with Cons.prems have "put_member k v acc = acc @ [m]"
      by (auto simp: sorted_wrt_append intro: put_member_last)
    with Cons m show ?case by simp
  qed simp
  from this [of "[]"] show ?thesis using assms by (simp add: sort_members_def)
qed

lemma wf_norm:
  "wf_json d v \<Longrightarrow> wf_json d (norm_json v)"
  "wf_elems d vs \<Longrightarrow> wf_elems d (norm_elems vs)"
  "wf_members d ms \<Longrightarrow> wf_members d (norm_members ms)"
  by (induction v and vs and ms arbitrary: d and d and d rule: norm_json_norm_elems_norm_members.induct)
    (auto intro: sort_members_wf)

lemma norm_members_fix: "\<forall>(k, v) \<in> set ms. norm_json v = v \<Longrightarrow> norm_members ms = ms"
  by (induction ms) auto

lemma norm_idem:
  "norm_json (norm_json v) = norm_json v"
  "norm_elems (norm_elems vs) = norm_elems vs"
  "\<forall>(k, v) \<in> set (norm_members ms). norm_json v = v"
proof (induction v and vs and ms rule: norm_json_norm_elems_norm_members.induct)
  case (6 ms)
  then have "norm_members (sort_members (norm_members ms)) = sort_members (norm_members ms)"
    using set_sort_members by (intro norm_members_fix) blast
  then show ?case by (simp add: sort_members_sorted sorted_sort_members)
qed auto

lemma is_object_norm [simp]: "is_object (norm_json v) = is_object v"
  by (cases v) (simp_all add: is_object_def)

lemma decode_next_blank: "skip_ws s = [] \<Longrightarrow> decode_next s = None"
  by (simp add: decode_next_def)

lemma decode_next_render:
  "wf_json maxNestingDepth v \<Longrightarrow> decode_next (render v) = Some (v, [])"
  using parse_render(1) [of maxNestingDepth v "[]" "Suc (2 * length (render v))"]
  by (simp add: decode_next_def del: parse_value.simps)

text \<open>A text in canonical form: the rendering of a well-formed value in normal form.\<close>

definition canonical_text :: "string \<Rightarrow> bool" where
  "canonical_text c \<longleftrightarrow>
     (\<exists>v. wf_json maxNestingDepth v \<and> norm_json v = v \<and> c = render v)"

lemma canonicalJSON_canonical: "canonicalJSON raw = Inr c \<Longrightarrow> canonical_text c"
  using norm_idem(1) wf_norm(1)
  by (fastforce simp: canonicalJSON_def canonical_text_def dest!: decode_next_wf
      split: option.splits prod.splits)

lemma canonical_text_fix: "canonical_text c \<Longrightarrow> canonicalJSON c = Inr c"
  by (auto simp: canonical_text_def canonicalJSON_def decode_next_render decode_next_blank)

lemma canonical_text_not_Nil: "canonical_text c \<Longrightarrow> c \<noteq> []"
  by (auto simp: canonical_text_def elim: render_hd)

lemma canonical_text_valid: "canonical_text c \<Longrightarrow> json_valid c"
  by (auto simp: canonical_text_def json_valid_def json_parse_render)

lemma canonicalJSON_of_valid:
  assumes "json_parse raw = Some v"
  shows "canonicalJSON raw = Inr (render (norm_json v))"
  using assms
  by (auto simp: json_parse_def canonicalJSON_def decode_next_blank split: option.splits if_splits)

lemma canonicalJSONDefault_canonical: "canonicalJSONDefault raw = Inr c \<Longrightarrow> canonical_text c"
  by (auto simp: canonicalJSONDefault_def dest: canonicalJSON_canonical split: sum.splits)

lemma canonical_text_Default_fix: "canonical_text c \<Longrightarrow> canonicalJSONDefault c = Inr c"
  using canonical_text_not_Nil [of c]
  by (auto simp: canonicalJSONDefault_def normalizeJSON_def canonical_text_valid canonical_text_fix)

lemma canonicalJSONObject_canonical:
  "canonicalJSONObject raw = Inr c \<Longrightarrow> canonical_text c"
  by (auto simp: canonicalJSONObject_def dest: canonicalJSONDefault_canonical
      split: sum.splits option.splits if_splits)

lemma canonicalJSONObject_parse:
  assumes "canonicalJSONObject raw = Inr c"
  obtains ms where "json_parse c = Some (JObj ms)"
  using assms
  by (auto simp: canonicalJSONObject_def is_object_def split: sum.splits option.splits if_splits json.splits)

lemma canonicalJSONObject_fix:
  assumes "canonicalJSONObject raw = Inr c"
  shows "canonicalJSONObject c = Inr c"
  using assms canonical_text_Default_fix [OF canonicalJSONObject_canonical [OF assms]]
  by (auto simp: canonicalJSONObject_def split: sum.splits option.splits if_splits)

section \<open>Canonical text decides equality\<close>

text \<open>C24: Canonical text is a normal form: canonicalising it again changes nothing, it is valid JSON, and two
  valid texts have the same canonical text exactly when their values agree up to the order and repetition
  of object keys.\<close>

theorem canonicalJSON_normal_form:
  assumes "json_parse a = Some v" "json_parse b = Some w"
  shows "(\<exists>c. canonicalJSON a = Inr c \<and> canonicalJSON c = Inr c \<and> json_valid c)
    \<and> (canonicalJSON a = canonicalJSON b \<longleftrightarrow> norm_json v = norm_json w)"
proof -
  note c = canonicalJSON_of_valid [OF assms(1)] canonicalJSON_of_valid [OF assms(2)]
  have "json_parse (render (norm_json v)) = Some (norm_json v)" "json_parse (render (norm_json w)) = Some (norm_json w)"
    using json_parse_render [OF wf_norm(1) [OF json_parse_wf [OF assms(1)]]] json_parse_render [OF wf_norm(1) [OF json_parse_wf [OF assms(2)]]]
    by simp_all
  then have "render (norm_json v) = render (norm_json w) \<longleftrightarrow> norm_json v = norm_json w" by (metis option.inject)
  then show ?thesis
    using c canonical_text_fix canonical_text_valid canonicalJSON_canonical [OF c(1)] by auto
qed

lemma empty_object: "json_parse ''{}'' = Some (JObj [])"
  using json_parse_render [of "JObj []"] by (simp add: maxNestingDepth_def)

theorem canonicalJSON_normal_form_witness:
  "(\<exists>c. canonicalJSON (''{ '' @ quote ''b'' @ '' : 1, '' @ quote ''a'' @ '': 2}'') = Inr c \<and> canonicalJSON c = Inr c \<and> json_valid c)
    \<and> canonicalJSON (''{ '' @ quote ''b'' @ '' : 1, '' @ quote ''a'' @ '': 2}'') = canonicalJSON (''{'' @ quote ''a'' @ '':2,'' @ quote ''b'' @ '':1}'')"
proof -
  have "json_parse (''{ '' @ quote ''b'' @ '' : 1, '' @ quote ''a'' @ '': 2}'') = Some (JObj [(''b'', JNum ''1''), (''a'', JNum ''2'')])"
    "json_parse (''{'' @ quote ''a'' @ '':2,'' @ quote ''b'' @ '':1}'') = Some (JObj [(''a'', JNum ''2''), (''b'', JNum ''1'')])"
    "norm_json (JObj [(''b'', JNum ''1''), (''a'', JNum ''2'')]) = norm_json (JObj [(''a'', JNum ''2''), (''b'', JNum ''1'')])"
    by code_simp+
  with canonicalJSON_normal_form [OF this(1,2)] show ?thesis by blast
qed

text \<open>The decoder always has enough fuel: more fuel never changes its answer, so a text it rejects is
  rejected at every amount of fuel.\<close>

lemma decode_fuel_enough:
  assumes "2 * length s < n"
  shows "parse_value n maxNestingDepth s = decode_next s"
  unfolding decode_next_def by (rule parse_fuel) (use assms in simp_all)

end
