(* ===== verification/Compact.thy ===== *)
theory Compact
  imports Json
begin

text \<open>
  How \<open>json.Marshal\<close> embeds a \<open>json.RawMessage\<close>: \<open>appendCompact\<close> drops the white space
  between tokens and escapes HTML characters and the line separators U+2028 and U+2029 inside
  strings. The main lemma, \<open>compact_parse\<close>, shows that the compacted text denotes the same
  value, in any context that ends it.
\<close>

section \<open>Definition\<close>

datatype cmode = Plain | InStr | Esc

definition html_escape :: "char \<Rightarrow> string" where
  "html_escape c = [bslash, CHR ''u'', CHR ''0'', CHR ''0'', hex_char (byte_val c div 16), hex_char (byte_val c mod 16)]"

definition is_html :: "char \<Rightarrow> bool" where
  "is_html c \<longleftrightarrow> c = CHR ''<'' \<or> c = CHR ''>'' \<or> c = CHR ''&''"

definition line_sep :: "string \<Rightarrow> bool" where
  "line_sep s \<longleftrightarrow> take 3 s = [CHR 0xE2, CHR 0x80, CHR 0xA8] \<or> take 3 s = [CHR 0xE2, CHR 0x80, CHR 0xA9]"

text \<open>
  The mode says whether the scanner is between tokens, in a string, or after a backslash in a
  string. In valid text the escaped characters occur only inside strings.
\<close>

fun compact :: "cmode \<Rightarrow> string \<Rightarrow> string" where
  "compact m [] = []"
| "compact Plain (c # s) =
     (if is_ws c then compact Plain s
      else if c = dquote then c # compact InStr s
      else c # compact Plain s)"
| "compact InStr (c # s) =
     (if c = dquote then c # compact Plain s
      else if c = bslash then c # compact Esc s
      else if is_html c then html_escape c @ compact InStr s
      else if line_sep (c # s) then esc_rune (take 3 (c # s)) @ compact InStr (drop 2 s)
      else c # compact InStr s)"
| "compact Esc (c # s) = c # compact InStr s"

text \<open>Marshalling a non-nil raw message fails unless its text is valid.\<close>

definition marshal_raw :: "string \<Rightarrow> string option" where
  "marshal_raw raw = (if json_valid raw then Some (compact Plain raw) else None)"

section \<open>Strings\<close>

text \<open>
  \<open>squeezes m f s v r\<close>: the reader \<open>f\<close> takes a prefix \<open>p\<close> of \<open>s\<close> and leaves \<open>r\<close>; compacting that
  prefix from mode \<open>m\<close> ends between tokens, and the reader finds the same value in the
  compacted prefix.
\<close>

definition squeezes :: "cmode \<Rightarrow> (string \<Rightarrow> ('a \<times> string) option) \<Rightarrow> string \<Rightarrow> 'a \<Rightarrow> string \<Rightarrow> bool" where
  "squeezes m f s v r \<longleftrightarrow> (\<exists>p. s = p @ r \<and> p \<noteq> [] \<and>
     (\<forall>y. compact m (p @ y) = compact m p @ compact Plain y) \<and>
     (\<forall>x. num_stop x \<longrightarrow> f (compact m p @ x) = Some (v, x)))"

lemma squeezesI:
  assumes "s = p @ r" "p \<noteq> []" "\<And>y. compact m (p @ y) = compact m p @ compact Plain y"
    and "\<And>x. num_stop x \<Longrightarrow> f (compact m p @ x) = Some (v, x)"
  shows "squeezes m f s v r"
  using assms unfolding squeezes_def by blast

lemma squeezesE:
  assumes "squeezes m f s v r"
  obtains p where "s = p @ r" "p \<noteq> []" "\<And>y. compact m (p @ y) = compact m p @ compact Plain y"
    "\<And>x. num_stop x \<Longrightarrow> f (compact m p @ x) = Some (v, x)"
  using assms unfolding squeezes_def by blast

lemma rune_len_0_iff:
  "rune_len (c # z) = 0 \<longleftrightarrow> rune_size c = 0
     \<or> rune_size c - 1 > length (takeWhile is_cont z) \<or> (2 \<le> rune_size c \<and> \<not> second_ok c (hd z))"
proof -
  have "list_all is_cont (take n z) \<and> n \<le> length z \<longleftrightarrow> n \<le> length (takeWhile is_cont z)" for n
  proof
    assume "list_all is_cont (take n z) \<and> n \<le> length z"
    then show "n \<le> length (takeWhile is_cont z)"
      by (metis append_take_drop_id length_takeWhile_le linorder_not_le nth_length_takeWhile
          order.strict_trans2 list_all_length nth_take length_take min.absorb2)
  next
    assume "n \<le> length (takeWhile is_cont z)"
    then have "take n z = take n (takeWhile is_cont z)"
      by (metis takeWhile_dropWhile_id take_append diff_is_0_eq append_Nil2 take_0)
    then show "list_all is_cont (take n z) \<and> n \<le> length z"
      using \<open>n \<le> length (takeWhile is_cont z)\<close> length_takeWhile_le [of is_cont z]
      by (auto simp: list_all_iff dest!: in_set_takeD dest: set_takeWhileD)
  qed
  from this [of "rune_size c - 1"] show ?thesis
    by (auto simp: rune_len_def Let_def)
qed

lemma rune_len_0_cong:
  assumes "takeWhile is_cont z = takeWhile is_cont z'"
  shows "rune_len (c # z) = 0 \<longleftrightarrow> rune_len (c # z') = 0"
proof -
  have "2 \<le> rune_size c \<and> rune_size c - 1 \<le> length (takeWhile is_cont z) \<Longrightarrow> hd z = hd z'"
    using assms by (cases z; cases z') (auto split: if_splits)
  then show ?thesis unfolding rune_len_0_iff using assms by auto
qed

lemma InStr_cases [case_names quote escape html sep plain]:
  assumes "c = dquote \<Longrightarrow> P" "c = bslash \<Longrightarrow> P" "is_html c \<Longrightarrow> P"
    and "c = CHR 0xE2 \<Longrightarrow> line_sep (c # s) \<Longrightarrow> P"
    and "c \<noteq> dquote \<Longrightarrow> c \<noteq> bslash \<Longrightarrow> \<not> is_html c \<Longrightarrow> \<not> line_sep (c # s) \<Longrightarrow> P"
  shows P
proof -
  have "line_sep (c # s) \<Longrightarrow> c = CHR 0xE2" by (auto simp: line_sep_def)
  with assms show ?thesis by blast
qed

lemma compact_InStr_html: "is_html c \<Longrightarrow> compact InStr (c # s) = html_escape c @ compact InStr s"
  by (auto simp: is_html_def)

lemma compact_InStr_sep:
  "line_sep (c # s) \<Longrightarrow> compact InStr (c # s) = esc_rune (take 3 (c # s)) @ compact InStr (drop 2 s)"
  by (auto simp: line_sep_def is_html_def)

lemma hd_esc_sep: "line_sep s \<Longrightarrow> \<exists>t. esc_rune (take 3 s) = bslash # t"
  by (auto simp: line_sep_def esc_rune_def)

lemma takeWhile_cont_compact: "takeWhile is_cont (compact InStr s) = takeWhile is_cont s"
proof (induction s)
  case (Cons c s)
  have n: "\<not> is_cont dquote" "\<not> is_cont bslash" "\<not> is_cont (CHR 0xE2)" "is_html c \<Longrightarrow> \<not> is_cont c"
    by (auto simp: is_cont_def is_html_def)
  show ?case
  proof (cases rule: InStr_cases [where c = c and s = s])
    case html
    with n show ?thesis by (simp add: compact_InStr_html html_escape_def del: compact.simps)
  next
    case sep
    with n hd_esc_sep [OF sep(2)] show ?thesis by (auto simp: compact_InStr_sep simp del: compact.simps)
  qed (use n Cons in simp_all)
qed simp

lemma takeWhile_cont_prefix:
  "dquote \<in> set p \<Longrightarrow> takeWhile is_cont (p @ x) = takeWhile is_cont p"
  by (rule takeWhile_append1) (auto simp: is_cont_def)

lemma hex_val_plain:
  assumes "hex_val a = Some n"
  shows "a \<noteq> dquote" "a \<noteq> bslash" "\<not> is_html a" "a \<noteq> CHR 0xE2" "\<not> is_ws a"
  using assms by (auto simp: hex_val_def is_html_def is_ws_def)

lemma compact_InStr_plain:
  "a \<noteq> dquote \<Longrightarrow> a \<noteq> bslash \<Longrightarrow> \<not> is_html a \<Longrightarrow> a \<noteq> CHR 0xE2 \<Longrightarrow> compact InStr (a # s) = a # compact InStr s"
  by (simp add: line_sep_def)

lemma compact_InStr_hex: "hex_val a = Some n \<Longrightarrow> compact InStr (a # s) = a # compact InStr s"
  by (rule compact_InStr_plain) (rule hex_val_plain; assumption)+

lemma hex4_SomeE:
  assumes "hex4 s = Some n"
  obtains a b c d t w x y z where "s = a # b # c # d # t" "hex_val a = Some w" "hex_val b = Some x"
    "hex_val c = Some y" "hex_val d = Some z"
  using assms by (cases s rule: hex4.cases) (auto split: option.splits)

lemma getu4_SomeE:
  assumes "getu4 s = Some n"
  obtains a b c d t w x y z where "s = bslash # CHR ''u'' # a # b # c # d # t" "hex_val a = Some w"
    "hex_val b = Some x" "hex_val c = Some y" "hex_val d = Some z" "n = 4096 * w + 256 * x + 16 * y + z"
proof -
  obtain s' where s': "s = bslash # CHR ''u'' # s'" "hex4 s' = Some n"
    using assms by (cases s; cases "tl s") (auto simp: getu4_def split: if_splits)
  then obtain a b c d t w x y z where "s' = a # b # c # d # t" "hex_val a = Some w" "hex_val b = Some x"
      "hex_val c = Some y" "hex_val d = Some z" by (auto elim: hex4_SomeE)
  with s' that show ?thesis by simp
qed

lemma getu4_hex:
  assumes "hex_val a = Some w" "hex_val b = Some x" "hex_val c = Some y" "hex_val d = Some z"
  shows "getu4 (bslash # CHR ''u'' # a # b # c # d # t) = Some (4096 * w + 256 * x + 16 * y + z)"
  using assms by (simp add: getu4_def)

lemma compact_u4:
  assumes "hex_val a = Some w" "hex_val b = Some x" "hex_val c = Some y" "hex_val d = Some z"
  shows "compact InStr (bslash # CHR ''u'' # a # b # c # d # t)
    = bslash # CHR ''u'' # a # b # c # d # compact InStr t"
proof -
  have "compact InStr (a # b # c # d # t) = a # b # c # d # compact InStr t"
    using assms by (simp only: compact_InStr_hex)
  then show ?thesis by (simp del: compact.simps(3) add: compact.simps(3) [of bslash])
qed

text \<open>A prefix of a string's text up to its closing quote contains its escapes entirely.\<close>

lemma prefix_past:
  assumes "u @ t = p @ r" "dquote \<notin> set u" "dquote \<in> set p"
  obtains q where "p = u @ q" "t = q @ r" "dquote \<in> set q"
proof -
  from assms(1) obtain us where "u = p @ us \<and> us @ t = r \<or> u @ us = p \<and> t = us @ r"
    by (auto simp: append_eq_append_conv2)
  with assms that show ?thesis by auto
qed

lemma getu4_compact:
  assumes "unq (p @ r) = Some v" and "dquote \<in> set p" and "getu4 (compact InStr p @ x) = Some n"
  shows "getu4 (p @ r) = Some n \<or> n < 0xD800"
proof -
  obtain c p' where p: "p = c # p'" using assms(2) by (cases p) auto
  show ?thesis
  proof (cases rule: InStr_cases [where c = c and s = p'])
    case quote
    then show ?thesis using assms(3) by (simp add: p getu4_def)
  next
    case escape
    then have "hd (p @ r) \<noteq> dquote" by (simp add: p)
    with assms(1) obtain out k where unit: "unq_unit (p @ r) = Some (out, k)"
      by (cases v) (auto elim: unq_Some_cases)
    obtain e p'' where p'': "p' = e # p''" using assms(2) p escape by (cases p') auto
    have "e = CHR ''u''" using assms(3) by (simp add: p escape p'' getu4_def split: if_splits)
    then obtain m where m: "getu4 (p @ r) = Some m"
      using unit by (auto simp: unq_unit_def p escape p'' split: option.splits)
    then obtain a b c' d t w x' y z where h: "p @ r = [bslash, CHR ''u'', a, b, c', d] @ t" "hex_val a = Some w"
        "hex_val b = Some x'" "hex_val c' = Some y" "hex_val d = Some z" "m = 4096 * w + 256 * x' + 16 * y + z"
      by (auto elim: getu4_SomeE)
    have "dquote \<notin> set [bslash, CHR ''u'', a, b, c', d]"
      using h(2-5) [THEN hex_val_plain(1)] by simp
    then obtain q where "p = [bslash, CHR ''u'', a, b, c', d] @ q"
      using prefix_past [OF h(1) [symmetric]] assms(2) by blast
    then have "getu4 (compact InStr p @ x) = Some m"
      using h(2-6) by (simp add: compact_u4 getu4_hex del: compact.simps)
    with m assms(3) show ?thesis by simp
  next
    case html
    then have "compact InStr p = html_escape c @ compact InStr p'"
      by (simp add: p compact_InStr_html del: compact.simps)
    with html assms(3) show ?thesis
      by (auto simp: is_html_def html_escape_def getu4_def hex_val_def hex_char_def)
  next
    case sep
    then have "compact InStr p = bslash # ''u2028'' @ compact InStr (drop 2 p')
      \<or> compact InStr p = bslash # ''u2029'' @ compact InStr (drop 2 p')"
      by (auto simp: p line_sep_def esc_rune_def is_html_def)
    with assms(3) show ?thesis by (auto simp: getu4_def hex_val_def)
  next
    case plain
    then show ?thesis using assms(3) by (simp add: p getu4_def)
  qed
qed

lemma line_sep_rune:
  assumes "line_sep s"
  shows "rune_len s = 3" and "take 3 s = take (rune_len s) s"
proof -
  have "s = take 3 s @ drop 3 s" by simp
  then have "s = CHR 0xE2 # CHR 0x80 # CHR 0xA8 # drop 3 s \<or> s = CHR 0xE2 # CHR 0x80 # CHR 0xA9 # drop 3 s"
    using assms unfolding line_sep_def by (elim disjE) (simp_all only: append.simps simp_thms)
  moreover have "rune_len (CHR 0xE2 # CHR 0x80 # CHR 0xA8 # z) = 3" "rune_len (CHR 0xE2 # CHR 0x80 # CHR 0xA9 # z) = 3"
    for z by (simp_all add: rune_len_def rune_size_def second_ok_def is_cont_def)
  ultimately show "rune_len s = 3" by metis
  then show "take 3 s = take (rune_len s) s" by simp
qed

lemma dquote_compact: "dquote \<in> set s \<Longrightarrow> dquote \<in> set (compact m s)"
proof (induction m s rule: compact.induct)
  case (3 c s)
  show ?case
  proof (cases rule: InStr_cases [where c = c and s = s])
    case html
    with 3 show ?thesis by (auto simp: compact_InStr_html is_html_def simp del: compact.simps)
  next
    case sep
    then have "dquote \<notin> set (take 2 s)" unfolding line_sep_def
      by (elim disjE) simp_all
    moreover have "set s = set (take 2 s) \<union> set (drop 2 s)"
      by (metis append_take_drop_id set_append)
    moreover have "dquote \<in> set s" using "3.prems" sep(1) by simp
    ultimately have "dquote \<in> set (drop 2 s)" by simp
    with 3(4) sep have "dquote \<in> set (compact InStr (drop 2 s))" by (simp add: is_html_def)
    with sep show ?thesis by (simp add: compact_InStr_sep del: compact.simps)
  qed (use 3 in auto)
qed (auto simp: is_ws_def)

lemma compact_conts: "list_all is_cont w \<Longrightarrow> compact InStr (w @ z) = w @ compact InStr z"
proof (induction w)
  case (Cons c w)
  then have "c \<noteq> dquote" "c \<noteq> bslash" "\<not> is_html c" "c \<noteq> CHR 0xE2"
    by (auto simp: is_cont_def is_html_def)
  with Cons show ?case by (simp add: compact_InStr_plain del: compact.simps)
qed simp

text \<open>
  One unit of a string: \<open>u\<close> is the unit, \<open>p\<close> what follows it up to the closing quote, \<open>cu\<close> the
  compacted unit; reading the compacted text finds the unit again.
\<close>

definition recoded :: "string \<Rightarrow> string \<Rightarrow> string \<Rightarrow> string \<Rightarrow> bool" where
  "recoded u p out cu \<longleftrightarrow> cu \<noteq> [] \<and> hd cu \<noteq> dquote
     \<and> (\<forall>y. compact InStr (u @ p @ y) = cu @ compact InStr (p @ y))
     \<and> (\<forall>x. unq_unit (cu @ compact InStr p @ x) = Some (out, length cu - 1))"

lemma recoded_u4:
  assumes "unq_unit (u @ p @ r) = Some (out, k)" "Suc k = length u" "hd u = bslash" "k \<noteq> 1"
    and "unq (p @ r) = Some v" "dquote \<in> set p"
  shows "\<exists>cu. recoded u p out cu"
proof -
  have hdu: "hd (u @ p @ r) = bslash" using assms(2,3) by (cases u) auto
  have "\<exists>n. getu4 (u @ p @ r) = Some n"
    using assms(1,4) hdu by (auto simp: unq_unit_def split: option.splits list.splits if_splits)
  then obtain n a b c' d t' w x y z where n: "getu4 (u @ p @ r) = Some n"
    and h: "u @ p @ r = bslash # CHR ''u'' # a # b # c' # d # t'"
      "hex_val a = Some w" "hex_val b = Some x" "hex_val c' = Some y" "hex_val d = Some z"
      "n = 4096 * w + 256 * x + 16 * y + z" by (blast elim: getu4_SomeE)
  note hex = h(2-5)
  show ?thesis
  proof (cases "k = 11")
    case True
    then obtain n2 where n2: "getu4 t' = Some n2" "is_surrogate n" "n < 0xDC00" "0xDC00 \<le> n2" "n2 < 0xE000"
        "out = encode_rune (0x10000 + (n - 0xD800) * 1024 + (n2 - 0xDC00))"
      using assms(1) n by (auto simp: h(1) unq_unit_def split: option.splits if_splits)
    then obtain a2 b2 c2 d2 t2 w2 x2 y2 z2 where g: "t' = bslash # CHR ''u'' # a2 # b2 # c2 # d2 # t2"
      "hex_val a2 = Some w2" "hex_val b2 = Some x2" "hex_val c2 = Some y2" "hex_val d2 = Some z2"
      "n2 = 4096 * w2 + 256 * x2 + 16 * y2 + z2" by (elim getu4_SomeE)
    have "u @ p @ r = [bslash, CHR ''u'', a, b, c', d, bslash, CHR ''u'', a2, b2, c2, d2] @ t2"
      by (simp add: h(1) g(1))
    then have u12: "u = [bslash, CHR ''u'', a, b, c', d, bslash, CHR ''u'', a2, b2, c2, d2]"
      using True assms(2) by (simp only: append_eq_append_conv_if) (auto split: if_splits)
    show ?thesis
      using h(6) g(2-6) n2 unfolding recoded_def
      by (intro exI [of _ u] conjI allI)
        (simp_all add: u12 compact_u4 hex getu4_hex unq_unit_def del: compact.simps)
  next
    case False
    then have k5: "k = 5" "\<not> is_surrogate n \<Longrightarrow> out = encode_rune n"
      "is_surrogate n \<Longrightarrow> out = replacement"
      "\<And>n2. is_surrogate n \<Longrightarrow> getu4 t' = Some n2 \<Longrightarrow> \<not> (n < 0xDC00 \<and> 0xDC00 \<le> n2 \<and> n2 < 0xE000)"
      using assms(1) n by (auto simp: h(1) unq_unit_def split: option.splits if_splits)
    have "u @ p @ r = [bslash, CHR ''u'', a, b, c', d] @ t'" by (simp add: h(1))
    then have u6: "u = [bslash, CHR ''u'', a, b, c', d]" "p @ r = t'"
      using k5(1) assms(2) append_eq_append_conv [of u "[bslash, CHR ''u'', a, b, c', d]" "p @ r" t']
      by simp_all
    have "\<not> (n < 0xDC00 \<and> 0xDC00 \<le> n2 \<and> n2 < 0xE000)"
      if "is_surrogate n" "getu4 (compact InStr p @ x) = Some n2" for n2 x
      using k5(4) [OF that(1)] getu4_compact [OF assms(5,6) that(2)] u6(2) by auto
    then show ?thesis
      using h(6) k5(2,3) unfolding recoded_def
      by (intro exI [of _ u] conjI allI)
        (auto simp: u6(1) compact_u4 hex getu4_hex unq_unit_def simp del: compact.simps split: option.splits)
  qed
qed

lemma recoded_simple:
  assumes "unq_unit (u @ s) = Some (out, 1)" "length u = 2" "hd u = bslash"
  shows "recoded u p out u"
proof -
  obtain e where u: "u = [bslash, e]" using assms(2,3) by (cases u; cases "tl u") auto
  then obtain b where "unesc_simple e = Some b" "e \<noteq> CHR ''u''" "out = [b]"
    using assms(1) by (auto simp: unq_unit_def split: option.splits if_splits)
  then show ?thesis by (simp add: recoded_def u unq_unit_def)
qed

lemma recoded_ascii:
  assumes "unq_unit (u @ s) = Some (out, k)" "Suc k = length u" "hd u = c"
    "c \<noteq> bslash" "c \<noteq> dquote" "byte_val c < 0x80"
  shows "\<exists>cu. recoded u p out cu"
proof -
  obtain u' where u: "u = c # u'" using assms(2,3) by (cases u) auto
  have "rune_len (u @ s) = 1" using assms(6) by (simp add: u rune_len_ascii)
  then have k: "u = [c]" "out = [c]" "\<not> byte_val c < 0x20"
    using assms by (auto simp: u unq_unit_def split: if_splits)
  show ?thesis
  proof (cases "is_html c")
    case True
    then have "recoded u p out (html_escape c)"
      using unq_unit_u00 [OF assms(6)]
      by (simp add: recoded_def k compact_InStr_html html_escape_def del: compact.simps)
    then show ?thesis ..
  next
    case False
    have "c \<noteq> CHR 0xE2" using assms(6) by auto
    with False have "recoded u p out [c]"
      using assms k(3)
      by (simp add: recoded_def k(1,2) compact_InStr_plain unq_unit_def rune_len_ascii del: compact.simps)
    then show ?thesis ..
  qed
qed

lemma recoded_invalid:
  assumes "unq_unit (u @ p @ r) = Some (out, k)" "Suc k = length u" "hd u = c" "0x80 \<le> byte_val c"
    and "rune_len (u @ p @ r) = 0" "dquote \<in> set p"
  shows "recoded u p out u"
proof -
  obtain u' where u: "u = c # u'" using assms(2,3) by (cases u) auto
  have c: "c \<noteq> bslash" "c \<noteq> dquote" "\<not> is_html c" using assms(4) by (auto simp: is_html_def)
  have k: "u = [c]" "out = replacement"
    using assms c by (auto simp: u unq_unit_def split: if_splits)
  have cz: "takeWhile is_cont (p @ y) = takeWhile is_cont (p @ z)" for y z
    using assms(6) by (simp add: takeWhile_cont_prefix)
  have "\<not> line_sep (c # p @ y)" for y
    using assms(5) rune_len_0_cong [OF cz, of c y r] line_sep_rune(1) [of "c # p @ y"] by (auto simp: k)
  moreover have "rune_len (c # compact InStr p @ x) = 0" for x
  proof -
    have "dquote \<in> set (compact InStr p)" using assms(6) by (rule dquote_compact)
    then have "takeWhile is_cont (compact InStr p @ x) = takeWhile is_cont (p @ r)"
      using assms(6) by (simp add: takeWhile_cont_prefix takeWhile_cont_compact)
    from rune_len_0_cong [OF this, of c] show ?thesis using assms(5) by (simp add: k)
  qed
  ultimately show ?thesis
    using c assms(4) by (simp add: recoded_def k unq_unit_def)
qed

lemma recoded_rune:
  assumes "unq_unit (u @ s) = Some (out, k)" "Suc k = length u" "hd u = c" "0x80 \<le> byte_val c"
    and "rune_len (u @ s) \<noteq> 0"
  shows "recoded u p out (esc_rune u)"
proof -
  obtain u' where u: "u = c # u'" using assms(2,3) by (cases u) auto
  have c: "c \<noteq> bslash" "c \<noteq> dquote" "\<not> is_html c" using assms(4) by (auto simp: is_html_def)
  have "out = take (rune_len (u @ s)) (u @ s)" and len: "rune_len (u @ s) = length u"
    using assms c by (auto simp: u unq_unit_def split: if_splits)
  then have t: "take (rune_len (u @ s)) (u @ s) = u" "out = u" by simp_all
  have lenu: "rune_len u = length u" using rune_len_take [OF assms(5)] by (simp add: len)
  have conts: "list_all is_cont u'"
    using rune_len_Cons_cont [of c "u' @ s" "length u"] len by (simp add: u)
  have comp: "compact InStr (u @ z) = esc_rune u @ compact InStr z" for z
  proof (cases "line_sep (u @ z)")
    case True
    have "rune_len (u @ z) = length u" using rune_len_append [of u z] lenu by (simp add: u)
    with True have "length u' = 2" using line_sep_rune(1) [OF True] by (simp add: u)
    with True show ?thesis by (simp add: u compact_InStr_sep del: compact.simps)
  next
    case sep: False
    then have "esc_rune u = u" by (auto simp: line_sep_def esc_rune_def)
    with sep c show ?thesis by (simp add: u compact_conts [OF conts])
  qed
  have "hd (u @ s) = c" by (simp add: u)
  with unq_unit_esc_rune [OF assms(5)] assms(4)
  have "unq_unit (esc_rune u @ z) = Some (u, length (esc_rune u) - 1)"
    "hd (esc_rune u @ z) \<noteq> dquote" "esc_rune u \<noteq> []" for z
    unfolding t by auto
  from this this(2) [of "[]"] show ?thesis by (simp add: recoded_def comp t(2))
qed

lemma compact_unit:
  assumes "unq_unit (u @ p @ r) = Some (out, k)" "Suc k = length u" "hd u \<noteq> dquote"
    and "unq (p @ r) = Some v" "dquote \<in> set p"
  shows "\<exists>cu. recoded u p out cu"
  using assms recoded_u4 recoded_simple [of u "p @ r" out p] recoded_ascii [of u "p @ r" out k]
    recoded_invalid recoded_rune [of u "p @ r" out k]
  by (metis One_nat_def Suc_1 linorder_not_less)

lemma unq_unit_bound:
  assumes "unq_unit s = Some (out, k)" and "s \<noteq> []"
  shows "Suc k \<le> length s"
proof (cases "hd s = bslash")
  case True
  have g: "getu4 z = Some n \<Longrightarrow> 6 \<le> length z" for z n by (elim getu4_SomeE) simp
  have "tl s = e # t \<Longrightarrow> 2 \<le> length s" for e t by (cases s) auto
  with assms True show ?thesis
    by (auto simp: unq_unit_def dest!: g split: list.splits option.splits if_splits)
next
  case False
  have "1 \<le> length s" using assms(2) by (cases s) auto
  with False assms rune_len_le [of s] show ?thesis by (auto simp: unq_unit_def split: if_splits)
qed

lemma compact_unq_prefix:
  "unq s = Some (v, r) \<Longrightarrow> \<exists>p. s = p @ r \<and> dquote \<in> set p
     \<and> (\<forall>y. compact InStr (p @ y) = compact InStr p @ compact Plain y)
     \<and> (\<forall>x. unq (compact InStr p @ x) = Some (v, x))"
proof (induction s arbitrary: v rule: unq.induct)
  case (1 s)
  from "1.prems" show ?case
  proof (cases rule: unq_Some_cases)
    case 1
    then show ?thesis
      by (intro exI [of _ "[dquote]"]) (auto simp: unq.simps [of "dquote # _"] neq_Nil_conv)
  next
    case (2 out k w)
    let ?u = "take (Suc k) s"
    have len: "Suc k = length ?u" using unq_unit_bound [OF 2(3,1)] by simp
    obtain p where p: "drop (Suc k) s = p @ r" "dquote \<in> set p"
        "\<And>y. compact InStr (p @ y) = compact InStr p @ compact Plain y"
        "\<And>x. unq (compact InStr p @ x) = Some (w, x)"
      using "1.IH" [OF 2(1,2,3) refl 2(4)] by blast
    have s: "s = ?u @ p @ r" using p(1) by (metis append_take_drop_id)
    have "hd ?u \<noteq> dquote" using 2(1,2) by (cases s) auto
    then obtain cu where "recoded ?u p out cu"
      using compact_unit [of ?u p r out k] 2(3,4) len p(1,2) s by metis
    then have cu: "cu \<noteq> []" "hd cu \<noteq> dquote" "\<And>y. compact InStr (?u @ p @ y) = cu @ compact InStr (p @ y)"
        "\<And>x. unq_unit (cu @ compact InStr p @ x) = Some (out, length cu - 1)"
      by (auto simp: recoded_def)
    have c0: "compact InStr (?u @ p) = cu @ compact InStr p" using cu(3) [of "[]"] by simp
    have "unq (cu @ compact InStr p @ x) = Some (v, x)" for x
      using unq_step [OF cu(4) [of x] cu(1)] cu(1,2) p(4) 2(5) by simp
    then show ?thesis
      using s p(2,3) cu(3) c0 by (intro exI [of _ "?u @ p"]) simp
  qed
qed

lemma compact_unq: "unq s = Some (v, r) \<Longrightarrow> squeezes InStr unq s v r"
  unfolding squeezes_def by (drule compact_unq_prefix) auto

section \<open>Values\<close>

lemma compact_skip_ws:
  assumes "skip_ws s = c # t"
  obtains w where "s = w @ c # t" "\<not> is_ws c" "\<And>y. compact Plain (w @ y) = compact Plain y"
proof -
  have "compact Plain (takeWhile is_ws s @ y) = compact Plain y" for y
    by (induction s) auto
  moreover have "s = takeWhile is_ws s @ c # t" using assms by (metis takeWhile_dropWhile_id)
  moreover have "\<not> is_ws c" using assms by (metis hd_dropWhile list.sel(1) list.distinct(1))
  ultimately show ?thesis using that by blast
qed

lemma compact_Plain_other:
  "\<not> is_ws c \<Longrightarrow> c \<noteq> dquote \<Longrightarrow> compact Plain (c # s) = c # compact Plain s"
  by simp

lemma lex_num_chars: "lex_num st s = Some (t, r) \<Longrightarrow> c \<in> set t \<Longrightarrow> \<not> is_ws c \<and> c \<noteq> dquote"
proof (induction st s arbitrary: t rule: lex_num.induct)
  case (2 st c' s)
  have "num_step st c' = Some st' \<Longrightarrow> \<not> is_ws c' \<and> c' \<noteq> dquote" for st'
    by (cases st) (auto simp: is_ws_def isDigit_iff split: if_splits)
  with 2 show ?case by (fastforce split: option.splits if_splits)
qed (auto split: if_splits)

lemma compact_plain_prefix:
  "\<forall>c \<in> set t. \<not> is_ws c \<and> c \<noteq> dquote \<Longrightarrow> compact Plain (t @ y) = t @ compact Plain y"
  by (induction t) simp_all

lemma squeezes_plain:
  assumes "s = t @ r" "t \<noteq> []" "\<forall>c \<in> set t. \<not> is_ws c \<and> c \<noteq> dquote"
    and "\<And>x. num_stop x \<Longrightarrow> f (t @ x) = Some (v, x)"
  shows "squeezes Plain f s v r"
  using assms compact_plain_prefix [OF assms(3)] compact_plain_prefix [OF assms(3), of "[]"]
  by (intro squeezesI [of s t]) simp_all

lemma take_drop_split: "take n s = w \<Longrightarrow> s = w @ drop n s"
  by (metis append_take_drop_id)

lemma compact_scalar:
  assumes "parse_scalar s = Some (v, r)"
  shows "squeezes Plain parse_scalar s v r"
proof -
  obtain c t where s: "s = c # t" using assms by (cases s) (auto simp: parse_scalar_def)
  consider (str) w where "c = dquote" "unq t = Some (w, r)" "v = JStr w"
    | (lit) w where "c \<noteq> dquote" "t = w @ r" "c # w \<in> {''null'', ''true'', ''false''}"
        "\<And>x. parse_scalar (c # w @ x) = Some (v, x)"
    | (num) w where "v = JNum w" "lex_num NBegin s = Some (w, r)" "c \<noteq> dquote" "c \<noteq> CHR ''n''"
        "c \<noteq> CHR ''t''" "c \<noteq> CHR ''f''"
    using assms unfolding s parse_scalar_def
    by (auto simp del: lex_num.simps dest!: take_drop_split split: if_splits)
  then show ?thesis
  proof cases
    case str
    then obtain p where "t = p @ r" "\<And>y. compact InStr (p @ y) = compact InStr p @ compact Plain y"
        "\<And>x. num_stop x \<Longrightarrow> unq (compact InStr p @ x) = Some (w, x)"
      using compact_unq by (metis squeezesE)
    then show ?thesis
      by (intro squeezesI [of s "c # p"]) (simp_all add: s str parse_scalar_def is_ws_def)
  next
    case (lit w)
    then have "\<forall>c' \<in> set (c # w). \<not> is_ws c' \<and> c' \<noteq> dquote"
      by (elim insertE emptyE) (simp_all add: is_ws_def)
    with lit show ?thesis by (intro squeezes_plain [of s "c # w"]) (simp_all add: s)
  next
    case (num w)
    have w: "s = w @ r" using num(2) by (rule lex_num_le)
    obtain w' where w': "w = c # w'"
      using num(2) w s by (cases w) (auto simp: num_final_def dest: lex_num_idem)
    have "lex_num NBegin (w @ x) = Some (w, x)" if "num_stop x" for x
      using lex_num_append [OF _ that] lex_num_idem [OF num(2)] by simp
    then show ?thesis
      using num lex_num_chars [OF num(2)]
      by (intro squeezes_plain [of s w]) (auto simp: w w' parse_scalar_def simp del: lex_num.simps)
  qed
qed

lemma parse_value_scalar:
  assumes "\<not> is_ws c" "c \<noteq> CHR ''{''" "c \<noteq> CHR ''[''"
  shows "parse_value (Suc n) d (c # t) = parse_scalar (c # t)"
  using assms by simp

lemma parse_scalar_close: "parse_scalar (CHR '']'' # t) = None"
  by (simp add: parse_scalar_def num_final_def isDigit_iff)

lemma parse_value_close:
  assumes "parse_value n d s = Some (v, r)"
  shows "take 1 (skip_ws s) \<noteq> '']''"
proof -
  obtain m where "n = Suc m" using assms by (cases n) auto
  with assms show ?thesis
    by (cases "skip_ws s") (auto simp: parse_scalar_close split: if_splits)
qed

lemma parse_elems_close:
  assumes "parse_elems n d s = Some (vs, r)"
  shows "take 1 (skip_ws s) \<noteq> '']''"
proof -
  obtain m where "n = Suc m" using assms by (cases n) auto
  with assms show ?thesis using parse_value_close by (blast elim: parse_elems_SucE)
qed

lemma parse_members_close:
  assumes "parse_members n d s = Some (ms, r)"
  shows "take 1 (skip_ws s) \<noteq> ''}''"
proof -
  obtain m where m: "n = Suc m" using assms by (cases n) auto
  show ?thesis by (rule parse_members_SucE [OF assms [unfolded m]]) simp_all
qed

lemma num_stop_colon [simp]: "num_stop (CHR '':'' # r)"
  by (simp add: num_stop_def isDigit_iff)

text \<open>How readers compose: white space before a token, a token before a reader, two readers
  with a separator between them, and a reader before a closing bracket.\<close>

lemma squeezes_ws:
  assumes "skip_ws s = c # t" "squeezes Plain f (c # t) v r"
  shows "squeezes Plain f s v r"
proof -
  obtain w where w: "s = w @ c # t" "\<And>y. compact Plain (w @ y) = compact Plain y"
    using compact_skip_ws [OF assms(1)] by blast
  obtain p where p: "c # t = p @ r" "p \<noteq> []" "\<And>y. compact Plain (p @ y) = compact Plain p @ compact Plain y"
    "\<And>x. num_stop x \<Longrightarrow> f (compact Plain p @ x) = Some (v, x)"
    using assms(2) by (rule squeezesE) (rule that; assumption)
  have "s = (w @ p) @ r" using w(1) p(1) by (simp only: append_assoc)
  then show ?thesis using p(2-4) by (intro squeezesI [of s "w @ p"]) (simp_all add: w(2))
qed

lemma squeezes_Cons:
  assumes "squeezes Plain f t v r" "\<not> is_ws c" "c \<noteq> dquote"
    and "\<And>p x. f (p @ x) = Some (v, x) \<Longrightarrow> g (c # p @ x) = Some (w, x)"
  shows "squeezes Plain g (c # t) w r"
proof -
  obtain p where "t = p @ r" "p \<noteq> []" "\<And>y. compact Plain (p @ y) = compact Plain p @ compact Plain y"
    "\<And>x. num_stop x \<Longrightarrow> f (compact Plain p @ x) = Some (v, x)"
    using assms(1) by (rule squeezesE) (rule that; assumption)
  with assms(2-4) show ?thesis by (intro squeezesI [of "c # t" "c # p"]) simp_all
qed

lemma squeezes_close:
  assumes "squeezes Plain f s v r1" "skip_ws r1 = c # r" "c \<noteq> dquote" "\<And>x. num_stop (c # x)"
    and "\<And>p x. f (p @ c # x) = Some (v, c # x) \<Longrightarrow> g (p @ c # x) = Some (u, x)"
  shows "squeezes Plain g s u r"
proof -
  obtain p where p: "s = p @ r1" "p \<noteq> []" "\<And>y. compact Plain (p @ y) = compact Plain p @ compact Plain y"
    "\<And>x. num_stop x \<Longrightarrow> f (compact Plain p @ x) = Some (v, x)"
    using assms(1) by (rule squeezesE) (rule that; assumption)
  obtain w where w: "r1 = w @ c # r" "\<not> is_ws c" "\<And>y. compact Plain (w @ y) = compact Plain y"
    using compact_skip_ws [OF assms(2)] by blast
  have "f (compact Plain p @ c # x) = Some (v, c # x)" for x using p(4) assms(4) .
  then show ?thesis
    using assms(3,5) p(1-3) w by (intro squeezesI [of s "p @ w @ [c]"]) simp_all
qed

lemma squeezes_seq:
  assumes "squeezes Plain f s v r1" "skip_ws r1 = c # t" "squeezes Plain h t w r"
    and "c \<noteq> dquote" "\<And>x. num_stop (c # x)"
    and "\<And>p q x. f (p @ c # q @ x) = Some (v, c # q @ x) \<Longrightarrow> h (q @ x) = Some (w, x)
      \<Longrightarrow> g (p @ c # q @ x) = Some (u, x)"
  shows "squeezes Plain g s u r"
proof -
  obtain p where p: "s = p @ r1" "p \<noteq> []" "\<And>y. compact Plain (p @ y) = compact Plain p @ compact Plain y"
    "\<And>x. num_stop x \<Longrightarrow> f (compact Plain p @ x) = Some (v, x)"
    using assms(1) by (rule squeezesE) (rule that; assumption)
  obtain k where k: "r1 = k @ c # t" "\<not> is_ws c" "\<And>y. compact Plain (k @ y) = compact Plain y"
    using compact_skip_ws [OF assms(2)] by blast
  obtain q where q: "t = q @ r" "\<And>y. compact Plain (q @ y) = compact Plain q @ compact Plain y"
    "\<And>x. num_stop x \<Longrightarrow> h (compact Plain q @ x) = Some (w, x)"
    using assms(3) by (rule squeezesE) (rule that; assumption)
  have "g (compact Plain p @ c # compact Plain q @ x) = Some (u, x)" if "num_stop x" for x
    using assms(6) [OF p(4) [OF assms(5)] q(3) [OF that]] .
  then show ?thesis
    using assms(4) p(1-3) k q(1,2) by (intro squeezesI [of s "p @ k @ c # q"]) simp_all
qed

lemma take_1_skip: "take 1 s = [c] \<Longrightarrow> r = drop 1 s \<Longrightarrow> s = c # r"
  by (cases s) auto

lemma squeezes_pair:
  assumes "skip_ws t = e # r" "\<not> is_ws b" "b \<noteq> dquote" "e \<noteq> dquote"
    and "\<And>x. g (b # e # x) = Some (u, x)"
  shows "squeezes Plain g (b # t) u r"
proof -
  obtain w where w: "t = w @ e # r" "\<not> is_ws e" "\<And>y. compact Plain (w @ y) = compact Plain y"
    using compact_skip_ws [OF assms(1)] by blast
  then show ?thesis using assms(2-5) by (intro squeezesI [of _ "b # w @ [e]"]) simp_all
qed

lemma squeezes_scalar:
  assumes "parse_scalar (c # t) = Some (v, r)" "\<not> is_ws c" "c \<noteq> CHR ''{''" "c \<noteq> CHR ''[''"
  shows "squeezes Plain (parse_value (Suc n) d) (c # t) v r"
proof -
  obtain p where p: "c # t = p @ r" "p \<noteq> []" "\<And>y. compact Plain (p @ y) = compact Plain p @ compact Plain y"
    "\<And>x. num_stop x \<Longrightarrow> parse_scalar (compact Plain p @ x) = Some (v, x)"
    using compact_scalar [OF assms(1)] by (rule squeezesE) (rule that; assumption)
  from p(1,2) obtain p' where "p = c # p'" by (cases p) auto
  then obtain q where "compact Plain p = c # q"
    using assms(2) by (cases "c = dquote") simp_all
  with p show ?thesis
    using parse_value_scalar [OF assms(2-4), of n d] by (intro squeezesI [of _ p]) auto
qed

definition read_key :: "string \<Rightarrow> (string \<times> string) option" where
  "read_key s = (case skip_ws s of [] \<Rightarrow> None | q # s' \<Rightarrow> if q = dquote then unq s' else None)"

definition read_member :: "nat \<Rightarrow> nat \<Rightarrow> string \<Rightarrow> ((string \<times> json) \<times> string) option" where
  "read_member n d s =
    (case read_key s of None \<Rightarrow> None
     | Some (k, r) \<Rightarrow>
       (case skip_ws r of [] \<Rightarrow> None
        | c # r' \<Rightarrow> if c = CHR '':'' then map_option (apfst (Pair k)) (parse_value n d r') else None))"

lemma parse_members_Suc:
  "parse_members (Suc n) d s =
    (case read_member n d s of None \<Rightarrow> None
     | Some (m, r2) \<Rightarrow>
       (case skip_ws r2 of [] \<Rightarrow> None
        | e # r3 \<Rightarrow> if e = CHR '','' then map_option (apfst (Cons m)) (parse_members n d r3)
            else if e = CHR ''}'' then Some ([m], r3) else None))"
  by (auto simp: read_member_def read_key_def split: list.split option.split)

lemma compact_key: "read_key s = Some (k, r) \<Longrightarrow> squeezes Plain read_key s k r"
proof -
  assume "read_key s = Some (k, r)"
  then obtain s' where s: "skip_ws s = dquote # s'" "unq s' = Some (k, r)"
    by (auto simp: read_key_def split: list.splits if_splits)
  obtain p where "s' = p @ r" "\<And>y. compact InStr (p @ y) = compact InStr p @ compact Plain y"
    "\<And>x. num_stop x \<Longrightarrow> unq (compact InStr p @ x) = Some (k, x)"
    using compact_unq [OF s(2)] by (rule squeezesE) (rule that; assumption)
  then have "squeezes Plain read_key (dquote # s') k r"
    by (intro squeezesI [of _ "dquote # p"]) (simp_all add: read_key_def is_ws_def)
  with s(1) show ?thesis by (rule squeezes_ws)
qed

lemma compact_member:
  assumes "read_member n d s = Some (m, r)"
    and IH: "\<And>s v r. parse_value n d s = Some (v, r) \<Longrightarrow> squeezes Plain (parse_value n d) s v r"
  shows "squeezes Plain (read_member n d) s m r"
proof -
  obtain k r1 t v where h: "read_key s = Some (k, r1)" "skip_ws r1 = CHR '':'' # t"
      "parse_value n d t = Some (v, r)" "m = (k, v)"
    using assms(1) by (auto simp: read_member_def split: option.splits list.splits if_splits)
  show ?thesis
    by (rule squeezes_seq [OF compact_key [OF h(1)] h(2) IH [OF h(3)]])
      (simp_all add: h(4) read_member_def is_ws_def)
qed

lemma compact_parse:
  "parse_value n d s = Some (v, r) \<Longrightarrow> squeezes Plain (parse_value n d) s v r"
  "parse_elems n d s = Some (vs, r) \<Longrightarrow> squeezes Plain (parse_elems n d) s vs r"
  "parse_members n d s = Some (ms, r) \<Longrightarrow> squeezes Plain (parse_members n d) s ms r"
proof (induction n arbitrary: d s v vs ms r)
  case (Suc n)
  {
    case 1
    from 1 show ?case
    proof (cases rule: parse_value_SucE)
      case (obj t ms)
      have "squeezes Plain (parse_value (Suc n) d) (CHR ''{'' # t) v r"
        by (rule squeezes_Cons [OF Suc.IH(3) [OF obj(4)]])
          (use parse_members_close obj(2,5) in \<open>auto simp: is_ws_def\<close>)
      with obj(1) show ?thesis by (rule squeezes_ws)
    next
      case (arr t vs)
      have "squeezes Plain (parse_value (Suc n) d) (CHR ''['' # t) v r"
        by (rule squeezes_Cons [OF Suc.IH(2) [OF arr(4)]])
          (use parse_elems_close arr(2,5) in \<open>auto simp: is_ws_def\<close>)
      with arr(1) show ?thesis by (rule squeezes_ws)
    next
      case (scalar c t)
      have "\<not> is_ws c" using scalar(1) by (metis hd_dropWhile list.sel(1) list.distinct(1))
      with scalar show ?thesis by (intro squeezes_ws [OF scalar(1)] squeezes_scalar)
    next
      case (empty_obj t)
      have "squeezes Plain (parse_value (Suc n) d) (CHR ''{'' # t) v r"
        by (rule squeezes_pair [OF take_1_skip [OF empty_obj(3,5)]])
          (simp_all add: is_ws_def empty_obj(2,4))
      with empty_obj(1) show ?thesis by (rule squeezes_ws)
    next
      case (empty_arr t)
      have "squeezes Plain (parse_value (Suc n) d) (CHR ''['' # t) v r"
        by (rule squeezes_pair [OF take_1_skip [OF empty_arr(3,5)]])
          (simp_all add: is_ws_def empty_arr(2,4))
      with empty_arr(1) show ?thesis by (rule squeezes_ws)
    qed
  next
    case 2
    from 2 show ?case
    proof (cases rule: parse_elems_SucE)
      case (more v r1 t ws)
      show ?thesis
        by (rule squeezes_seq [OF Suc.IH(1) [OF more(1)] more(2) Suc.IH(2) [OF more(3)]])
          (simp_all add: is_ws_def more(4) del: parse_value.simps)
    next
      case (last v r1)
      show ?thesis
        by (rule squeezes_close [OF Suc.IH(1) [OF last(1)] last(2)])
          (simp_all add: is_ws_def last(3) del: parse_value.simps)
    qed
  next
    case 3
    then obtain m r2 where m: "read_member n d s = Some (m, r2)"
      by (auto simp: parse_members_Suc simp del: parse_members.simps split: option.splits)
    note M = compact_member [OF m Suc.IH(1)]
    consider (more) t ws where "skip_ws r2 = CHR '','' # t" "parse_members n d t = Some (ws, r)" "ms = m # ws"
      | (last) "skip_ws r2 = CHR ''}'' # r" "ms = [m]"
      using 3 m by (auto simp: parse_members_Suc simp del: parse_members.simps split: list.splits if_splits)
    then show ?case
    proof cases
      case more
      show ?thesis
        by (rule squeezes_seq [OF M more(1) Suc.IH(3) [OF more(2)]])
          (simp_all add: parse_members_Suc is_ws_def more(3) del: parse_members.simps(2))
    next
      case last
      show ?thesis
        by (rule squeezes_close [OF M last(1)])
          (simp_all add: parse_members_Suc is_ws_def last(2) del: parse_members.simps(2))
    qed
  }
qed simp_all


text \<open>
  A value text: the text of one value with no white space around it, which a decoder reads in
  any context that ends a number.
\<close>

definition value_text :: "string \<Rightarrow> json \<Rightarrow> bool" where
  "value_text t v \<longleftrightarrow> t \<noteq> [] \<and> \<not> is_ws (hd t) \<and> (\<forall>x. num_stop x \<longrightarrow> decode_next (t @ x) = Some (v, x))"

lemma value_text_parse: "value_text t v \<Longrightarrow> json_parse t = Some v"
  unfolding value_text_def by (auto simp: json_parse_def dest!: spec [where x = "[]"])

lemma value_text_valid: "value_text t v \<Longrightarrow> json_valid t"
  by (simp add: json_valid_def value_text_parse)

lemma value_text_render:
  assumes "wf_json maxNestingDepth v"
  shows "value_text (render v) v"
  using assms parse_render(1) [OF assms]
  by (auto simp: value_text_def decode_next_def elim: render_hd simp del: parse_value.simps)

lemma compact_value_text:
  assumes "json_parse raw = Some v"
  shows "value_text (compact Plain raw) v"
proof -
  obtain r where r: "decode_next raw = Some (v, r)" "skip_ws r = []"
    using assms by (auto simp: json_parse_def split: option.splits if_splits)
  obtain p where p: "raw = p @ r" "p \<noteq> []" "\<And>y. compact Plain (p @ y) = compact Plain p @ compact Plain y"
    "\<And>x. num_stop x \<Longrightarrow> parse_value (Suc (2 * length raw)) maxNestingDepth (compact Plain p @ x) = Some (v, x)"
    using compact_parse(1) [OF r(1) [unfolded decode_next_def]]
    by (rule squeezesE) (rule that; assumption)
  have "compact Plain r = []" using r(2) by (induction r) (auto split: if_splits)
  then have c: "compact Plain raw = compact Plain p" using p(1,3) by simp
  have d: "decode_next (compact Plain raw @ x) = Some (v, x)" if "num_stop x" for x
    using decode_next_of_fuel [OF p(4) [OF that]] by (simp add: c)
  have "compact Plain raw \<noteq> []" using d [of "[]"] by (auto simp: decode_next_def)
  moreover have "\<not> is_ws (hd (compact m s))" if "compact m s \<noteq> []" "m = Plain" for m s
    using that by (induction m s rule: compact.induct) (auto split: if_splits simp: is_ws_def)
  ultimately show ?thesis using d by (simp add: value_text_def)
qed

lemma marshal_raw_value_text:
  "marshal_raw raw = Some t \<Longrightarrow> \<exists>v. json_parse raw = Some v \<and> value_text t v"
  by (auto simp: marshal_raw_def json_valid_def compact_value_text split: if_splits)

section \<open>Rendered values are compact\<close>

lemma compact_esc_ascii:
  assumes "byte_val c < 0x80"
  shows "compact InStr (esc_ascii c @ z) = esc_ascii c @ compact InStr z"
proof -
  have hex: "hex_val (CHR ''0'') = Some 0" "hex_val (hex_char (byte_val c div 16)) = Some (byte_val c div 16)"
    "hex_val (hex_char (byte_val c mod 16)) = Some (byte_val c mod 16)"
    using assms by (simp add: hex_val_def, (intro hex_val_char; simp)+)
  have plain: "esc_ascii c = [c] \<Longrightarrow> c \<noteq> dquote \<and> c \<noteq> bslash \<and> \<not> is_html c"
    by (auto simp: esc_ascii_def is_html_def split: if_splits)
  have "c \<noteq> CHR 0xE2" using assms by auto
  moreover have "(\<exists>e. esc_ascii c = [bslash, e]) \<or> esc_ascii c = [c] \<or> esc_ascii c = html_escape c"
    by (simp add: esc_ascii_def html_escape_def)
  ultimately show ?thesis
    using plain by (elim disjE exE) (simp_all add: html_escape_def compact_u4 [OF hex(1,1,2,3)] compact_InStr_plain del: compact.simps(3),
      simp_all)
qed

lemma compact_esc_rune:
  assumes "rune_len s \<noteq> 0" "0x80 \<le> byte_val (hd s)"
  shows "compact InStr (esc_rune (take (rune_len s) s) @ z) = esc_rune (take (rune_len s) s) @ compact InStr z"
proof -
  let ?u = "take (rune_len s) s"
  obtain c t where s: "s = c # t" using assms by (cases s) auto
  have c: "c \<noteq> dquote" "c \<noteq> bslash" "\<not> is_html c" using assms(2) by (auto simp: s is_html_def)
  obtain n where n: "rune_len s = Suc n" using assms(1) by (cases "rune_len s") auto
  have conts: "list_all is_cont (take n t)" using rune_len_Cons_cont [of c t "Suc n"] n by (simp add: s)
  have "hex_val (CHR ''0'') = Some 0" "hex_val (CHR ''2'') = Some 2" "hex_val (CHR ''8'') = Some 8"
    "hex_val (CHR ''9'') = Some 9" by (simp_all add: hex_val_def)
  note u = compact_u4 [OF this(2,1,2,3)] compact_u4 [OF this(2,1,2,4)]
  show ?thesis
  proof (cases "line_sep (?u @ z)")
    case True
    have "rune_len (?u @ z) = rune_len s"
      using rune_len_append [of ?u z] rune_len_take [OF assms(1)] assms(1) by simp
    with line_sep_rune(1) [OF True] have "take 3 (?u @ z) = ?u" using rune_len_le [of s] by simp
    with True have "?u = [CHR 0xE2, CHR 0x80, CHR 0xA8] \<or> ?u = [CHR 0xE2, CHR 0x80, CHR 0xA9]"
      by (simp add: line_sep_def)
    then show ?thesis by (elim disjE) (simp_all add: esc_rune_def u del: compact.simps)
  next
    case False
    have "line_sep (?u @ z)" if "?u = [CHR 0xE2, CHR 0x80, b]" "b = CHR 0xA8 \<or> b = CHR 0xA9" for b
      unfolding that(1) using that(2) by (auto simp: line_sep_def)
    with False have "esc_rune ?u = ?u" by (auto simp: esc_rune_def)
    with False c show ?thesis by (simp add: s n [unfolded s] compact_conts [OF conts])
  qed
qed

lemma compact_esc: "compact InStr (esc s @ z) = esc s @ compact InStr z"
proof (induction s rule: esc.induct)
  case (1 s)
  show ?case
  proof (cases "s = []")
    case False
    have "hex_val (CHR ''f'') = Some 15" "hex_val (CHR ''d'') = Some 13" by (simp_all add: hex_val_def)
    then have "compact InStr (fst (esc_unit s) @ y) = fst (esc_unit s) @ compact InStr y" for y
      using compact_esc_ascii compact_esc_rune
      by (simp add: esc_unit_def compact_u4 del: compact.simps)
    with 1 False show ?thesis by (subst (1 2) esc.simps) (simp del: compact.simps)
  qed (simp add: esc.simps)
qed

lemma compact_quote: "compact Plain (quote s @ z) = quote s @ compact Plain z"
  by (simp add: quote_def compact_esc is_ws_def)

lemma compact_render:
  "wf_json d v \<Longrightarrow> compact Plain (render v @ z) = render v @ compact Plain z"
  "wf_elems d vs \<Longrightarrow> compact Plain (render_elems vs @ z) = render_elems vs @ compact Plain z"
  "wf_members d ms \<Longrightarrow> compact Plain (render_members ms @ z) = render_members ms @ compact Plain z"
proof (induction v and vs and ms arbitrary: d z and d z and d z
    rule: render_render_elems_render_members.induct)
  case (3 n)
  then show ?case
    using lex_num_chars [of NBegin n n "[]"] by (intro compact_plain_prefix) (auto simp: valid_num_def)
next
  case (12 k v m ms)
  have "compact Plain (render_members (m # ms) @ z) = render_members (m # ms) @ compact Plain z"
    using "12.prems" by (intro "12.IH"(2) [of d]) (cases m; auto)
  moreover have "compact Plain (render v @ y) = render v @ compact Plain y" for y
    using "12.prems" by (intro "12.IH"(1) [of d]) auto
  ultimately show ?case by (simp add: compact_quote is_ws_def)
qed (auto simp: compact_quote is_ws_def)

lemma compact_canonical: "canonical_text c \<Longrightarrow> compact Plain c = c"
  using compact_render(1) [where z = "[]"] by (auto simp: canonical_text_def)

lemma marshal_raw_canonical: "canonical_text c \<Longrightarrow> marshal_raw c = Some c"
  by (simp add: marshal_raw_def canonical_text_valid compact_canonical)

lemma canonical_value_text: "canonical_text c \<Longrightarrow> \<exists>v. value_text c v"
  by (auto simp: canonical_text_def intro: value_text_render)

text \<open>Re-encoding a raw message as part of a larger document keeps its value.\<close>

lemma raw_message_keeps_value:
  assumes "marshal_raw raw = Some t"
  shows "\<exists>v. json_parse raw = Some v \<and> json_parse t = Some v"
  using marshal_raw_value_text [OF assms] value_text_parse by blast

end
