(* ===== verification/Marshal.thy ===== *)
theory Marshal
  imports Compact GoTime
begin

text \<open>
  Go structs as JSON: how \<open>json.Marshal\<close> writes the fields of a struct and how \<open>json.Unmarshal\<close>
  sets them. A struct field of type \<open>json.RawMessage\<close> keeps the exact bytes of its member, so
  members are read here with their raw text.
\<close>

section \<open>Writing\<close>

fun members_text :: "(string \<times> string) list \<Rightarrow> string" where
  "members_text [] = []"
| "members_text [(k, t)] = quote k @ CHR '':'' # t"
| "members_text ((k, t) # m # ms) = quote k @ CHR '':'' # t @ CHR '','' # members_text (m # ms)"

definition obj_text :: "(string \<times> string) list \<Rightarrow> string" where
  "obj_text ms = CHR ''{'' # members_text ms @ ''}''"

text \<open>\<open>Time.MarshalJSON\<close> on a UTC time: an error outside the years 0 to 9999.\<close>

definition marshal_time :: "time \<Rightarrow> string option" where
  "marshal_time t = (if time_ok t then Some (dquote # formatRFC3339Nano t @ [dquote]) else None)"

definition marshal_bool :: "bool \<Rightarrow> string" where
  "marshal_bool b = (if b then ''true'' else ''false'')"

text \<open>The members of a struct in field order; an empty field with \<open>omitempty\<close> has no member, and
  the error of one field is the error of the whole.\<close>

fun marshal_members :: "(string \<times> string option) list \<Rightarrow> (string \<times> string) list option" where
  "marshal_members [] = Some []"
| "marshal_members ((k, None) # ms) = None"
| "marshal_members ((k, Some t) # ms) = map_option (Cons (k, t)) (marshal_members ms)"

definition marshal_struct :: "(string \<times> string option) list \<Rightarrow> string option" where
  "marshal_struct ms = map_option obj_text (marshal_members ms)"

section \<open>Reading\<close>

definition raw_slice :: "string \<Rightarrow> string \<Rightarrow> string" where
  "raw_slice s r = take (length s - length r) s"

function raw_members :: "string \<Rightarrow> (string \<times> string) list option" where
  "raw_members s =
    (case read_key s of None \<Rightarrow> None
     | Some (k, r) \<Rightarrow>
       (case skip_ws r of [] \<Rightarrow> None
        | c # t \<Rightarrow>
          if c \<noteq> CHR '':'' then None
          else (case decode_next t of None \<Rightarrow> None
            | Some (v, r2) \<Rightarrow>
              (case skip_ws r2 of [] \<Rightarrow> None
               | e # r3 \<Rightarrow>
                 if e = CHR '','' then map_option (Cons (k, raw_slice (skip_ws t) r2)) (raw_members r3)
                 else if e = CHR ''}'' then Some [(k, raw_slice (skip_ws t) r2)]
                 else None))))"
  by pat_completeness auto

lemma read_key_shorter: "read_key s = Some (k, r) \<Longrightarrow> length r < length s"
  by (fastforce simp: read_key_def dest!: unq_shorter skip_ws_Cons_le split: list.splits if_splits)

lemma decode_next_shorter: "decode_next s = Some (v, r) \<Longrightarrow> length r < length s"
  unfolding decode_next_def by (rule parse_shorter(1))

termination raw_members
  by (relation "measure length")
    (auto dest!: read_key_shorter decode_next_shorter skip_ws_Cons_le)

declare raw_members.simps [simp del]

definition raw_object :: "string \<Rightarrow> (string \<times> string) list option" where
  "raw_object s =
    (case skip_ws s of [] \<Rightarrow> None
     | c # r \<Rightarrow>
       if c \<noteq> CHR ''{'' then None
       else if take 1 (skip_ws r) = ''}'' then Some []
       else raw_members r)"

function raw_elems :: "string \<Rightarrow> string list option" where
  "raw_elems s =
    (case decode_next s of None \<Rightarrow> None
     | Some (v, r) \<Rightarrow>
       (case skip_ws r of [] \<Rightarrow> None
        | e # r2 \<Rightarrow>
          if e = CHR '','' then map_option (Cons (raw_slice (skip_ws s) r)) (raw_elems r2)
          else if e = CHR '']'' then Some [raw_slice (skip_ws s) r]
          else None))"
  by pat_completeness auto

termination raw_elems
  by (relation "measure length") (auto dest!: decode_next_shorter skip_ws_Cons_le)

declare raw_elems.simps [simp del]

definition raw_array :: "string \<Rightarrow> string list option" where
  "raw_array s =
    (case skip_ws s of [] \<Rightarrow> None
     | c # r \<Rightarrow>
       if c \<noteq> CHR ''['' then None
       else if take 1 (skip_ws r) = '']'' then Some []
       else raw_elems r)"

text \<open>The field for a key: an exact match first, then one that ignores case.\<close>

definition match_field :: "string list \<Rightarrow> string \<Rightarrow> string option" where
  "match_field fields key =
    (if key \<in> set fields then Some key else find (\<lambda>f. fold_name f = fold_name key) fields)"

text \<open>
  Members set fields in the order of the text. A member of the wrong type makes the whole call
  an error, and no caller uses a value that came with an error.
\<close>

fun set_members :: "(string \<Rightarrow> string \<Rightarrow> 'a \<Rightarrow> 'a option) \<Rightarrow> (string \<times> string) list \<Rightarrow> 'a \<Rightarrow> 'a option" where
  "set_members upd [] x = Some x"
| "set_members upd ((k, raw) # ms) x = (case upd k raw x of None \<Rightarrow> None | Some y \<Rightarrow> set_members upd ms y)"

definition unmarshal_struct ::
    "string list \<Rightarrow> (string \<Rightarrow> string \<Rightarrow> 'a \<Rightarrow> 'a option) \<Rightarrow> 'a \<Rightarrow> string \<Rightarrow> 'a option" where
  "unmarshal_struct fields upd x s =
    (case json_parse s of
       None \<Rightarrow> None
     | Some JNull \<Rightarrow> Some x
     | Some v \<Rightarrow>
       (case raw_object s of None \<Rightarrow> None
        | Some ms \<Rightarrow> set_members
            (\<lambda>k raw y. case match_field fields k of None \<Rightarrow> Some y | Some f \<Rightarrow> upd f raw y) ms x))"

definition dec_string :: "string \<Rightarrow> string \<Rightarrow> string option" where
  "dec_string raw old = (case json_parse raw of Some (JStr s) \<Rightarrow> Some s | Some JNull \<Rightarrow> Some old | _ \<Rightarrow> None)"

definition dec_int :: "string \<Rightarrow> int \<Rightarrow> int option" where
  "dec_int raw old = (case json_parse raw of Some (JNum t) \<Rightarrow> ParseInt t | Some JNull \<Rightarrow> Some old | _ \<Rightarrow> None)"

definition dec_bool :: "string \<Rightarrow> bool \<Rightarrow> bool option" where
  "dec_bool raw old = (case json_parse raw of Some (JBool b) \<Rightarrow> Some b | Some JNull \<Rightarrow> Some old | _ \<Rightarrow> None)"

text \<open>\<open>Time.UnmarshalJSON\<close> parses the bytes between the quotes as they are.\<close>

definition dec_time :: "string \<Rightarrow> time \<Rightarrow> time option" where
  "dec_time raw old =
    (if raw = ''null'' then Some old
     else if length raw < 2 \<or> hd raw \<noteq> dquote \<or> last raw \<noteq> dquote then None
     else parseRFC3339 (butlast (tl raw)))"

definition dec_time_ptr :: "string \<Rightarrow> time option option" where
  "dec_time_ptr raw = (if raw = ''null'' then Some None else map_option Some (dec_time raw 0))"

section \<open>Reading back a struct\<close>

lemma obj_text_hd: "skip_ws (obj_text ms @ x) = obj_text ms @ x"
  by (simp add: obj_text_def is_ws_def)

lemma read_key_quote: "valid_utf8 k \<Longrightarrow> read_key (quote k @ x) = Some (k, x)"
  by (simp add: read_key_def quote_def is_ws_def unq_esc)

lemma value_text_skip_ws: "value_text t v \<Longrightarrow> skip_ws (t @ x) = t @ x"
  by (cases t) (auto simp: value_text_def)

lemma raw_members_text:
  assumes "ms \<noteq> []" "\<forall>(k, t) \<in> set ms. valid_utf8 k \<and> (\<exists>v. value_text t v)"
  shows "raw_members (members_text ms @ CHR ''}'' # x) = Some ms"
  using assms
proof (induction ms rule: members_text.induct)
  case (2 k t)
  then obtain v where k: "valid_utf8 k" and v: "value_text t v" by auto
  then have "decode_next (t @ CHR ''}'' # x) = Some (v, CHR ''}'' # x)" by (simp add: value_text_def)
  then show ?case
    using value_text_skip_ws [OF v]
    by (subst raw_members.simps) (simp add: read_key_quote k is_ws_def raw_slice_def)
next
  case (3 k t m ms)
  then obtain v where k: "valid_utf8 k" and v: "value_text t v" by auto
  have IH: "raw_members (members_text (m # ms) @ CHR ''}'' # x) = Some (m # ms)"
    using "3.prems" by (intro "3.IH") auto
  have "decode_next (t @ CHR '','' # y) = Some (v, CHR '','' # y)" for y using v by (simp add: value_text_def)
  then show ?case
    using value_text_skip_ws [OF v] IH
    by (subst raw_members.simps) (simp add: read_key_quote k is_ws_def raw_slice_def)
qed simp

lemma raw_object_text:
  assumes "\<forall>(k, t) \<in> set ms. valid_utf8 k \<and> (\<exists>v. value_text t v)"
  shows "raw_object (obj_text ms) = Some ms"
proof (cases "ms = []")
  case False
  then obtain y where "members_text ms = dquote # y"
    by (cases ms rule: members_text.cases) (auto simp: quote_def)
  then show ?thesis
    using raw_members_text [OF False assms, of "[]"] by (simp add: raw_object_def obj_text_def is_ws_def)
qed (simp add: raw_object_def obj_text_def is_ws_def)

lemma json_parse_brace:
  assumes "json_parse (CHR ''{'' # s) = Some v"
  shows "\<exists>ms. v = JObj ms"
proof -
  obtain n r where "parse_value (Suc n) maxNestingDepth (CHR ''{'' # s) = Some (v, r)"
    using assms by (auto simp: json_parse_def decode_next_def simp del: parse_value.simps
        split: option.splits if_splits)
  then show ?thesis by (rule parse_value_SucE) (simp_all add: is_ws_def)
qed

lemma unmarshal_obj_text:
  assumes "json_valid (obj_text ms)" "\<forall>(k, t) \<in> set ms. valid_utf8 k \<and> (\<exists>v. value_text t v)"
  shows "unmarshal_struct fields upd x (obj_text ms) = set_members
    (\<lambda>k raw y. case match_field fields k of None \<Rightarrow> Some y | Some f \<Rightarrow> upd f raw y) ms x"
proof -
  obtain v where v: "json_parse (obj_text ms) = Some v"
    using assms(1) by (auto simp: json_valid_def)
  then obtain vs where "v = JObj vs" using json_parse_brace unfolding obj_text_def by blast
  with v show ?thesis by (simp add: unmarshal_struct_def raw_object_text [OF assms(2)])
qed

lemma match_field_exact [simp]: "f \<in> set fields \<Longrightarrow> match_field fields f = Some f"
  by (simp add: match_field_def)

section \<open>Texts of field values\<close>

lemma value_text_quote: "valid_utf8 s \<Longrightarrow> value_text (quote s) (JStr s)"
  using value_text_render [of "JStr s"] by simp

lemma value_text_bool: "value_text (marshal_bool b) (JBool b)"
  using value_text_render [of "JBool b"] by (simp add: marshal_bool_def)

lemma dec_string_quote [simp]: "valid_utf8 s \<Longrightarrow> dec_string (quote s) old = Some s"
  by (simp add: dec_string_def value_text_parse [OF value_text_quote])

lemma dec_bool_text [simp]: "dec_bool (marshal_bool b) old = Some b"
  by (simp add: dec_bool_def value_text_parse [OF value_text_bool])

lemma showNat_hd: "0 < n \<Longrightarrow> hd (showNat n) \<noteq> CHR ''0''"
proof (induction n rule: showNat.induct)
  case (1 n)
  show ?case
  proof (cases "n < 10")
    case True
    have "of_char (digit_char n) \<noteq> (of_char (CHR ''0'') :: nat)"
      using 1 True by (simp add: of_char_digit_char)
    then show ?thesis using True by (subst showNat.simps) auto
  next
    case False
    with 1 show ?thesis by (subst showNat.simps) (simp add: hd_append)
  qed
qed

lemma lex_num_digits: "list_all isDigit s \<Longrightarrow> lex_num NInt s = Some (s, [])"
  by (induction s) (auto simp: num_final_def)

lemma valid_num_showNat:
  "lex_num NNeg (showNat n) = Some (showNat n, []) \<and> lex_num NBegin (showNat n) = Some (showNat n, [])"
proof (cases "n = 0")
  case True
  then have "showNat n = ''0''"
    by (subst showNat.simps) (simp add: digit_char_def char_of_def bit_iff_odd_drop_bit drop_bit_eq_div)
  then show ?thesis by (simp add: num_final_def)
next
  case False
  obtain c s where s: "showNat n = c # s" by (cases "showNat n") auto
  have d: "isDigit c" "list_all isDigit s" using showNat_digits [of n] by (simp_all add: s)
  have "c \<noteq> CHR ''0''" using showNat_hd [of n] False by (simp add: s)
  moreover have "c \<noteq> CHR ''-''" using d(1) by auto
  ultimately show ?thesis using d lex_num_digits [OF d(2)] by (simp add: s)
qed

lemma valid_num_FormatInt: "valid_num (FormatInt i)"
  by (simp add: valid_num_def FormatInt_def valid_num_showNat)

lemma value_text_int: "value_text (FormatInt i) (JNum (FormatInt i))"
  using value_text_render [of "JNum (FormatInt i)"] by (simp add: valid_num_FormatInt)

lemma dec_int_text [simp]: "in_int64 i \<Longrightarrow> dec_int (FormatInt i) old = Some i"
  by (simp add: dec_int_def value_text_parse [OF value_text_int] ParseInt_FormatInt)

definition plain_char :: "char \<Rightarrow> bool" where
  "plain_char c \<longleftrightarrow> isDigit c \<or> c = CHR ''-'' \<or> c = CHR '':'' \<or> c = CHR ''.'' \<or> c = CHR ''T'' \<or> c = CHR ''Z''"

lemma esc_plain: "list_all plain_char s \<Longrightarrow> esc s = s"
proof (induction s)
  case (Cons c s)
  then have c: "plain_char c" by simp
  have b: "byte_val c < 0x80" "0x20 \<le> byte_val c" using c by (auto simp: plain_char_def isDigit_iff)
  have "c \<noteq> dquote \<and> c \<noteq> bslash \<and> c \<noteq> CHR ''<'' \<and> c \<noteq> CHR ''>'' \<and> c \<noteq> CHR ''&''"
    using c unfolding plain_char_def by (elim disjE) (auto simp: isDigit_iff)
  moreover have "c \<noteq> CHR 0x08 \<and> c \<noteq> CHR 0x0C \<and> c \<noteq> CHR 0x0A \<and> c \<noteq> CHR 0x0D \<and> c \<noteq> CHR 0x09"
    using b(2) by auto
  ultimately have "esc_ascii c = [c]" using b by (simp add: esc_ascii_def)
  with Cons b show ?case by (subst esc.simps) (simp add: esc_unit_def)
qed (simp add: esc.simps)

lemma plain_pad: "list_all plain_char (pad w n)"
  using showNat_digits [of n] by (auto simp: pad_def list_all_iff plain_char_def isDigit_iff)

lemma plain_time: "list_all plain_char (formatRFC3339Nano t)"
proof -
  have "list_all plain_char (strip_zeros (pad 9 n))" for n
    using plain_pad [of 9 n] by (auto simp: strip_zeros_def list_all_iff dest!: set_dropWhileD)
  then have "list_all plain_char (format_frac n)" for n by (simp add: format_frac_def plain_char_def)
  moreover have "list_all plain_char (format_year y)" for y
    by (simp add: format_year_def plain_pad plain_char_def)
  ultimately show ?thesis
    by (simp add: formatRFC3339Nano_def Let_def plain_pad plain_char_def split: prod.split)
qed

lemma marshal_time_quote: "marshal_time t = Some x \<Longrightarrow> x = quote (formatRFC3339Nano t) \<and> time_ok t"
  using esc_plain [OF plain_time [of t]] by (auto simp: marshal_time_def quote_def split: if_splits)

lemma valid_utf8_time: "valid_utf8 (formatRFC3339Nano t)"
  using plain_time [of t]
  by (intro valid_utf8_ascii) (auto simp: list_all_iff plain_char_def isDigit_iff)

lemma value_text_time: "marshal_time t = Some x \<Longrightarrow> \<exists>v. value_text x v"
  using value_text_quote [OF valid_utf8_time [of t]] by (auto dest!: marshal_time_quote)

lemma dec_time_text: "marshal_time t = Some x \<Longrightarrow> dec_time x old = Some t"
  by (auto simp: marshal_time_def dec_time_def parse_formatRFC3339Nano split: if_splits)

end
