(* ===== verification/Records.thy ===== *)
theory Records
  imports Database Marshal
begin

text \<open>
  The values of package \<open>store\<close>: the structs of \<open>store.go\<close>, their JSON forms, the scanners that
  read them from rows (\<open>reads.go\<close>, \<open>verify.go\<close>), identifiers and version preconditions, and the
  event journal's writer (\<open>events.go\<close>).
\<close>

section \<open>Structs\<close>

record AuditContext =
  a_Actor :: string
  a_Role :: string
  a_RequestID :: string

record StateChange =
  sc_State :: string
  sc_Justification :: string
  sc_Detail :: string

record VersionPrecondition =
  vp_Any :: bool
  vp_Versions :: "int list"

record Capture =
  c_MaintenanceID :: string
  c_CapturedAt :: time
  c_Payload :: string
  c_SHA256 :: string

record CaptureResult =
  cres_Capture :: Capture
  cres_Created :: bool

record Maintenance =
  m_ID :: string
  m_State :: string
  m_ChangeTicket :: string
  m_WorkflowVersion :: string
  m_Metadata :: string
  m_Version :: int
  m_CreatedAt :: time
  m_UpdatedAt :: time

record Target =
  t_ID :: string
  t_MaintenanceID :: string
  t_LockKey :: string
  t_State :: string
  t_OriginalState :: string
  t_Kind :: string
  t_Host :: string
  t_ObservedAt :: "time option"
  t_Metadata :: string
  t_Version :: int
  t_CreatedAt :: time
  t_UpdatedAt :: time

record MaintenanceAggregate =
  ma_Maintenance :: Maintenance
  ma_Targets :: "Target list"

record TargetTransitionResult =
  ttr_Target :: Target
  ttr_MaintenanceVersion :: int

record Event =
  e_ID :: int
  e_Type :: string
  e_OccurredAt :: time
  e_RequestID :: string
  e_Actor :: string
  e_Role :: string
  e_ResourceType :: string
  e_ResourceID :: string
  e_MaintenanceID :: string
  e_TargetID :: string
  e_FromState :: string
  e_ToState :: string
  e_FromVersion :: int
  e_ToVersion :: int
  e_AggregateVersion :: int
  e_Payload :: string

text \<open>The zero value of a struct: composite literals in the sources set some fields of it.\<close>

definition zero_Maintenance :: Maintenance where
  "zero_Maintenance = \<lparr>m_ID = '''', m_State = '''', m_ChangeTicket = '''', m_WorkflowVersion = '''',
     m_Metadata = '''', m_Version = 0, m_CreatedAt = 0, m_UpdatedAt = 0\<rparr>"

definition zero_Event :: Event where
  "zero_Event = \<lparr>e_ID = 0, e_Type = '''', e_OccurredAt = 0, e_RequestID = '''', e_Actor = '''', e_Role = '''',
     e_ResourceType = '''', e_ResourceID = '''', e_MaintenanceID = '''', e_TargetID = '''', e_FromState = '''',
     e_ToState = '''', e_FromVersion = 0, e_ToVersion = 0, e_AggregateVersion = 0, e_Payload = ''''\<rparr>"

section \<open>Small operations\<close>

definition auditValues :: "AuditContext \<Rightarrow> string \<times> string \<times> string" where
  "auditValues a =
    (if a_Actor a = '''' then ''system'' else a_Actor a,
     if a_Role a = '''' then ''system'' else a_Role a,
     if a_RequestID a = '''' then ''system'' else a_RequestID a)"

definition isAdmin :: "string \<Rightarrow> bool" where
  "isAdmin role \<longleftrightarrow> role = ''admin''"

definition id_alnum :: "char \<Rightarrow> bool" where
  "id_alnum c \<longleftrightarrow> (CHR ''a'' \<le> c \<and> c \<le> CHR ''z'') \<or> (CHR ''A'' \<le> c \<and> c \<le> CHR ''Z'')
     \<or> (CHR ''0'' \<le> c \<and> c \<le> CHR ''9'')"

text \<open>Every accepted rune is one byte, so the loop over runes is a loop over bytes.\<close>

definition validID :: "string \<Rightarrow> bool" where
  "validID v \<longleftrightarrow> \<not> (length v < 1 \<or> length v > 200)
     \<and> (\<forall>i < length v. id_alnum (v ! i) \<or> (i > 0 \<and> v ! i \<in> set ''._:@+-''))"

fun vp_match :: "VersionPrecondition \<Rightarrow> int \<Rightarrow> bool" where
  "vp_match p version = (if vp_Any p then True else list_ex (\<lambda>candidate. candidate = version) (vp_Versions p))"

definition vp_require ::
    "VersionPrecondition \<Rightarrow> int \<Rightarrow> string \<Rightarrow> string \<Rightarrow> string \<Rightarrow> string \<Rightarrow> go_error + unit" where
  "vp_require p version resourceType resourceID state requested =
    (if \<not> vp_Any p \<and> length (vp_Versions p) = 0 then Inl (Sentinel ErrPreconditionRequired)
     else if \<not> vp_match p version
       then Inl (conflictError (Some ErrVersionConflict) (resourceType @ ''_version_changed'') resourceType
              resourceID 0 version state requested)
     else Inr ())"

section \<open>JSON forms\<close>

definition omitempty :: "string \<Rightarrow> string \<Rightarrow> string option \<Rightarrow> (string \<times> string option) list" where
  "omitempty v k t = (if v = '''' then [] else [(k, t)])"

definition marshal_Maintenance :: "Maintenance \<Rightarrow> string option" where
  "marshal_Maintenance m = marshal_struct
    ([(''id'', Some (quote (m_ID m))), (''state'', Some (quote (m_State m)))]
     @ omitempty (m_ChangeTicket m) ''change_ticket'' (Some (quote (m_ChangeTicket m)))
     @ omitempty (m_WorkflowVersion m) ''workflow_version'' (Some (quote (m_WorkflowVersion m)))
     @ omitempty (m_Metadata m) ''metadata'' (marshal_raw (m_Metadata m))
     @ [(''version'', Some (FormatInt (m_Version m))), (''created_at'', marshal_time (m_CreatedAt m)),
        (''updated_at'', marshal_time (m_UpdatedAt m))])"

definition Maintenance_fields :: "string list" where
  "Maintenance_fields = [''id'', ''state'', ''change_ticket'', ''workflow_version'', ''metadata'', ''version'',
     ''created_at'', ''updated_at'']"

definition set_Maintenance :: "string \<Rightarrow> string \<Rightarrow> Maintenance \<Rightarrow> Maintenance option" where
  "set_Maintenance f raw m =
    (if f = ''id'' then map_option (\<lambda>x. m\<lparr>m_ID := x\<rparr>) (dec_string raw (m_ID m))
     else if f = ''state'' then map_option (\<lambda>x. m\<lparr>m_State := x\<rparr>) (dec_string raw (m_State m))
     else if f = ''change_ticket'' then map_option (\<lambda>x. m\<lparr>m_ChangeTicket := x\<rparr>) (dec_string raw (m_ChangeTicket m))
     else if f = ''workflow_version'' then map_option (\<lambda>x. m\<lparr>m_WorkflowVersion := x\<rparr>) (dec_string raw (m_WorkflowVersion m))
     else if f = ''metadata'' then Some (m\<lparr>m_Metadata := raw\<rparr>)
     else if f = ''version'' then map_option (\<lambda>x. m\<lparr>m_Version := x\<rparr>) (dec_int raw (m_Version m))
     else if f = ''created_at'' then map_option (\<lambda>x. m\<lparr>m_CreatedAt := x\<rparr>) (dec_time raw (m_CreatedAt m))
     else map_option (\<lambda>x. m\<lparr>m_UpdatedAt := x\<rparr>) (dec_time raw (m_UpdatedAt m)))"

definition unmarshal_Maintenance :: "string \<Rightarrow> Maintenance option" where
  "unmarshal_Maintenance s = unmarshal_struct Maintenance_fields set_Maintenance zero_Maintenance s"

section \<open>Rows\<close>

definition scanMaintenance :: "maintenance_row \<Rightarrow> Maintenance" where
  "scanMaintenance r = \<lparr>m_ID = mr_id r, m_State = mr_state r, m_ChangeTicket = mr_change_ticket r,
     m_WorkflowVersion = mr_workflow_version r, m_Metadata = mr_metadata_json r, m_Version = mr_version r,
     m_CreatedAt = parse_time_or_zero (mr_created_at r), m_UpdatedAt = parse_time_or_zero (mr_updated_at r)\<rparr>"

definition scanTarget :: "target_row \<Rightarrow> Target" where
  "scanTarget r = \<lparr>t_ID = tr_id r, t_MaintenanceID = tr_maintenance_id r, t_LockKey = tr_lock_key r,
     t_State = tr_state r, t_OriginalState = tr_original_state r, t_Kind = tr_kind r, t_Host = tr_host r,
     t_ObservedAt = map_option parse_time_or_zero (tr_observed_at r), t_Metadata = tr_metadata_json r,
     t_Version = tr_version r, t_CreatedAt = parse_time_or_zero (tr_created_at r),
     t_UpdatedAt = parse_time_or_zero (tr_updated_at r)\<rparr>"

definition scanCapture :: "capture_row \<Rightarrow> Capture" where
  "scanCapture r = \<lparr>c_MaintenanceID = cr_maintenance_id r, c_CapturedAt = parse_time_or_zero (cr_captured_at r),
     c_Payload = cr_payload_json r, c_SHA256 = cr_sha256 r\<rparr>"

definition null_string :: "string option \<Rightarrow> string" where
  "null_string x = (case x of None \<Rightarrow> '''' | Some s \<Rightarrow> s)"

definition null_int64 :: "int option \<Rightarrow> int" where
  "null_int64 x = (case x of None \<Rightarrow> 0 | Some i \<Rightarrow> i)"

definition scanEvent :: "event_row \<Rightarrow> Event" where
  "scanEvent r = \<lparr>e_ID = er_journal_id r, e_Type = er_event_type r,
     e_OccurredAt = parse_time_or_zero (er_occurred_at r), e_RequestID = er_request_id r, e_Actor = er_actor r,
     e_Role = er_role r, e_ResourceType = er_resource_type r, e_ResourceID = er_resource_id r,
     e_MaintenanceID = null_string (er_maintenance_id r), e_TargetID = null_string (er_target_id r),
     e_FromState = null_string (er_from_state r), e_ToState = null_string (er_to_state r),
     e_FromVersion = null_int64 (er_from_version r), e_ToVersion = null_int64 (er_to_version r),
     e_AggregateVersion = null_int64 (er_aggregate_version r), e_Payload = er_payload_json r\<rparr>"

definition nullText :: "string \<Rightarrow> string option" where
  "nullText v = (if v = '''' then None else Some v)"

definition nullInt :: "int \<Rightarrow> int option" where
  "nullInt v = (if v = 0 then None else Some v)"

text \<open>\<open>SELECT ... WHERE id=?\<close> with its scanner; \<open>sql.ErrNoRows\<close> becomes \<open>ErrNotFound\<close>.\<close>

definition maintenance_by_id :: "string \<Rightarrow> database \<Rightarrow> maintenance_row option" where
  "maintenance_by_id i db = find (\<lambda>r. mr_id r = i) (maintenance_t db)"

definition target_by_id :: "string \<Rightarrow> string \<Rightarrow> database \<Rightarrow> target_row option" where
  "target_by_id i t db = find (\<lambda>r. tr_maintenance_id r = i \<and> tr_id r = t) (targets_t db)"

definition capture_by_id :: "string \<Rightarrow> database \<Rightarrow> capture_row option" where
  "capture_by_id i db = find (\<lambda>r. cr_maintenance_id r = i) (captures_t db)"

definition rowT :: "'a option \<Rightarrow> 'a tx" where
  "rowT r = (case r of None \<Rightarrow> throwT (Sentinel ErrNotFound) | Some x \<Rightarrow> returnT x)"

definition loadMaintenance :: "env \<Rightarrow> string \<Rightarrow> Maintenance tx" where
  "loadMaintenance E i = bindT (queryT E (maintenance_by_id i)) (\<lambda>r. rowT (map_option scanMaintenance r))"

definition loadTarget :: "env \<Rightarrow> string \<Rightarrow> string \<Rightarrow> Target tx" where
  "loadTarget E i t = bindT (queryT E (target_by_id i t)) (\<lambda>r. rowT (map_option scanTarget r))"

section \<open>The event journal\<close>

definition event_row_of :: "Event \<Rightarrow> event_row" where
  "event_row_of ev = \<lparr>er_journal_id = 0, er_event_type = e_Type ev,
     er_occurred_at = formatRFC3339Nano (e_OccurredAt ev), er_request_id = e_RequestID ev,
     er_actor = e_Actor ev, er_role = e_Role ev, er_resource_type = e_ResourceType ev,
     er_resource_id = e_ResourceID ev, er_maintenance_id = nullText (e_MaintenanceID ev),
     er_target_id = nullText (e_TargetID ev), er_from_state = nullText (e_FromState ev),
     er_to_state = nullText (e_ToState ev), er_from_version = nullInt (e_FromVersion ev),
     er_to_version = nullInt (e_ToVersion ev), er_aggregate_version = nullInt (e_AggregateVersion ev),
     er_payload_json = e_Payload ev\<rparr>"

definition appendEvent :: "env \<Rightarrow> Event \<Rightarrow> unit tx" where
  "appendEvent E ev =
    (if e_Type ev = '''' \<or> e_ResourceType ev = '''' \<or> e_ResourceID ev = '''' \<or> e_OccurredAt ev = 0
       then throwT (Wrapped ErrInvalid ''event identity is required'')
     else
       let (actor, role, requestID) = auditValues \<lparr>a_Actor = e_Actor ev, a_Role = e_Role ev, a_RequestID = e_RequestID ev\<rparr>;
           payload = (if length (e_Payload ev) = 0 then ''{}'' else e_Payload ev)
       in if \<not> json_valid payload then throwT (Wrapped ErrInvalid ''event payload must be valid JSON'')
          else execT E (insert_event E (event_row_of
            (ev\<lparr>e_Actor := actor, e_Role := role, e_RequestID := requestID, e_Payload := payload\<rparr>))))"

definition eventPayload :: "string \<Rightarrow> string \<Rightarrow> go_error + string" where
  "eventPayload detail justification =
    (let detail = (if length detail = 0 then ''{}'' else detail)
     in if \<not> json_valid detail then Inl (Wrapped ErrInvalid ''detail must be valid JSON'')
        else if length detail > 64 * 1024 then Inl (Wrapped ErrInvalid ''detail exceeds 64 KiB'')
        else (case marshal_struct (omitempty justification ''justification'' (Some (quote justification))
                @ [(''detail'', marshal_raw detail)]) of
            None \<Rightarrow> Inl (PlainError ''json: error calling MarshalJSON'')
          | Some payload \<Rightarrow> Inr payload))"

end
