(* ===== verification/Cursor.thy ===== *)
theory Cursor
  imports Errors
begin

text \<open>
  Page cursors: unpadded URL base64 as package \<open>encoding/base64\<close> reads and writes it
  (\<open>RawURLEncoding\<close>: line breaks are skipped, unused trailing bits are ignored),
  \<open>encodeCursor\<close>, \<open>decodeCursor\<close> and \<open>pageLimit\<close> of \<open>store.go\<close>, and \<open>decodeEventCursor\<close> of
  \<open>reads.go\<close>.
\<close>

section \<open>Base64\<close>

definition b64_char :: "nat \<Rightarrow> char" where
  "b64_char n =
    (if n < 26 then char_of (65 + n) else if n < 52 then char_of (71 + n)
     else if n < 62 then char_of (n - 4) else if n = 62 then CHR ''-'' else CHR ''_'')"

definition b64_val :: "char \<Rightarrow> nat option" where
  "b64_val c =
    (let n = of_char c :: nat in
     if 65 \<le> n \<and> n \<le> 90 then Some (n - 65)
     else if 97 \<le> n \<and> n \<le> 122 then Some (n - 71)
     else if 48 \<le> n \<and> n \<le> 57 then Some (n + 4)
     else if c = CHR ''-'' then Some 62
     else if c = CHR ''_'' then Some 63
     else None)"

fun b64_values :: "string \<Rightarrow> nat list" where
  "b64_values (a # b # c # s) =
     [of_char a div 4, of_char a mod 4 * 16 + of_char b div 16,
      of_char b mod 16 * 4 + of_char c div 64, of_char c mod 64] @ b64_values s"
| "b64_values [a, b] = [of_char a div 4, of_char a mod 4 * 16 + of_char b div 16, of_char b mod 16 * 4]"
| "b64_values [a] = [of_char a div 4, of_char a mod 4 * 16]"
| "b64_values [] = []"

definition EncodeToString :: "string \<Rightarrow> string" where
  "EncodeToString s = map b64_char (b64_values s)"

text \<open>\<open>decodeQuantum\<close> on the values of the alphabet; one left-over value is an error.\<close>

fun b64_bytes :: "nat list \<Rightarrow> string option" where
  "b64_bytes (w # x # y # z # vs) =
     map_option (append [char_of (w * 4 + x div 16), char_of (x mod 16 * 16 + y div 4),
       char_of (y mod 4 * 64 + z)]) (b64_bytes vs)"
| "b64_bytes [w, x, y] = Some [char_of (w * 4 + x div 16), char_of (x mod 16 * 16 + y div 4)]"
| "b64_bytes [w, x] = Some [char_of (w * 4 + x div 16)]"
| "b64_bytes [w] = None"
| "b64_bytes [] = Some []"

definition DecodeString :: "string \<Rightarrow> string option" where
  "DecodeString s =
    (let vs = map b64_val (filter (\<lambda>c. c \<noteq> CHR 0x0A \<and> c \<noteq> CHR 0x0D) s)
     in if list_ex (\<lambda>v. v = None) vs then None else b64_bytes (map the vs))"

section \<open>Cursors\<close>

definition encodeCursor :: "string \<Rightarrow> string" where
  "encodeCursor v = EncodeToString v"

definition decodeCursor :: "string \<Rightarrow> go_error + string" where
  "decodeCursor v =
    (if TrimSpace v = '''' then Inr ''''
     else (case DecodeString v of
        None \<Rightarrow> Inl (Wrapped ErrInvalid ''invalid cursor'')
      | Some decoded \<Rightarrow>
          if length decoded = 0 then Inl (Wrapped ErrInvalid ''invalid cursor'') else Inr decoded))"

definition decodeEventCursor :: "string \<Rightarrow> go_error + int" where
  "decodeEventCursor v =
    (case decodeCursor v of
       Inl e \<Rightarrow> Inl e
     | Inr decoded \<Rightarrow>
         if decoded = '''' then Inr 0
         else (case ParseInt decoded of
            None \<Rightarrow> Inl (Wrapped ErrInvalid ''invalid event cursor'')
          | Some i \<Rightarrow> if i < 1 then Inl (Wrapped ErrInvalid ''invalid event cursor'') else Inr i))"

definition pageLimit :: "int \<Rightarrow> int" where
  "pageLimit v = (if v \<le> 0 then 100 else if v > 200 then 200 else v)"

section \<open>Round trips\<close>

lemma b64_val_char: "n < 64 \<Longrightarrow> b64_val (b64_char n) = Some n"
  by (auto simp: b64_val_def b64_char_def Let_def)

lemma byte_less: "of_char c < (256 :: nat)"
  by (metis of_char_mod_256 mod_less_divisor zero_less_numeral)

lemma div_byte_less: "256 \<le> k * m \<Longrightarrow> of_char c div m < (k :: nat)"
  by (rule less_mult_imp_div_less) (use byte_less [of c] in linarith)

lemma b64_values_bound: "n \<in> set (b64_values s) \<Longrightarrow> n < 64"
proof (induction s rule: b64_values.induct)
  case (1 a b c s)
  have "of_char a div 4 < (64 :: nat)" "of_char b div 16 < (16 :: nat)" "of_char c div 64 < (4 :: nat)"
    "of_char a mod 4 < (4 :: nat)" "of_char b mod 16 < (16 :: nat)"
    by (simp_all add: div_byte_less)
  with 1 show ?case by auto
next
  case (2 a b)
  have "of_char a div 4 < (64 :: nat)" "of_char b div 16 < (16 :: nat)"
    "of_char a mod 4 < (4 :: nat)" "of_char b mod 16 < (16 :: nat)"
    by (simp_all add: div_byte_less)
  with 2 show ?case by auto
next
  case (3 a)
  have "of_char a div 4 < (64 :: nat)" "of_char a mod 4 < (4 :: nat)"
    by (simp_all add: div_byte_less)
  with 3 show ?case by auto
qed simp

lemma b64_char_plain: "n < 64 \<Longrightarrow> b64_char n \<noteq> CHR 0x0A \<and> b64_char n \<noteq> CHR 0x0D"
  using b64_val_char [of n] by (auto simp: b64_val_def)

lemma b64_bytes_values: "b64_bytes (b64_values s) = Some s"
  by (induction s rule: b64_values.induct) (simp_all add: mult.commute div_byte_less)

lemma DecodeString_EncodeToString: "DecodeString (EncodeToString s) = Some s"
proof -
  have "filter (\<lambda>c. c \<noteq> CHR 0x0A \<and> c \<noteq> CHR 0x0D) (map b64_char (b64_values s)) = map b64_char (b64_values s)"
    using b64_values_bound b64_char_plain by (auto simp: filter_map intro!: filter_True)
  moreover have "map b64_val (map b64_char (b64_values s)) = map Some (b64_values s)"
    using b64_values_bound b64_val_char by auto
  ultimately show ?thesis
    unfolding DecodeString_def EncodeToString_def Let_def
    by (simp only:) (simp add: list_ex_iff b64_bytes_values comp_def)
qed

lemma EncodeToString_eq_Nil [simp]: "EncodeToString s = [] \<longleftrightarrow> s = []"
  by (cases s rule: b64_values.cases) (simp_all add: EncodeToString_def)

interpretation base64: codec EncodeToString DecodeString "\<lambda>s. True"
  by unfold_locales (simp add: DecodeString_EncodeToString)

lemma b64_char_not_space: "n < 64 \<Longrightarrow> b64_char n \<notin> set (concat space_runes)"
  using b64_val_char [of n] by (auto simp: space_runes_def b64_val_def)

lemma TrimSpace_EncodeToString: "TrimSpace (EncodeToString s) = EncodeToString s"
  using b64_values_bound b64_char_not_space by (intro TrimSpace_plain) (auto simp: EncodeToString_def)

lemma decodeCursor_encodeCursor: "decodeCursor (encodeCursor s) = Inr s"
  by (simp add: decodeCursor_def encodeCursor_def TrimSpace_EncodeToString DecodeString_EncodeToString)

lemma decodeEventCursor_encodeCursor:
  "1 \<le> i \<Longrightarrow> i \<le> max_int64 \<Longrightarrow> decodeEventCursor (encodeCursor (FormatInt i)) = Inr i"
  using ParseInt_FormatInt [of i]
  by (auto simp: decodeEventCursor_def decodeCursor_encodeCursor in_int64_def max_int64_def)

lemma pageLimit_bounds: "1 \<le> pageLimit v \<and> pageLimit v \<le> 200"
  by (simp add: pageLimit_def)

end
