(* ===== verification/Lifecycle.thy ===== *)
theory Lifecycle
  imports Prelude
begin

text \<open>
  The two state machines of \<open>internal/store/lifecycle.go\<close>: the phases of a maintenance
  run and the states of a target. States are strings, as in the sources; the transition
  tables are association lists from a state to the states it may move to.
\<close>

section \<open>Tables and predicates\<close>

definition maintenanceTransitions :: "(string \<times> string list) list" where
  "maintenanceTransitions =
    [(''new'', [''captured'', ''cancelled'', ''failed'']),
     (''captured'', [''stopping'', ''cancelled'', ''failed'']),
     (''stopping'', [''stopped'', ''failed'']),
     (''stopped'', [''waiting'', ''failed'']),
     (''waiting'', [''starting'', ''failed'']),
     (''starting'', [''completed'', ''failed'']),
     (''failed'', [''new'', ''captured'', ''stopping'', ''stopped'', ''waiting'', ''starting''])]"

definition targetTransitions :: "(string \<times> string list) list" where
  "targetTransitions =
    [(''captured'', [''stopping'', ''skipped'']),
     (''stopping'', [''stopped'', ''failed'', ''skipped'']),
     (''stopped'', [''starting'', ''skipped'']),
     (''starting'', [''healthy'', ''failed'', ''skipped'']),
     (''failed'', [''stopping'', ''starting'', ''skipped''])]"

text \<open>Reading a Go map of maps: a missing key yields the zero value \<open>false\<close>.\<close>

definition table_allows :: "(string \<times> string list) list \<Rightarrow> string \<Rightarrow> string \<Rightarrow> bool" where
  "table_allows t from to = (case map_of t from of None \<Rightarrow> False | Some tos \<Rightarrow> to \<in> set tos)"

definition ValidMaintenanceState :: "string \<Rightarrow> bool" where
  "ValidMaintenanceState state =
    (if state = ''completed'' \<or> state = ''cancelled'' then True
     else map_of maintenanceTransitions state \<noteq> None)"

definition ValidMaintenanceTransition :: "string \<Rightarrow> string \<Rightarrow> bool" where
  "ValidMaintenanceTransition from to = table_allows maintenanceTransitions from to"

definition IsMaintenanceTerminal :: "string \<Rightarrow> bool" where
  "IsMaintenanceTerminal state \<longleftrightarrow>
     state = ''completed'' \<or> state = ''failed'' \<or> state = ''cancelled''"

definition ValidTargetState :: "string \<Rightarrow> bool" where
  "ValidTargetState state =
    (if state = ''healthy'' \<or> state = ''skipped'' then True
     else map_of targetTransitions state \<noteq> None)"

definition ValidTargetTransition :: "string \<Rightarrow> string \<Rightarrow> bool" where
  "ValidTargetTransition from to = table_allows targetTransitions from to"

definition targetCompletionAllowed :: "string \<Rightarrow> string \<Rightarrow> bool" where
  "targetCompletionAllowed original current =
    (if current = ''skipped'' then True
     else if original = ''running'' then current = ''healthy''
     else if original = ''stopped'' then current = ''stopped''
     else False)"

definition targetPhaseAllowed :: "string \<Rightarrow> string \<Rightarrow> bool" where
  "targetPhaseAllowed maintenanceState targetState =
    (if targetState = ''stopping'' \<or> targetState = ''stopped'' then maintenanceState = ''stopping''
     else if targetState = ''starting'' \<or> targetState = ''healthy'' then maintenanceState = ''starting''
     else if targetState = ''failed''
       then maintenanceState = ''stopping'' \<or> maintenanceState = ''starting''
     else False)"

section \<open>Characterisations\<close>

lemma ValidMaintenanceState_iff:
  "ValidMaintenanceState s \<longleftrightarrow>
    s \<in> {''new'', ''captured'', ''stopping'', ''stopped'', ''waiting'', ''starting'',
         ''completed'', ''failed'', ''cancelled''}"
  by (auto simp: ValidMaintenanceState_def maintenanceTransitions_def)

lemma ValidTargetState_iff:
  "ValidTargetState s \<longleftrightarrow>
    s \<in> {''captured'', ''stopping'', ''stopped'', ''starting'', ''healthy'', ''failed'', ''skipped''}"
  by (auto simp: ValidTargetState_def targetTransitions_def)

lemma ValidMaintenanceTransition_iff:
  "ValidMaintenanceTransition a b \<longleftrightarrow>
    a = ''new'' \<and> b \<in> {''captured'', ''cancelled'', ''failed''}
  \<or> a = ''captured'' \<and> b \<in> {''stopping'', ''cancelled'', ''failed''}
  \<or> a = ''stopping'' \<and> b \<in> {''stopped'', ''failed''}
  \<or> a = ''stopped'' \<and> b \<in> {''waiting'', ''failed''}
  \<or> a = ''waiting'' \<and> b \<in> {''starting'', ''failed''}
  \<or> a = ''starting'' \<and> b \<in> {''completed'', ''failed''}
  \<or> a = ''failed'' \<and> b \<in> {''new'', ''captured'', ''stopping'', ''stopped'', ''waiting'', ''starting''}"
  by (auto simp: ValidMaintenanceTransition_def table_allows_def maintenanceTransitions_def
      split: if_splits)

lemma ValidTargetTransition_iff:
  "ValidTargetTransition a b \<longleftrightarrow>
    a = ''captured'' \<and> b \<in> {''stopping'', ''skipped''}
  \<or> a = ''stopping'' \<and> b \<in> {''stopped'', ''failed'', ''skipped''}
  \<or> a = ''stopped'' \<and> b \<in> {''starting'', ''skipped''}
  \<or> a = ''starting'' \<and> b \<in> {''healthy'', ''failed'', ''skipped''}
  \<or> a = ''failed'' \<and> b \<in> {''stopping'', ''starting'', ''skipped''}"
  by (auto simp: ValidTargetTransition_def table_allows_def targetTransitions_def
      split: if_splits)

lemmas lifecycle_iffs =
  ValidMaintenanceState_iff ValidTargetState_iff
  ValidMaintenanceTransition_iff ValidTargetTransition_iff

section \<open>The contract of a lifecycle\<close>

text \<open>
  Both tables are lifecycles: a transition connects valid states, a final state has no way
  out, and a phase rank orders the transitions that do not enter or leave a failure.
\<close>

locale lifecycle =
  fixes valid :: "string \<Rightarrow> bool"
    and allowed :: "string \<Rightarrow> string \<Rightarrow> bool"
    and final :: "string \<Rightarrow> bool"
    and rank :: "string \<Rightarrow> nat"
    and bound :: nat
  assumes allowed_valid: "allowed a b \<Longrightarrow> valid a \<and> valid b"
    and final_stuck: "final a \<Longrightarrow> \<not> allowed a b"
    and rank_grows: "allowed a b \<Longrightarrow> a \<noteq> ''failed'' \<Longrightarrow> b \<noteq> ''failed'' \<Longrightarrow> rank a < rank b"
    and rank_bound: "valid a \<Longrightarrow> rank a \<le> bound"
begin

inductive path :: "string \<Rightarrow> string list \<Rightarrow> string \<Rightarrow> bool" where
  path_Nil: "path a [] a"
| path_Cons: "allowed a b \<Longrightarrow> path b ss c \<Longrightarrow> path a (b # ss) c"

lemma path_valid: "path a ss c \<Longrightarrow> valid a \<Longrightarrow> (\<forall>s \<in> set ss. valid s) \<and> valid c"
  by (induction rule: path.induct) (auto dest: allowed_valid)

lemma path_from_final: "path a ss c \<Longrightarrow> final a \<Longrightarrow> ss = [] \<and> c = a"
  by (cases rule: path.cases) (auto simp: final_stuck)

lemma path_rank:
  "path a ss c \<Longrightarrow> a \<noteq> ''failed'' \<Longrightarrow> ''failed'' \<notin> set ss \<Longrightarrow> rank a + length ss \<le> rank c"
proof (induction rule: path.induct)
  case (path_Cons a b ss c)
  then have "rank a < rank b" by (auto intro: rank_grows)
  moreover have "rank b + length ss \<le> rank c" using path_Cons by auto
  ultimately show ?case by simp
qed simp

lemma path_length:
  assumes "path a ss c" and "valid a" and "a \<noteq> ''failed''" and "''failed'' \<notin> set ss"
  shows "length ss \<le> bound"
  using path_rank [OF assms(1,3,4)] rank_bound path_valid [OF assms(1,2)] by fastforce

end

section \<open>The two lifecycles\<close>

fun position :: "string \<Rightarrow> string list \<Rightarrow> nat" where
  "position s [] = 0"
| "position s (t # ts) = (if s = t then 0 else Suc (position s ts))"

definition maintenanceRank :: "string \<Rightarrow> nat" where
  "maintenanceRank s = (if s = ''cancelled'' then 6
     else position s [''new'', ''captured'', ''stopping'', ''stopped'', ''waiting'', ''starting''])"

definition targetRank :: "string \<Rightarrow> nat" where
  "targetRank s = (if s = ''skipped'' then 4
     else position s [''captured'', ''stopping'', ''stopped'', ''starting''])"

interpretation maintenance_lc:
  lifecycle ValidMaintenanceState ValidMaintenanceTransition
    "\<lambda>s. s = ''completed'' \<or> s = ''cancelled''" maintenanceRank 6
proof unfold_locales
  fix a b
  show "ValidMaintenanceTransition a b \<Longrightarrow> ValidMaintenanceState a \<and> ValidMaintenanceState b"
    by (auto simp: lifecycle_iffs)
  show "a = ''completed'' \<or> a = ''cancelled'' \<Longrightarrow> \<not> ValidMaintenanceTransition a b"
    by (auto simp: lifecycle_iffs)
  show "ValidMaintenanceTransition a b \<Longrightarrow> a \<noteq> ''failed'' \<Longrightarrow> b \<noteq> ''failed'' \<Longrightarrow>
      maintenanceRank a < maintenanceRank b"
    unfolding lifecycle_iffs
    by (elim disjE conjE insertE emptyE) (simp_all add: maintenanceRank_def)
  show "ValidMaintenanceState a \<Longrightarrow> maintenanceRank a \<le> 6"
    by (auto simp: lifecycle_iffs maintenanceRank_def)
qed

interpretation target_lc:
  lifecycle ValidTargetState ValidTargetTransition
    "\<lambda>s. s = ''healthy'' \<or> s = ''skipped''" targetRank 4
proof unfold_locales
  fix a b
  show "ValidTargetTransition a b \<Longrightarrow> ValidTargetState a \<and> ValidTargetState b"
    by (auto simp: lifecycle_iffs)
  show "a = ''healthy'' \<or> a = ''skipped'' \<Longrightarrow> \<not> ValidTargetTransition a b"
    by (auto simp: lifecycle_iffs)
  show "ValidTargetTransition a b \<Longrightarrow> a \<noteq> ''failed'' \<Longrightarrow> b \<noteq> ''failed'' \<Longrightarrow>
      targetRank a < targetRank b"
    unfolding lifecycle_iffs
    by (elim disjE conjE insertE emptyE) (simp_all add: targetRank_def)
  show "ValidTargetState a \<Longrightarrow> targetRank a \<le> 4"
    by (auto simp: lifecycle_iffs targetRank_def)
qed

section \<open>Phases are bounded\<close>

lemma successively_path:
  "successively ValidMaintenanceTransition (a # ss) \<Longrightarrow> maintenance_lc.path a ss (last (a # ss))"
  by (induction ss arbitrary: a) (auto intro: maintenance_lc.path.intros)

lemma successively_target_path:
  "successively ValidTargetTransition (a # ss) \<Longrightarrow> target_lc.path a ss (last (a # ss))"
  by (induction ss arbitrary: a) (auto intro: target_lc.path.intros)

text \<open>A run that never fails makes at most six transitions, so every such run ends.\<close>

theorem maintenance_phases_bounded:
  assumes "successively ValidMaintenanceTransition (a # ss)" "a \<noteq> ''failed''" "''failed'' \<notin> set ss"
  shows "length ss \<le> 6"
proof (cases ss)
  case (Cons b bs)
  then have "ValidMaintenanceState a" using assms(1) maintenance_lc.allowed_valid by auto
  with maintenance_lc.path_length [OF successively_path [OF assms(1)]] assms(2,3) show ?thesis by blast
qed simp

theorem maintenance_phases_bounded_witness:
  "successively ValidMaintenanceTransition [''new'', ''captured'', ''stopping'', ''stopped'', ''waiting'', ''starting'', ''completed'']
    \<and> length [''captured'', ''stopping'', ''stopped'', ''waiting'', ''starting'', ''completed''] \<le> 6"
  using maintenance_phases_bounded [of "''new''" "[''captured'', ''stopping'', ''stopped'', ''waiting'', ''starting'', ''completed'']"]
  by (simp add: ValidMaintenanceTransition_iff)

text \<open>A target that never fails makes at most four transitions, and none after it is healthy or skipped.\<close>

theorem target_phases_bounded:
  assumes "successively ValidTargetTransition (a # ss)" "a \<noteq> ''failed''" "''failed'' \<notin> set ss"
  shows "length ss \<le> 4 \<and> (a = ''healthy'' \<or> a = ''skipped'' \<longrightarrow> ss = [])"
proof (cases ss)
  case (Cons b bs)
  then have "ValidTargetState a" using assms(1) target_lc.allowed_valid by auto
  with target_lc.path_length [OF successively_target_path [OF assms(1)]] target_lc.path_from_final [OF successively_target_path [OF assms(1)]]
    assms(2,3) show ?thesis by blast
qed simp

end
