(* ===== verification/Reads.thy ===== *)
theory Reads
  imports Records Cursor Lifecycle
begin

text \<open>
  The read operations of \<open>reads.go\<close>: single resources, the aggregate of a run with its targets,
  and the two lists with cursor pagination. The locale \<open>paging\<close> states what a client that follows
  cursors relies on; its interpretations show it for runs and for events.
\<close>

section \<open>Single resources\<close>

definition GetCapture :: "env \<Rightarrow> string \<Rightarrow> Capture tx" where
  "GetCapture E maintenanceID =
    bindT (queryT E (capture_by_id maintenanceID)) (\<lambda>r. rowT (map_option scanCapture r))"

definition GetTarget :: "env \<Rightarrow> string \<Rightarrow> string \<Rightarrow> Target tx" where
  "GetTarget E maintenanceID targetID =
    (if \<not> validID maintenanceID \<or> \<not> validID targetID
       then throwT (Wrapped ErrInvalid ''invalid target identity'')
     else loadTarget E maintenanceID targetID)"

definition target_rows :: "string \<Rightarrow> database \<Rightarrow> target_row list" where
  "target_rows maintenanceID db =
    sort_key tr_id (filter (\<lambda>r. tr_maintenance_id r = maintenanceID) (targets_t db))"

definition listTargets :: "env \<Rightarrow> string \<Rightarrow> Target list tx" where
  "listTargets E maintenanceID = queryT E (\<lambda>db. map scanTarget (target_rows maintenanceID db))"

text \<open>A read-only transaction: begin, two queries, commit.\<close>

definition GetMaintenanceAggregate :: "env \<Rightarrow> string \<Rightarrow> MaintenanceAggregate tx" where
  "GetMaintenanceAggregate E i =
    (if \<not> validID i then throwT (Wrapped ErrInvalid ''invalid maintenance id'')
     else bindT (queryT E (\<lambda>db. ()))
       (\<lambda>_. bindT (loadMaintenance E i)
       (\<lambda>m. bindT (listTargets E i)
       (\<lambda>targets. bindT (queryT E (\<lambda>db. ()))
       (\<lambda>_. returnT \<lparr>ma_Maintenance = m, ma_Targets = targets\<rparr>)))))"

section \<open>Lists\<close>

record MaintenanceListOptions =
  mo_State :: string
  mo_MaintenanceID :: string
  mo_ChangeTicket :: string
  mo_WorkflowVersion :: string
  mo_Cursor :: string
  mo_Limit :: int

record MaintenancePage =
  mp_Items :: "Maintenance list"
  mp_NextCursor :: string

record EventListOptions =
  eo_MaintenanceID :: string
  eo_TargetID :: string
  eo_EventType :: string
  eo_ResourceType :: string
  eo_ResourceID :: string
  eo_Actor :: string
  eo_Role :: string
  eo_RequestID :: string
  eo_Cursor :: string
  eo_Limit :: int

record EventPage =
  ep_Items :: "Event list"
  ep_NextCursor :: string

text \<open>
  \<open>SELECT ... WHERE p AND key < cursor ORDER BY key DESC LIMIT n\<close>; without a cursor (0) the
  second condition is absent. An empty filter value selects every row, and a NULL column equals
  no value.
\<close>

definition page_rows :: "('r \<Rightarrow> int) \<Rightarrow> ('r \<Rightarrow> bool) \<Rightarrow> int \<Rightarrow> nat \<Rightarrow> 'r list \<Rightarrow> 'r list" where
  "page_rows key p cursor n rows =
    take n (rev (sort_key key (filter (\<lambda>r. p r \<and> (cursor > 0 \<longrightarrow> key r < cursor)) rows)))"

definition filter_text :: "string \<Rightarrow> string option \<Rightarrow> bool" where
  "filter_text v column \<longleftrightarrow> v = '''' \<or> column = Some v"

definition maintenance_filter :: "MaintenanceListOptions \<Rightarrow> maintenance_row \<Rightarrow> bool" where
  "maintenance_filter opts r \<longleftrightarrow> filter_text (mo_State opts) (Some (mr_state r))
     \<and> filter_text (mo_MaintenanceID opts) (Some (mr_id r))
     \<and> filter_text (mo_ChangeTicket opts) (Some (mr_change_ticket r))
     \<and> filter_text (mo_WorkflowVersion opts) (Some (mr_workflow_version r))"

definition event_filter :: "EventListOptions \<Rightarrow> event_row \<Rightarrow> bool" where
  "event_filter opts r \<longleftrightarrow> filter_text (eo_MaintenanceID opts) (er_maintenance_id r)
     \<and> filter_text (eo_TargetID opts) (er_target_id r) \<and> filter_text (eo_EventType opts) (Some (er_event_type r))
     \<and> filter_text (eo_ResourceType opts) (Some (er_resource_type r))
     \<and> filter_text (eo_ResourceID opts) (Some (er_resource_id r)) \<and> filter_text (eo_Actor opts) (Some (er_actor r))
     \<and> filter_text (eo_Role opts) (Some (er_role r)) \<and> filter_text (eo_RequestID opts) (Some (er_request_id r))"

definition ListMaintenances :: "env \<Rightarrow> MaintenanceListOptions \<Rightarrow> MaintenancePage tx" where
  "ListMaintenances E opts =
    (if mo_State opts \<noteq> '''' \<and> \<not> ValidMaintenanceState (mo_State opts)
       then throwT (Wrapped ErrInvalid ''invalid state'')
     else if mo_MaintenanceID opts \<noteq> '''' \<and> \<not> validID (mo_MaintenanceID opts)
       then throwT (Wrapped ErrInvalid ''invalid maintenance id'')
     else (case decodeEventCursor (mo_Cursor opts) of
         Inl e \<Rightarrow> throwT e
       | Inr cursor \<Rightarrow>
         let limit = nat (pageLimit (mo_Limit opts)) in
         bindT (queryT E (\<lambda>db. page_rows mr_rowid (maintenance_filter opts) cursor (limit + 1) (maintenance_t db)))
         (\<lambda>rows.
           let items = map scanMaintenance rows; rowIDs = map mr_rowid rows
           in returnT (if length items > limit
             then \<lparr>mp_Items = take limit items, mp_NextCursor = encodeCursor (FormatInt (rowIDs ! (limit - 1)))\<rparr>
             else \<lparr>mp_Items = items, mp_NextCursor = ''''\<rparr>))))"

definition ListEvents :: "env \<Rightarrow> EventListOptions \<Rightarrow> EventPage tx" where
  "ListEvents E opts =
    (if eo_MaintenanceID opts \<noteq> '''' \<and> \<not> validID (eo_MaintenanceID opts)
       then throwT (Wrapped ErrInvalid ''invalid maintenance id'')
     else if eo_TargetID opts \<noteq> '''' \<and> \<not> validID (eo_TargetID opts)
       then throwT (Wrapped ErrInvalid ''invalid target id'')
     else if eo_TargetID opts \<noteq> '''' \<and> eo_MaintenanceID opts = ''''
       then throwT (Wrapped ErrInvalid ''target filter requires maintenance id'')
     else (case decodeEventCursor (eo_Cursor opts) of
         Inl e \<Rightarrow> throwT e
       | Inr cursor \<Rightarrow>
         let limit = nat (pageLimit (eo_Limit opts)) in
         bindT (queryT E (\<lambda>db. page_rows er_journal_id (event_filter opts) cursor (limit + 1) (events_t db)))
         (\<lambda>rows.
           let items = map scanEvent rows
           in returnT (if length items > limit
             then \<lparr>ep_Items = take limit items, ep_NextCursor = encodeCursor (FormatInt (e_ID (items ! (limit - 1))))\<rparr>
             else \<lparr>ep_Items = items, ep_NextCursor = ''''\<rparr>))))"

section \<open>Following cursors\<close>

text \<open>
  The rows a client collects that starts without a cursor and follows cursors while a page says
  that there is more. The fuel bounds the number of requests.
\<close>

fun follow :: "('r \<Rightarrow> int) \<Rightarrow> ('r \<Rightarrow> bool) \<Rightarrow> nat \<Rightarrow> 'r list \<Rightarrow> nat \<Rightarrow> int \<Rightarrow> 'r list" where
  "follow key p limit rows 0 cursor = []"
| "follow key p limit rows (Suc n) cursor =
    (let items = page_rows key p cursor (limit + 1) rows
     in if length items > limit
        then take limit items @ follow key p limit rows n (key (items ! (limit - 1)))
        else items)"

lemma filter_below_nth:
  fixes key :: "'r \<Rightarrow> int"
  assumes "sorted_wrt (\<lambda>a b. key b < key a) xs" "i < length xs"
  shows "filter (\<lambda>r. key r < key (xs ! i)) xs = drop (Suc i) xs"
  using assms
proof (induction xs arbitrary: i)
  case (Cons x xs)
  show ?case
  proof (cases i)
    case 0
    with Cons.prems show ?thesis by (auto intro!: filter_True)
  next
    case (Suc j)
    then have "xs ! j \<in> set xs" using Cons.prems(2) by simp
    then have "\<not> key x < key (xs ! j)" using Cons.prems(1) by fastforce
    with Suc Cons show ?thesis by simp
  qed
qed simp

locale paging =
  fixes key :: "'r \<Rightarrow> int" and rows_of :: "'d \<Rightarrow> 'r list" and ok :: "'d \<Rightarrow> bool"
  assumes distinct_keys: "ok d \<Longrightarrow> distinct (map key (rows_of d))"
    and positive_keys: "ok d \<Longrightarrow> r \<in> set (rows_of d) \<Longrightarrow> 0 < key r"
begin

abbreviation desc :: "('r \<Rightarrow> bool) \<Rightarrow> 'd \<Rightarrow> 'r list" where
  "desc p d \<equiv> rev (sort_key key (filter p (rows_of d)))"

lemma desc_sorted:
  assumes "ok d"
  shows "sorted_wrt (\<lambda>a b. key b < key a) (desc p d)"
proof -
  have "distinct (map key (sort_key key (filter p (rows_of d))))"
    using distinct_keys [OF assms] by (simp add: distinct_map inj_on_def)
  then have "sorted_wrt (<) (map key (sort_key key (filter p (rows_of d))))"
    by (simp add: strict_sorted_iff)
  then show ?thesis by (simp add: sorted_wrt_map sorted_wrt_rev)
qed

lemma desc_below: "desc (\<lambda>r. p r \<and> key r < k) d = filter (\<lambda>r. key r < k) (desc p d)"
  by (simp add: filter_sort [symmetric] rev_filter [symmetric] conj_commute)

lemma page_next: "0 < k \<Longrightarrow> page_rows key p k n (rows_of d) = take n (filter (\<lambda>r. key r < k) (desc p d))"
  by (simp add: page_rows_def desc_below)

lemma page_first: "page_rows key p 0 n (rows_of d) = take n (desc p d)"
  by (simp add: page_rows_def)

lemma follow_suffix:
  assumes "ok d" "0 < limit" "length (desc p d) - m < n"
    and "\<And>n. page_rows key p cursor n (rows_of d) = take n (drop m (desc p d))"
  shows "follow key p limit (rows_of d) n cursor = drop m (desc p d)"
  using assms(3,4)
proof (induction n arbitrary: m cursor)
  case (Suc n)
  let ?xs = "desc p d"
  show ?case
  proof (cases "limit < length (drop m ?xs)")
    case True
    let ?k = "key (?xs ! (m + limit - 1))"
    have i: "m + limit - 1 < length ?xs" using True by simp
    have "?xs ! (m + limit - 1) \<in> set (rows_of d)" using i nth_mem [of "m + limit - 1" ?xs] by auto
    then have "page_rows key p ?k j (rows_of d) = take j (drop (m + limit) ?xs)" for j
      using filter_below_nth [OF desc_sorted [OF assms(1)] i] assms(2) positive_keys [OF assms(1)]
      by (simp add: page_next)
    then have "follow key p limit (rows_of d) n ?k = drop (m + limit) ?xs"
      using True Suc.prems(1) assms(2) by (intro Suc.IH) auto
    moreover have "take limit (drop m ?xs) @ drop (m + limit) ?xs = drop m ?xs"
      by (metis append_take_drop_id drop_drop add.commute)
    ultimately show ?thesis
      using True assms(2) Suc.prems(2) by (simp add: nth_take add.commute)
  next
    case False
    then show ?thesis using Suc.prems(2) by simp
  qed
qed simp

theorem follow_all:
  assumes "ok d" "0 < limit" "length (rows_of d) < n"
  shows "follow key p limit (rows_of d) n 0 = desc p d"
proof -
  have "length (filter p (rows_of d)) < n" using assms(3) length_filter_le [of p "rows_of d"] by linarith
  then have "follow key p limit (rows_of d) n 0 = drop 0 (desc p d)"
    using assms(1,2) by (intro follow_suffix) (simp_all add: page_first)
  then show ?thesis by simp
qed

end

definition journal_ids_ok :: "database \<Rightarrow> bool" where
  "journal_ids_ok db \<longleftrightarrow> distinct (map er_journal_id (events_t db)) \<and> (\<forall>r \<in> set (events_t db). 0 < er_journal_id r)"

definition rowids_ok :: "database \<Rightarrow> bool" where
  "rowids_ok db \<longleftrightarrow> distinct (map mr_rowid (maintenance_t db)) \<and> (\<forall>r \<in> set (maintenance_t db). 0 < mr_rowid r)"

interpretation event_pages: paging er_journal_id events_t journal_ids_ok
  by unfold_locales (simp_all add: journal_ids_ok_def)

interpretation maintenance_pages: paging mr_rowid maintenance_t rowids_ok
  by unfold_locales (simp_all add: rowids_ok_def)

text \<open>What a client of \<open>ListEvents\<close> and \<open>ListMaintenances\<close> does.\<close>

fun collectEvents :: "env \<Rightarrow> nat \<Rightarrow> EventListOptions \<Rightarrow> Event list tx" where
  "collectEvents E 0 opts = returnT []"
| "collectEvents E (Suc n) opts =
    bindT (ListEvents E opts)
    (\<lambda>page. if ep_NextCursor page = '''' then returnT (ep_Items page)
      else bindT (collectEvents E n (opts\<lparr>eo_Cursor := ep_NextCursor page\<rparr>))
        (\<lambda>rest. returnT (ep_Items page @ rest)))"

fun collectMaintenances :: "env \<Rightarrow> nat \<Rightarrow> MaintenanceListOptions \<Rightarrow> Maintenance list tx" where
  "collectMaintenances E 0 opts = returnT []"
| "collectMaintenances E (Suc n) opts =
    bindT (ListMaintenances E opts)
    (\<lambda>page. if mp_NextCursor page = '''' then returnT (mp_Items page)
      else bindT (collectMaintenances E n (opts\<lparr>mo_Cursor := mp_NextCursor page\<rparr>))
        (\<lambda>rest. returnT (mp_Items page @ rest)))"

definition event_options_ok :: "EventListOptions \<Rightarrow> bool" where
  "event_options_ok opts \<longleftrightarrow> (eo_MaintenanceID opts = '''' \<or> validID (eo_MaintenanceID opts))
     \<and> (eo_TargetID opts = '''' \<or> validID (eo_TargetID opts) \<and> eo_MaintenanceID opts \<noteq> '''')"

definition maintenance_options_ok :: "MaintenanceListOptions \<Rightarrow> bool" where
  "maintenance_options_ok opts \<longleftrightarrow> (mo_State opts = '''' \<or> ValidMaintenanceState (mo_State opts))
     \<and> (mo_MaintenanceID opts = '''' \<or> validID (mo_MaintenanceID opts))"

lemma encodeCursor_not_Nil [simp]: "encodeCursor (FormatInt i) \<noteq> ''''"
  by (simp add: encodeCursor_def FormatInt_def)

lemma event_filter_cursor [simp]: "event_filter (opts\<lparr>eo_Cursor := c\<rparr>) = event_filter opts"
  by (simp add: event_filter_def fun_eq_iff)

lemma maintenance_filter_cursor [simp]: "maintenance_filter (opts\<lparr>mo_Cursor := c\<rparr>) = maintenance_filter opts"
  by (simp add: maintenance_filter_def fun_eq_iff)

lemma page_rows_mem: "r \<in> set (page_rows key p k n rows) \<Longrightarrow> r \<in> set rows"
  by (auto simp: page_rows_def dest!: in_set_takeD)

lemma nat_pageLimit: "1 \<le> nat (pageLimit v)"
  using pageLimit_bounds [of v] by linarith

lemma collectEvents_follow:
  assumes "\<And>i. \<not> fault E i" "event_options_ok opts"
    and "decodeEventCursor (eo_Cursor opts) = Inr k"
    and "\<And>r. r \<in> set (events_t (s_db s)) \<Longrightarrow> 0 < er_journal_id r \<and> er_journal_id r \<le> max_int64"
  shows "\<exists>s'. collectEvents E n opts s = (Inr (map scanEvent (follow er_journal_id (event_filter opts)
     (nat (pageLimit (eo_Limit opts))) (events_t (s_db s)) n k)), s')"
  using assms(2-4)
proof (induction n arbitrary: opts k s)
  case (Suc n)
  let ?L = "nat (pageLimit (eo_Limit opts))"
  let ?items = "page_rows er_journal_id (event_filter opts) k (?L + 1) (events_t (s_db s))"
  have list: "ListEvents E opts s = (Inr (if length ?items > ?L
      then \<lparr>ep_Items = map scanEvent (take ?L ?items), ep_NextCursor = encodeCursor (FormatInt (er_journal_id (?items ! (?L - 1))))\<rparr>
      else \<lparr>ep_Items = map scanEvent ?items, ep_NextCursor = ''''\<rparr>), tick s)"
    using Suc.prems(1,2) assms(1) nat_pageLimit [of "eo_Limit opts"]
    by (auto simp: ListEvents_def event_options_ok_def bindT_def queryT_def returnT_def Let_def take_map scanEvent_def)
  show ?case
  proof (cases "length ?items > ?L")
    case True
    let ?i = "er_journal_id (?items ! (?L - 1))"
    have "?items ! (?L - 1) \<in> set (events_t (s_db s))"
      using True by (intro page_rows_mem [OF nth_mem]) simp
    then have "decodeEventCursor (encodeCursor (FormatInt ?i)) = Inr ?i"
      using Suc.prems(3) by (intro decodeEventCursor_encodeCursor) fastforce+
    moreover have "event_options_ok (opts\<lparr>eo_Cursor := c\<rparr>)" for c
      using Suc.prems(1) by (simp add: event_options_ok_def)
    ultimately show ?thesis
      using True list Suc.prems(3) Suc.IH [of "opts\<lparr>eo_Cursor := encodeCursor (FormatInt ?i)\<rparr>" ?i "tick s"]
      by (auto simp: bindT_def returnT_def Let_def take_map)
  next
    case False
    then show ?thesis using list by (auto simp: bindT_def returnT_def Let_def)
  qed
qed (simp add: returnT_def)

lemma collectMaintenances_follow:
  assumes "\<And>i. \<not> fault E i" "maintenance_options_ok opts"
    and "decodeEventCursor (mo_Cursor opts) = Inr k"
    and "\<And>r. r \<in> set (maintenance_t (s_db s)) \<Longrightarrow> 0 < mr_rowid r \<and> mr_rowid r \<le> max_int64"
  shows "\<exists>s'. collectMaintenances E n opts s = (Inr (map scanMaintenance (follow mr_rowid (maintenance_filter opts)
     (nat (pageLimit (mo_Limit opts))) (maintenance_t (s_db s)) n k)), s')"
  using assms(2-4)
proof (induction n arbitrary: opts k s)
  case (Suc n)
  let ?L = "nat (pageLimit (mo_Limit opts))"
  let ?items = "page_rows mr_rowid (maintenance_filter opts) k (?L + 1) (maintenance_t (s_db s))"
  have list: "ListMaintenances E opts s = (Inr (if length ?items > ?L
      then \<lparr>mp_Items = map scanMaintenance (take ?L ?items), mp_NextCursor = encodeCursor (FormatInt (mr_rowid (?items ! (?L - 1))))\<rparr>
      else \<lparr>mp_Items = map scanMaintenance ?items, mp_NextCursor = ''''\<rparr>), tick s)"
    using Suc.prems(1,2) assms(1) nat_pageLimit [of "mo_Limit opts"]
    by (auto simp: ListMaintenances_def maintenance_options_ok_def bindT_def queryT_def returnT_def Let_def take_map)
  show ?case
  proof (cases "length ?items > ?L")
    case True
    let ?i = "mr_rowid (?items ! (?L - 1))"
    have "?items ! (?L - 1) \<in> set (maintenance_t (s_db s))"
      using True by (intro page_rows_mem [OF nth_mem]) simp
    then have "decodeEventCursor (encodeCursor (FormatInt ?i)) = Inr ?i"
      using Suc.prems(3) by (intro decodeEventCursor_encodeCursor) fastforce+
    moreover have "maintenance_options_ok (opts\<lparr>mo_Cursor := c\<rparr>)" for c
      using Suc.prems(1) by (simp add: maintenance_options_ok_def)
    ultimately show ?thesis
      using True list Suc.prems(3) Suc.IH [of "opts\<lparr>mo_Cursor := encodeCursor (FormatInt ?i)\<rparr>" ?i "tick s"]
      by (auto simp: bindT_def returnT_def Let_def take_map)
  next
    case False
    then show ?thesis using list by (auto simp: bindT_def returnT_def Let_def)
  qed
qed (simp add: returnT_def)

lemma decodeEventCursor_Nil: "decodeEventCursor '''' = Inr 0"
proof -
  have "TrimSpace '''' = ''''" by (rule TrimSpace_plain) simp
  then show ?thesis by (simp add: decodeEventCursor_def decodeCursor_def)
qed

section \<open>Following cursors\<close>

text \<open>C22: A client that follows the cursors of the event list gets every event that matches its filters,
  each exactly once, newest first, while the store does not change and no query fails.\<close>

theorem event_pages_complete:
  assumes "\<And>i. \<not> fault E i" "event_options_ok opts" "eo_Cursor opts = ''''" "journal_ids_ok (s_db s)"
    and "\<And>r. r \<in> set (events_t (s_db s)) \<Longrightarrow> er_journal_id r \<le> max_int64" "length (events_t (s_db s)) < n"
  shows "\<exists>s'. collectEvents E n opts s
    = (Inr (map scanEvent (rev (sort_key er_journal_id (filter (event_filter opts) (events_t (s_db s)))))), s')"
proof -
  have "0 < nat (pageLimit (eo_Limit opts))" using nat_pageLimit [of "eo_Limit opts"] by simp
  from event_pages.follow_all [OF assms(4) this assms(6)] collectEvents_follow [OF assms(1,2), of 0 s n] assms(3-5)
  show ?thesis by (auto simp: decodeEventCursor_Nil journal_ids_ok_def)
qed

text \<open>C23: A client that follows the cursors of the run list gets every run that matches its filters, each
  exactly once, newest first, while the store does not change and no query fails.\<close>

theorem maintenance_pages_complete:
  assumes "\<And>i. \<not> fault E i" "maintenance_options_ok opts" "mo_Cursor opts = ''''" "rowids_ok (s_db s)"
    and "\<And>r. r \<in> set (maintenance_t (s_db s)) \<Longrightarrow> mr_rowid r \<le> max_int64" "length (maintenance_t (s_db s)) < n"
  shows "\<exists>s'. collectMaintenances E n opts s
    = (Inr (map scanMaintenance (rev (sort_key mr_rowid (filter (maintenance_filter opts) (maintenance_t (s_db s)))))), s')"
proof -
  have "0 < nat (pageLimit (mo_Limit opts))" using nat_pageLimit [of "mo_Limit opts"] by simp
  from maintenance_pages.follow_all [OF assms(4) this assms(6)] collectMaintenances_follow [OF assms(1,2), of 0 s n] assms(3-5)
  show ?thesis by (auto simp: decodeEventCursor_Nil rowids_ok_def)
qed

definition paging_env :: env where
  "paging_env = \<lparr>clock = (\<lambda>n. 0), fault = (\<lambda>n. False), sql_json_valid = (\<lambda>t. True), sql_length = length,
     sql_text = (\<lambda>e. ''''), sha256_hex = (\<lambda>t. '''')\<rparr>"

definition paging_session :: session where
  "paging_session = \<lparr>s_db = \<lparr>maintenance_t = map (\<lambda>k. \<lparr>mr_rowid = k, mr_id = ''r'', mr_state = ''new'', mr_change_ticket = '''',
       mr_workflow_version = '''', mr_metadata_json = ''{}'', mr_version = 1, mr_created_at = '''', mr_updated_at = ''''\<rparr>) [1, 2, 3],
     captures_t = [], targets_t = [],
     events_t = map (\<lambda>k. \<lparr>er_journal_id = k, er_event_type = ''target.observed'', er_occurred_at = '''', er_request_id = ''q'',
       er_actor = '''', er_role = '''', er_resource_type = '''', er_resource_id = '''', er_maintenance_id = None, er_target_id = None,
       er_from_state = None, er_to_state = None, er_from_version = None, er_to_version = None, er_aggregate_version = None,
       er_payload_json = ''{}''\<rparr>) [1, 2, 3]\<rparr>, s_ticks = 0\<rparr>"

definition paging_events :: EventListOptions where
  "paging_events = \<lparr>eo_MaintenanceID = '''', eo_TargetID = '''', eo_EventType = '''', eo_ResourceType = '''', eo_ResourceID = '''',
     eo_Actor = '''', eo_Role = '''', eo_RequestID = ''q'', eo_Cursor = '''', eo_Limit = 2\<rparr>"

definition paging_runs :: MaintenanceListOptions where
  "paging_runs = \<lparr>mo_State = '''', mo_MaintenanceID = '''', mo_ChangeTicket = '''', mo_WorkflowVersion = '''', mo_Cursor = '''', mo_Limit = 2\<rparr>"

theorem event_pages_complete_witness:
  "\<exists>s'. collectEvents paging_env 4 paging_events paging_session = (Inr (map scanEvent (rev (sort_key er_journal_id
     (filter (event_filter paging_events) (events_t (s_db paging_session)))))), s')"
  by (rule event_pages_complete)
    (auto simp: paging_env_def paging_session_def paging_events_def event_options_ok_def journal_ids_ok_def max_int64_def)

theorem maintenance_pages_complete_witness:
  "\<exists>s'. collectMaintenances paging_env 4 paging_runs paging_session = (Inr (map scanMaintenance (rev (sort_key mr_rowid
     (filter (maintenance_filter paging_runs) (maintenance_t (s_db paging_session)))))), s')"
  by (rule maintenance_pages_complete)
    (auto simp: paging_env_def paging_session_def paging_runs_def maintenance_options_ok_def rowids_ok_def max_int64_def)

end
