(* ===== verification/Mutations.thy ===== *)
theory Mutations
  imports Reads
begin

text \<open>
  The operations that change the store (\<open>mutations.go\<close>): creating a run, saving its capture with
  the targets, transitions of runs and targets, and observations. Each operation validates its
  arguments, then runs one transaction; the transaction's body is a definition of its own.
\<close>

section \<open>Creating a run\<close>

definition maintenance_row_of :: "Maintenance \<Rightarrow> maintenance_row" where
  "maintenance_row_of m = \<lparr>mr_rowid = 0, mr_id = m_ID m, mr_state = m_State m,
     mr_change_ticket = m_ChangeTicket m, mr_workflow_version = m_WorkflowVersion m,
     mr_metadata_json = m_Metadata m, mr_version = m_Version m,
     mr_created_at = formatRFC3339Nano (m_CreatedAt m), mr_updated_at = formatRFC3339Nano (m_UpdatedAt m)\<rparr>"

text \<open>The error of \<open>json.Marshal(m)\<close> is dropped; the payload is then empty.\<close>

definition create_tx :: "env \<Rightarrow> Maintenance \<Rightarrow> AuditContext \<Rightarrow> unit tx" where
  "create_tx E m audit =
    bindT (mapErrT (\<lambda>err. if isUnique (sql_text E) err
          then conflictError (Some ErrConflict) ''maintenance_id_exists'' ''maintenance'' (m_ID m) 0 1 '''' ''new''
          else err)
        (execT E (insert_maintenance E (maintenance_row_of m))))
    (\<lambda>_.
      let created = (case marshal_Maintenance m of None \<Rightarrow> '''' | Some txt \<Rightarrow> txt);
          (actor, role, requestID) = auditValues audit
      in appendEvent E (zero_Event\<lparr>e_Type := ''maintenance.created'', e_OccurredAt := m_CreatedAt m,
           e_RequestID := requestID, e_Actor := actor, e_Role := role, e_ResourceType := ''maintenance'',
           e_ResourceID := m_ID m, e_MaintenanceID := m_ID m, e_AggregateVersion := 1, e_Payload := created\<rparr>))"

definition CreateMaintenance :: "env \<Rightarrow> Maintenance \<Rightarrow> AuditContext \<Rightarrow> Maintenance tx" where
  "CreateMaintenance E m audit =
    (let m = (if m_State m = '''' then m\<lparr>m_State := ''new''\<rparr> else m) in
     if \<not> validID (m_ID m) \<or> m_State m \<noteq> ''new''
       then throwT (Wrapped ErrInvalid ''invalid maintenance fields'')
     else if length (m_ChangeTicket m) > 200 \<or> length (m_WorkflowVersion m) > 100
       then throwT (Wrapped ErrInvalid ''metadata fields too long'')
     else (case canonicalJSONDefault (m_Metadata m) of
         Inl e \<Rightarrow> throwT (Wrapped ErrInvalid e)
       | Inr metadata \<Rightarrow>
         if length metadata > 64 * 1024 then throwT (Wrapped ErrInvalid ''metadata exceeds 64 KiB'')
         else bindT (nowT E)
           (\<lambda>now. let m = m\<lparr>m_Metadata := metadata, m_Version := 1, m_CreatedAt := now, m_UpdatedAt := now\<rparr>
             in bindT (writeT E (create_tx E m audit)) (\<lambda>_. returnT m))))"

section \<open>The targets of a capture\<close>

record captureTarget =
  ct_TargetID :: string
  ct_LockKey :: string
  ct_Kind :: string
  ct_Host :: string
  ct_OriginalState :: string
  ct_ObservedAt :: "time option"
  ct_Metadata :: string

definition zero_captureTarget :: captureTarget where
  "zero_captureTarget = \<lparr>ct_TargetID = '''', ct_LockKey = '''', ct_Kind = '''', ct_Host = '''',
     ct_OriginalState = '''', ct_ObservedAt = None, ct_Metadata = ''''\<rparr>"

definition captureTarget_fields :: "string list" where
  "captureTarget_fields = [''target_id'', ''lock_key'', ''kind'', ''host'', ''original_state'', ''observed_at'', ''metadata'']"

definition set_captureTarget :: "string \<Rightarrow> string \<Rightarrow> captureTarget \<Rightarrow> captureTarget option" where
  "set_captureTarget f raw t =
    (if f = ''target_id'' then map_option (\<lambda>x. t\<lparr>ct_TargetID := x\<rparr>) (dec_string raw (ct_TargetID t))
     else if f = ''lock_key'' then map_option (\<lambda>x. t\<lparr>ct_LockKey := x\<rparr>) (dec_string raw (ct_LockKey t))
     else if f = ''kind'' then map_option (\<lambda>x. t\<lparr>ct_Kind := x\<rparr>) (dec_string raw (ct_Kind t))
     else if f = ''host'' then map_option (\<lambda>x. t\<lparr>ct_Host := x\<rparr>) (dec_string raw (ct_Host t))
     else if f = ''original_state'' then map_option (\<lambda>x. t\<lparr>ct_OriginalState := x\<rparr>) (dec_string raw (ct_OriginalState t))
     else if f = ''observed_at'' then map_option (\<lambda>x. t\<lparr>ct_ObservedAt := x\<rparr>) (dec_time_ptr raw)
     else Some (t\<lparr>ct_Metadata := raw\<rparr>))"

text \<open>\<open>json.Unmarshal\<close> into a slice of structs: null gives the nil slice, here \<open>Some None\<close>.\<close>

definition unmarshal_captureTargets :: "string \<Rightarrow> captureTarget list option option" where
  "unmarshal_captureTargets raw =
    (case json_parse raw of
       None \<Rightarrow> None
     | Some JNull \<Rightarrow> Some None
     | Some v \<Rightarrow>
       (case raw_array raw of None \<Rightarrow> None
        | Some es \<Rightarrow>
          (let ts = map (unmarshal_struct captureTarget_fields set_captureTarget zero_captureTarget) es
           in if list_ex (\<lambda>t. t = None) ts then None else Some (Some (map the ts)))))"

fun check_captureTargets :: "string list \<Rightarrow> captureTarget list \<Rightarrow> go_error + captureTarget list" where
  "check_captureTargets seen [] = Inr []"
| "check_captureTargets seen (t # ts) =
    (if \<not> validID (ct_TargetID t) \<or> ct_TargetID t \<in> set seen
       then Inl (Wrapped ErrInvalid ''capture target id is missing or duplicated'')
     else let lockKey = TrimSpace (ct_LockKey t) in
       if lockKey = '''' \<or> length lockKey > 512
         then Inl (Wrapped ErrInvalid ''capture target lock_key is required'')
       else if length (ct_Kind t) > 100 \<or> length (ct_Host t) > 512
         then Inl (Wrapped ErrInvalid ''capture target fields too long'')
       else if \<not> (ct_OriginalState t = ''running'' \<or> ct_OriginalState t = ''stopped''
             \<or> ct_OriginalState t = ''degraded'' \<or> ct_OriginalState t = ''unknown'')
         then Inl (Wrapped ErrInvalid (''capture target '' @ ct_TargetID t @ '' has invalid original_state''))
       else (case canonicalJSONDefault (ct_Metadata t) of
           Inl e \<Rightarrow> Inl (Wrapped ErrInvalid e)
         | Inr metadata \<Rightarrow>
           if length metadata > 64 * 1024 then Inl (Wrapped ErrInvalid ''target metadata exceeds 64 KiB'')
           else (case check_captureTargets (ct_TargetID t # seen) ts of
               Inl e \<Rightarrow> Inl e
             | Inr us \<Rightarrow> Inr (t\<lparr>ct_LockKey := lockKey, ct_Metadata := metadata\<rparr> # us))))"

definition parseCaptureTargets :: "string \<Rightarrow> go_error + captureTarget list" where
  "parseCaptureTargets payload =
    (case unmarshal_struct [''targets''] (\<lambda>f raw old. Some raw) '''' payload of
       None \<Rightarrow> Inl (Wrapped ErrInvalid ''invalid capture envelope'')
     | Some envelope \<Rightarrow>
       if length envelope = 0 then Inr []
       else (case unmarshal_captureTargets envelope of
           Some (Some targets) \<Rightarrow> check_captureTargets [] targets
         | _ \<Rightarrow> Inl (Wrapped ErrInvalid ''capture targets must be an array'')))"

section \<open>Saving a capture\<close>

definition lock_owner :: "string \<Rightarrow> database \<Rightarrow> string option" where
  "lock_owner key db = (case lock_holders db key of [] \<Rightarrow> None | t # _ \<Rightarrow> Some (tr_maintenance_id t))"

fun check_locks :: "env \<Rightarrow> captureTarget list \<Rightarrow> unit tx" where
  "check_locks E [] = returnT ()"
| "check_locks E (t # ts) =
    bindT (queryT E (lock_owner (ct_LockKey t)))
    (\<lambda>owner. case owner of
        Some holder \<Rightarrow> throwT (Conflict \<lparr>Base = Some ErrConflict, Reason = ''lock_in_use'', ResourceType = ''lock'',
          ResourceID = ct_LockKey t, ExpectedVersion = 0, CurrentVersion = 0, CurrentState = '''',
          RequestedState = '''', Holder = holder\<rparr>)
      | None \<Rightarrow> check_locks E ts)"

definition initial_target_state :: "captureTarget \<Rightarrow> string" where
  "initial_target_state t = (if ct_OriginalState t = ''stopped'' then ''stopped'' else ''captured'')"

definition target_row_of :: "string \<Rightarrow> string \<Rightarrow> captureTarget \<Rightarrow> target_row" where
  "target_row_of maintenanceID stamp t = \<lparr>tr_maintenance_id = maintenanceID, tr_id = ct_TargetID t,
     tr_lock_key = ct_LockKey t, tr_state = initial_target_state t, tr_original_state = ct_OriginalState t,
     tr_kind = ct_Kind t, tr_host = ct_Host t, tr_observed_at = map_option formatRFC3339Nano (ct_ObservedAt t),
     tr_metadata_json = ct_Metadata t, tr_version = 1, tr_created_at = stamp, tr_updated_at = stamp\<rparr>"

fun insert_targets :: "env \<Rightarrow> string \<Rightarrow> string \<Rightarrow> captureTarget list \<Rightarrow> unit tx" where
  "insert_targets E maintenanceID stamp [] = returnT ()"
| "insert_targets E maintenanceID stamp (t # ts) =
    bindT (execT E (insert_target E (target_row_of maintenanceID stamp t)))
      (\<lambda>_. insert_targets E maintenanceID stamp ts)"

definition require_one :: "nat \<Rightarrow> go_error \<Rightarrow> unit tx" where
  "require_one n err = (if n \<noteq> 1 then throwT err else returnT ())"

text \<open>\<open>json.Marshal(map[string]any{...})\<close> writes the keys in sorted order.\<close>

definition capture_detail :: "string \<Rightarrow> nat \<Rightarrow> string" where
  "capture_detail sha n = obj_text [(''sha256'', quote sha), (''targets'', FormatInt (int n))]"

definition save_capture_tx ::
    "env \<Rightarrow> Maintenance \<Rightarrow> Capture \<Rightarrow> captureTarget list \<Rightarrow> AuditContext \<Rightarrow> CaptureResult tx" where
  "save_capture_tx E m capture targets audit =
    (let maintenanceID = c_MaintenanceID capture; stamp = formatRFC3339Nano (c_CapturedAt capture) in
     bindT (check_locks E targets)
     (\<lambda>_. bindT (execT E (insert_capture E \<lparr>cr_maintenance_id = maintenanceID, cr_captured_at = stamp,
         cr_payload_json = c_Payload capture, cr_sha256 = c_SHA256 capture\<rparr>))
     (\<lambda>_. bindT (insert_targets E maintenanceID stamp targets)
     (\<lambda>_. bindT (nowT E)
     (\<lambda>now. let newRevision = wrap64 (m_Version m + 1) in
       bindT (execCountT E (update_maintenance E (\<lambda>r. mr_id r = maintenanceID \<and> mr_version r = m_Version m)
         (\<lambda>r. r\<lparr>mr_state := ''captured'', mr_version := newRevision, mr_updated_at := formatRFC3339Nano now\<rparr>)))
     (\<lambda>n. bindT (require_one n (conflictError (Some ErrVersionConflict) ''maintenance_version_changed'' ''maintenance''
         maintenanceID (m_Version m) (m_Version m) (m_State m) ''captured''))
     (\<lambda>_. let (actor, role, requestID) = auditValues audit in
       bindT (appendEvent E (zero_Event\<lparr>e_Type := ''maintenance.captured'', e_OccurredAt := now,
         e_RequestID := requestID, e_Actor := actor, e_Role := role, e_ResourceType := ''maintenance'',
         e_ResourceID := maintenanceID, e_MaintenanceID := maintenanceID, e_FromState := ''new'',
         e_ToState := ''captured'', e_FromVersion := m_Version m, e_ToVersion := newRevision,
         e_AggregateVersion := newRevision, e_Payload := capture_detail (c_SHA256 capture) (length targets)\<rparr>))
     (\<lambda>_. returnT \<lparr>cres_Capture = capture, cres_Created = True\<rparr>))))))))"

definition capture_tx :: "env \<Rightarrow> Capture \<Rightarrow> captureTarget list \<Rightarrow> AuditContext \<Rightarrow> CaptureResult tx" where
  "capture_tx E capture targets audit =
    (let maintenanceID = c_MaintenanceID capture in
     bindT (loadMaintenance E maintenanceID)
     (\<lambda>m. bindT (queryT E (capture_by_id maintenanceID))
     (\<lambda>found. case found of
         Some row \<Rightarrow>
           if cr_sha256 row = c_SHA256 capture \<and> cr_payload_json row = c_Payload capture
             then returnT \<lparr>cres_Capture = scanCapture row, cres_Created = False\<rparr>
           else throwT (conflictError (Some ErrConflict) ''immutable_capture_mismatch'' ''capture'' maintenanceID 0 0
             (m_State m) ''captured'')
       | None \<Rightarrow>
           if m_State m \<noteq> ''new''
             then throwT (conflictError (Some ErrConflict) ''capture_requires_new_maintenance'' ''maintenance''
               maintenanceID 0 (m_Version m) (m_State m) ''captured'')
           else save_capture_tx E m capture targets audit)))"

definition CaptureMaintenance :: "env \<Rightarrow> string \<Rightarrow> Capture \<Rightarrow> AuditContext \<Rightarrow> CaptureResult tx" where
  "CaptureMaintenance E maintenanceID capture audit =
    (if \<not> validID maintenanceID then throwT (Wrapped ErrInvalid ''invalid maintenance id'')
     else (case canonicalJSONObject (c_Payload capture) of
         Inl e \<Rightarrow> throwT (Wrapped ErrInvalid e)
       | Inr payload \<Rightarrow>
         (case parseCaptureTargets payload of
            Inl e \<Rightarrow> throwT e
          | Inr targets \<Rightarrow>
            bindT (if c_CapturedAt capture = 0 then nowT E else returnT (c_CapturedAt capture))
            (\<lambda>at. writeT E (capture_tx E
               \<lparr>c_MaintenanceID = maintenanceID, c_CapturedAt = at, c_Payload = payload,
                c_SHA256 = sha256_hex E payload\<rparr> targets audit)))))"

section \<open>Transitions of a run\<close>

definition validJustification :: "string \<Rightarrow> go_error + unit" where
  "validJustification v =
    (let v = TrimSpace v in
     if v = '''' \<or> length v > 4096
       then Inl (Wrapped ErrInvalid ''justification must be between 1 and 4096 characters'')
     else Inr ())"

definition capture_count :: "string \<Rightarrow> database \<Rightarrow> nat" where
  "capture_count i db = length (filter (\<lambda>r. cr_maintenance_id r = i) (captures_t db))"

definition exercised_count :: "string \<Rightarrow> database \<Rightarrow> nat" where
  "exercised_count i db =
    length (filter (\<lambda>r. er_maintenance_id r = Some i \<and> er_event_type r = ''target.transitioned'') (events_t db))"

definition unresolved :: "target_row \<Rightarrow> bool" where
  "unresolved r =
    (if tr_original_state r = ''running'' \<or> tr_original_state r = ''stopped''
     then \<not> (tr_state r = ''stopped'' \<or> tr_state r = ''skipped'')
     else tr_state r \<noteq> ''skipped'')"

definition unresolved_count :: "string \<Rightarrow> database \<Rightarrow> nat" where
  "unresolved_count i db = length (filter (\<lambda>r. tr_maintenance_id r = i \<and> unresolved r) (targets_t db))"

definition validateStoppedBarrier :: "env \<Rightarrow> string \<Rightarrow> unit tx" where
  "validateStoppedBarrier E maintenanceID =
    bindT (queryT E (unresolved_count maintenanceID))
    (\<lambda>n. if n \<noteq> 0
       then throwT (conflictError (Some ErrConflict) ''targets_not_stopped'' ''maintenance'' maintenanceID 0 0
         ''stopping'' ''stopped'')
       else returnT ())"

definition validateCompletion :: "env \<Rightarrow> string \<Rightarrow> unit tx" where
  "validateCompletion E maintenanceID =
    bindT (queryT E (capture_count maintenanceID))
    (\<lambda>captures. if captures \<noteq> 1
       then throwT (conflictError (Some ErrConflict) ''maintenance_has_no_capture'' ''maintenance'' maintenanceID 0 0
         '''' ''completed'')
       else bindT (queryT E (target_rows maintenanceID))
       (\<lambda>rows. case find (\<lambda>r. \<not> targetCompletionAllowed (tr_original_state r) (tr_state r)) rows of
           Some r \<Rightarrow> throwT (conflictError (Some ErrConflict) ''target_not_reconciled'' ''target'' (tr_id r) 0
             (tr_version r) (tr_state r) ''completed'')
         | None \<Rightarrow>
           if length rows = 0
             then throwT (conflictError (Some ErrConflict) ''maintenance_has_no_targets'' ''maintenance'' maintenanceID 0 0
               '''' ''completed'')
           else returnT ()))"

text \<open>The part of the transaction that only a failed run takes: an administrator reopens it.\<close>

definition reopen_tx :: "env \<Rightarrow> Maintenance \<Rightarrow> StateChange \<Rightarrow> AuditContext \<Rightarrow> unit tx" where
  "reopen_tx E m change audit =
    (let i = m_ID m in
     if \<not> isAdmin (a_Role audit) then throwT (Sentinel ErrForbidden)
     else bindT (liftT (validJustification (sc_Justification change)))
     (\<lambda>_. bindT (queryT E (capture_count i))
     (\<lambda>captureCount.
       if captureCount = 0 \<and> sc_State change \<noteq> ''new''
         then throwT (conflictError (Some ErrConflict) ''uncaptured_failure_reopens_to_new'' ''maintenance'' i 0
           (m_Version m) (m_State m) (sc_State change))
       else if captureCount = 1 \<and> (sc_State change = ''new'' \<or> sc_State change = ''completed'' \<or> sc_State change = ''cancelled'')
         then throwT (conflictError (Some ErrConflict) ''captured_failure_reopens_to_active_phase'' ''maintenance'' i 0
           (m_Version m) (m_State m) (sc_State change))
       else returnT ())))"

definition cancel_tx :: "env \<Rightarrow> Maintenance \<Rightarrow> StateChange \<Rightarrow> unit tx" where
  "cancel_tx E m change =
    bindT (queryT E (exercised_count (m_ID m)))
    (\<lambda>exercised. if exercised \<noteq> 0
       then throwT (conflictError (Some ErrConflict) ''cancel_requires_unexercised_targets'' ''maintenance'' (m_ID m) 0
         (m_Version m) (m_State m) (sc_State change))
       else returnT ())"

definition whenT :: "bool \<Rightarrow> ('s, unit) st \<Rightarrow> ('s, unit) st" where
  "whenT b t = (if b then t else returnT ())"

text \<open>The guards of a transition; the result is the type of the event to record.\<close>

definition transition_guards :: "env \<Rightarrow> Maintenance \<Rightarrow> StateChange \<Rightarrow> AuditContext \<Rightarrow> string tx" where
  "transition_guards E m change audit =
    (let i = m_ID m; state = sc_State change in
     bindT (if m_State m = ''failed'' then reopen_tx E m change audit
            else if IsMaintenanceTerminal (m_State m)
              then throwT (conflictError (Some ErrConflict) ''maintenance_terminal'' ''maintenance'' i 0
                (m_Version m) (m_State m) state)
            else returnT ())
     (\<lambda>_.
       if state = ''captured'' \<and> m_State m \<noteq> ''failed''
         then throwT (Wrapped ErrInvalid ''capture owns the captured transition'')
       else if \<not> ValidMaintenanceTransition (m_State m) state
         then throwT (Wrapped ErrInvalid (m_State m @ '' -> '' @ state @ '' is not allowed''))
       else bindT (whenT (state = ''cancelled'' \<and> m_State m = ''captured'') (cancel_tx E m change))
       (\<lambda>_. bindT (whenT (state = ''stopped'') (validateStoppedBarrier E i))
       (\<lambda>_. bindT (whenT (state = ''completed'') (validateCompletion E i))
       (\<lambda>_. returnT (if state = ''completed'' then ''maintenance.completed''
          else if m_State m = ''failed'' then ''maintenance.reopened''
          else ''maintenance.transitioned''))))))"

definition transition_maintenance_tx ::
    "env \<Rightarrow> string \<Rightarrow> StateChange \<Rightarrow> string \<Rightarrow> VersionPrecondition \<Rightarrow> AuditContext \<Rightarrow> MaintenanceAggregate tx" where
  "transition_maintenance_tx E i change payload precondition audit =
    bindT (loadMaintenance E i)
    (\<lambda>m. bindT (liftT (vp_require precondition (m_Version m) ''maintenance'' i (m_State m) (sc_State change)))
    (\<lambda>_. bindT (transition_guards E m change audit)
    (\<lambda>eventType. bindT (nowT E)
    (\<lambda>now. let newRevision = wrap64 (m_Version m + 1); stamp = formatRFC3339Nano now in
      bindT (queryT E (capture_count i))
    (\<lambda>captureCount. bindT (whenT (captureCount = 1)
        (bindT (execCountT E (update_targets E (\<lambda>r. tr_maintenance_id r = i)
          (\<lambda>r. r\<lparr>tr_version := tr_version r + 1, tr_updated_at := stamp\<rparr>))) (\<lambda>_. returnT ())))
    (\<lambda>_. bindT (execCountT E (update_maintenance E (\<lambda>r. mr_id r = i \<and> mr_version r = m_Version m)
        (\<lambda>r. r\<lparr>mr_state := sc_State change, mr_version := newRevision, mr_updated_at := stamp\<rparr>)))
    (\<lambda>n. bindT (require_one n (conflictError (Some ErrVersionConflict) ''maintenance_version_changed'' ''maintenance''
        i (m_Version m) (m_Version m) (m_State m) (sc_State change)))
    (\<lambda>_. let (actor, role, requestID) = auditValues audit in
      bindT (appendEvent E (zero_Event\<lparr>e_Type := eventType, e_OccurredAt := now, e_RequestID := requestID,
        e_Actor := actor, e_Role := role, e_ResourceType := ''maintenance'', e_ResourceID := i,
        e_MaintenanceID := i, e_FromState := m_State m, e_ToState := sc_State change,
        e_FromVersion := m_Version m, e_ToVersion := newRevision, e_AggregateVersion := newRevision,
        e_Payload := payload\<rparr>))
    (\<lambda>_. bindT (listTargets E i)
    (\<lambda>targets. returnT \<lparr>ma_Maintenance = m\<lparr>m_State := sc_State change, m_Version := newRevision, m_UpdatedAt := now\<rparr>,
       ma_Targets = targets\<rparr>))))))))))"

definition TransitionMaintenance ::
    "env \<Rightarrow> string \<Rightarrow> StateChange \<Rightarrow> VersionPrecondition \<Rightarrow> AuditContext \<Rightarrow> MaintenanceAggregate tx" where
  "TransitionMaintenance E i change precondition audit =
    (if \<not> validID i \<or> \<not> ValidMaintenanceState (sc_State change)
       then throwT (Wrapped ErrInvalid ''invalid maintenance transition'')
     else bindT (liftT (eventPayload (sc_Detail change) (TrimSpace (sc_Justification change))))
       (\<lambda>payload. writeT E (transition_maintenance_tx E i change payload precondition audit)))"

section \<open>Transitions of a target\<close>

text \<open>The guards after the precondition; the result is the type of the event to record.\<close>

definition target_guards :: "Maintenance \<Rightarrow> Target \<Rightarrow> StateChange \<Rightarrow> AuditContext \<Rightarrow> go_error + string" where
  "target_guards m t change audit =
    (let state = sc_State change;
         conflict = (\<lambda>reason. conflictError (Some ErrConflict) reason ''target'' (t_ID t) 0 (t_Version t) (t_State t) state);
         late = (\<lambda>eventType.
           if t_State t = ''healthy'' \<or> t_State t = ''skipped'' then Inl (conflict ''target_terminal'')
           else if \<not> ValidTargetTransition (t_State t) state
             then Inl (Wrapped ErrInvalid (t_State t @ '' -> '' @ state @ '' is not allowed''))
           else if t_OriginalState t = ''stopped'' \<and> state \<noteq> ''skipped'' then Inl (conflict ''originally_stopped_target'')
           else if state \<noteq> ''skipped'' \<and> \<not> targetPhaseAllowed (m_State m) state
             then Inl (conflict ''target_phase_mismatch'')
           else Inr eventType)
     in if state = ''skipped'' then
          (if \<not> isAdmin (a_Role audit) then Inl (Sentinel ErrForbidden)
           else (case validJustification (sc_Justification change) of
               Inl e \<Rightarrow> Inl e
             | Inr _ \<Rightarrow> late ''target.skipped''))
        else if t_OriginalState t = ''degraded'' \<or> t_OriginalState t = ''unknown''
          then Inl (conflict ''unresolved_target_requires_skip'')
        else late ''target.transitioned'')"

definition transition_target_tx ::
    "env \<Rightarrow> string \<Rightarrow> string \<Rightarrow> StateChange \<Rightarrow> string \<Rightarrow> VersionPrecondition \<Rightarrow> AuditContext \<Rightarrow> TargetTransitionResult tx" where
  "transition_target_tx E maintenanceID targetID change payload precondition audit =
    bindT (loadMaintenance E maintenanceID)
    (\<lambda>m. if IsMaintenanceTerminal (m_State m)
        then throwT (conflictError (Some ErrConflict) ''parent_maintenance_terminal'' ''maintenance'' maintenanceID 0
          (m_Version m) (m_State m) (sc_State change))
      else bindT (loadTarget E maintenanceID targetID)
    (\<lambda>t. bindT (liftT (vp_require precondition (t_Version t) ''target'' targetID (t_State t) (sc_State change)))
    (\<lambda>_. bindT (liftT (target_guards m t change audit))
    (\<lambda>eventType. bindT (nowT E)
    (\<lambda>now. let newTargetVersion = wrap64 (t_Version t + 1); newRevision = wrap64 (m_Version m + 1);
               stamp = formatRFC3339Nano now in
      bindT (execCountT E (update_targets E
        (\<lambda>r. tr_maintenance_id r = maintenanceID \<and> tr_id r = targetID \<and> tr_version r = t_Version t)
        (\<lambda>r. r\<lparr>tr_state := sc_State change, tr_version := newTargetVersion, tr_updated_at := stamp\<rparr>)))
    (\<lambda>n. bindT (require_one n (conflictError (Some ErrVersionConflict) ''target_version_changed'' ''target'' targetID
        (t_Version t) (t_Version t) (t_State t) (sc_State change)))
    (\<lambda>_. bindT (execCountT E (update_maintenance E
        (\<lambda>r. mr_id r = maintenanceID \<and> mr_version r = m_Version m)
        (\<lambda>r. r\<lparr>mr_version := newRevision, mr_updated_at := stamp\<rparr>)))
    (\<lambda>n. bindT (require_one n (conflictError (Some ErrVersionConflict) ''maintenance_version_changed'' ''maintenance''
        maintenanceID (m_Version m) (m_Version m) (m_State m) (sc_State change)))
    (\<lambda>_. let (actor, role, requestID) = auditValues audit in
      bindT (appendEvent E (zero_Event\<lparr>e_Type := eventType, e_OccurredAt := now, e_RequestID := requestID,
        e_Actor := actor, e_Role := role, e_ResourceType := ''target'', e_ResourceID := targetID,
        e_MaintenanceID := maintenanceID, e_TargetID := targetID, e_FromState := t_State t,
        e_ToState := sc_State change, e_FromVersion := t_Version t, e_ToVersion := newTargetVersion,
        e_AggregateVersion := newRevision, e_Payload := payload\<rparr>))
    (\<lambda>_. returnT \<lparr>ttr_Target = t\<lparr>t_State := sc_State change, t_Version := newTargetVersion, t_UpdatedAt := now\<rparr>,
       ttr_MaintenanceVersion = newRevision\<rparr>))))))))))"

definition TransitionTarget ::
    "env \<Rightarrow> string \<Rightarrow> string \<Rightarrow> StateChange \<Rightarrow> VersionPrecondition \<Rightarrow> AuditContext \<Rightarrow> TargetTransitionResult tx" where
  "TransitionTarget E maintenanceID targetID change precondition audit =
    (if \<not> validID maintenanceID \<or> \<not> validID targetID \<or> \<not> ValidTargetState (sc_State change)
       then throwT (Wrapped ErrInvalid ''invalid target transition'')
     else bindT (liftT (eventPayload (sc_Detail change) (TrimSpace (sc_Justification change))))
       (\<lambda>payload. writeT E (transition_target_tx E maintenanceID targetID change payload precondition audit)))"

section \<open>Observations\<close>

definition observation_by_request :: "string \<Rightarrow> string \<Rightarrow> string \<Rightarrow> database \<Rightarrow> event_row option" where
  "observation_by_request maintenanceID targetID requestID db =
    find (\<lambda>r. er_event_type r = ''target.observed'' \<and> er_maintenance_id r = Some maintenanceID
      \<and> er_target_id r = Some targetID \<and> er_request_id r = requestID) (events_t db)"

definition observation_tx ::
    "env \<Rightarrow> string \<Rightarrow> string \<Rightarrow> string \<Rightarrow> VersionPrecondition \<Rightarrow> AuditContext \<Rightarrow> unit tx" where
  "observation_tx E maintenanceID targetID canonical precondition audit =
    (let (actor, role, requestID) = auditValues audit in
     bindT (queryT E (observation_by_request maintenanceID targetID requestID))
     (\<lambda>found. case found of
         Some r \<Rightarrow>
           if er_payload_json r = canonical then returnT ()
           else throwT (conflictError (Some ErrConflict) ''observation_request_id_reused'' ''target'' targetID 0 0 '''' ''observed'')
       | None \<Rightarrow>
           bindT (loadMaintenance E maintenanceID)
           (\<lambda>m. bindT (loadTarget E maintenanceID targetID)
           (\<lambda>t. if IsMaintenanceTerminal (m_State m)
               then throwT (conflictError (Some ErrConflict) ''parent_maintenance_terminal'' ''maintenance'' maintenanceID 0
                 (m_Version m) (m_State m) ''observed'')
             else bindT (liftT (vp_require precondition (t_Version t) ''target'' targetID (t_State t) ''observed''))
           (\<lambda>_. bindT (nowT E)
           (\<lambda>now. appendEvent E (zero_Event\<lparr>e_Type := ''target.observed'', e_OccurredAt := now,
             e_RequestID := requestID, e_Actor := actor, e_Role := role, e_ResourceType := ''target'',
             e_ResourceID := targetID, e_MaintenanceID := maintenanceID, e_TargetID := targetID,
             e_Payload := canonical\<rparr>)))))))"

definition AddObservation ::
    "env \<Rightarrow> string \<Rightarrow> string \<Rightarrow> string \<Rightarrow> VersionPrecondition \<Rightarrow> AuditContext \<Rightarrow> unit tx" where
  "AddObservation E maintenanceID targetID payload precondition audit =
    (if \<not> validID maintenanceID \<or> \<not> validID targetID
       then throwT (Wrapped ErrInvalid ''invalid target identity'')
     else (case canonicalJSONObject payload of
         Inl e \<Rightarrow> throwT (Wrapped ErrInvalid e)
       | Inr canonical \<Rightarrow>
         if length canonical > 64 * 1024 then throwT (Wrapped ErrInvalid ''observation exceeds 64 KiB'')
         else writeT E (observation_tx E maintenanceID targetID canonical precondition audit)))"

end
