(* ===== verification/Effects.thy ===== *)
theory Effects
  imports Mutations
begin

text \<open>
  What a successful mutation does to the database: one lemma per operation, with the guards that
  held and the tables afterwards. The later theories use only these lemmas, not the bodies of the
  transactions.
\<close>

section \<open>Steps of a transaction\<close>

text \<open>The database after one appended event, with the defaults that \<open>appendEvent\<close> fills in.\<close>

definition filled_event :: "Event \<Rightarrow> Event" where
  "filled_event ev =
    (let (actor, role, requestID) = auditValues \<lparr>a_Actor = e_Actor ev, a_Role = e_Role ev, a_RequestID = e_RequestID ev\<rparr>
     in ev\<lparr>e_Actor := actor, e_Role := role, e_RequestID := requestID,
          e_Payload := (if length (e_Payload ev) = 0 then ''{}'' else e_Payload ev)\<rparr>)"

definition logged_row :: "Event \<Rightarrow> database \<Rightarrow> event_row" where
  "logged_row ev db = (event_row_of (filled_event ev))\<lparr>er_journal_id := next_rowid (map er_journal_id (events_t db))\<rparr>"

definition log_event :: "Event \<Rightarrow> database \<Rightarrow> database" where
  "log_event ev db = db\<lparr>events_t := events_t db @ [logged_row ev db]\<rparr>"

lemma log_event_tables [simp]:
  "maintenance_t (log_event ev db) = maintenance_t db" "captures_t (log_event ev db) = captures_t db"
  "targets_t (log_event ev db) = targets_t db" "events_t (log_event ev db) = events_t db @ [logged_row ev db]"
  by (simp_all add: log_event_def)

definition log_ok :: "env \<Rightarrow> Event \<Rightarrow> database \<Rightarrow> bool" where
  "log_ok E ev db \<longleftrightarrow> e_Type ev \<noteq> '''' \<and> e_ResourceType ev \<noteq> '''' \<and> e_ResourceID ev \<noteq> '''' \<and> e_OccurredAt ev \<noteq> 0
     \<and> json_valid (e_Payload (filled_event ev)) \<and> event_checks E (event_row_of (filled_event ev))
     \<and> \<not> list_ex (same_aggregate_version (event_row_of (filled_event ev))) (events_t db)
     \<and> \<not> list_ex (same_observation (event_row_of (filled_event ev))) (events_t db)"

lemma appendEvent_eq:
  "appendEvent E ev s = (if e_Type ev = '''' \<or> e_ResourceType ev = '''' \<or> e_ResourceID ev = '''' \<or> e_OccurredAt ev = 0
       then throwT (Wrapped ErrInvalid ''event identity is required'') s
     else if \<not> json_valid (e_Payload (filled_event ev)) then throwT (Wrapped ErrInvalid ''event payload must be valid JSON'') s
     else execT E (insert_event E (event_row_of (filled_event ev))) s)"
  by (simp add: appendEvent_def filled_event_def Let_def split: prod.split)

lemma appendEvent_Inr:
  assumes "appendEvent E ev s = (Inr u, s')"
  shows "log_ok E ev (s_db s)" "s_db s' = log_event ev (s_db s)" "s_ticks s' = Suc (s_ticks s)"
    "\<not> fault E (s_ticks s)"
  using assms unfolding appendEvent_eq
  by (auto simp: tx_simps log_ok_def log_event_def logged_row_def tick_def insert_event_def split: if_splits)

lemma filled_event_simps [simp]:
  "e_Type (filled_event ev) = e_Type ev" "e_OccurredAt (filled_event ev) = e_OccurredAt ev"
  "e_ResourceType (filled_event ev) = e_ResourceType ev" "e_ResourceID (filled_event ev) = e_ResourceID ev"
  "e_MaintenanceID (filled_event ev) = e_MaintenanceID ev" "e_TargetID (filled_event ev) = e_TargetID ev"
  "e_FromState (filled_event ev) = e_FromState ev" "e_ToState (filled_event ev) = e_ToState ev"
  "e_FromVersion (filled_event ev) = e_FromVersion ev" "e_ToVersion (filled_event ev) = e_ToVersion ev"
  "e_AggregateVersion (filled_event ev) = e_AggregateVersion ev"
  by (simp_all add: filled_event_def Let_def split: prod.split)

lemma filled_event_payload [simp]: "e_Payload ev \<noteq> '''' \<Longrightarrow> e_Payload (filled_event ev) = e_Payload ev"
  by (simp add: filled_event_def Let_def split: prod.split)

lemma filled_event_role [simp]: "e_Role ev \<noteq> '''' \<Longrightarrow> e_Role (filled_event ev) = e_Role ev"
  by (simp add: filled_event_def auditValues_def)

lemma filled_event_request [simp]: "e_RequestID ev \<noteq> '''' \<Longrightarrow> e_RequestID (filled_event ev) = e_RequestID ev"
  by (simp add: filled_event_def auditValues_def)

lemma filled_event_not_empty:
  "e_Actor (filled_event ev) \<noteq> ''''" "e_Role (filled_event ev) \<noteq> ''''" "e_RequestID (filled_event ev) \<noteq> ''''"
  by (simp_all add: filled_event_def auditValues_def)

lemma rowT_Inr [tx_simps]: "rowT r s = (Inr x, s') \<longleftrightarrow> r = Some x \<and> s' = s"
  by (auto simp: rowT_def tx_simps split: option.splits)

lemma require_one_Inr [tx_simps]: "require_one n e s = (Inr u, s') \<longleftrightarrow> n = 1 \<and> s' = s"
  by (auto simp: require_one_def tx_simps)

lemma whenT_Inr [tx_simps]: "whenT b t s = (Inr u, s') \<longleftrightarrow> (if b then t s = (Inr u, s') else s' = s)"
  by (auto simp: whenT_def tx_simps)

lemma loadMaintenance_Inr [tx_simps]:
  "loadMaintenance E i s = (Inr m, s') \<longleftrightarrow>
     \<not> fault E (s_ticks s) \<and> (\<exists>r. maintenance_by_id i (s_db s) = Some r \<and> m = scanMaintenance r) \<and> s' = tick s"
  by (auto simp: loadMaintenance_def tx_simps)

lemma loadTarget_Inr [tx_simps]:
  "loadTarget E i t s = (Inr x, s') \<longleftrightarrow>
     \<not> fault E (s_ticks s) \<and> (\<exists>r. target_by_id i t (s_db s) = Some r \<and> x = scanTarget r) \<and> s' = tick s"
  by (auto simp: loadTarget_def tx_simps)

lemmas tx_control = bindT_Inr returnT_Inr nowT_Inr liftT_Inr throwT_Inr require_one_Inr

section \<open>Creating a run\<close>

definition created_event :: "Maintenance \<Rightarrow> AuditContext \<Rightarrow> Event" where
  "created_event m audit =
    (let (actor, role, requestID) = auditValues audit in
     zero_Event\<lparr>e_Type := ''maintenance.created'', e_OccurredAt := m_CreatedAt m,
       e_RequestID := requestID, e_Actor := actor, e_Role := role, e_ResourceType := ''maintenance'',
       e_ResourceID := m_ID m, e_MaintenanceID := m_ID m, e_AggregateVersion := 1,
       e_Payload := (case marshal_Maintenance m of None \<Rightarrow> '''' | Some txt \<Rightarrow> txt)\<rparr>)"

definition add_maintenance :: "Maintenance \<Rightarrow> database \<Rightarrow> database" where
  "add_maintenance m db = db\<lparr>maintenance_t := maintenance_t db
     @ [(maintenance_row_of m)\<lparr>mr_rowid := next_rowid (map mr_rowid (maintenance_t db))\<rparr>]\<rparr>"

definition create_ok :: "Maintenance \<Rightarrow> database \<Rightarrow> bool" where
  "create_ok m db \<longleftrightarrow> validID (m_ID m) \<and> m_State m = ''new'' \<and> m_Version m = 1 \<and> m_UpdatedAt m = m_CreatedAt m
     \<and> canonical_text (m_Metadata m) \<and> length (m_Metadata m) \<le> 64 * 1024
     \<and> length (m_ChangeTicket m) \<le> 200 \<and> length (m_WorkflowVersion m) \<le> 100
     \<and> maintenance_by_id (m_ID m) db = None"

lemma create_tx_Inr:
  assumes "create_tx E m audit s = (Inr u, s')"
  shows "maintenance_by_id (m_ID m) (s_db s) = None" "log_ok E (created_event m audit) (add_maintenance m (s_db s))"
    "s_db s' = log_event (created_event m audit) (add_maintenance m (s_db s))"
proof -
  obtain s1 where s1: "execT E (insert_maintenance E (maintenance_row_of m)) s = (Inr (), s1)"
    "appendEvent E (created_event m audit) s1 = (Inr u, s')"
    using assms by (auto simp: create_tx_def created_event_def tx_simps Let_def split: prod.splits)
  then have "s_db s1 = add_maintenance m (s_db s)" "maintenance_by_id (m_ID m) (s_db s) = None"
    by (auto simp: tx_simps insert_maintenance_def add_maintenance_def maintenance_row_of_def
        maintenance_by_id_def find_None_iff list_ex_iff split: if_splits)
  with appendEvent_Inr [OF s1(2)]
  show "maintenance_by_id (m_ID m) (s_db s) = None" "log_ok E (created_event m audit) (add_maintenance m (s_db s))"
    "s_db s' = log_event (created_event m audit) (add_maintenance m (s_db s))" by simp_all
qed

lemma CreateMaintenance_Inr:
  assumes "CreateMaintenance E m0 audit s = (Inr m, s')"
  shows "create_ok m (s_db s)" "m_CreatedAt m = clock E (s_ticks s)"
    "m_ID m = m_ID m0" "m_ChangeTicket m = m_ChangeTicket m0" "m_WorkflowVersion m = m_WorkflowVersion m0"
    "log_ok E (created_event m audit) (add_maintenance m (s_db s))"
    "s_db s' = log_event (created_event m audit) (add_maintenance m (s_db s))"
proof -
  define m1 where "m1 = (if m_State m0 = '''' then m0\<lparr>m_State := ''new''\<rparr> else m0)"
  obtain md where md: "canonicalJSONDefault (m_Metadata m1) = Inr md" "\<not> length md > 64 * 1024"
    "validID (m_ID m1)" "m_State m1 = ''new''" "length (m_ChangeTicket m1) \<le> 200" "length (m_WorkflowVersion m1) \<le> 100"
    and m: "m = m1\<lparr>m_Metadata := md, m_Version := 1, m_CreatedAt := clock E (s_ticks s), m_UpdatedAt := clock E (s_ticks s)\<rparr>"
    and w: "writeT E (create_tx E m audit) (tick s) = (Inr (), s')"
    using assms unfolding CreateMaintenance_def Let_def m1_def [symmetric]
    by (auto simp: tx_simps split: if_splits sum.splits)
  obtain s1 where "create_tx E m audit (tick (tick s)) = (Inr (), s1)" "s' = tick s1"
    using w by (auto simp: writeT_Inr)
  note tx = create_tx_Inr [OF this(1)] this(2)
  show "create_ok m (s_db s)"
    using md tx(1) by (auto simp: create_ok_def m dest: canonicalJSONDefault_canonical)
  show "log_ok E (created_event m audit) (add_maintenance m (s_db s))"
    "s_db s' = log_event (created_event m audit) (add_maintenance m (s_db s))" using tx by simp_all
  show "m_CreatedAt m = clock E (s_ticks s)" "m_ID m = m_ID m0" "m_ChangeTicket m = m_ChangeTicket m0"
    "m_WorkflowVersion m = m_WorkflowVersion m0" by (simp_all add: m m1_def)
qed

section \<open>Saving a capture\<close>

lemma check_locks_Inr:
  "check_locks E ts s = (Inr u, s') \<Longrightarrow> s_db s' = s_db s \<and> (\<forall>t \<in> set ts. lock_holders (s_db s) (ct_LockKey t) = [])"
proof (induction ts arbitrary: s)
  case (Cons t ts)
  then obtain s1 where "check_locks E ts s1 = (Inr u, s')" "s_db s1 = s_db s" "lock_owner (ct_LockKey t) (s_db s) = None"
    by (auto simp: tx_simps split: option.splits)
  with Cons.IH [of s1] show ?case by (auto simp: lock_owner_def split: list.splits)
qed (simp add: tx_simps)

lemma insert_targets_Inr:
  "insert_targets E i stamp ts s = (Inr u, s') \<Longrightarrow>
     s_db s' = (s_db s)\<lparr>targets_t := targets_t (s_db s) @ map (target_row_of i stamp) ts\<rparr>
     \<and> (\<forall>t \<in> set ts. \<not> list_ex (\<lambda>x. tr_maintenance_id x = i \<and> tr_id x = ct_TargetID t) (targets_t (s_db s)))"
proof (induction ts arbitrary: s)
  case (Cons t ts)
  then obtain s1 where s1: "insert_targets E i stamp ts s1 = (Inr u, s')"
    "insert_target E (target_row_of i stamp t) (s_db s) = Inr (s_db s1)"
    by (auto simp: tx_simps)
  then have "s_db s1 = (s_db s)\<lparr>targets_t := targets_t (s_db s) @ [target_row_of i stamp t]\<rparr>"
    "\<not> list_ex (\<lambda>x. tr_maintenance_id x = i \<and> tr_id x = ct_TargetID t) (targets_t (s_db s))"
    by (auto simp: insert_target_def target_row_of_def split: if_splits)
  with Cons.IH [OF s1(1)] show ?case by auto
qed (simp add: tx_simps)

definition captured_event :: "env \<Rightarrow> Maintenance \<Rightarrow> Capture \<Rightarrow> nat \<Rightarrow> AuditContext \<Rightarrow> time \<Rightarrow> Event" where
  "captured_event E m capture n audit now =
    (let (actor, role, requestID) = auditValues audit in
     zero_Event\<lparr>e_Type := ''maintenance.captured'', e_OccurredAt := now,
         e_RequestID := requestID, e_Actor := actor, e_Role := role, e_ResourceType := ''maintenance'',
         e_ResourceID := c_MaintenanceID capture, e_MaintenanceID := c_MaintenanceID capture, e_FromState := ''new'',
         e_ToState := ''captured'', e_FromVersion := m_Version m, e_ToVersion := wrap64 (m_Version m + 1),
         e_AggregateVersion := wrap64 (m_Version m + 1), e_Payload := capture_detail (c_SHA256 capture) n\<rparr>)"

text \<open>An UPDATE of the one run with an id and a version.\<close>

definition set_run :: "string \<Rightarrow> (maintenance_row \<Rightarrow> maintenance_row) \<Rightarrow> database \<Rightarrow> database" where
  "set_run i f db = db\<lparr>maintenance_t := map (\<lambda>r. if mr_id r = i then f r else r) (maintenance_t db)\<rparr>"

definition run_unique :: "database \<Rightarrow> bool" where
  "run_unique db \<longleftrightarrow> distinct (map mr_id (maintenance_t db))"

lemma maintenance_by_id_iff:
  "run_unique db \<Longrightarrow> maintenance_by_id i db = Some r \<longleftrightarrow> r \<in> set (maintenance_t db) \<and> mr_id r = i"
proof -
  assume u: "run_unique db"
  have "find (\<lambda>r. mr_id r = i) rows = Some r \<longleftrightarrow> r \<in> set rows \<and> mr_id r = i"
    if "distinct (map mr_id rows)" for rows
    using that by (induction rows) (auto simp: image_iff)
  with u show ?thesis by (simp add: run_unique_def maintenance_by_id_def)
qed

lemma update_run:
  assumes "run_unique db" "maintenance_by_id i db = Some r" "mr_version r = v"
    and "update_maintenance E (\<lambda>r. mr_id r = i \<and> mr_version r = v) f db = Inr (db', n)"
  shows "db' = set_run i f db" "0 < mr_version (f r)"
proof -
  have r: "r \<in> set (maintenance_t db)" "mr_id r = i" using assms(1,2) by (simp_all add: maintenance_by_id_iff)
  have eq: "x = r" if "x \<in> set (maintenance_t db)" "mr_id x = i" for x
    using assms(1,2) that by (metis maintenance_by_id_iff option.inject)
  have "(if mr_id x = i \<and> mr_version x = v then f x else x) = (if mr_id x = i then f x else x)"
    if "x \<in> set (maintenance_t db)" for x using eq [OF that] assms(3) by auto
  then have "map (\<lambda>x. if mr_id x = i \<and> mr_version x = v then f x else x) (maintenance_t db)
    = map (\<lambda>x. if mr_id x = i then f x else x) (maintenance_t db)" by (intro map_cong) auto
  moreover have "db' = db\<lparr>maintenance_t := map (\<lambda>x. if mr_id x = i \<and> mr_version x = v then f x else x) (maintenance_t db)\<rparr>"
    using assms(4) by (auto simp: update_maintenance_def Let_def split: if_splits)
  ultimately show "db' = set_run i f db" by (simp only: set_run_def)
  show "0 < mr_version (f r)"
    using assms(3,4) r by (auto simp: update_maintenance_def Let_def list_all_iff maintenance_checks_def split: if_splits)
qed

definition add_capture :: "Capture \<Rightarrow> captureTarget list \<Rightarrow> database \<Rightarrow> database" where
  "add_capture capture targets db =
    (let stamp = formatRFC3339Nano (c_CapturedAt capture) in
     db\<lparr>captures_t := captures_t db @ [\<lparr>cr_maintenance_id = c_MaintenanceID capture, cr_captured_at = stamp,
         cr_payload_json = c_Payload capture, cr_sha256 = c_SHA256 capture\<rparr>],
       targets_t := targets_t db @ map (target_row_of (c_MaintenanceID capture) stamp) targets\<rparr>)"

lemma save_capture_tx_Inr:
  assumes "save_capture_tx E m capture targets audit s = (Inr res, s')"
    and "run_unique (s_db s)" "maintenance_by_id (c_MaintenanceID capture) (s_db s) = Some r" "m = scanMaintenance r"
  obtains now n where "now = clock E n"
    "\<And>t. t \<in> set targets \<Longrightarrow> lock_holders (s_db s) (ct_LockKey t) = []"
    "\<And>t. t \<in> set targets \<Longrightarrow> target_by_id (c_MaintenanceID capture) (ct_TargetID t) (s_db s) = None"
    "0 < wrap64 (m_Version m + 1)"
    "log_ok E (captured_event E m capture (length targets) audit now)
       (set_run (c_MaintenanceID capture) (\<lambda>r. r\<lparr>mr_state := ''captured'', mr_version := wrap64 (m_Version m + 1),
          mr_updated_at := formatRFC3339Nano now\<rparr>) (add_capture capture targets (s_db s)))"
    "s_db s' = log_event (captured_event E m capture (length targets) audit now)
       (set_run (c_MaintenanceID capture) (\<lambda>r. r\<lparr>mr_state := ''captured'', mr_version := wrap64 (m_Version m + 1),
          mr_updated_at := formatRFC3339Nano now\<rparr>) (add_capture capture targets (s_db s)))"
    "res = \<lparr>cres_Capture = capture, cres_Created = True\<rparr>"
proof -
  let ?i = "c_MaintenanceID capture"
  let ?stamp = "formatRFC3339Nano (c_CapturedAt capture)"
  let ?f = "\<lambda>now r. r\<lparr>mr_state := ''captured'', mr_version := wrap64 (m_Version m + 1), mr_updated_at := formatRFC3339Nano now\<rparr>"
  obtain actor role req where av: "auditValues audit = (actor, role, req)" by (rule prod_cases3)
  obtain s1 s2 s3 now s5 s6 where
    s1: "check_locks E targets s = (Inr (), s1)"
    and s2: "execT E (insert_capture E \<lparr>cr_maintenance_id = ?i, cr_captured_at = ?stamp,
         cr_payload_json = c_Payload capture, cr_sha256 = c_SHA256 capture\<rparr>) s1 = (Inr (), s2)"
    and s3: "insert_targets E ?i ?stamp targets s2 = (Inr (), s3)"
    and now: "now = clock E (s_ticks s3)"
    and s5: "execCountT E (update_maintenance E (\<lambda>r. mr_id r = ?i \<and> mr_version r = m_Version m) (?f now)) (tick s3) = (Inr 1, s5)"
    and s6: "appendEvent E (captured_event E m capture (length targets) audit now) s5 = (Inr (), s6)"
    and res: "s' = s6" "res = \<lparr>cres_Capture = capture, cres_Created = True\<rparr>"
    using assms(1)
    by (auto simp: save_capture_tx_def Let_def tx_control captured_event_def av)
  have db2: "s_db s2 = (s_db s)\<lparr>captures_t := captures_t (s_db s) @ [\<lparr>cr_maintenance_id = ?i, cr_captured_at = ?stamp,
         cr_payload_json = c_Payload capture, cr_sha256 = c_SHA256 capture\<rparr>]\<rparr>"
    using s2 check_locks_Inr [OF s1] by (auto simp: tx_simps insert_capture_def split: if_splits)
  have db3: "s_db s3 = add_capture capture targets (s_db s)"
    using insert_targets_Inr [OF s3] by (simp add: db2 add_capture_def Let_def)
  have "maintenance_by_id ?i (s_db s3) = Some r" "run_unique (s_db s3)"
    using assms(2,3) by (simp_all add: db3 add_capture_def maintenance_by_id_def run_unique_def Let_def)
  moreover have "update_maintenance E (\<lambda>r. mr_id r = ?i \<and> mr_version r = m_Version m) (?f now) (s_db s3) = Inr (s_db s5, 1)"
    using s5 by (auto simp: tx_simps)
  moreover have "mr_version r = m_Version m" by (simp add: assms(4) scanMaintenance_def)
  ultimately have up: "s_db s5 = set_run ?i (?f now) (s_db s3)" "0 < mr_version (?f now r)"
    using update_run [of "s_db s3" ?i r "m_Version m" E "?f now" "s_db s5" 1] by blast+
  show ?thesis
  proof (rule that [OF now])
    show "lock_holders (s_db s) (ct_LockKey t) = []" if "t \<in> set targets" for t
      using check_locks_Inr [OF s1] that by blast
    show "target_by_id ?i (ct_TargetID t) (s_db s) = None" if "t \<in> set targets" for t
      using insert_targets_Inr [OF s3] that by (auto simp: db2 target_by_id_def find_None_iff list_ex_iff)
    show "0 < wrap64 (m_Version m + 1)" using up(2) by simp
  qed (use appendEvent_Inr [OF s6] up(1) db3 res in simp_all)
qed

text \<open>
  A capture either was saved before with the same bytes, and nothing changes, or is saved now
  from the state new.
\<close>

definition capture_of :: "env \<Rightarrow> string \<Rightarrow> time \<Rightarrow> string \<Rightarrow> Capture" where
  "capture_of E i at payload = \<lparr>c_MaintenanceID = i, c_CapturedAt = at, c_Payload = payload, c_SHA256 = sha256_hex E payload\<rparr>"

definition saved_capture ::
    "env \<Rightarrow> Maintenance \<Rightarrow> Capture \<Rightarrow> captureTarget list \<Rightarrow> AuditContext \<Rightarrow> time \<Rightarrow> database \<Rightarrow> database" where
  "saved_capture E m capture targets audit now db = log_event (captured_event E m capture (length targets) audit now)
     (set_run (c_MaintenanceID capture) (\<lambda>r. r\<lparr>mr_state := ''captured'', mr_version := wrap64 (m_Version m + 1),
        mr_updated_at := formatRFC3339Nano now\<rparr>) (add_capture capture targets db))"

definition save_ok :: "env \<Rightarrow> Maintenance \<Rightarrow> Capture \<Rightarrow> captureTarget list \<Rightarrow> AuditContext \<Rightarrow> time \<Rightarrow> database \<Rightarrow> bool" where
  "save_ok E m capture targets audit now db \<longleftrightarrow> m_State m = ''new''
     \<and> (\<exists>r. maintenance_by_id (c_MaintenanceID capture) db = Some r \<and> m = scanMaintenance r)
     \<and> capture_by_id (c_MaintenanceID capture) db = None
     \<and> (\<forall>t \<in> set targets. lock_holders db (ct_LockKey t) = [] \<and> target_by_id (c_MaintenanceID capture) (ct_TargetID t) db = None)
     \<and> 0 < wrap64 (m_Version m + 1)
     \<and> log_ok E (captured_event E m capture (length targets) audit now)
         (set_run (c_MaintenanceID capture) (\<lambda>r. r\<lparr>mr_state := ''captured'', mr_version := wrap64 (m_Version m + 1),
            mr_updated_at := formatRFC3339Nano now\<rparr>) (add_capture capture targets db))"

lemma capture_tx_Inr:
  assumes "capture_tx E capture targets audit s = (Inr res, s')" "run_unique (s_db s)"
  obtains (same) row where "capture_by_id (c_MaintenanceID capture) (s_db s) = Some row"
      "cr_sha256 row = c_SHA256 capture" "cr_payload_json row = c_Payload capture"
      "res = \<lparr>cres_Capture = scanCapture row, cres_Created = False\<rparr>" "s_db s' = s_db s"
  | (saved) m now n where "now = clock E n" "save_ok E m capture targets audit now (s_db s)"
      "s_db s' = saved_capture E m capture targets audit now (s_db s)"
      "res = \<lparr>cres_Capture = capture, cres_Created = True\<rparr>"
proof -
  let ?i = "c_MaintenanceID capture"
  obtain r where r: "maintenance_by_id ?i (s_db s) = Some r"
    using assms(1) by (auto simp: capture_tx_def Let_def tx_simps)
  let ?m = "scanMaintenance r"
  show ?thesis
  proof (cases "capture_by_id ?i (s_db s)")
    case (Some row)
    with assms(1) r show ?thesis
      by (intro same [of row]) (auto simp: capture_tx_def Let_def tx_simps split: if_splits)
  next
    case None
    with assms(1) r have new: "m_State ?m = ''new''"
      and tx: "save_capture_tx E ?m capture targets audit (tick (tick s)) = (Inr res, s')"
      by (auto simp: capture_tx_def Let_def tx_simps split: if_splits)
    show ?thesis
    proof (rule save_capture_tx_Inr [OF tx])
      fix now n
      assume *: "now = clock E n"
        "\<And>t. t \<in> set targets \<Longrightarrow> lock_holders (s_db (tick (tick s))) (ct_LockKey t) = []"
        "\<And>t. t \<in> set targets \<Longrightarrow> target_by_id ?i (ct_TargetID t) (s_db (tick (tick s))) = None"
        "0 < wrap64 (m_Version ?m + 1)"
        "log_ok E (captured_event E ?m capture (length targets) audit now)
          (set_run ?i (\<lambda>r. r\<lparr>mr_state := ''captured'', mr_version := wrap64 (m_Version ?m + 1),
            mr_updated_at := formatRFC3339Nano now\<rparr>) (add_capture capture targets (s_db (tick (tick s)))))"
        "s_db s' = log_event (captured_event E ?m capture (length targets) audit now)
          (set_run ?i (\<lambda>r. r\<lparr>mr_state := ''captured'', mr_version := wrap64 (m_Version ?m + 1),
            mr_updated_at := formatRFC3339Nano now\<rparr>) (add_capture capture targets (s_db (tick (tick s)))))"
        "res = \<lparr>cres_Capture = capture, cres_Created = True\<rparr>"
      show ?thesis
        by (rule saved [OF *(1), of ?m]) (use * new None r in \<open>auto simp: save_ok_def saved_capture_def\<close>)
    qed (use assms(2) r in simp_all)
  qed
qed

lemma CaptureMaintenance_Inr:
  assumes "CaptureMaintenance E i c0 audit s = (Inr res, s')" "run_unique (s_db s)"
  obtains (same) payload row where "canonicalJSONObject (c_Payload c0) = Inr payload"
      "capture_by_id i (s_db s) = Some row"
      "cr_sha256 row = sha256_hex E payload" "cr_payload_json row = payload"
      "res = \<lparr>cres_Capture = scanCapture row, cres_Created = False\<rparr>" "s_db s' = s_db s"
  | (saved) payload targets at m now n k where "validID i" "canonicalJSONObject (c_Payload c0) = Inr payload"
      "parseCaptureTargets payload = Inr targets"
      "at = (if c_CapturedAt c0 = 0 then clock E k else c_CapturedAt c0)"
      "now = clock E n" "save_ok E m (capture_of E i at payload) targets audit now (s_db s)"
      "s_db s' = saved_capture E m (capture_of E i at payload) targets audit now (s_db s)"
      "res = \<lparr>cres_Capture = capture_of E i at payload, cres_Created = True\<rparr>"
proof -
  obtain payload targets at s1 where a: "validID i" "canonicalJSONObject (c_Payload c0) = Inr payload"
      "parseCaptureTargets payload = Inr targets"
    and at: "(if c_CapturedAt c0 = 0 then nowT E else returnT (c_CapturedAt c0)) s = (Inr at, s1)"
    and w: "writeT E (capture_tx E (capture_of E i at payload) targets audit) s1 = (Inr res, s')"
    using assms(1) by (auto simp: CaptureMaintenance_def capture_of_def bindT_Inr throwT_Inr split: if_splits sum.splits)
  obtain k where at': "at = (if c_CapturedAt c0 = 0 then clock E k else c_CapturedAt c0)" "s_db s1 = s_db s"
    using at by (auto simp: tx_simps split: if_splits)
  obtain s2 where tx: "capture_tx E (capture_of E i at payload) targets audit (tick s1) = (Inr res, s2)" "s_db s' = s_db s2"
    using w by (auto simp: writeT_Inr)
  have u: "run_unique (s_db (tick s1))" using assms(2) at'(2) by simp
  show ?thesis
    using tx(1) u
  proof (cases rule: capture_tx_Inr)
    case (same row)
    then show ?thesis using a at' tx(2) by (intro that(1)) (auto simp: capture_of_def)
  next
    case (saved m now n)
    then show ?thesis using a at' tx(2) by (intro that(2)) auto
  qed
qed

section \<open>Transitions of a run\<close>

definition transition_type :: "Maintenance \<Rightarrow> string \<Rightarrow> string" where
  "transition_type m state =
    (if state = ''completed'' then ''maintenance.completed''
     else if m_State m = ''failed'' then ''maintenance.reopened'' else ''maintenance.transitioned'')"

definition reopen_allowed :: "Maintenance \<Rightarrow> StateChange \<Rightarrow> AuditContext \<Rightarrow> database \<Rightarrow> bool" where
  "reopen_allowed m change audit db \<longleftrightarrow> isAdmin (a_Role audit) \<and> validJustification (sc_Justification change) = Inr ()
     \<and> (capture_count (m_ID m) db = 0 \<longrightarrow> sc_State change = ''new'')
     \<and> (capture_count (m_ID m) db = 1 \<longrightarrow> sc_State change \<notin> {''new'', ''completed'', ''cancelled''})"

definition completion_allowed :: "string \<Rightarrow> database \<Rightarrow> bool" where
  "completion_allowed i db \<longleftrightarrow> capture_count i db = 1 \<and> target_rows i db \<noteq> []
     \<and> (\<forall>r \<in> set (target_rows i db). targetCompletionAllowed (tr_original_state r) (tr_state r))"

text \<open>The guards of a transition as one predicate.\<close>

definition transition_allowed :: "Maintenance \<Rightarrow> StateChange \<Rightarrow> AuditContext \<Rightarrow> database \<Rightarrow> bool" where
  "transition_allowed m change audit db \<longleftrightarrow>
     (if m_State m = ''failed'' then reopen_allowed m change audit db else \<not> IsMaintenanceTerminal (m_State m))
     \<and> (sc_State change = ''captured'' \<longrightarrow> m_State m = ''failed'')
     \<and> ValidMaintenanceTransition (m_State m) (sc_State change)
     \<and> (sc_State change = ''cancelled'' \<and> m_State m = ''captured'' \<longrightarrow> exercised_count (m_ID m) db = 0)
     \<and> (sc_State change = ''stopped'' \<longrightarrow> unresolved_count (m_ID m) db = 0)
     \<and> (sc_State change = ''completed'' \<longrightarrow> completion_allowed (m_ID m) db)"

lemma reopen_tx_Inr:
  "reopen_tx E m change audit s = (Inr u, s') \<Longrightarrow> reopen_allowed m change audit (s_db s) \<and> s_db s' = s_db s"
  by (auto simp: reopen_tx_def reopen_allowed_def Let_def tx_simps split: if_splits)

lemma cancel_tx_Inr:
  "cancel_tx E m change s = (Inr u, s') \<Longrightarrow> exercised_count (m_ID m) (s_db s) = 0 \<and> s_db s' = s_db s"
  by (auto simp: cancel_tx_def tx_simps split: if_splits)

lemma validateStoppedBarrier_Inr:
  "validateStoppedBarrier E i s = (Inr u, s') \<Longrightarrow> unresolved_count i (s_db s) = 0 \<and> s_db s' = s_db s"
  by (auto simp: validateStoppedBarrier_def tx_simps split: if_splits)

lemma validateCompletion_Inr:
  "validateCompletion E i s = (Inr u, s') \<Longrightarrow> completion_allowed i (s_db s) \<and> s_db s' = s_db s"
  by (auto simp: validateCompletion_def completion_allowed_def tx_simps find_None_iff split: if_splits option.splits)

lemma transition_guards_Inr:
  assumes "transition_guards E m change audit s = (Inr ty, s')"
  shows "transition_allowed m change audit (s_db s)" "s_db s' = s_db s" "ty = transition_type m (sc_State change)"
proof -
  obtain s1 s2 s3 where
    s1: "(if m_State m = ''failed'' then reopen_tx E m change audit
            else if IsMaintenanceTerminal (m_State m)
              then throwT (conflictError (Some ErrConflict) ''maintenance_terminal'' ''maintenance'' (m_ID m) 0
                (m_Version m) (m_State m) (sc_State change))
            else returnT ()) s = (Inr (), s1)"
    and g: "sc_State change = ''captured'' \<longrightarrow> m_State m = ''failed''" "ValidMaintenanceTransition (m_State m) (sc_State change)"
    and s2: "whenT (sc_State change = ''cancelled'' \<and> m_State m = ''captured'') (cancel_tx E m change) s1 = (Inr (), s2)"
    and s3: "whenT (sc_State change = ''stopped'') (validateStoppedBarrier E (m_ID m)) s2 = (Inr (), s3)"
    and s4: "whenT (sc_State change = ''completed'') (validateCompletion E (m_ID m)) s3 = (Inr (), s')"
    and ty: "ty = transition_type m (sc_State change)"
    using assms unfolding transition_guards_def Let_def bindT_Inr
    by (auto simp: bindT_Inr throwT_Inr returnT_Inr transition_type_def split: if_splits)
  have a: "(if m_State m = ''failed'' then reopen_allowed m change audit (s_db s) else \<not> IsMaintenanceTerminal (m_State m))
      \<and> s_db s1 = s_db s"
    using s1 by (auto simp: tx_simps dest: reopen_tx_Inr split: if_splits)
  have b: "(sc_State change = ''cancelled'' \<and> m_State m = ''captured'' \<longrightarrow> exercised_count (m_ID m) (s_db s1) = 0) \<and> s_db s2 = s_db s1"
    using s2 cancel_tx_Inr [of E m change s1 "()" s2] by (auto simp: whenT_Inr split: if_splits)
  have c: "(sc_State change = ''stopped'' \<longrightarrow> unresolved_count (m_ID m) (s_db s2) = 0) \<and> s_db s3 = s_db s2"
    using s3 validateStoppedBarrier_Inr [of E "m_ID m" s2 "()" s3] by (auto simp: whenT_Inr split: if_splits)
  have d: "(sc_State change = ''completed'' \<longrightarrow> completion_allowed (m_ID m) (s_db s3)) \<and> s_db s' = s_db s3"
    using s4 validateCompletion_Inr [of E "m_ID m" s3 "()" s'] by (auto simp: whenT_Inr split: if_splits)
  show "transition_allowed m change audit (s_db s)"
    using a b c d g unfolding transition_allowed_def by simp
  show "s_db s' = s_db s" "ty = transition_type m (sc_State change)" using a b c d ty by simp_all
qed

definition transition_event ::
    "Maintenance \<Rightarrow> string \<Rightarrow> string \<Rightarrow> AuditContext \<Rightarrow> time \<Rightarrow> Event" where
  "transition_event m state payload audit now =
    (let (actor, role, requestID) = auditValues audit in
     zero_Event\<lparr>e_Type := transition_type m state, e_OccurredAt := now, e_RequestID := requestID,
        e_Actor := actor, e_Role := role, e_ResourceType := ''maintenance'', e_ResourceID := m_ID m,
        e_MaintenanceID := m_ID m, e_FromState := m_State m, e_ToState := state,
        e_FromVersion := m_Version m, e_ToVersion := wrap64 (m_Version m + 1),
        e_AggregateVersion := wrap64 (m_Version m + 1), e_Payload := payload\<rparr>)"

text \<open>A transition of a captured run advances the versions of all its targets.\<close>

definition bump_targets :: "string \<Rightarrow> string \<Rightarrow> database \<Rightarrow> database" where
  "bump_targets i stamp db = db\<lparr>targets_t := map (\<lambda>r. if tr_maintenance_id r = i
     then r\<lparr>tr_version := tr_version r + 1, tr_updated_at := stamp\<rparr> else r) (targets_t db)\<rparr>"

definition moved_run :: "Maintenance \<Rightarrow> string \<Rightarrow> time \<Rightarrow> database \<Rightarrow> database" where
  "moved_run m state now db =
    set_run (m_ID m) (\<lambda>r. r\<lparr>mr_state := state, mr_version := wrap64 (m_Version m + 1), mr_updated_at := formatRFC3339Nano now\<rparr>)
      (if capture_count (m_ID m) db = 1 then bump_targets (m_ID m) (formatRFC3339Nano now) db else db)"

lemma TransitionMaintenance_Inr:
  assumes "TransitionMaintenance E i change pre audit s = (Inr agg, s')" "run_unique (s_db s)"
  obtains r payload now n where "maintenance_by_id i (s_db s) = Some r" "now = clock E n"
    "eventPayload (sc_Detail change) (TrimSpace (sc_Justification change)) = Inr payload"
    "vp_match pre (mr_version r)" "transition_allowed (scanMaintenance r) change audit (s_db s)"
    "0 < wrap64 (mr_version r + 1)"
    "log_ok E (transition_event (scanMaintenance r) (sc_State change) payload audit now)
       (moved_run (scanMaintenance r) (sc_State change) now (s_db s))"
    "s_db s' = log_event (transition_event (scanMaintenance r) (sc_State change) payload audit now)
       (moved_run (scanMaintenance r) (sc_State change) now (s_db s))"
    "agg = \<lparr>ma_Maintenance = (scanMaintenance r)\<lparr>m_State := sc_State change, m_Version := wrap64 (mr_version r + 1), m_UpdatedAt := now\<rparr>,
       ma_Targets = map scanTarget (target_rows i (s_db s'))\<rparr>"
proof -
  obtain actor role req where av: "auditValues audit = (actor, role, req)" by (rule prod_cases3)
  obtain payload s0 where p: "eventPayload (sc_Detail change) (TrimSpace (sc_Justification change)) = Inr payload"
    and tx: "transition_maintenance_tx E i change payload pre audit (tick s) = (Inr agg, s0)" "s_db s' = s_db s0"
    using assms(1) by (auto simp: TransitionMaintenance_def tx_control writeT_Inr split: if_splits)
  obtain r where r: "maintenance_by_id i (s_db s) = Some r"
    using tx(1) by (auto simp: transition_maintenance_tx_def tx_simps)
  let ?m = "scanMaintenance r"
  have id: "m_ID ?m = i" "m_Version ?m = mr_version r"
    using r assms(2) by (simp_all add: maintenance_by_id_iff scanMaintenance_def)
  obtain s2 s3 now s4 s5 s6 where
    pre: "vp_require pre (m_Version ?m) ''maintenance'' i (m_State ?m) (sc_State change) = Inr ()"
    and s2: "transition_guards E ?m change audit (tick (tick s)) = (Inr (transition_type ?m (sc_State change)), s2)"
    and now: "now = clock E (s_ticks s2)"
    and s3: "whenT (capture_count i (s_db s2) = 1)
        (bindT (execCountT E (update_targets E (\<lambda>r. tr_maintenance_id r = i)
          (\<lambda>r. r\<lparr>tr_version := tr_version r + 1, tr_updated_at := formatRFC3339Nano now\<rparr>))) (\<lambda>_. returnT ())) s3 = (Inr (), s4)"
      "s_db s3 = s_db s2"
    and s5: "execCountT E (update_maintenance E (\<lambda>r. mr_id r = i \<and> mr_version r = m_Version ?m)
        (\<lambda>x. x\<lparr>mr_state := sc_State change, mr_version := wrap64 (m_Version ?m + 1), mr_updated_at := formatRFC3339Nano now\<rparr>)) s4 = (Inr 1, s5)"
    and s6: "appendEvent E (transition_event ?m (sc_State change) payload audit now) s5 = (Inr (), s6)"
    and agg: "listTargets E i s6 = (Inr (ma_Targets agg), s0)"
      "agg = \<lparr>ma_Maintenance = ?m\<lparr>m_State := sc_State change, m_Version := wrap64 (m_Version ?m + 1), m_UpdatedAt := now\<rparr>,
       ma_Targets = ma_Targets agg\<rparr>"
  proof -
    obtain ty s2 where "vp_require pre (m_Version ?m) ''maintenance'' i (m_State ?m) (sc_State change) = Inr ()"
      "transition_guards E ?m change audit (tick (tick s)) = (Inr ty, s2)"
      using tx(1) r by (auto simp: transition_maintenance_tx_def loadMaintenance_Inr tx_control)
    moreover have "ty = transition_type ?m (sc_State change)" using transition_guards_Inr(3) [OF calculation(2)] .
    ultimately show thesis
      using tx(1) r
      by (auto simp: transition_maintenance_tx_def loadMaintenance_Inr tx_control Let_def av transition_event_def id(1)
          queryT_Inr intro!: that [of s2 "clock E (s_ticks s2)" "tick (tick s2)"])
  qed
  note g = transition_guards_Inr [OF s2]
  let ?db1 = "if capture_count i (s_db s) = 1 then bump_targets i (formatRFC3339Nano now) (s_db s) else s_db s"
  have db4: "s_db s4 = ?db1"
    using s3 g(2) by (auto simp: tx_simps update_targets_def bump_targets_def Let_def split: if_splits)
  have by4: "maintenance_by_id i ?db1 = Some r" "run_unique ?db1"
    using r assms(2) by (simp_all add: maintenance_by_id_def run_unique_def bump_targets_def)
  have u: "update_maintenance E (\<lambda>r. mr_id r = i \<and> mr_version r = m_Version ?m)
        (\<lambda>x. x\<lparr>mr_state := sc_State change, mr_version := wrap64 (m_Version ?m + 1), mr_updated_at := formatRFC3339Nano now\<rparr>) ?db1
      = Inr (s_db s5, 1)"
    using s5 db4 by (auto simp: tx_simps)
  note up = update_run [OF by4(2,1) id(2) [symmetric] u]
  have db5: "s_db s5 = moved_run ?m (sc_State change) now (s_db s)"
    using up(1) by (simp add: moved_run_def id)
  note ev = appendEvent_Inr [OF s6]
  show ?thesis
  proof (rule that [OF r now p])
    show "vp_match pre (mr_version r)"
      using pre by (auto simp: vp_require_def id(2) simp del: vp_match.simps split: if_splits)
    show "transition_allowed ?m change audit (s_db s)" using g(1) by simp
    show "0 < wrap64 (mr_version r + 1)" using up(2) by (simp add: id)
    show "log_ok E (transition_event ?m (sc_State change) payload audit now) (moved_run ?m (sc_State change) now (s_db s))"
      using ev(1) db5 by simp
    have d: "s_db s0 = s_db s6" "ma_Targets agg = map scanTarget (target_rows i (s_db s6))"
      using agg(1) by (auto simp: listTargets_def tx_simps)
    show "s_db s' = log_event (transition_event ?m (sc_State change) payload audit now) (moved_run ?m (sc_State change) now (s_db s))"
      using ev(2) db5 d tx(2) by simp
    show "agg = \<lparr>ma_Maintenance = ?m\<lparr>m_State := sc_State change, m_Version := wrap64 (mr_version r + 1), m_UpdatedAt := now\<rparr>,
       ma_Targets = map scanTarget (target_rows i (s_db s'))\<rparr>"
      using agg(2) d tx(2) by (simp add: id)
  qed
qed

section \<open>Transitions of a target\<close>

definition target_unique :: "database \<Rightarrow> bool" where
  "target_unique db \<longleftrightarrow> distinct (map (\<lambda>r. (tr_maintenance_id r, tr_id r)) (targets_t db))"

lemma target_by_id_iff:
  "target_unique db \<Longrightarrow> target_by_id i t db = Some r \<longleftrightarrow> r \<in> set (targets_t db) \<and> tr_maintenance_id r = i \<and> tr_id r = t"
proof -
  assume u: "target_unique db"
  have "find (\<lambda>r. tr_maintenance_id r = i \<and> tr_id r = t) rows = Some r \<longleftrightarrow> r \<in> set rows \<and> tr_maintenance_id r = i \<and> tr_id r = t"
    if "distinct (map (\<lambda>r. (tr_maintenance_id r, tr_id r)) rows)" for rows
    using that by (induction rows) (auto simp: image_iff)
  with u show ?thesis by (simp add: target_unique_def target_by_id_def)
qed

definition target_type :: "string \<Rightarrow> string" where
  "target_type state = (if state = ''skipped'' then ''target.skipped'' else ''target.transitioned'')"

definition target_allowed :: "Maintenance \<Rightarrow> Target \<Rightarrow> StateChange \<Rightarrow> AuditContext \<Rightarrow> bool" where
  "target_allowed m t change audit \<longleftrightarrow> \<not> IsMaintenanceTerminal (m_State m)
     \<and> ValidTargetTransition (t_State t) (sc_State change)
     \<and> (if sc_State change = ''skipped'' then isAdmin (a_Role audit) \<and> validJustification (sc_Justification change) = Inr ()
        else t_OriginalState t \<notin> {''degraded'', ''unknown'', ''stopped''} \<and> targetPhaseAllowed (m_State m) (sc_State change))"

lemma target_guards_Inr:
  assumes "target_guards m t change audit = Inr ty" "\<not> IsMaintenanceTerminal (m_State m)"
  shows "target_allowed m t change audit" "ty = target_type (sc_State change)"
  using assms
  by (auto simp: target_guards_def target_allowed_def target_type_def Let_def split: if_splits sum.splits)

definition target_event ::
    "Maintenance \<Rightarrow> Target \<Rightarrow> string \<Rightarrow> string \<Rightarrow> AuditContext \<Rightarrow> time \<Rightarrow> Event" where
  "target_event m t state payload audit now =
    (let (actor, role, requestID) = auditValues audit in
     zero_Event\<lparr>e_Type := target_type state, e_OccurredAt := now, e_RequestID := requestID,
        e_Actor := actor, e_Role := role, e_ResourceType := ''target'', e_ResourceID := t_ID t,
        e_MaintenanceID := m_ID m, e_TargetID := t_ID t, e_FromState := t_State t,
        e_ToState := state, e_FromVersion := t_Version t, e_ToVersion := wrap64 (t_Version t + 1),
        e_AggregateVersion := wrap64 (m_Version m + 1), e_Payload := payload\<rparr>)"

definition set_target :: "string \<Rightarrow> string \<Rightarrow> (target_row \<Rightarrow> target_row) \<Rightarrow> database \<Rightarrow> database" where
  "set_target i t f db = db\<lparr>targets_t := map (\<lambda>r. if tr_maintenance_id r = i \<and> tr_id r = t then f r else r) (targets_t db)\<rparr>"

lemma update_target:
  assumes "target_unique db" "target_by_id i t db = Some r" "tr_version r = v"
    and "update_targets E (\<lambda>r. tr_maintenance_id r = i \<and> tr_id r = t \<and> tr_version r = v) f db = Inr (db', n)"
  shows "db' = set_target i t f db" "0 < tr_version (f r)"
proof -
  have r: "r \<in> set (targets_t db)" "tr_maintenance_id r = i" "tr_id r = t"
    using assms(1,2) by (simp_all add: target_by_id_iff)
  have eq: "x = r" if "x \<in> set (targets_t db)" "tr_maintenance_id x = i" "tr_id x = t" for x
    using assms(1,2) that by (metis target_by_id_iff option.inject)
  have "map (\<lambda>x. if tr_maintenance_id x = i \<and> tr_id x = t \<and> tr_version x = v then f x else x) (targets_t db)
    = map (\<lambda>x. if tr_maintenance_id x = i \<and> tr_id x = t then f x else x) (targets_t db)"
    using eq assms(3) by (intro map_cong) auto
  moreover have "db' = db\<lparr>targets_t := map (\<lambda>x. if tr_maintenance_id x = i \<and> tr_id x = t \<and> tr_version x = v then f x else x) (targets_t db)\<rparr>"
    using assms(4) by (auto simp: update_targets_def Let_def split: if_splits)
  ultimately show "db' = set_target i t f db" by (simp only: set_target_def)
  show "0 < tr_version (f r)"
    using assms(3,4) r by (auto simp: update_targets_def Let_def list_all_iff target_checks_def split: if_splits)
qed

definition moved_target :: "Maintenance \<Rightarrow> Target \<Rightarrow> string \<Rightarrow> time \<Rightarrow> database \<Rightarrow> database" where
  "moved_target m t state now db =
    set_run (m_ID m) (\<lambda>r. r\<lparr>mr_version := wrap64 (m_Version m + 1), mr_updated_at := formatRFC3339Nano now\<rparr>)
      (set_target (m_ID m) (t_ID t) (\<lambda>r. r\<lparr>tr_state := state, tr_version := wrap64 (t_Version t + 1),
         tr_updated_at := formatRFC3339Nano now\<rparr>) db)"

lemma TransitionTarget_Inr:
  assumes "TransitionTarget E i ti change pre audit s = (Inr res, s')" "run_unique (s_db s)" "target_unique (s_db s)"
  obtains r tr payload now n where "maintenance_by_id i (s_db s) = Some r" "target_by_id i ti (s_db s) = Some tr"
    "now = clock E n" "eventPayload (sc_Detail change) (TrimSpace (sc_Justification change)) = Inr payload"
    "vp_match pre (tr_version tr)" "target_allowed (scanMaintenance r) (scanTarget tr) change audit"
    "0 < wrap64 (mr_version r + 1)" "0 < wrap64 (tr_version tr + 1)" "validID ti"
    "log_ok E (target_event (scanMaintenance r) (scanTarget tr) (sc_State change) payload audit now)
       (moved_target (scanMaintenance r) (scanTarget tr) (sc_State change) now (s_db s))"
    "s_db s' = log_event (target_event (scanMaintenance r) (scanTarget tr) (sc_State change) payload audit now)
       (moved_target (scanMaintenance r) (scanTarget tr) (sc_State change) now (s_db s))"
    "res = \<lparr>ttr_Target = (scanTarget tr)\<lparr>t_State := sc_State change, t_Version := wrap64 (tr_version tr + 1), t_UpdatedAt := now\<rparr>,
       ttr_MaintenanceVersion = wrap64 (mr_version r + 1)\<rparr>"
proof -
  obtain actor role req where av: "auditValues audit = (actor, role, req)" by (rule prod_cases3)
  obtain payload s0 where p: "eventPayload (sc_Detail change) (TrimSpace (sc_Justification change)) = Inr payload" "validID ti"
    and tx: "transition_target_tx E i ti change payload pre audit (tick s) = (Inr res, s0)" "s_db s' = s_db s0"
    using assms(1) by (auto simp: TransitionTarget_def tx_control writeT_Inr split: if_splits)
  obtain r tr where r: "maintenance_by_id i (s_db s) = Some r" "target_by_id i ti (s_db s) = Some tr"
    "\<not> IsMaintenanceTerminal (m_State (scanMaintenance r))"
    using tx(1) by (auto simp: transition_target_tx_def tx_simps split: if_splits)
  let ?m = "scanMaintenance r" and ?t = "scanTarget tr"
  have id: "m_ID ?m = i" "m_Version ?m = mr_version r" "t_ID ?t = ti" "t_Version ?t = tr_version tr"
    using r assms(2,3) by (simp_all add: maintenance_by_id_iff target_by_id_iff scanMaintenance_def scanTarget_def)
  obtain s1 now s4 s5 where
    pre: "vp_require pre (t_Version ?t) ''target'' ti (t_State ?t) (sc_State change) = Inr ()"
    and g: "target_guards ?m ?t change audit = Inr (target_type (sc_State change))"
    and now: "now = clock E (s_ticks s1)" "s_db s1 = s_db s"
    and s4: "execCountT E (update_targets E (\<lambda>x. tr_maintenance_id x = i \<and> tr_id x = ti \<and> tr_version x = t_Version ?t)
        (\<lambda>x. x\<lparr>tr_state := sc_State change, tr_version := wrap64 (t_Version ?t + 1), tr_updated_at := formatRFC3339Nano now\<rparr>)) (tick s1) = (Inr 1, s4)"
    and s5: "execCountT E (update_maintenance E (\<lambda>x. mr_id x = i \<and> mr_version x = m_Version ?m)
        (\<lambda>x. x\<lparr>mr_version := wrap64 (m_Version ?m + 1), mr_updated_at := formatRFC3339Nano now\<rparr>)) s4 = (Inr 1, s5)"
    and s6: "appendEvent E (target_event ?m ?t (sc_State change) payload audit now) s5 = (Inr (), s0)"
    and res: "res = \<lparr>ttr_Target = ?t\<lparr>t_State := sc_State change, t_Version := wrap64 (t_Version ?t + 1), t_UpdatedAt := now\<rparr>,
       ttr_MaintenanceVersion = wrap64 (m_Version ?m + 1)\<rparr>"
  proof -
    obtain ty where "target_guards ?m ?t change audit = Inr ty"
      using tx(1) r by (auto simp: transition_target_tx_def loadMaintenance_Inr loadTarget_Inr tx_control)
    moreover have "ty = target_type (sc_State change)" using target_guards_Inr(2) [OF calculation r(3)] .
    ultimately show thesis
      using tx(1) r
      by (auto simp: transition_target_tx_def loadMaintenance_Inr loadTarget_Inr tx_control Let_def av target_event_def id(1,3)
          intro!: that [of _ "tick (tick (tick s))"])
  qed
  have db4: "s_db s4 = set_target i ti (\<lambda>x. x\<lparr>tr_state := sc_State change, tr_version := wrap64 (t_Version ?t + 1),
       tr_updated_at := formatRFC3339Nano now\<rparr>) (s_db s)" "0 < wrap64 (tr_version tr + 1)"
    using s4 update_target [OF assms(3) r(2) id(4) [symmetric]] now(2) by (fastforce simp: tx_simps id(4))+
  have by4: "maintenance_by_id i (s_db s4) = Some r" "run_unique (s_db s4)"
    using r assms(2) by (simp_all add: db4 maintenance_by_id_def run_unique_def set_target_def)
  have db5: "s_db s5 = moved_target ?m ?t (sc_State change) now (s_db s)" "0 < wrap64 (mr_version r + 1)"
    using s5 update_run [OF by4(2,1) id(2) [symmetric]] by (fastforce simp: tx_simps moved_target_def db4(1) id)+
  show ?thesis
  proof (rule that [OF r(1,2) now(1) p(1)])
    show "vp_match pre (tr_version tr)"
      using pre by (auto simp: vp_require_def id(4) simp del: vp_match.simps split: if_splits)
    show "target_allowed ?m ?t change audit" using target_guards_Inr(1) [OF g r(3)] .
  qed (use appendEvent_Inr [OF s6] db4(2) db5 tx(2) res p(2) id in simp_all)
qed

section \<open>Observations\<close>

definition observed_event :: "string \<Rightarrow> string \<Rightarrow> string \<Rightarrow> AuditContext \<Rightarrow> time \<Rightarrow> Event" where
  "observed_event i ti canonical audit now =
    (let (actor, role, requestID) = auditValues audit in
     zero_Event\<lparr>e_Type := ''target.observed'', e_OccurredAt := now,
             e_RequestID := requestID, e_Actor := actor, e_Role := role, e_ResourceType := ''target'',
             e_ResourceID := ti, e_MaintenanceID := i, e_TargetID := ti, e_Payload := canonical\<rparr>)"

lemma AddObservation_Inr:
  assumes "AddObservation E i ti payload pre audit s = (Inr u, s')"
  obtains (same) canonical row where "canonicalJSONObject payload = Inr canonical"
      "observation_by_request i ti (snd (snd (auditValues audit))) (s_db s) = Some row"
      "er_payload_json row = canonical" "s_db s' = s_db s"
  | (added) canonical r tr now n where "validID i" "validID ti" "canonicalJSONObject payload = Inr canonical"
      "length canonical \<le> 64 * 1024"
      "observation_by_request i ti (snd (snd (auditValues audit))) (s_db s) = None"
      "maintenance_by_id i (s_db s) = Some r" "target_by_id i ti (s_db s) = Some tr"
      "\<not> IsMaintenanceTerminal (mr_state r)" "vp_match pre (tr_version tr)" "now = clock E n"
      "log_ok E (observed_event i ti canonical audit now) (s_db s)"
      "s_db s' = log_event (observed_event i ti canonical audit now) (s_db s)"
proof -
  obtain actor role req where av: "auditValues audit = (actor, role, req)" by (rule prod_cases3)
  obtain canonical s0 where c: "validID i" "validID ti" "canonicalJSONObject payload = Inr canonical" "length canonical \<le> 64 * 1024"
    and tx: "observation_tx E i ti canonical pre audit (tick s) = (Inr u, s0)" "s_db s' = s_db s0"
    using assms by (auto simp: AddObservation_def tx_control writeT_Inr split: if_splits sum.splits)
  show ?thesis
  proof (cases "observation_by_request i ti req (s_db s)")
    case (Some row)
    with tx show ?thesis
      by (intro same [OF c(3), of row]) (auto simp: observation_tx_def av tx_simps split: if_splits)
  next
    case None
    let ?s1 = "tick (tick (tick (tick s)))"
    from None tx(1) obtain r tr where
      r: "maintenance_by_id i (s_db s) = Some r" "target_by_id i ti (s_db s) = Some tr"
        "\<not> IsMaintenanceTerminal (m_State (scanMaintenance r))"
      and pre: "vp_require pre (t_Version (scanTarget tr)) ''target'' ti (t_State (scanTarget tr)) ''observed'' = Inr ()"
      and ev: "appendEvent E (observed_event i ti canonical audit (clock E (s_ticks ?s1))) (tick ?s1) = (Inr u, s0)"
      by (auto simp: observation_tx_def av queryT_Inr loadMaintenance_Inr loadTarget_Inr tx_control observed_event_def
          split: if_splits)
    have "vp_match pre (tr_version tr)"
      using pre by (auto simp: vp_require_def scanTarget_def simp del: vp_match.simps split: if_splits)
    then show ?thesis
      using c r None appendEvent_Inr [OF ev] tx(2)
      by (intro added [of canonical r tr _ "s_ticks ?s1"]) (auto simp: av scanMaintenance_def)
  qed
qed

end
