(* ===== verification/Schema.thy ===== *)
theory Schema
  imports Database
begin

text \<open>
  The schema objects of a database file, how \<open>initializeSchema\<close> of \<open>store.go\<close> makes them, and what \<open>Open\<close> and
  verification look for in them. The queries that look (\<open>requireSchemaIdentity\<close>, \<open>verifyRequiredSchema\<close>) are in
  the theory of verification. A \<open>schema\<close> holds what \<open>sqlite_master\<close> and the two pragmas report.
\<close>

record schema =
  sch_application_id :: int
  sch_user_version :: int
  sch_tables :: "(string \<times> string list) list"
  sch_triggers :: "string list"
  sch_indexes :: "string list"

definition applicationID :: int where
  "applicationID = 0x4c415a52"

definition currentSchema :: int where
  "currentSchema = 1"

section \<open>What schema.sql creates\<close>

definition maintenance_columns :: "string list" where
  "maintenance_columns = [''id'', ''state'', ''change_ticket'', ''workflow_version'', ''metadata_json'', ''version'',
     ''created_at'', ''updated_at'']"

definition capture_columns :: "string list" where
  "capture_columns = [''maintenance_id'', ''captured_at'', ''payload_json'', ''sha256'']"

definition target_columns :: "string list" where
  "target_columns = [''maintenance_id'', ''id'', ''lock_key'', ''state'', ''original_state'', ''kind'', ''host'',
     ''observed_at'', ''metadata_json'', ''version'', ''created_at'', ''updated_at'']"

definition event_columns :: "string list" where
  "event_columns = [''journal_id'', ''event_type'', ''occurred_at'', ''request_id'', ''actor'', ''role'',
     ''resource_type'', ''resource_id'', ''maintenance_id'', ''target_id'', ''from_state'', ''to_state'',
     ''from_version'', ''to_version'', ''aggregate_version'', ''payload_json'']"

definition empty_schema :: schema where
  "empty_schema = \<lparr>sch_application_id = 0, sch_user_version = 0, sch_tables = [], sch_triggers = [], sch_indexes = []\<rparr>"

text \<open>Executing \<open>schema.sql\<close> on an empty database, then the two pragmas of \<open>initializeSchema\<close>.\<close>

definition run_schema_sql :: "schema \<Rightarrow> schema" where
  "run_schema_sql sch = sch\<lparr>
     sch_tables := sch_tables sch @ [(''maintenance'', maintenance_columns), (''maintenance_captures'', capture_columns),
       (''targets'', target_columns), (''journal_events'', event_columns)],
     sch_indexes := sch_indexes sch @ [''idx_maintenance_list'', ''idx_targets_lock'', ''idx_events_scope'', ''idx_events_type'',
       ''idx_events_resource'', ''idx_events_aggregate_version'', ''idx_events_observation_request''],
     sch_triggers := sch_triggers sch @ [''maintenance_identity_immutable'', ''maintenance_captures_immutable_update'',
       ''maintenance_captures_immutable_delete'', ''targets_identity_immutable'', ''targets_lock_exclusive'',
       ''targets_immutable_delete'', ''journal_events_append_only_update'', ''journal_events_append_only_delete'']\<rparr>"

definition initializeSchema :: "schema \<Rightarrow> schema" where
  "initializeSchema sch = (run_schema_sql sch)\<lparr>sch_application_id := applicationID, sch_user_version := currentSchema\<rparr>"

section \<open>Checks\<close>

text \<open>A \<open>SELECT columns FROM table LIMIT 0\<close> prepares exactly when the table has the columns.\<close>

definition query_ok :: "schema \<Rightarrow> string \<times> string list \<Rightarrow> bool" where
  "query_ok sch q = (case map_of (sch_tables sch) (fst q) of None \<Rightarrow> False
     | Some cols \<Rightarrow> list_all (\<lambda>c. c \<in> set cols) (snd q))"

definition required_queries :: "(string \<times> string list) list" where
  "required_queries = [(''maintenance'', maintenance_columns), (''maintenance_captures'', capture_columns),
     (''targets'', target_columns), (''journal_events'', event_columns)]"

definition required_triggers :: "string list" where
  "required_triggers = [''maintenance_identity_immutable'', ''maintenance_captures_immutable_update'',
     ''maintenance_captures_immutable_delete'', ''targets_identity_immutable'', ''targets_immutable_delete'',
     ''targets_lock_exclusive'', ''journal_events_append_only_update'', ''journal_events_append_only_delete'']"

definition required_indexes :: "string list" where
  "required_indexes = [''idx_maintenance_list'', ''idx_targets_lock'', ''idx_events_scope'', ''idx_events_type'',
     ''idx_events_resource'', ''idx_events_aggregate_version'', ''idx_events_observation_request'']"

text \<open>\<open>LIKE 'sqlite_%'\<close> ignores case, and the underscore stands for any one character.\<close>

definition like_sqlite :: "string \<Rightarrow> bool" where
  "like_sqlite n \<longleftrightarrow> HasPrefix (ToLower n) ''sqlite'' \<and> length n > 6"

definition application_tables :: "schema \<Rightarrow> string list" where
  "application_tables sch = sort (filter (\<lambda>n. \<not> like_sqlite n) (map fst (sch_tables sch)))"

text \<open>What the checks look for in a schema; the queries that look are in the theory of verification.\<close>

definition schema_identity :: "schema \<Rightarrow> bool" where
  "schema_identity sch \<longleftrightarrow> sch_application_id sch = applicationID \<and> sch_user_version sch = currentSchema"

definition required_schema :: "schema \<Rightarrow> bool" where
  "required_schema sch \<longleftrightarrow> schema_identity sch
     \<and> Join (application_tables sch) '','' = ''journal_events,maintenance,maintenance_captures,targets''
     \<and> list_all (query_ok sch) required_queries
     \<and> list_all (\<lambda>n. count_list (sch_triggers sch) n = 1) required_triggers
     \<and> list_all (\<lambda>n. count_list (sch_indexes sch) n = 1) required_indexes"

section \<open>A fresh schema is accepted\<close>

lemma required_schema_initialized: "required_schema (initializeSchema empty_schema)"
  by code_simp

end
