(* ===== verification/Verify.thy ===== *)
theory Verify
  imports Mutations Schema "HOL-Library.AList"
begin

text \<open>
  Verification of the application data (\<open>verify.go\<close>): the events of every run are replayed and the
  result is compared with the rows, captures are checked against their digest and their targets,
  lock keys must be exclusive, events outside runs must describe backups, and the schema must be the
  required one. The queries of a
  verification see one database; it does not run beside a writer.
\<close>

section \<open>Replay state\<close>

record replayTarget =
  rt_state :: string
  rt_version :: int
  rt_original :: string

text \<open>The Go map of targets is an association list with distinct keys.\<close>

record replayMaintenance =
  rm_state :: string
  rm_revision :: int
  rm_captured :: bool
  rm_targets :: "(string \<times> replayTarget) list"
  rm_physicalTransition :: bool
  rm_created :: "Maintenance option"

definition zero_replay :: replayMaintenance where
  "zero_replay = \<lparr>rm_state = '''', rm_revision = 0, rm_captured = False, rm_targets = [],
     rm_physicalTransition = False, rm_created = None\<rparr>"

section \<open>Payloads of events\<close>

definition validEventJustification :: "string \<Rightarrow> go_error + unit" where
  "validEventJustification payload =
    (case unmarshal_struct [''justification''] (\<lambda>f raw old. dec_string raw old) '''' payload of
       None \<Rightarrow> Inl (Sentinel ErrInvalid)
     | Some j \<Rightarrow> validJustification j)"

definition set_transition_payload :: "string \<Rightarrow> string \<Rightarrow> string \<times> string \<Rightarrow> (string \<times> string) option" where
  "set_transition_payload f raw p =
    (if f = ''justification'' then map_option (\<lambda>x. (x, snd p)) (dec_string raw (fst p)) else Some (fst p, raw))"

definition validTransitionPayload :: "string \<Rightarrow> go_error + unit" where
  "validTransitionPayload payload =
    (case unmarshal_struct [''justification'', ''detail''] set_transition_payload ('''', '''') payload of
       None \<Rightarrow> Inl (Sentinel ErrInvalid)
     | Some (justification, detail) \<Rightarrow>
         if length detail = 0 \<or> \<not> json_valid detail then Inl (Sentinel ErrInvalid) else Inr ())"

definition set_capture_detail :: "string \<Rightarrow> string \<Rightarrow> string \<times> int \<Rightarrow> (string \<times> int) option" where
  "set_capture_detail f raw p =
    (if f = ''sha256'' then map_option (\<lambda>x. (x, snd p)) (dec_string raw (fst p))
     else map_option (Pair (fst p)) (dec_int raw (snd p)))"

definition unmarshal_capture_detail :: "string \<Rightarrow> (string \<times> int) option" where
  "unmarshal_capture_detail payload = unmarshal_struct [''sha256'', ''targets''] set_capture_detail ('''', 0) payload"

section \<open>Replaying one event\<close>

definition apply_created :: "replayMaintenance \<Rightarrow> Event \<Rightarrow> string + replayMaintenance" where
  "apply_created r ev =
    (if rm_revision r \<noteq> 0 \<or> e_ResourceType ev \<noteq> ''maintenance'' \<or> e_TargetID ev \<noteq> '''' \<or> e_AggregateVersion ev \<noteq> 1
        \<or> e_FromState ev \<noteq> '''' \<or> e_ToState ev \<noteq> '''' \<or> e_FromVersion ev \<noteq> 0 \<or> e_ToVersion ev \<noteq> 0
       then Inl ''invalid creation event''
     else (case unmarshal_Maintenance (e_Payload ev) of
         None \<Rightarrow> Inl ''invalid creation payload''
       | Some created \<Rightarrow>
         if m_ID created \<noteq> e_MaintenanceID ev \<or> m_State created \<noteq> ''new'' \<or> m_Version created \<noteq> 1
            \<or> m_CreatedAt created \<noteq> e_OccurredAt ev
           then Inl ''invalid creation payload''
         else Inr (r\<lparr>rm_state := ''new'', rm_revision := 1, rm_created := Some created\<rparr>)))"

definition replay_target_of :: "captureTarget \<Rightarrow> replayTarget" where
  "replay_target_of t = \<lparr>rt_state = initial_target_state t, rt_version = 1, rt_original = ct_OriginalState t\<rparr>"

definition apply_captured :: "replayMaintenance \<Rightarrow> Event \<Rightarrow> captureTarget list \<Rightarrow> string \<Rightarrow> bool \<Rightarrow> string + replayMaintenance" where
  "apply_captured r ev capturedTargets captureHash hasCapture =
    (if \<not> hasCapture \<or> rm_captured r \<or> e_FromState ev \<noteq> rm_state r \<or> e_FromVersion ev \<noteq> rm_revision r
        \<or> e_ToState ev \<noteq> ''captured'' \<or> e_ToVersion ev \<noteq> wrap64 (rm_revision r + 1) \<or> e_AggregateVersion ev \<noteq> e_ToVersion ev
       then Inl ''invalid capture event''
     else (case unmarshal_capture_detail (e_Payload ev) of
         None \<Rightarrow> Inl ''capture event does not match the saved capture''
       | Some (sha, n) \<Rightarrow>
         if sha \<noteq> captureHash \<or> n \<noteq> int (length capturedTargets)
           then Inl ''capture event does not match the saved capture''
         else Inr (r\<lparr>rm_targets := foldl (\<lambda>m t. AList.update (ct_TargetID t) (replay_target_of t) m) (rm_targets r) capturedTargets,
              rm_state := ''captured'', rm_revision := e_ToVersion ev, rm_captured := True\<rparr>)))"

definition replay_unresolved :: "replayTarget \<Rightarrow> bool" where
  "replay_unresolved t =
    (if rt_original t = ''running'' \<or> rt_original t = ''stopped''
     then rt_state t \<noteq> ''stopped'' \<and> rt_state t \<noteq> ''skipped''
     else rt_state t \<noteq> ''skipped'')"

definition apply_transition :: "replayMaintenance \<Rightarrow> Event \<Rightarrow> string + replayMaintenance" where
  "apply_transition r ev =
    (if rm_revision r = 0 \<or> e_ResourceType ev \<noteq> ''maintenance'' \<or> e_TargetID ev \<noteq> '''' \<or> e_FromState ev \<noteq> rm_state r
        \<or> e_FromVersion ev \<noteq> rm_revision r \<or> e_ToVersion ev \<noteq> wrap64 (rm_revision r + 1)
        \<or> e_AggregateVersion ev \<noteq> e_ToVersion ev \<or> \<not> ValidMaintenanceTransition (rm_state r) (e_ToState ev)
       then Inl ''invalid maintenance transition''
     else if e_Type ev = ''maintenance.reopened''
        \<and> (rm_state r \<noteq> ''failed'' \<or> \<not> isAdmin (e_Role ev) \<or> validEventJustification (e_Payload ev) \<noteq> Inr ())
       then Inl ''invalid reopen event''
     else if e_Type ev = ''maintenance.reopened''
        \<and> ((\<not> rm_captured r \<and> e_ToState ev \<noteq> ''new'')
          \<or> (rm_captured r \<and> (e_ToState ev = ''new'' \<or> e_ToState ev = ''completed'' \<or> e_ToState ev = ''cancelled'')))
       then Inl ''invalid reopen destination''
     else if e_Type ev \<noteq> ''maintenance.reopened'' \<and> rm_state r = ''failed''
       then Inl ''failed maintenance was not explicitly reopened''
     else if validTransitionPayload (e_Payload ev) \<noteq> Inr () then Inl ''invalid transition payload''
     else if e_ToState ev = ''captured'' \<and> e_Type ev \<noteq> ''maintenance.reopened''
       then Inl ''capture transition used ordinary event''
     else if e_ToState ev = ''cancelled'' \<and> rm_captured r \<and> rm_physicalTransition r
       then Inl ''cancel released an exercised lock''
     else if e_ToState ev = ''stopped'' \<and> list_ex (\<lambda>(k, t). replay_unresolved t) (rm_targets r)
       then Inl ''maintenance reached stopped while a target was unresolved''
     else if e_ToState ev = ''completed'' \<and> (e_Type ev \<noteq> ''maintenance.completed'' \<or> length (rm_targets r) = 0)
       then Inl ''invalid completion event''
     else if e_ToState ev = ''completed''
        \<and> list_ex (\<lambda>(k, t). \<not> targetCompletionAllowed (rt_original t) (rt_state t)) (rm_targets r)
       then Inl ''maintenance completed before every target was restored or skipped''
     else if e_ToState ev \<noteq> ''completed'' \<and> e_Type ev = ''maintenance.completed''
       then Inl ''misclassified completion event''
     else Inr (r\<lparr>rm_targets := (if rm_captured r
            then map (\<lambda>(k, t). (k, t\<lparr>rt_version := wrap64 (rt_version t + 1)\<rparr>)) (rm_targets r) else rm_targets r),
          rm_state := e_ToState ev, rm_revision := e_ToVersion ev\<rparr>))"

definition apply_target :: "replayMaintenance \<Rightarrow> Event \<Rightarrow> string + replayMaintenance" where
  "apply_target r ev =
    (if rm_revision r = 0 \<or> IsMaintenanceTerminal (rm_state r) \<or> e_ResourceType ev \<noteq> ''target'' \<or> e_TargetID ev = ''''
        \<or> e_AggregateVersion ev \<noteq> wrap64 (rm_revision r + 1)
       then Inl ''target event identifies the wrong resource''
     else (case map_of (rm_targets r) (e_TargetID ev) of
         None \<Rightarrow> Inl ''invalid target transition''
       | Some t \<Rightarrow>
         if e_FromState ev \<noteq> rt_state t \<or> e_FromVersion ev \<noteq> rt_version t \<or> e_ToVersion ev \<noteq> wrap64 (rt_version t + 1)
            \<or> \<not> ValidTargetTransition (rt_state t) (e_ToState ev)
           then Inl ''invalid target transition''
         else if e_ToState ev = ''skipped''
            \<and> (e_Type ev \<noteq> ''target.skipped'' \<or> \<not> isAdmin (e_Role ev) \<or> validEventJustification (e_Payload ev) \<noteq> Inr ())
           then Inl ''invalid skip event''
         else if e_ToState ev \<noteq> ''skipped''
            \<and> (e_Type ev \<noteq> ''target.transitioned'' \<or> rt_original t = ''degraded'' \<or> rt_original t = ''unknown''
              \<or> rt_original t = ''stopped'' \<or> \<not> targetPhaseAllowed (rm_state r) (e_ToState ev))
           then Inl ''invalid ordinary target transition''
         else if validTransitionPayload (e_Payload ev) \<noteq> Inr () then Inl ''invalid transition payload''
         else Inr (r\<lparr>rm_physicalTransition := rm_physicalTransition r \<or> e_ToState ev \<noteq> ''skipped'',
              rm_targets := AList.update (e_TargetID ev)
                (t\<lparr>rt_state := e_ToState ev, rt_version := e_ToVersion ev\<rparr>) (rm_targets r),
              rm_revision := e_AggregateVersion ev\<rparr>)))"

definition apply_observed :: "replayMaintenance \<Rightarrow> Event \<Rightarrow> string + replayMaintenance" where
  "apply_observed r ev =
    (if IsMaintenanceTerminal (rm_state r) \<or> e_TargetID ev = '''' \<or> map_of (rm_targets r) (e_TargetID ev) = None
        \<or> e_AggregateVersion ev \<noteq> 0 \<or> e_FromState ev \<noteq> '''' \<or> e_ToState ev \<noteq> '''' \<or> e_FromVersion ev \<noteq> 0 \<or> e_ToVersion ev \<noteq> 0
       then Inl ''invalid observation''
     else (case canonicalJSONObject (e_Payload ev) of
         Inl e \<Rightarrow> Inl ''invalid observation payload''
       | Inr canonical \<Rightarrow> if canonical \<noteq> e_Payload ev then Inl ''invalid observation payload'' else Inr r))"

definition replay_apply ::
    "replayMaintenance \<Rightarrow> Event \<Rightarrow> captureTarget list \<Rightarrow> string \<Rightarrow> bool \<Rightarrow> string + replayMaintenance" where
  "replay_apply r ev capturedTargets captureHash hasCapture =
    (if e_Type ev = ''maintenance.created'' then apply_created r ev
     else if e_Type ev = ''maintenance.captured'' then apply_captured r ev capturedTargets captureHash hasCapture
     else if e_Type ev = ''maintenance.transitioned'' \<or> e_Type ev = ''maintenance.reopened'' \<or> e_Type ev = ''maintenance.completed''
       then apply_transition r ev
     else if e_Type ev = ''target.transitioned'' \<or> e_Type ev = ''target.skipped'' then apply_target r ev
     else if e_Type ev = ''target.observed'' then apply_observed r ev
     else Inl (''unknown maintenance event type '' @ e_Type ev))"

section \<open>The shape of events\<close>

definition validateEventShape :: "Event \<Rightarrow> string + unit" where
  "validateEventShape ev =
    (if e_ID ev < 1 \<or> e_Type ev = '''' \<or> e_OccurredAt ev = 0 \<or> e_RequestID ev = '''' \<or> e_Actor ev = '''' \<or> e_Role ev = ''''
        \<or> e_ResourceType ev = '''' \<or> e_ResourceID ev = '''' \<or> \<not> json_valid (e_Payload ev)
       then Inl ''event identity is incomplete''
     else if HasPrefix (e_Type ev) ''maintenance.'' then
       (if e_ResourceType ev \<noteq> ''maintenance'' \<or> e_MaintenanceID ev = '''' \<or> e_ResourceID ev \<noteq> e_MaintenanceID ev \<or> e_TargetID ev \<noteq> ''''
          then Inl ''maintenance event identifies the wrong resource'' else Inr ())
     else if HasPrefix (e_Type ev) ''target.'' then
       (if e_ResourceType ev \<noteq> ''target'' \<or> e_MaintenanceID ev = '''' \<or> e_TargetID ev = '''' \<or> e_ResourceID ev \<noteq> e_TargetID ev
          then Inl ''target event identifies the wrong resource'' else Inr ())
     else if HasPrefix (e_Type ev) ''backup.'' then
       (if e_ResourceType ev \<noteq> ''backup'' \<or> e_MaintenanceID ev \<noteq> '''' \<or> e_TargetID ev \<noteq> '''' \<or> e_FromState ev \<noteq> ''''
           \<or> e_ToState ev \<noteq> '''' \<or> e_FromVersion ev \<noteq> 0 \<or> e_ToVersion ev \<noteq> 0 \<or> e_AggregateVersion ev \<noteq> 0
          then Inl ''backup event identifies the wrong resource'' else Inr ())
     else Inl (''unknown event type '' @ e_Type ev))"

definition event_corrupt :: "Event \<Rightarrow> string \<Rightarrow> go_error" where
  "event_corrupt ev msg = Wrapped ErrCorrupt (''event '' @ FormatInt (e_ID ev) @ '': '' @ msg)"

text \<open>The loop over the events of one run.\<close>

fun replay_events ::
    "captureTarget list \<Rightarrow> string \<Rightarrow> bool \<Rightarrow> Event list \<Rightarrow> replayMaintenance \<Rightarrow> go_error + replayMaintenance" where
  "replay_events ct h c [] r = Inr r"
| "replay_events ct h c (ev # evs) r =
    (case validateEventShape ev of
       Inl msg \<Rightarrow> Inl (event_corrupt ev msg)
     | Inr _ \<Rightarrow>
       (case replay_apply r ev ct h c of
          Inl msg \<Rightarrow> Inl (event_corrupt ev msg)
        | Inr r' \<Rightarrow> replay_events ct h c evs r'))"

section \<open>Runs\<close>

definition loadCaptureForVerify ::
    "env \<Rightarrow> string \<Rightarrow> capture_row option \<Rightarrow> go_error + (captureTarget list \<times> string \<times> bool)" where
  "loadCaptureForVerify E i found =
    (case found of
       None \<Rightarrow> Inr ([], '''', False)
     | Some row \<Rightarrow>
       (case canonicalJSON (cr_payload_json row) of
          Inl e \<Rightarrow> Inl (Wrapped ErrCorrupt (''capture '' @ i @ '' payload is not stored as normalized JSON''))
        | Inr canonical \<Rightarrow>
          if canonical \<noteq> cr_payload_json row
            then Inl (Wrapped ErrCorrupt (''capture '' @ i @ '' payload is not stored as normalized JSON''))
          else if \<not> EqualFold (cr_sha256 row) (sha256_hex E (cr_payload_json row))
            then Inl (Wrapped ErrCorrupt (''capture '' @ i @ '' hash mismatch''))
          else (case parseCaptureTargets (cr_payload_json row) of
              Inl e \<Rightarrow> Inl (Wrapped ErrCorrupt (''invalid capture '' @ i))
            | Inr targets \<Rightarrow> Inr (targets, cr_sha256 row, True))))"

definition run_events :: "string \<Rightarrow> database \<Rightarrow> event_row list" where
  "run_events i db = sort_key er_journal_id (filter (\<lambda>r. er_maintenance_id r = Some i) (events_t db))"

definition replay_matches :: "nat \<Rightarrow> replayMaintenance \<Rightarrow> Maintenance \<Rightarrow> bool \<Rightarrow> bool" where
  "replay_matches eventCount r actual hasCapture \<longleftrightarrow>
     \<not> (eventCount = 0 \<or> rm_state r \<noteq> m_State actual \<or> rm_revision r \<noteq> m_Version actual \<or> rm_captured r \<noteq> hasCapture
       \<or> (case rm_created r of None \<Rightarrow> True
          | Some created \<Rightarrow> m_ID created \<noteq> m_ID actual \<or> m_ChangeTicket created \<noteq> m_ChangeTicket actual
             \<or> m_WorkflowVersion created \<noteq> m_WorkflowVersion actual \<or> m_Metadata created \<noteq> m_Metadata actual
             \<or> m_CreatedAt created \<noteq> m_CreatedAt actual))"

text \<open>\<open>sameTime\<close> on pointers to times.\<close>

definition sameTime :: "time option \<Rightarrow> time option \<Rightarrow> bool" where
  "sameTime a b = (case (a, b) of (Some x, Some y) \<Rightarrow> x = y | (None, None) \<Rightarrow> True | _ \<Rightarrow> False)"

definition target_matches :: "captureTarget list \<Rightarrow> replayMaintenance \<Rightarrow> Target \<Rightarrow> bool" where
  "target_matches capturedTargets r t =
    (case (map_of (rev (map (\<lambda>c. (ct_TargetID c, c)) capturedTargets)) (t_ID t), map_of (rm_targets r) (t_ID t)) of
       (Some input, Some replayed) \<Rightarrow>
         \<not> (t_LockKey t \<noteq> ct_LockKey input \<or> t_OriginalState t \<noteq> ct_OriginalState input \<or> t_Kind t \<noteq> ct_Kind input
           \<or> t_Host t \<noteq> ct_Host input \<or> \<not> sameTime (t_ObservedAt t) (ct_ObservedAt input)
           \<or> t_Metadata t \<noteq> ct_Metadata input \<or> t_State t \<noteq> rt_state replayed \<or> t_Version t \<noteq> rt_version replayed)
     | _ \<Rightarrow> False)"

definition verifyMaintenanceReplay :: "env \<Rightarrow> string \<Rightarrow> unit tx" where
  "verifyMaintenanceReplay E i =
    bindT (queryT E (maintenance_by_id i))
    (\<lambda>row. case row of None \<Rightarrow> throwT (PlainError ''sql: no rows in result set'')
     | Some mrow \<Rightarrow> let actual = scanMaintenance mrow in
    bindT (queryT E (capture_by_id i))
    (\<lambda>found. bindT (liftT (loadCaptureForVerify E i found))
    (\<lambda>(capturedTargets, captureHash, hasCapture).
    bindT (queryT E (run_events i))
    (\<lambda>rows. bindT (liftT (replay_events capturedTargets captureHash hasCapture (map scanEvent rows) zero_replay))
    (\<lambda>replay.
      if \<not> replay_matches (length rows) replay actual hasCapture
        then throwT (Wrapped ErrCorrupt (''maintenance '' @ i @ '' state does not match its events''))
      else bindT (listTargets E i)
    (\<lambda>actualTargets.
      if length actualTargets \<noteq> length capturedTargets \<or> length actualTargets \<noteq> length (rm_targets replay)
        then throwT (Wrapped ErrCorrupt (''maintenance '' @ i @ '' target count does not match its capture and events''))
      else (case find (\<lambda>t. \<not> target_matches capturedTargets replay t) actualTargets of
          Some t \<Rightarrow> throwT (Wrapped ErrCorrupt (''target '' @ i @ '':'' @ t_ID t @ '' state does not match its capture and events''))
        | None \<Rightarrow> returnT ())))))))"

section \<open>Locks and global events\<close>

definition active_targets :: "database \<Rightarrow> target_row list" where
  "active_targets db = filter (\<lambda>t. list_ex (\<lambda>m. mr_id m = tr_maintenance_id t \<and> \<not> lock_released (mr_state m)) (maintenance_t db))
     (targets_t db)"

definition lock_overlaps :: "database \<Rightarrow> nat" where
  "lock_overlaps db = length (filter (\<lambda>k. length (remdups (map tr_maintenance_id (filter (\<lambda>t. tr_lock_key t = k) (active_targets db)))) > 1)
     (remdups (map tr_lock_key (active_targets db))))"

text \<open>The schema checks of \<open>verify.go\<close> and \<open>store.go\<close>, one query after the other. The message for a query that does not
  prepare leaves out the driver's text of the cause.\<close>

definition requireSchemaIdentity :: "env \<Rightarrow> schema \<Rightarrow> unit tx" where
  "requireSchemaIdentity E sch =
    bindT (queryT E (\<lambda>db. sch_application_id sch))
    (\<lambda>appID. bindT (queryT E (\<lambda>db. sch_user_version sch))
    (\<lambda>version. if appID \<noteq> applicationID \<or> version \<noteq> currentSchema
       then throwT (Wrapped ErrCorrupt ''unsupported database identity or schema'') else returnT ()))"

fun require_queries :: "env \<Rightarrow> schema \<Rightarrow> (string \<times> string list) list \<Rightarrow> unit tx" where
  "require_queries E sch [] = returnT ()"
| "require_queries E sch (q # qs) =
    bindT (mapErrT (\<lambda>_. Wrapped ErrCorrupt ''required schema is missing'') (queryT E (\<lambda>db. query_ok sch q)))
    (\<lambda>prepared. if \<not> prepared then throwT (Wrapped ErrCorrupt ''required schema is missing'') else require_queries E sch qs)"

fun require_each :: "env \<Rightarrow> string \<Rightarrow> string list \<Rightarrow> string list \<Rightarrow> unit tx" where
  "require_each E kind present [] = returnT ()"
| "require_each E kind present (n # ns) =
    bindT (queryT E (\<lambda>db. count_list present n))
    (\<lambda>count. if count \<noteq> 1 then throwT (Wrapped ErrCorrupt (''required '' @ kind @ '' '' @ n @ '' is missing''))
       else require_each E kind present ns)"

definition verifyRequiredSchema :: "env \<Rightarrow> schema \<Rightarrow> unit tx" where
  "verifyRequiredSchema E sch =
    bindT (requireSchemaIdentity E sch)
    (\<lambda>_. bindT (queryT E (\<lambda>db. application_tables sch))
    (\<lambda>tables. if tables = [] then throwT (PlainError ''converting NULL to string is unsupported'')
       else if Join tables '','' \<noteq> ''journal_events,maintenance,maintenance_captures,targets''
         then throwT (Wrapped ErrCorrupt ''unexpected application tables'')
       else bindT (require_queries E sch required_queries)
    (\<lambda>_. bindT (require_each E ''trigger'' (sch_triggers sch) required_triggers)
    (\<lambda>_. require_each E ''index'' (sch_indexes sch) required_indexes))))"

definition verifyLockExclusivity :: "env \<Rightarrow> unit tx" where
  "verifyLockExclusivity E =
    bindT (queryT E lock_overlaps)
    (\<lambda>overlaps. if overlaps \<noteq> 0
       then throwT (Wrapped ErrCorrupt ''the same lock_key is active in more than one maintenance'') else returnT ())"

record BackupManifest =
  bm_Filename :: string
  bm_CreatedAt :: time
  bm_Bytes :: int
  bm_SHA256 :: string
  bm_SQLiteVersion :: string
  bm_IntegrityCheck :: string
  bm_ForeignKeys :: string
  bm_Application :: string
  bm_AuditRecorded :: bool

definition zero_BackupManifest :: BackupManifest where
  "zero_BackupManifest = \<lparr>bm_Filename = '''', bm_CreatedAt = 0, bm_Bytes = 0, bm_SHA256 = '''', bm_SQLiteVersion = '''',
     bm_IntegrityCheck = '''', bm_ForeignKeys = '''', bm_Application = '''', bm_AuditRecorded = False\<rparr>"

definition BackupManifest_fields :: "string list" where
  "BackupManifest_fields = [''filename'', ''created_at'', ''bytes'', ''sha256'', ''sqlite_version'', ''integrity_check'',
     ''foreign_key_check'', ''application_check'', ''audit_recorded'']"

definition marshal_BackupManifest :: "BackupManifest \<Rightarrow> string option" where
  "marshal_BackupManifest b = marshal_struct
    [(''filename'', Some (quote (bm_Filename b))), (''created_at'', marshal_time (bm_CreatedAt b)),
     (''bytes'', Some (FormatInt (bm_Bytes b))), (''sha256'', Some (quote (bm_SHA256 b))),
     (''sqlite_version'', Some (quote (bm_SQLiteVersion b))), (''integrity_check'', Some (quote (bm_IntegrityCheck b))),
     (''foreign_key_check'', Some (quote (bm_ForeignKeys b))), (''application_check'', Some (quote (bm_Application b))),
     (''audit_recorded'', Some (marshal_bool (bm_AuditRecorded b)))]"

definition set_BackupManifest :: "string \<Rightarrow> string \<Rightarrow> BackupManifest \<Rightarrow> BackupManifest option" where
  "set_BackupManifest f raw b =
    (if f = ''filename'' then map_option (\<lambda>x. b\<lparr>bm_Filename := x\<rparr>) (dec_string raw (bm_Filename b))
     else if f = ''created_at'' then map_option (\<lambda>x. b\<lparr>bm_CreatedAt := x\<rparr>) (dec_time raw (bm_CreatedAt b))
     else if f = ''bytes'' then map_option (\<lambda>x. b\<lparr>bm_Bytes := x\<rparr>) (dec_int raw (bm_Bytes b))
     else if f = ''sha256'' then map_option (\<lambda>x. b\<lparr>bm_SHA256 := x\<rparr>) (dec_string raw (bm_SHA256 b))
     else if f = ''sqlite_version'' then map_option (\<lambda>x. b\<lparr>bm_SQLiteVersion := x\<rparr>) (dec_string raw (bm_SQLiteVersion b))
     else if f = ''integrity_check'' then map_option (\<lambda>x. b\<lparr>bm_IntegrityCheck := x\<rparr>) (dec_string raw (bm_IntegrityCheck b))
     else if f = ''foreign_key_check'' then map_option (\<lambda>x. b\<lparr>bm_ForeignKeys := x\<rparr>) (dec_string raw (bm_ForeignKeys b))
     else if f = ''application_check'' then map_option (\<lambda>x. b\<lparr>bm_Application := x\<rparr>) (dec_string raw (bm_Application b))
     else map_option (\<lambda>x. b\<lparr>bm_AuditRecorded := x\<rparr>) (dec_bool raw (bm_AuditRecorded b)))"

definition unmarshal_BackupManifest :: "string \<Rightarrow> BackupManifest option" where
  "unmarshal_BackupManifest s = unmarshal_struct BackupManifest_fields set_BackupManifest zero_BackupManifest s"

record download_detail =
  dd_Filename :: string
  dd_SHA256 :: string
  dd_Bytes :: int
  dd_Artifact :: string

definition set_download_detail :: "string \<Rightarrow> string \<Rightarrow> download_detail \<Rightarrow> download_detail option" where
  "set_download_detail f raw d =
    (if f = ''filename'' then map_option (\<lambda>x. d\<lparr>dd_Filename := x\<rparr>) (dec_string raw (dd_Filename d))
     else if f = ''sha256'' then map_option (\<lambda>x. d\<lparr>dd_SHA256 := x\<rparr>) (dec_string raw (dd_SHA256 d))
     else if f = ''bytes'' then map_option (\<lambda>x. d\<lparr>dd_Bytes := x\<rparr>) (dec_int raw (dd_Bytes d))
     else map_option (\<lambda>x. d\<lparr>dd_Artifact := x\<rparr>) (dec_string raw (dd_Artifact d)))"

definition unmarshal_download_detail :: "string \<Rightarrow> download_detail option" where
  "unmarshal_download_detail s = unmarshal_struct [''filename'', ''sha256'', ''bytes'', ''artifact''] set_download_detail
     \<lparr>dd_Filename = '''', dd_SHA256 = '''', dd_Bytes = 0, dd_Artifact = ''''\<rparr> s"

definition check_global_event :: "Event \<Rightarrow> go_error + unit" where
  "check_global_event ev =
    (case validateEventShape ev of
       Inl msg \<Rightarrow> Inl (event_corrupt ev msg)
     | Inr _ \<Rightarrow>
       if e_Type ev = ''backup.created'' then
         (case unmarshal_BackupManifest (e_Payload ev) of
            None \<Rightarrow> Inl (Wrapped ErrCorrupt (''invalid backup.created event '' @ FormatInt (e_ID ev)))
          | Some b \<Rightarrow>
            if bm_Filename b \<noteq> e_ResourceID ev \<or> bm_SHA256 b = '''' \<or> bm_Bytes b < 1 \<or> \<not> bm_AuditRecorded b
              then Inl (Wrapped ErrCorrupt (''invalid backup.created event '' @ FormatInt (e_ID ev))) else Inr ())
       else if e_Type ev = ''backup.downloaded'' then
         (case unmarshal_download_detail (e_Payload ev) of
            None \<Rightarrow> Inl (Wrapped ErrCorrupt (''invalid backup.downloaded event '' @ FormatInt (e_ID ev)))
          | Some d \<Rightarrow>
            if dd_Filename d \<noteq> e_ResourceID ev \<or> dd_SHA256 d = '''' \<or> dd_Bytes d < 1 \<or> dd_Artifact d = ''''
              then Inl (Wrapped ErrCorrupt (''invalid backup.downloaded event '' @ FormatInt (e_ID ev))) else Inr ())
       else Inl (Wrapped ErrCorrupt (''unknown global event '' @ e_Type ev)))"

fun check_all :: "('a \<Rightarrow> go_error + unit) \<Rightarrow> 'a list \<Rightarrow> go_error + unit" where
  "check_all f [] = Inr ()"
| "check_all f (x # xs) = (case f x of Inl e \<Rightarrow> Inl e | Inr _ \<Rightarrow> check_all f xs)"

definition global_events :: "database \<Rightarrow> event_row list" where
  "global_events db = sort_key er_journal_id (filter (\<lambda>r. er_maintenance_id r = None) (events_t db))"

definition verifyGlobalEvents :: "env \<Rightarrow> unit tx" where
  "verifyGlobalEvents E =
    bindT (queryT E global_events) (\<lambda>rows. liftT (check_all check_global_event (map scanEvent rows)))"

fun verify_runs :: "env \<Rightarrow> string list \<Rightarrow> unit tx" where
  "verify_runs E [] = returnT ()"
| "verify_runs E (i # is) = bindT (verifyMaintenanceReplay E i) (\<lambda>_. verify_runs E is)"

definition verifyApplicationData :: "env \<Rightarrow> schema \<Rightarrow> unit tx" where
  "verifyApplicationData E sch =
    bindT (verifyRequiredSchema E sch)
    (\<lambda>_. bindT (verifyLockExclusivity E)
    (\<lambda>_. bindT (queryT E (\<lambda>db. sort (map mr_id (maintenance_t db))))
    (\<lambda>ids. bindT (verify_runs E ids)
    (\<lambda>_. verifyGlobalEvents E))))"

section \<open>The schema checks decide\<close>

lemma requireSchemaIdentity_Inr:
  "requireSchemaIdentity E sch s = (Inr u, s') \<Longrightarrow> schema_identity sch \<and> s_db s' = s_db s"
  by (auto simp: requireSchemaIdentity_def schema_identity_def tx_simps split: if_splits)

lemma require_queries_Inr:
  "require_queries E sch qs s = (Inr u, s') \<Longrightarrow> list_all (query_ok sch) qs \<and> s_db s' = s_db s"
  by (induction qs arbitrary: s) (auto simp: tx_simps mapErrT_Inr split: if_splits)

lemma require_each_Inr:
  "require_each E kind present ns s = (Inr u, s') \<Longrightarrow> list_all (\<lambda>n. count_list present n = 1) ns \<and> s_db s' = s_db s"
  by (induction ns arbitrary: s) (auto simp: tx_simps split: if_splits)

lemma verifyRequiredSchema_Inr:
  assumes "verifyRequiredSchema E sch s = (Inr u, s')"
  shows "required_schema sch" "s_db s' = s_db s"
  using assms unfolding verifyRequiredSchema_def required_schema_def
  by (auto simp: bindT_Inr queryT_Inr throwT_Inr split: if_splits dest!: requireSchemaIdentity_Inr require_queries_Inr require_each_Inr)

lemma require_queries_ok:
  "list_all (query_ok sch) qs \<Longrightarrow> (\<And>n. \<not> fault E n) \<Longrightarrow> \<exists>s'. require_queries E sch qs s = (Inr (), s') \<and> s_db s' = s_db s"
proof (induction qs arbitrary: s)
  case (Cons q qs)
  from Cons.IH [of "tick s"] Cons.prems show ?case by (auto simp: bindT_def queryT_def mapErrT_def)
qed (simp add: returnT_def)

lemma require_each_ok:
  "list_all (\<lambda>n. count_list present n = 1) ns \<Longrightarrow> (\<And>n. \<not> fault E n)
    \<Longrightarrow> \<exists>s'. require_each E kind present ns s = (Inr (), s') \<and> s_db s' = s_db s"
proof (induction ns arbitrary: s)
  case (Cons n ns)
  from Cons.IH [of "tick s"] Cons.prems show ?case by (auto simp: bindT_def queryT_def)
qed (simp add: returnT_def)

lemma requireSchemaIdentity_ok:
  "schema_identity sch \<Longrightarrow> (\<And>n. \<not> fault E n) \<Longrightarrow> \<exists>s'. requireSchemaIdentity E sch s = (Inr (), s') \<and> s_db s' = s_db s"
  by (simp add: requireSchemaIdentity_def schema_identity_def bindT_def queryT_def returnT_def)

lemma verifyRequiredSchema_ok:
  assumes "required_schema sch" "\<And>n. \<not> fault E n"
  shows "\<exists>s'. verifyRequiredSchema E sch s = (Inr (), s') \<and> s_db s' = s_db s"
proof -
  note r = assms(1) [unfolded required_schema_def]
  obtain s1 where s1: "requireSchemaIdentity E sch s = (Inr (), s1)" "s_db s1 = s_db s" using requireSchemaIdentity_ok r assms(2) by blast
  obtain s2 where s2: "require_queries E sch required_queries (tick s1) = (Inr (), s2)" "s_db s2 = s_db s1"
    using require_queries_ok [of sch required_queries E "tick s1"] r assms(2) by auto
  obtain s3 where s3: "require_each E ''trigger'' (sch_triggers sch) required_triggers s2 = (Inr (), s3)" "s_db s3 = s_db s2"
    using require_each_ok r assms(2) by blast
  obtain s4 where s4: "require_each E ''index'' (sch_indexes sch) required_indexes s3 = (Inr (), s4)" "s_db s4 = s_db s3"
    using require_each_ok r assms(2) by blast
  have "application_tables sch \<noteq> []" using r by auto
  then show ?thesis
    using s1 s2 s3 s4 r assms(2) by (simp add: verifyRequiredSchema_def bindT_def queryT_def)
qed

end
