(* ===== verification/Payloads.thy ===== *)
theory Payloads
  imports Verify
begin

text \<open>
  Event payloads survive storage: what the mutations marshal into an event is what verification
  unmarshals from it.
\<close>

section \<open>Trimming keeps valid text\<close>

lemma valid_utf8_append_rune:
  assumes "valid_utf8 (r @ t)" "rune_len r = length r" "r \<noteq> []"
  shows "valid_utf8 t"
proof -
  have "rune_len (r @ t) = length r" using assms(2,3) rune_len_append [of r t] by simp
  then show ?thesis using assms(1,3) valid_utf8_step [of "r @ t"] by simp
qed

lemma valid_utf8_prefix:
  assumes "valid_utf8 (s @ c # t)" "\<not> is_cont c"
  shows "valid_utf8 s"
  using assms(1)
proof (induction s rule: valid_utf8.induct)
  case (1 s)
  show ?case
  proof (cases s)
    case (Cons a s')
    let ?k = "rune_len (s @ c # t)"
    have k: "?k \<noteq> 0" "valid_utf8 (drop ?k (s @ c # t))"
      using "1.prems" valid_utf8_step [of "s @ c # t"] Cons by auto
    have le: "?k \<le> length s"
    proof (rule ccontr)
      assume "\<not> ?k \<le> length s"
      then have "c \<in> set (take (?k - 1) (s' @ c # t))" by (auto simp: Cons take_Cons' )
      moreover have "list_all is_cont (take (?k - 1) (s' @ c # t))"
        using rune_len_Cons_cont [of a "s' @ c # t" ?k] by (simp add: Cons)
      ultimately show False using assms(2) by (auto simp: list_all_iff)
    qed
    then have ks: "rune_len s = ?k"
      using k(1) rune_len_take [OF k(1)] rune_len_append [of "take ?k s" "drop ?k s"] by simp
    have "valid_utf8 (drop (rune_len s) s @ c # t)" using k(2) le ks by simp
    then have "valid_utf8 (drop (rune_len s) s)" using ks k(1) Cons by (intro "1.IH") simp_all
    then show ?thesis using ks k(1) Cons by (simp add: valid_utf8_step)
  qed simp
qed

lemma space_rune:
  assumes "r \<in> set space_runes"
  shows "rune_len r = length r" "r \<noteq> []" "\<not> is_cont (hd r)"
proof -
  have "list_all (\<lambda>r. rune_len r = length r \<and> r \<noteq> [] \<and> \<not> is_cont (hd r)) space_runes" by code_simp
  with assms show "rune_len r = length r" "r \<noteq> []" "\<not> is_cont (hd r)" by (auto simp: list_all_iff)
qed

lemma match_len_member: "match_len rs s \<noteq> 0 \<Longrightarrow> \<exists>r \<in> set rs. r \<noteq> [] \<and> s = r @ drop (match_len rs s) s"
  by (induction rs) (auto simp: HasPrefix_iff)

lemma valid_utf8_trim_left: "valid_utf8 s \<Longrightarrow> valid_utf8 (trim_with space_runes s)"
proof (induction space_runes s rule: trim_with.induct)
  case (1 s)
  show ?case
  proof (cases "match_len space_runes s = 0")
    case False
    then obtain r where "r \<in> set space_runes" "s = r @ drop (match_len space_runes s) s"
      using match_len_member by blast
    then have "valid_utf8 (drop (match_len space_runes s) s)"
      using "1.prems" valid_utf8_append_rune space_rune by metis
    then show ?thesis using False 1 by (simp add: trim_with.simps [of space_runes s])
  qed (simp add: trim_with_fix "1.prems")
qed

lemma valid_utf8_trim_right: "valid_utf8 (rev s) \<Longrightarrow> valid_utf8 (rev (trim_with (map rev space_runes) s))"
proof (induction "map rev space_runes" s rule: trim_with.induct)
  case (1 s)
  let ?n = "match_len (map rev space_runes) s"
  show ?case
  proof (cases "?n = 0")
    case False
    then obtain r where r: "r \<in> set space_runes" "s = rev r @ drop ?n s"
      using match_len_member [of "map rev space_runes" s] by auto
    obtain c t where c: "r = c # t" using space_rune(2) [OF r(1)] by (cases r) auto
    have "rev s = rev (drop ?n s) @ c # t" using arg_cong [OF r(2), of rev] by (simp add: c)
    then have "valid_utf8 (rev (drop ?n s))"
      using "1.prems" valid_utf8_prefix space_rune(3) [OF r(1)] by (metis c list.sel(1))
    then show ?thesis using False 1 by (simp add: trim_with.simps [of _ s])
  qed (simp add: trim_with_fix "1.prems")
qed

lemma valid_utf8_TrimSpace: "valid_utf8 s \<Longrightarrow> valid_utf8 (TrimSpace s)"
  unfolding TrimSpace_def TrimRightSpace_def TrimLeftSpace_def
  by (rule valid_utf8_trim_right) (simp add: valid_utf8_trim_left)

section \<open>Round trips of payloads\<close>

lemma match_field_other [simp]:
  "match_field [''justification''] ''detail'' = None"
  by code_simp

lemma valid_utf8_names [simp]:
  "valid_utf8 ''justification''" "valid_utf8 ''detail''" "valid_utf8 ''sha256''" "valid_utf8 ''targets''"
  "valid_utf8 ''id''" "valid_utf8 ''state''" "valid_utf8 ''change_ticket''" "valid_utf8 ''workflow_version''"
  "valid_utf8 ''metadata''" "valid_utf8 ''version''" "valid_utf8 ''created_at''" "valid_utf8 ''updated_at''"
  "valid_utf8 ''filename''" "valid_utf8 ''bytes''" "valid_utf8 ''sqlite_version''" "valid_utf8 ''integrity_check''"
  "valid_utf8 ''foreign_key_check''" "valid_utf8 ''application_check''" "valid_utf8 ''audit_recorded''"
  "valid_utf8 ''artifact''" "valid_utf8 ''maintenance''" "valid_utf8 ''new''"
  by (rule valid_utf8_ascii; simp)+

lemma eventPayload_text:
  assumes "eventPayload detail j = Inr payload" "valid_utf8 j"
  obtains raw v where "value_text raw v"
    "payload = obj_text ((if j = '''' then [] else [(''justification'', quote j)]) @ [(''detail'', raw)])"
proof -
  let ?d = "if length detail = 0 then ''{}'' else detail"
  obtain raw where raw: "marshal_raw ?d = Some raw"
    "payload = obj_text ((if j = '''' then [] else [(''justification'', quote j)]) @ [(''detail'', raw)])"
    using assms(1)
    by (cases "marshal_raw ?d")
      (auto simp: eventPayload_def Let_def omitempty_def marshal_struct_def split: if_splits)
  with that marshal_raw_value_text [OF raw(1)] show ?thesis by blast
qed

lemma eventPayload_verifies:
  assumes "eventPayload detail j = Inr payload" "json_valid payload" "valid_utf8 j"
  shows "validTransitionPayload payload = Inr ()"
    and "validJustification j = Inr () \<Longrightarrow> validEventJustification payload = Inr ()"
proof -
  obtain raw v where raw: "value_text raw v"
    and p: "payload = obj_text ((if j = '''' then [] else [(''justification'', quote j)]) @ [(''detail'', raw)])"
    using eventPayload_text [OF assms(1,3)] .
  let ?ms = "(if j = '''' then [] else [(''justification'', quote j)]) @ [(''detail'', raw)]"
  have texts: "\<forall>(k, t) \<in> set ?ms. valid_utf8 k \<and> (\<exists>v. value_text t v)"
    using raw value_text_quote [OF assms(3)] by auto
  note un = unmarshal_obj_text [OF assms(2) [unfolded p] texts]
  have "raw \<noteq> []" "json_valid raw" using raw value_text_valid by (auto simp: value_text_def)
  then show "validTransitionPayload payload = Inr ()"
    unfolding validTransitionPayload_def p un using assms(3) by (simp add: set_transition_payload_def)
  assume "validJustification j = Inr ()"
  then show "validEventJustification payload = Inr ()"
    unfolding validEventJustification_def p un using assms(3) by (cases "j = []") simp_all
qed

lemma capture_detail_verifies:
  assumes "json_valid (capture_detail sha n)" "valid_utf8 sha" "int n \<le> max_int64"
  shows "unmarshal_capture_detail (capture_detail sha n) = Some (sha, int n)"
proof -
  let ?ms = "[(''sha256'', quote sha), (''targets'', FormatInt (int n))]"
  have texts: "\<forall>(k, t) \<in> set ?ms. valid_utf8 k \<and> (\<exists>v. value_text t v)"
    using value_text_quote [OF assms(2)] value_text_int by auto
  have "in_int64 (int n)" using assms(3) by (simp add: in_int64_def)
  then show ?thesis
    unfolding unmarshal_capture_detail_def capture_detail_def
      unmarshal_obj_text [OF assms(1) [unfolded capture_detail_def] texts]
    using assms(2) by (simp add: set_capture_detail_def)
qed

lemma set_members_append:
  "set_members upd (xs @ ys) x = (case set_members upd xs x of None \<Rightarrow> None | Some y \<Rightarrow> set_members upd ys y)"
  by (induction xs arbitrary: x) (auto split: option.split)

lemma marshal_members_append:
  "marshal_members (xs @ ys) = (case marshal_members xs of None \<Rightarrow> None
     | Some a \<Rightarrow> (case marshal_members ys of None \<Rightarrow> None | Some b \<Rightarrow> Some (a @ b)))"
  by (induction xs rule: marshal_members.induct) (auto split: option.split)

lemma marshal_Maintenance_text:
  assumes "time_ok (m_CreatedAt m)" "time_ok (m_UpdatedAt m)" "canonical_text (m_Metadata m)"
  obtains c u where "marshal_time (m_CreatedAt m) = Some c" "marshal_time (m_UpdatedAt m) = Some u"
    "marshal_Maintenance m = Some (obj_text ([(''id'', quote (m_ID m)), (''state'', quote (m_State m))]
       @ (if m_ChangeTicket m = '''' then [] else [(''change_ticket'', quote (m_ChangeTicket m))])
       @ (if m_WorkflowVersion m = '''' then [] else [(''workflow_version'', quote (m_WorkflowVersion m))])
       @ [(''metadata'', m_Metadata m), (''version'', FormatInt (m_Version m)), (''created_at'', c), (''updated_at'', u)]))"
proof -
  obtain c u where cu: "marshal_time (m_CreatedAt m) = Some c" "marshal_time (m_UpdatedAt m) = Some u"
    using assms(1,2) by (auto simp: marshal_time_def)
  have "m_Metadata m \<noteq> []" using canonical_text_not_Nil [OF assms(3)] .
  with cu marshal_raw_canonical [OF assms(3)] show ?thesis
    by (intro that [OF cu]) (simp add: marshal_Maintenance_def marshal_struct_def omitempty_def marshal_members_append)
qed

lemma marshal_Maintenance_verifies:
  assumes "time_ok (m_CreatedAt m)" "time_ok (m_UpdatedAt m)" "canonical_text (m_Metadata m)" "in_int64 (m_Version m)"
    and "valid_utf8 (m_ID m)" "valid_utf8 (m_State m)" "valid_utf8 (m_ChangeTicket m)" "valid_utf8 (m_WorkflowVersion m)"
    and "marshal_Maintenance m = Some txt" "json_valid txt"
  shows "unmarshal_Maintenance txt = Some m"
proof -
  obtain c u where cu: "marshal_time (m_CreatedAt m) = Some c" "marshal_time (m_UpdatedAt m) = Some u"
    and doc: "marshal_Maintenance m = Some (obj_text ([(''id'', quote (m_ID m)), (''state'', quote (m_State m))]
       @ (if m_ChangeTicket m = '''' then [] else [(''change_ticket'', quote (m_ChangeTicket m))])
       @ (if m_WorkflowVersion m = '''' then [] else [(''workflow_version'', quote (m_WorkflowVersion m))])
       @ [(''metadata'', m_Metadata m), (''version'', FormatInt (m_Version m)), (''created_at'', c), (''updated_at'', u)]))"
    using marshal_Maintenance_text [OF assms(1-3)] .
  let ?ms = "[(''id'', quote (m_ID m)), (''state'', quote (m_State m))]
       @ (if m_ChangeTicket m = '''' then [] else [(''change_ticket'', quote (m_ChangeTicket m))])
       @ (if m_WorkflowVersion m = '''' then [] else [(''workflow_version'', quote (m_WorkflowVersion m))])
       @ [(''metadata'', m_Metadata m), (''version'', FormatInt (m_Version m)), (''created_at'', c), (''updated_at'', u)]"
  obtain v where v: "value_text (m_Metadata m) v" using canonical_value_text [OF assms(3)] by blast
  have texts: "\<forall>(k, t) \<in> set ?ms. valid_utf8 k \<and> (\<exists>v. value_text t v)"
    using v value_text_quote [OF assms(5)] value_text_quote [OF assms(6)] value_text_quote [OF assms(7)]
      value_text_quote [OF assms(8)] value_text_int value_text_time [OF cu(1)] value_text_time [OF cu(2)] by auto
  have t: "txt = obj_text ?ms" using doc assms(9) by simp
  show ?thesis
    unfolding unmarshal_Maintenance_def t unmarshal_obj_text [OF assms(10) [unfolded t] texts]
    using assms(4-8) dec_time_text [OF cu(1)] dec_time_text [OF cu(2)]
    by (simp add: set_members_append Maintenance_fields_def set_Maintenance_def zero_Maintenance_def)
qed

end
