(* ===== verification/Invariant.thy ===== *)
theory Invariant
  imports Effects Payloads
begin

text \<open>
  The invariant of the store: keys are unique, references resolve, versions stay in range, lock
  keys are held by one run, and the events of every run replay to exactly its rows. Every
  mutation keeps it; the root theory turns it into statements about reachable databases.
\<close>

section \<open>The events of one run replay to its rows\<close>

definition rows_of :: "string \<Rightarrow> database \<Rightarrow> target_row list" where
  "rows_of i db = filter (\<lambda>r. tr_maintenance_id r = i) (targets_t db)"

definition events_of :: "string \<Rightarrow> database \<Rightarrow> event_row list" where
  "events_of i db = filter (\<lambda>r. er_maintenance_id r = Some i) (events_t db)"

definition row_abs :: "target_row \<Rightarrow> replayTarget" where
  "row_abs r = \<lparr>rt_state = tr_state r, rt_version = tr_version r, rt_original = tr_original_state r\<rparr>"

definition row_by_id :: "string \<Rightarrow> target_row list \<Rightarrow> target_row option" where
  "row_by_id k rows = find (\<lambda>r. tr_id r = k) rows"

text \<open>The columns of a target that the capture fixes.\<close>

definition capture_rel :: "target_row \<Rightarrow> captureTarget \<Rightarrow> bool" where
  "capture_rel r t \<longleftrightarrow> tr_id r = ct_TargetID t \<and> tr_lock_key r = ct_LockKey t \<and> tr_original_state r = ct_OriginalState t
     \<and> tr_kind r = ct_Kind t \<and> tr_host r = ct_Host t \<and> tr_metadata_json r = ct_Metadata t
     \<and> map_option parse_time_or_zero (tr_observed_at r) = ct_ObservedAt t"

definition same_identity :: "Maintenance \<Rightarrow> maintenance_row \<Rightarrow> bool" where
  "same_identity c r \<longleftrightarrow> m_ID c = mr_id r \<and> m_ChangeTicket c = mr_change_ticket r
     \<and> m_WorkflowVersion c = mr_workflow_version r \<and> m_Metadata c = mr_metadata_json r
     \<and> m_CreatedAt c = parse_time_or_zero (mr_created_at r)"

definition exercised :: "event_row list \<Rightarrow> bool" where
  "exercised evs \<longleftrightarrow> list_ex (\<lambda>e. er_event_type e = ''target.transitioned'') evs"

definition replay_rel ::
    "replayMaintenance \<Rightarrow> bool \<Rightarrow> captureTarget list \<Rightarrow> maintenance_row \<Rightarrow> target_row list \<Rightarrow> event_row list \<Rightarrow> bool" where
  "replay_rel rp c ct r rows evs \<longleftrightarrow>
     rm_state rp = mr_state r \<and> rm_revision rp = mr_version r \<and> rm_captured rp = c
     \<and> (\<exists>cr. rm_created rp = Some cr \<and> same_identity cr r)
     \<and> distinct (map fst (rm_targets rp)) \<and> map_of (rm_targets rp) = (\<lambda>k. map_option row_abs (row_by_id k rows))
     \<and> list_all2 capture_rel rows ct \<and> (rm_physicalTransition rp \<longleftrightarrow> exercised evs)"

definition versions_ok :: "maintenance_row \<Rightarrow> target_row list \<Rightarrow> bool" where
  "versions_ok r rows \<longleftrightarrow> 0 < mr_version r \<and> mr_version r \<le> max_int64
     \<and> (\<forall>t \<in> set rows. 0 < tr_version t \<and> tr_version t < mr_version r)"

definition run_ok :: "env \<Rightarrow> maintenance_row \<Rightarrow> capture_row option \<Rightarrow> target_row list \<Rightarrow> event_row list \<Rightarrow> bool" where
  "run_ok E r cap rows evs \<longleftrightarrow> versions_ok r rows \<and> distinct (map tr_id rows) \<and> evs \<noteq> []
     \<and> (mr_state r = ''new'' \<longrightarrow> cap = None)
     \<and> (\<exists>ct h c rp. loadCaptureForVerify E (mr_id r) cap = Inr (ct, h, c)
         \<and> replay_events ct h c (map scanEvent evs) zero_replay = Inr rp \<and> replay_rel rp c ct r rows evs)"

lemma replay_events_snoc:
  "replay_events ct h c (evs @ [e]) r =
    (case replay_events ct h c evs r of Inl x \<Rightarrow> Inl x | Inr rp \<Rightarrow> replay_events ct h c [e] rp)"
  by (induction evs arbitrary: r) (auto split: sum.split)

lemma run_ok_snoc:
  assumes "replay_events ct h c (map scanEvent evs) zero_replay = Inr rp"
    and "validateEventShape (scanEvent e) = Inr ()" "replay_apply rp (scanEvent e) ct h c = Inr rp'"
  shows "replay_events ct h c (map scanEvent (evs @ [e])) zero_replay = Inr rp'"
  using assms by (simp add: replay_events_snoc del: replay_events.simps) simp

text \<open>Without a capture no capture event has been replayed, so the later capture changes nothing.\<close>

lemma replay_events_no_capture:
  "replay_events ct h False evs r = Inr rp \<Longrightarrow> replay_events ct' h' c' evs r = Inr rp"
proof (induction evs arbitrary: r)
  case (Cons e evs)
  then obtain r1 where r1: "validateEventShape e = Inr ()" "replay_apply r e ct h False = Inr r1"
    "replay_events ct h False evs r1 = Inr rp" by (auto split: sum.splits)
  then have "replay_apply r e ct' h' c' = Inr r1"
    by (auto simp: replay_apply_def apply_captured_def split: if_splits)
  with r1 Cons.IH [OF r1(3)] show ?case by simp
qed simp

section \<open>Rows of the journal\<close>

lemma null_nullText [simp]: "null_string (nullText x) = x"
  by (simp add: null_string_def nullText_def)

lemma null_nullInt [simp]: "null_int64 (nullInt x) = x"
  by (simp add: null_int64_def nullInt_def)

lemma next_rowid_pos: "0 < next_rowid ids"
proof -
  have "0 \<le> foldr max ids 0" by (induction ids) auto
  then show ?thesis by (simp add: next_rowid_def)
qed

lemma next_rowid_fresh: "i \<in> set ids \<Longrightarrow> i < next_rowid ids"
proof -
  have "i \<in> set ids \<Longrightarrow> i \<le> foldr max ids 0" by (induction ids) auto
  then show "i \<in> set ids \<Longrightarrow> i < next_rowid ids" by (simp add: next_rowid_def)
qed

lemma scan_logged:
  assumes "time_ok (e_OccurredAt ev)"
  shows "scanEvent (logged_row ev db) = (filled_event ev)\<lparr>e_ID := next_rowid (map er_journal_id (events_t db))\<rparr>"
  using assms by (simp add: logged_row_def scanEvent_def event_row_of_def)

lemma logged_row_simps [simp]:
  "er_event_type (logged_row ev db) = e_Type ev" "er_maintenance_id (logged_row ev db) = nullText (e_MaintenanceID ev)"
  "er_journal_id (logged_row ev db) = next_rowid (map er_journal_id (events_t db))"
  by (simp_all add: logged_row_def event_row_of_def)

lemma shape_logged:
  assumes "log_ok E ev db'" "time_ok (e_OccurredAt ev)"
    and "e_Type ev = p @ t" "(p = ''maintenance.'' \<and> e_ResourceType ev = ''maintenance'' \<and> e_MaintenanceID ev \<noteq> ''''
        \<and> e_ResourceID ev = e_MaintenanceID ev \<and> e_TargetID ev = '''')
      \<or> (p = ''target.'' \<and> e_ResourceType ev = ''target'' \<and> e_MaintenanceID ev \<noteq> '''' \<and> e_TargetID ev \<noteq> ''''
        \<and> e_ResourceID ev = e_TargetID ev)
      \<or> (p = ''backup.'' \<and> e_ResourceType ev = ''backup'' \<and> e_MaintenanceID ev = '''' \<and> e_TargetID ev = '''' \<and> e_FromState ev = ''''
        \<and> e_ToState ev = '''' \<and> e_FromVersion ev = 0 \<and> e_ToVersion ev = 0 \<and> e_AggregateVersion ev = 0)"
  shows "validateEventShape (scanEvent (logged_row ev db)) = Inr ()"
proof -
  have "json_valid (e_Payload (filled_event ev))" "e_Type ev \<noteq> ''''" "e_ResourceType ev \<noteq> ''''" "e_ResourceID ev \<noteq> ''''"
    "e_OccurredAt ev \<noteq> 0" using assms(1) by (simp_all add: log_ok_def)
  moreover have "1 \<le> next_rowid (map er_journal_id (events_t db))" using next_rowid_pos by (simp add: int_one_le_iff_zero_less)
  ultimately show ?thesis
    using assms(4) filled_event_not_empty [of ev]
    by (elim disjE conjE) (simp_all add: scan_logged [OF assms(2)] validateEventShape_def assms(3) HasPrefix_def)
qed

section \<open>Creation\<close>

definition env_ok :: "env \<Rightarrow> bool" where
  "env_ok E \<longleftrightarrow> (\<forall>n. time_ok (clock E n)) \<and> (\<forall>p. valid_utf8 (sha256_hex E p))"

lemma validID_utf8: "validID v \<Longrightarrow> valid_utf8 v"
proof (rule valid_utf8_ascii)
  assume v: "validID v"
  have "byte_val c < 0x80" if mem: "c \<in> set v" for c
  proof -
    obtain i where "i < length v" "v ! i = c" using mem by (auto simp: in_set_conv_nth)
    with v have "id_alnum c \<or> c \<in> set ''._:@+-''" by (auto simp: validID_def)
    then show ?thesis
    proof
      assume "c \<in> set ''._:@+-''"
      then show ?thesis by auto
    qed (auto simp: id_alnum_def less_eq_char_def)
  qed
  then show "list_all (\<lambda>c. byte_val c < 0x80) v" by (simp add: list_all_iff)
qed

lemma validID_not_Nil: "validID v \<Longrightarrow> v \<noteq> ''''"
  by (auto simp: validID_def)

lemma audit_event_role:
  "e_Role (created_event m audit) = (if a_Role audit = '''' then ''system'' else a_Role audit)"
  "e_Role (transition_event m st p audit now) = (if a_Role audit = '''' then ''system'' else a_Role audit)"
  "e_Role (target_event m t st p audit now) = (if a_Role audit = '''' then ''system'' else a_Role audit)"
  by (simp_all add: created_event_def transition_event_def target_event_def auditValues_def Let_def)

lemma created_event_simps [simp]:
  "e_Type (created_event m audit) = ''maintenance.created''" "e_OccurredAt (created_event m audit) = m_CreatedAt m"
  "e_ResourceType (created_event m audit) = ''maintenance''" "e_ResourceID (created_event m audit) = m_ID m"
  "e_MaintenanceID (created_event m audit) = m_ID m" "e_TargetID (created_event m audit) = ''''"
  "e_FromState (created_event m audit) = ''''" "e_ToState (created_event m audit) = ''''"
  "e_FromVersion (created_event m audit) = 0" "e_ToVersion (created_event m audit) = 0"
  "e_AggregateVersion (created_event m audit) = 1"
  "e_Payload (created_event m audit) = (case marshal_Maintenance m of None \<Rightarrow> '''' | Some x \<Rightarrow> x)"
  by (simp_all add: created_event_def zero_Event_def Let_def split: prod.split)

lemma obj_text_not_Nil [simp]: "obj_text ms \<noteq> []"
  by (simp add: obj_text_def)

lemma in_int64_1 [simp]: "in_int64 1"
  by (simp add: in_int64_def max_int64_def)

lemma run_created:
  assumes "create_ok m db0" "log_ok E (created_event m audit) db1" "time_ok (m_CreatedAt m)"
    and "valid_utf8 (m_ChangeTicket m)" "valid_utf8 (m_WorkflowVersion m)"
  shows "run_ok E ((maintenance_row_of m)\<lparr>mr_rowid := x\<rparr>) None [] [logged_row (created_event m audit) db]"
proof -
  let ?ev = "created_event m audit"
  let ?e = "scanEvent (logged_row ?ev db)"
  note c = assms(1) [unfolded create_ok_def]
  have t: "time_ok (m_CreatedAt m)" "time_ok (m_UpdatedAt m)" "canonical_text (m_Metadata m)"
    using assms(3) c by auto
  obtain doc where doc: "marshal_Maintenance m = Some doc" "doc \<noteq> ''''"
    using marshal_Maintenance_text [OF t] by (metis obj_text_not_Nil)
  have p: "e_Payload (filled_event ?ev) = doc" using doc by simp
  then have "json_valid doc" using assms(2) by (simp add: log_ok_def)
  then have un: "unmarshal_Maintenance doc = Some m"
    using marshal_Maintenance_verifies [OF t _ _ _ assms(4,5) doc(1)] c validID_utf8 by simp
  have id: "m_ID m \<noteq> ''''" using c validID_not_Nil by blast
  have "validateEventShape ?e = Inr ()"
    using id by (intro shape_logged [OF assms(2), where p = "''maintenance.''"]) (simp_all add: assms(3))
  moreover have "replay_apply zero_replay ?e [] '''' False
      = Inr (zero_replay\<lparr>rm_state := ''new'', rm_revision := 1, rm_created := Some m\<rparr>)"
    using c by (simp add: scan_logged [where ev = ?ev] assms(3) p replay_apply_def apply_created_def un zero_replay_def)
  ultimately have "replay_events [] '''' False (map scanEvent [logged_row ?ev db]) zero_replay
      = Inr (zero_replay\<lparr>rm_state := ''new'', rm_revision := 1, rm_created := Some m\<rparr>)" by simp
  moreover have "replay_rel (zero_replay\<lparr>rm_state := ''new'', rm_revision := 1, rm_created := Some m\<rparr>) False []
      ((maintenance_row_of m)\<lparr>mr_rowid := x\<rparr>) [] [logged_row ?ev db]"
    using c assms(3)
    by (simp add: replay_rel_def maintenance_row_of_def same_identity_def zero_replay_def row_by_id_def exercised_def fun_eq_iff)
  moreover have "versions_ok ((maintenance_row_of m)\<lparr>mr_rowid := x\<rparr>) []"
    using c by (simp add: versions_ok_def maintenance_row_of_def max_int64_def)
  ultimately show ?thesis unfolding run_ok_def by (auto simp: loadCaptureForVerify_def)
qed

section \<open>Capture\<close>

lemma check_captureTargets_Inr:
  assumes "check_captureTargets seen ts = Inr us"
  shows "distinct (map ct_TargetID us) \<and> set (map ct_TargetID us) \<inter> set seen = {}
    \<and> (\<forall>u \<in> set us. validID (ct_TargetID u) \<and> ct_LockKey u \<noteq> '''' \<and> TrimSpace (ct_LockKey u) = ct_LockKey u
        \<and> ct_OriginalState u \<in> {''running'', ''stopped'', ''degraded'', ''unknown''} \<and> canonical_text (ct_Metadata u))"
  using assms
proof (induction seen ts arbitrary: us rule: check_captureTargets.induct)
  case (2 seen t ts)
  obtain metadata vs where md: "canonicalJSONDefault (ct_Metadata t) = Inr metadata"
    and vs: "check_captureTargets (ct_TargetID t # seen) ts = Inr vs"
    and us: "us = t\<lparr>ct_LockKey := TrimSpace (ct_LockKey t), ct_Metadata := metadata\<rparr> # vs"
    and g: "validID (ct_TargetID t)" "ct_TargetID t \<notin> set seen" "TrimSpace (ct_LockKey t) \<noteq> ''''"
      "ct_OriginalState t \<in> {''running'', ''stopped'', ''degraded'', ''unknown''}"
      "length (TrimSpace (ct_LockKey t)) \<le> 512" "length (ct_Kind t) \<le> 100" "length (ct_Host t) \<le> 512" "length metadata \<le> 64 * 1024"
    using "2.prems" by (auto simp: Let_def split: if_splits sum.splits)
  have "distinct (map ct_TargetID vs) \<and> set (map ct_TargetID vs) \<inter> set (ct_TargetID t # seen) = {}
    \<and> (\<forall>u \<in> set vs. validID (ct_TargetID u) \<and> ct_LockKey u \<noteq> '''' \<and> TrimSpace (ct_LockKey u) = ct_LockKey u
        \<and> ct_OriginalState u \<in> {''running'', ''stopped'', ''degraded'', ''unknown''} \<and> canonical_text (ct_Metadata u))"
    using g md vs by (intro "2.IH" [OF _ refl]) auto
  with g us canonicalJSONDefault_canonical [OF md] show ?case by auto
qed simp

lemma parseCaptureTargets_Inr:
  assumes "parseCaptureTargets payload = Inr us"
  shows "distinct (map ct_TargetID us)"
    "u \<in> set us \<Longrightarrow> validID (ct_TargetID u) \<and> ct_LockKey u \<noteq> ''''"
    "u \<in> set us \<Longrightarrow> ct_OriginalState u \<in> {''running'', ''stopped'', ''degraded'', ''unknown''}"
proof -
  have "us = [] \<or> (\<exists>ts. check_captureTargets [] ts = Inr us)"
    using assms by (auto simp: parseCaptureTargets_def split: option.splits if_splits)
  then have *: "distinct (map ct_TargetID us) \<and> (\<forall>u \<in> set us. validID (ct_TargetID u) \<and> ct_LockKey u \<noteq> ''''
      \<and> ct_OriginalState u \<in> {''running'', ''stopped'', ''degraded'', ''unknown''})"
    using check_captureTargets_Inr by fastforce
  show "distinct (map ct_TargetID us)" "u \<in> set us \<Longrightarrow> validID (ct_TargetID u) \<and> ct_LockKey u \<noteq> ''''"
    "u \<in> set us \<Longrightarrow> ct_OriginalState u \<in> {''running'', ''stopped'', ''degraded'', ''unknown''}"
    using * by auto
qed

lemma foldl_update_targets:
  assumes "distinct (map ct_TargetID ts)"
  shows "map_of (foldl (\<lambda>m t. AList.update (ct_TargetID t) (f t) m) m0 ts) k
    = (case find (\<lambda>t. ct_TargetID t = k) ts of Some t \<Rightarrow> Some (f t) | None \<Rightarrow> map_of m0 k)"
  using assms
proof (induction ts arbitrary: m0)
  case (Cons t ts)
  then have "ct_TargetID t = k \<Longrightarrow> find (\<lambda>t. ct_TargetID t = k) ts = None"
    by (auto simp: find_None_iff image_iff)
  with Cons show ?case by (auto simp: update_conv split: option.split)
qed simp

lemma foldl_update_distinct:
  "distinct (map fst m0) \<Longrightarrow> distinct (map fst (foldl (\<lambda>m t. AList.update (k t) (f t) m) m0 ts))"
  by (induction ts arbitrary: m0) (simp_all add: distinct_update)

lemma find_map_rows:
  "find (\<lambda>r. tr_id r = k) (map (target_row_of i stamp) ts) = map_option (target_row_of i stamp) (find (\<lambda>t. ct_TargetID t = k) ts)"
  by (induction ts) (auto simp: target_row_of_def)

lemma replay_target_row: "replay_target_of t = row_abs (target_row_of i stamp t)"
  by (simp add: replay_target_of_def row_abs_def target_row_of_def)

lemma captured_event_simps [simp]:
  "e_Type (captured_event E m c n audit now) = ''maintenance.captured''"
  "e_OccurredAt (captured_event E m c n audit now) = now"
  "e_ResourceType (captured_event E m c n audit now) = ''maintenance''"
  "e_ResourceID (captured_event E m c n audit now) = c_MaintenanceID c"
  "e_MaintenanceID (captured_event E m c n audit now) = c_MaintenanceID c"
  "e_TargetID (captured_event E m c n audit now) = ''''"
  "e_FromState (captured_event E m c n audit now) = ''new''" "e_ToState (captured_event E m c n audit now) = ''captured''"
  "e_FromVersion (captured_event E m c n audit now) = m_Version m"
  "e_ToVersion (captured_event E m c n audit now) = wrap64 (m_Version m + 1)"
  "e_AggregateVersion (captured_event E m c n audit now) = wrap64 (m_Version m + 1)"
  "e_Payload (captured_event E m c n audit now) = capture_detail (c_SHA256 c) n"
  by (simp_all add: captured_event_def zero_Event_def Let_def split: prod.split)

lemma EqualFold_refl [simp]: "EqualFold s s"
  by (simp add: EqualFold_def)

lemma capture_detail_not_Nil [simp]: "capture_detail sha n \<noteq> []"
  by (simp add: capture_detail_def)

definition observed_ok :: "captureTarget \<Rightarrow> bool" where
  "observed_ok t \<longleftrightarrow> (case ct_ObservedAt t of None \<Rightarrow> True | Some x \<Rightarrow> time_ok x)"

lemma capture_rel_row: "observed_ok t \<Longrightarrow> capture_rel (target_row_of i stamp t) t"
  by (cases "ct_ObservedAt t") (simp_all add: capture_rel_def target_row_of_def observed_ok_def)

lemma run_captured:
  assumes ok: "run_ok E r None rows evs" and new: "mr_state r = ''new''" and i: "mr_id r = i" "i \<noteq> ''''"
    and pay: "canonicalJSONObject p0 = Inr payload" "parseCaptureTargets payload = Inr ts"
    and obs: "\<forall>t \<in> set ts. observed_ok t" and len: "int (length ts) \<le> max_int64" and E: "env_ok E" "time_ok now"
    and v: "0 < wrap64 (mr_version r + 1)"
    and log: "log_ok E (captured_event E (scanMaintenance r) (capture_of E i at payload) (length ts) audit now) db'"
  shows "run_ok E (r\<lparr>mr_state := ''captured'', mr_version := wrap64 (mr_version r + 1), mr_updated_at := u\<rparr>)
    (Some \<lparr>cr_maintenance_id = i, cr_captured_at = stamp, cr_payload_json = payload, cr_sha256 = sha256_hex E payload\<rparr>)
    (rows @ map (target_row_of i stamp) ts)
    (evs @ [logged_row (captured_event E (scanMaintenance r) (capture_of E i at payload) (length ts) audit now) db])"
proof -
  let ?ev = "captured_event E (scanMaintenance r) (capture_of E i at payload) (length ts) audit now"
  let ?e = "scanEvent (logged_row ?ev db)"
  let ?h = "sha256_hex E payload"
  let ?r = "r\<lparr>mr_state := ''captured'', mr_version := wrap64 (mr_version r + 1), mr_updated_at := u\<rparr>"
  let ?cap = "\<lparr>cr_maintenance_id = i, cr_captured_at = stamp, cr_payload_json = payload, cr_sha256 = ?h\<rparr>"
  obtain rp where rp: "replay_events [] '''' False (map scanEvent evs) zero_replay = Inr rp"
    "replay_rel rp False [] r rows evs" and vs: "versions_ok r rows"
    using ok by (auto simp: run_ok_def loadCaptureForVerify_def)
  note rel = rp(2) [unfolded replay_rel_def]
  have rows: "rows = []" using rel by simp
  have canon: "canonical_text payload" using canonicalJSONObject_canonical [OF pay(1)] .
  have load: "loadCaptureForVerify E i (Some ?cap) = Inr (ts, ?h, True)"
    by (simp add: loadCaptureForVerify_def canonical_text_fix [OF canon] pay(2))
  have v1: "wrap64 (mr_version r + 1) = mr_version r + 1" "mr_version r + 1 \<le> max_int64"
    using vs v wrap64_succ_pos [of "mr_version r"] wrap64_range [of "mr_version r + 1"]
    by (auto simp: versions_ok_def in_int64_def)
  have "json_valid (capture_detail ?h (length ts))"
    using log by (simp add: log_ok_def capture_of_def)
  then have det: "unmarshal_capture_detail (capture_detail ?h (length ts)) = Some (?h, int (length ts))"
    using capture_detail_verifies E(1) len by (simp add: env_ok_def)
  let ?rp = "rp\<lparr>rm_targets := foldl (\<lambda>m t. AList.update (ct_TargetID t) (replay_target_of t) m) (rm_targets rp) ts,
     rm_state := ''captured'', rm_revision := mr_version r + 1, rm_captured := True\<rparr>"
  have "validateEventShape ?e = Inr ()"
    using i by (intro shape_logged [OF log, where p = "''maintenance.''"]) (simp_all add: E(2) capture_of_def)
  moreover have "replay_apply rp ?e ts ?h True = Inr ?rp"
    unfolding scan_logged [of ?ev, simplified, OF E(2)] using rel new v1
    by (simp add: replay_apply_def apply_captured_def det capture_of_def scanMaintenance_def)
  ultimately have ev: "replay_events ts ?h True (map scanEvent (evs @ [logged_row ?ev db])) zero_replay = Inr ?rp"
    using run_ok_snoc [OF replay_events_no_capture [OF rp(1)]] by blast
  have dist: "distinct (map ct_TargetID ts)" using parseCaptureTargets_Inr(1) [OF pay(2)] .
  have "map_of (rm_targets rp) k = None" for k using rel by (simp add: rows row_by_id_def)
  then have "map_of (rm_targets ?rp) k = map_option row_abs (row_by_id k (map (target_row_of i stamp) ts))" for k
    using foldl_update_targets [OF dist, of replay_target_of "rm_targets rp" k]
    by (simp add: row_by_id_def find_map_rows option.map_comp comp_def replay_target_row [where i = i and stamp = stamp] split: option.split)
  moreover have "list_all2 capture_rel (map (target_row_of i stamp) ts) ts"
    using obs by (auto simp: list_all2_map1 intro!: list.rel_refl_strong capture_rel_row)
  ultimately have "replay_rel ?rp True ts ?r (rows @ map (target_row_of i stamp) ts) (evs @ [logged_row ?ev db])"
    using rel v1 by (simp add: replay_rel_def rows fun_eq_iff foldl_update_distinct same_identity_def exercised_def)
  moreover have "versions_ok ?r (rows @ map (target_row_of i stamp) ts)"
    using vs v1 by (auto simp: versions_ok_def rows target_row_of_def)
  moreover have "distinct (map tr_id (rows @ map (target_row_of i stamp) ts))"
    using dist by (simp add: rows comp_def target_row_of_def)
  ultimately show ?thesis unfolding run_ok_def using load ev i(1) by auto
qed

section \<open>Transitions of a run\<close>

lemma transition_event_simps [simp]:
  "e_Type (transition_event m st p audit now) = transition_type m st"
  "e_OccurredAt (transition_event m st p audit now) = now"
  "e_ResourceType (transition_event m st p audit now) = ''maintenance''"
  "e_ResourceID (transition_event m st p audit now) = m_ID m"
  "e_MaintenanceID (transition_event m st p audit now) = m_ID m"
  "e_TargetID (transition_event m st p audit now) = ''''"
  "e_FromState (transition_event m st p audit now) = m_State m" "e_ToState (transition_event m st p audit now) = st"
  "e_FromVersion (transition_event m st p audit now) = m_Version m"
  "e_ToVersion (transition_event m st p audit now) = wrap64 (m_Version m + 1)"
  "e_AggregateVersion (transition_event m st p audit now) = wrap64 (m_Version m + 1)"
  "e_Payload (transition_event m st p audit now) = p"
  by (simp_all add: transition_event_def zero_Event_def Let_def split: prod.split)

lemma eventPayload_not_Nil: "eventPayload d j = Inr payload \<Longrightarrow> payload \<noteq> ''''"
  by (auto simp: eventPayload_def Let_def marshal_struct_def split: if_splits option.splits)

lemma isAdmin_filled:
  "isAdmin (a_Role audit) \<Longrightarrow> isAdmin (e_Role (filled_event (transition_event m st p audit now)))"
  "isAdmin (a_Role audit) \<Longrightarrow> isAdmin (e_Role (filled_event (target_event m t st p audit now)))"
  by (simp_all add: isAdmin_def audit_event_role)

lemma validJustification_TrimSpace: "validJustification (TrimSpace j) = validJustification j"
  by (simp add: validJustification_def)

lemma find_id: "distinct (map tr_id rows) \<Longrightarrow> t \<in> set rows \<Longrightarrow> row_by_id (tr_id t) rows = Some t"
  unfolding row_by_id_def by (induction rows) (auto simp: image_iff)

lemma row_by_id_Some: "row_by_id k rows = Some t \<Longrightarrow> t \<in> set rows \<and> tr_id t = k"
  unfolding row_by_id_def by (induction rows) (auto split: if_splits)

lemma replay_targets_iff:
  assumes "distinct (map fst ts)" "map_of ts = (\<lambda>k. map_option row_abs (row_by_id k rows))" "distinct (map tr_id rows)"
  shows "list_ex (\<lambda>(k, t). P t) ts \<longleftrightarrow> (\<exists>t \<in> set rows. P (row_abs t))" and "ts = [] \<longleftrightarrow> rows = []"
proof -
  have mem: "(k, t) \<in> set ts \<longleftrightarrow> (\<exists>r. row_by_id k rows = Some r \<and> t = row_abs r)" for k t
    using assms(1,2) by (auto simp flip: map_of_eq_Some_iff)
  show "list_ex (\<lambda>(k, t). P t) ts \<longleftrightarrow> (\<exists>t \<in> set rows. P (row_abs t))"
  proof
    assume "list_ex (\<lambda>(k, t). P t) ts"
    then show "\<exists>t \<in> set rows. P (row_abs t)" using mem row_by_id_Some by (fastforce simp: list_ex_iff)
  next
    assume "\<exists>t \<in> set rows. P (row_abs t)"
    then show "list_ex (\<lambda>(k, t). P t) ts" using mem find_id [OF assms(3)] by (fastforce simp: list_ex_iff)
  qed
  show "ts = [] \<longleftrightarrow> rows = []"
  proof
    assume "ts = []"
    then have "\<And>k. row_by_id k rows = None" using assms(2) by (simp add: fun_eq_iff)
    then show "rows = []" using find_id [OF assms(3)] by (cases rows) fastforce+
  next
    assume "rows = []"
    then have "map_of ts = Map.empty" using assms(2) by (simp add: row_by_id_def fun_eq_iff)
    then show "ts = []" by simp
  qed
qed

lemma row_by_id_map:
  "(\<And>t. t \<in> set rows \<Longrightarrow> tr_id (f t) = tr_id t) \<Longrightarrow> row_by_id k (map f rows) = map_option f (row_by_id k rows)"
  unfolding row_by_id_def by (induction rows) auto

lemma map_of_map_snd: "map_of (map (\<lambda>(k, t). (k, g t)) ts) = (\<lambda>k. map_option g (map_of ts k))"
  by (induction ts) (auto simp: fun_eq_iff)

text \<open>The guards of a transition as they look from one run.\<close>

definition move_ok :: "maintenance_row \<Rightarrow> bool \<Rightarrow> target_row list \<Rightarrow> event_row list \<Rightarrow> StateChange \<Rightarrow> AuditContext \<Rightarrow> bool" where
  "move_ok r captured rows evs change audit \<longleftrightarrow>
     (if mr_state r = ''failed'' then isAdmin (a_Role audit) \<and> validJustification (sc_Justification change) = Inr ()
         \<and> (if captured then sc_State change \<notin> {''new'', ''completed'', ''cancelled''} else sc_State change = ''new'')
       else \<not> IsMaintenanceTerminal (mr_state r))
     \<and> (sc_State change = ''captured'' \<longrightarrow> mr_state r = ''failed'')
     \<and> ValidMaintenanceTransition (mr_state r) (sc_State change)
     \<and> (sc_State change = ''cancelled'' \<and> mr_state r = ''captured'' \<longrightarrow> \<not> exercised evs)
     \<and> (sc_State change = ''stopped'' \<longrightarrow> (\<forall>t \<in> set rows. \<not> unresolved t))
     \<and> (sc_State change = ''completed'' \<longrightarrow> rows \<noteq> [] \<and> (\<forall>t \<in> set rows. targetCompletionAllowed (tr_original_state t) (tr_state t)))"

lemma replay_unresolved_row: "replay_unresolved (row_abs t) \<longleftrightarrow> unresolved t"
  by (simp add: replay_unresolved_def unresolved_def row_abs_def)

lemma transition_sources:
  "ValidMaintenanceTransition a ''completed'' \<longleftrightarrow> a = ''starting''"
  "ValidMaintenanceTransition a ''cancelled'' \<longleftrightarrow> a = ''new'' \<or> a = ''captured''"
  "ValidMaintenanceTransition a ''new'' \<longleftrightarrow> a = ''failed''"
  by (auto simp: ValidMaintenanceTransition_iff)

lemma transition_type_cases:
  "transition_type m st \<in> {''maintenance.transitioned'', ''maintenance.reopened'', ''maintenance.completed''}"
  by (simp add: transition_type_def)

definition bump_row :: "string \<Rightarrow> target_row \<Rightarrow> target_row" where
  "bump_row stamp t = t\<lparr>tr_version := tr_version t + 1, tr_updated_at := stamp\<rparr>"

lemma apply_transition_ok:
  assumes rel: "replay_rel rp c ct r rows evs" and dist: "distinct (map tr_id rows)" and new: "mr_state r = ''new'' \<longrightarrow> \<not> c"
    and mv: "move_ok r c rows evs change audit" and v: "0 < mr_version r" "wrap64 (mr_version r + 1) = mr_version r + 1"
    and pay: "validTransitionPayload payload = Inr ()"
      "validJustification (sc_Justification change) = Inr () \<Longrightarrow> validEventJustification payload = Inr ()"
    and ev: "e_ResourceType ev = ''maintenance''" "e_TargetID ev = ''''" "e_FromState ev = mr_state r" "e_ToState ev = sc_State change"
      "e_FromVersion ev = mr_version r" "e_ToVersion ev = mr_version r + 1" "e_AggregateVersion ev = mr_version r + 1"
      "e_Payload ev = payload" "e_Type ev = transition_type (scanMaintenance r) (sc_State change)"
      "isAdmin (a_Role audit) \<Longrightarrow> isAdmin (e_Role ev)"
  shows "apply_transition rp ev = Inr (rp\<lparr>rm_targets := (if c
            then map (\<lambda>(k, t). (k, t\<lparr>rt_version := wrap64 (rt_version t + 1)\<rparr>)) (rm_targets rp) else rm_targets rp),
          rm_state := sc_State change, rm_revision := mr_version r + 1\<rparr>)"
proof -
  note rel' = rel [unfolded replay_rel_def] and mv' = mv [unfolded move_ok_def]
  note mv_tail = mv' [THEN conjunct2, THEN conjunct2]
  note mv_valid = mv_tail [THEN conjunct1] and mv_cancel = mv_tail [THEN conjunct2, THEN conjunct1]
  have st: "m_State (scanMaintenance r) = mr_state r" by (simp add: scanMaintenance_def)
  have tg: "distinct (map fst (rm_targets rp))" "map_of (rm_targets rp) = (\<lambda>k. map_option row_abs (row_by_id k rows))"
    using rel' by blast+
  note targets = replay_targets_iff [OF tg dist]
  have a: "sc_State change = ''completed'' \<Longrightarrow> mr_state r \<noteq> ''failed''"
    using mv_valid transition_sources(1) by auto
  have ty: "e_Type ev = ''maintenance.reopened'' \<longleftrightarrow> mr_state r = ''failed''"
    "e_Type ev = ''maintenance.completed'' \<longleftrightarrow> sc_State change = ''completed''"
    using a by (auto simp: ev(9) transition_type_def st)
  have cancel: "\<not> (sc_State change = ''cancelled'' \<and> rm_captured rp \<and> rm_physicalTransition rp)"
  proof
    assume *: "sc_State change = ''cancelled'' \<and> rm_captured rp \<and> rm_physicalTransition rp"
    then have "mr_state r = ''new'' \<or> mr_state r = ''captured''"
      using mv_valid transition_sources(2) by simp
    moreover have "c" "exercised evs" using * rel' by simp_all
    ultimately show False using new mv_cancel * by blast
  qed
  have stop: "sc_State change = ''stopped'' \<Longrightarrow> \<not> list_ex (\<lambda>(k, t). replay_unresolved t) (rm_targets rp)"
    using mv' by (simp add: targets(1) replay_unresolved_row)
  have complete: "sc_State change = ''completed'' \<Longrightarrow> rm_targets rp \<noteq> []
      \<and> \<not> list_ex (\<lambda>(k, t). \<not> targetCompletionAllowed (rt_original t) (rt_state t)) (rm_targets rp)"
    using mv' by (simp add: targets(1) [of "\<lambda>t. \<not> targetCompletionAllowed (rt_original t) (rt_state t)"] targets(2) row_abs_def)
  have reopen: "mr_state r = ''failed'' \<Longrightarrow> isAdmin (e_Role ev) \<and> validEventJustification payload = Inr ()
      \<and> (c \<longrightarrow> sc_State change \<notin> {''new'', ''completed'', ''cancelled''}) \<and> (\<not> c \<longrightarrow> sc_State change = ''new'')"
    using mv' [THEN conjunct1] pay(2) ev(10) by (cases c) simp_all
  have capt: "sc_State change = ''captured'' \<Longrightarrow> mr_state r = ''failed''"
    "ValidMaintenanceTransition (mr_state r) (sc_State change)"
    using mv' [THEN conjunct2, THEN conjunct1] mv_valid by simp_all
  have rp: "rm_state rp = mr_state r" "rm_revision rp = mr_version r" "rm_captured rp = c" using rel' by simp_all
  have "\<not> (mr_state r = ''failed''
        \<and> (mr_state r \<noteq> ''failed'' \<or> \<not> isAdmin (e_Role ev) \<or> validEventJustification payload \<noteq> Inr ()))"
    using reopen by blast
  moreover have "\<not> (mr_state r = ''failed'' \<and> ((\<not> c \<and> sc_State change \<noteq> ''new'')
          \<or> (c \<and> (sc_State change = ''new'' \<or> sc_State change = ''completed'' \<or> sc_State change = ''cancelled''))))"
    using reopen by blast
  moreover have "\<not> (\<not> mr_state r = ''failed'' \<and> mr_state r = ''failed'')" by blast
  moreover have "\<not> (validTransitionPayload payload \<noteq> Inr ())" using pay(1) by simp
  moreover have "\<not> (sc_State change = ''captured'' \<and> \<not> mr_state r = ''failed'')" using capt(1) by blast
  moreover have "\<not> (sc_State change = ''cancelled'' \<and> c \<and> rm_physicalTransition rp)" using cancel rp(3) by simp
  moreover have "\<not> (sc_State change = ''stopped'' \<and> list_ex (\<lambda>(k, t). replay_unresolved t) (rm_targets rp))"
    using stop by blast
  moreover have "\<not> (sc_State change = ''completed'' \<and> (\<not> sc_State change = ''completed'' \<or> length (rm_targets rp) = 0))"
    using complete by simp
  moreover have "\<not> (sc_State change = ''completed''
        \<and> list_ex (\<lambda>(k, t). \<not> targetCompletionAllowed (rt_original t) (rt_state t)) (rm_targets rp))"
    using complete by blast
  moreover have "\<not> (\<not> sc_State change = ''completed'' \<and> sc_State change = ''completed'')" by blast
  ultimately show ?thesis unfolding apply_transition_def ty ev(1-8) rp
    by (simp only: if_False) (use v capt(2) in simp)
qed

lemma versions_succ:
  assumes "versions_ok r rows" "0 < wrap64 (mr_version r + 1)"
  shows "wrap64 (mr_version r + 1) = mr_version r + 1" "mr_version r + 1 \<le> max_int64" "0 < mr_version r"
    and "t \<in> set rows \<Longrightarrow> wrap64 (tr_version t + 1) = tr_version t + 1"
proof -
  show 1: "wrap64 (mr_version r + 1) = mr_version r + 1" "mr_version r + 1 \<le> max_int64" "0 < mr_version r"
    using assms wrap64_succ_pos [of "mr_version r"] wrap64_range [of "mr_version r + 1"]
    by (auto simp: versions_ok_def in_int64_def)
  assume "t \<in> set rows"
  then show "wrap64 (tr_version t + 1) = tr_version t + 1"
    using assms(1) 1 by (intro wrap64_id) (auto simp: versions_ok_def in_int64_def)
qed

lemma run_moved:
  assumes ok: "run_ok E r cap rows evs" and i: "mr_id r \<noteq> ''''"
    and mv: "move_ok r (cap \<noteq> None) rows evs change audit" and E: "time_ok now"
    and v: "0 < wrap64 (mr_version r + 1)" and utf: "valid_utf8 (sc_Justification change)"
    and pay: "eventPayload d (TrimSpace (sc_Justification change)) = Inr payload"
    and log: "log_ok E (transition_event (scanMaintenance r) (sc_State change) payload audit now) db'"
  shows "run_ok E (r\<lparr>mr_state := sc_State change, mr_version := wrap64 (mr_version r + 1), mr_updated_at := u\<rparr>) cap
    (if cap \<noteq> None then map (bump_row u) rows else rows)
    (evs @ [logged_row (transition_event (scanMaintenance r) (sc_State change) payload audit now) db])"
    (is "run_ok E ?r cap ?rows (evs @ [logged_row ?ev db])")
proof -
  obtain ct h c rp where load: "loadCaptureForVerify E (mr_id r) cap = Inr (ct, h, c)"
    and rp: "replay_events ct h c (map scanEvent evs) zero_replay = Inr rp" and rel: "replay_rel rp c ct r rows evs"
    and vs: "versions_ok r rows" and dist: "distinct (map tr_id rows)" and new: "mr_state r = ''new'' \<longrightarrow> cap = None"
    using ok by (auto simp: run_ok_def)
  have c: "c \<longleftrightarrow> cap \<noteq> None"
    using load by (auto simp: loadCaptureForVerify_def split: option.splits sum.splits if_splits)
  note v1 = versions_succ [OF vs v]
  have m: "m_ID (scanMaintenance r) = mr_id r" "m_State (scanMaintenance r) = mr_state r" "m_Version (scanMaintenance r) = mr_version r"
    by (simp_all add: scanMaintenance_def)
  have p: "e_Payload (filled_event ?ev) = payload" using eventPayload_not_Nil [OF pay] by simp
  have pv: "validTransitionPayload payload = Inr ()"
    "validJustification (sc_Justification change) = Inr () \<Longrightarrow> validEventJustification payload = Inr ()"
    using eventPayload_verifies [OF pay _ valid_utf8_TrimSpace [OF utf]] log p
    by (simp_all add: log_ok_def validJustification_TrimSpace)
  let ?e = "(filled_event ?ev)\<lparr>e_ID := next_rowid (map er_journal_id (events_t db))\<rparr>"
  have e: "scanEvent (logged_row ?ev db) = ?e" by (rule scan_logged) (simp add: E)
  let ?rp = "rp\<lparr>rm_targets := (if c then map (\<lambda>(k, t). (k, t\<lparr>rt_version := wrap64 (rt_version t + 1)\<rparr>)) (rm_targets rp) else rm_targets rp),
      rm_state := sc_State change, rm_revision := mr_version r + 1\<rparr>"
  have "apply_transition rp ?e = Inr ?rp"
    by (rule apply_transition_ok [OF rel dist _ mv [folded c] v1(3,1) pv])
      (use new c isAdmin_filled(1) in \<open>simp_all add: m v1 p\<close>)
  then have "replay_apply rp (scanEvent (logged_row ?ev db)) ct h c = Inr ?rp"
    using transition_type_cases [of "scanMaintenance r" "sc_State change"] by (auto simp: e replay_apply_def)
  moreover have "validateEventShape (scanEvent (logged_row ?ev db)) = Inr ()"
    using i by (intro shape_logged [OF log, where p = "''maintenance.''"
        and t = "drop 12 (transition_type (scanMaintenance r) (sc_State change))"])
      (simp_all add: E m transition_type_def)
  ultimately have ev: "replay_events ct h c (map scanEvent (evs @ [logged_row ?ev db])) zero_replay = Inr ?rp"
    using run_ok_snoc [OF rp] by blast
  have b: "tr_id (bump_row u t) = tr_id t" "capture_rel (bump_row u t) x = capture_rel t x" for t x
    by (simp_all add: bump_row_def capture_rel_def)
  have "(row_abs t)\<lparr>rt_version := wrap64 (rt_version (row_abs t) + 1)\<rparr> = row_abs (bump_row u t)" if "t \<in> set rows" for t
    using v1(4) [OF that] by (simp add: row_abs_def bump_row_def)
  then have "map_of (rm_targets ?rp) = (\<lambda>k. map_option row_abs (row_by_id k ?rows))"
    using rel c by (auto simp: replay_rel_def map_of_map_snd row_by_id_map b fun_eq_iff option.map_comp comp_def
        dest: row_by_id_Some intro!: option.map_cong)
  then have "replay_rel ?rp c ct ?r ?rows (evs @ [logged_row ?ev db])"
    using rel v1 c transition_type_cases [of "scanMaintenance r" "sc_State change"]
    by (auto simp: replay_rel_def same_identity_def exercised_def list_all2_map1 b comp_def case_prod_unfold fun_eq_iff)
  moreover have "versions_ok ?r ?rows"
    using vs v1 by (fastforce simp: versions_ok_def bump_row_def)
  moreover have "distinct (map tr_id ?rows)" using dist by (simp add: comp_def b)
  moreover have "mr_state ?r = ''new'' \<longrightarrow> cap = None"
    using mv transition_sources(3) [of "mr_state r"] by (cases cap) (auto simp: move_ok_def)
  ultimately show ?thesis unfolding run_ok_def using load ev by auto
qed

section \<open>Transitions of a target\<close>

lemma target_event_simps [simp]:
  "e_Type (target_event m t st p audit now) = target_type st" "e_OccurredAt (target_event m t st p audit now) = now"
  "e_ResourceType (target_event m t st p audit now) = ''target''" "e_ResourceID (target_event m t st p audit now) = t_ID t"
  "e_MaintenanceID (target_event m t st p audit now) = m_ID m" "e_TargetID (target_event m t st p audit now) = t_ID t"
  "e_FromState (target_event m t st p audit now) = t_State t" "e_ToState (target_event m t st p audit now) = st"
  "e_FromVersion (target_event m t st p audit now) = t_Version t"
  "e_ToVersion (target_event m t st p audit now) = wrap64 (t_Version t + 1)"
  "e_AggregateVersion (target_event m t st p audit now) = wrap64 (m_Version m + 1)"
  "e_Payload (target_event m t st p audit now) = p"
  by (simp_all add: target_event_def zero_Event_def Let_def split: prod.split)

definition move_row :: "string \<Rightarrow> string \<Rightarrow> int \<Rightarrow> string \<Rightarrow> target_row \<Rightarrow> target_row" where
  "move_row ti st v stamp t = (if tr_id t = ti then t\<lparr>tr_state := st, tr_version := v, tr_updated_at := stamp\<rparr> else t)"

lemma move_row_simps:
  "tr_id (move_row ti st v u x) = tr_id x" "capture_rel (move_row ti st v u x) y = capture_rel x y"
  by (simp_all add: move_row_def capture_rel_def)

lemma apply_target_ok:
  assumes rel: "replay_rel rp c ct r rows evs" and t: "row_by_id ti rows = Some t" "ti \<noteq> ''''"
    and al: "target_allowed (scanMaintenance r) (scanTarget t) change audit"
    and v: "0 < mr_version r" "wrap64 (mr_version r + 1) = mr_version r + 1" "wrap64 (tr_version t + 1) = tr_version t + 1"
    and pay: "validTransitionPayload payload = Inr ()"
      "validJustification (sc_Justification change) = Inr () \<Longrightarrow> validEventJustification payload = Inr ()"
    and ev: "e_ResourceType ev = ''target''" "e_TargetID ev = ti" "e_FromState ev = tr_state t" "e_ToState ev = sc_State change"
      "e_FromVersion ev = tr_version t" "e_ToVersion ev = tr_version t + 1" "e_AggregateVersion ev = mr_version r + 1"
      "e_Payload ev = payload" "e_Type ev = target_type (sc_State change)" "isAdmin (a_Role audit) \<Longrightarrow> isAdmin (e_Role ev)"
  shows "apply_target rp ev = Inr (rp\<lparr>rm_physicalTransition := rm_physicalTransition rp \<or> sc_State change \<noteq> ''skipped'',
     rm_targets := AList.update ti ((row_abs t)\<lparr>rt_state := sc_State change, rt_version := tr_version t + 1\<rparr>) (rm_targets rp),
     rm_revision := mr_version r + 1\<rparr>)"
proof -
  note rel' = rel [unfolded replay_rel_def] and al' = al [unfolded target_allowed_def]
  have "map_of (rm_targets rp) ti = Some (row_abs t)" using rel' t by simp
  then show ?thesis
    unfolding apply_target_def ev using rel' al' v pay ev(10) t(2)
    by (auto simp: target_type_def row_abs_def scanMaintenance_def scanTarget_def split: if_splits)
qed

lemma run_target:
  assumes ok: "run_ok E r cap rows evs" and i: "mr_id r \<noteq> ''''" and t: "row_by_id ti rows = Some t" "ti \<noteq> ''''"
    and al: "target_allowed (scanMaintenance r) (scanTarget t) change audit" and E: "time_ok now"
    and v: "0 < wrap64 (mr_version r + 1)" and utf: "valid_utf8 (sc_Justification change)"
    and pay: "eventPayload d (TrimSpace (sc_Justification change)) = Inr payload"
    and log: "log_ok E (target_event (scanMaintenance r) (scanTarget t) (sc_State change) payload audit now) db'"
  shows "run_ok E (r\<lparr>mr_version := wrap64 (mr_version r + 1), mr_updated_at := u\<rparr>) cap
    (map (move_row ti (sc_State change) (wrap64 (tr_version t + 1)) u) rows)
    (evs @ [logged_row (target_event (scanMaintenance r) (scanTarget t) (sc_State change) payload audit now) db])"
    (is "run_ok E ?r cap ?rows (evs @ [logged_row ?ev db])")
proof -
  obtain ct h c rp where load: "loadCaptureForVerify E (mr_id r) cap = Inr (ct, h, c)"
    and rp: "replay_events ct h c (map scanEvent evs) zero_replay = Inr rp" and rel: "replay_rel rp c ct r rows evs"
    and vs: "versions_ok r rows" and dist: "distinct (map tr_id rows)" and new: "mr_state r = ''new'' \<longrightarrow> cap = None"
    using ok by (auto simp: run_ok_def)
  have mem: "t \<in> set rows" "tr_id t = ti" using row_by_id_Some [OF t(1)] by auto
  note v1 = versions_succ(1-3) [OF vs v] versions_succ(4) [OF vs v mem(1)]
  have m: "m_ID (scanMaintenance r) = mr_id r" "m_State (scanMaintenance r) = mr_state r" "m_Version (scanMaintenance r) = mr_version r"
    "t_ID (scanTarget t) = ti" "t_State (scanTarget t) = tr_state t" "t_Version (scanTarget t) = tr_version t"
    using mem by (simp_all add: scanMaintenance_def scanTarget_def)
  have p: "e_Payload (filled_event ?ev) = payload" using eventPayload_not_Nil [OF pay] by simp
  have pv: "validTransitionPayload payload = Inr ()"
    "validJustification (sc_Justification change) = Inr () \<Longrightarrow> validEventJustification payload = Inr ()"
    using eventPayload_verifies [OF pay _ valid_utf8_TrimSpace [OF utf]] log p
    by (simp_all add: log_ok_def validJustification_TrimSpace)
  let ?e = "(filled_event ?ev)\<lparr>e_ID := next_rowid (map er_journal_id (events_t db))\<rparr>"
  have e: "scanEvent (logged_row ?ev db) = ?e" by (rule scan_logged) (simp add: E)
  let ?rp = "rp\<lparr>rm_physicalTransition := rm_physicalTransition rp \<or> sc_State change \<noteq> ''skipped'',
     rm_targets := AList.update ti ((row_abs t)\<lparr>rt_state := sc_State change, rt_version := tr_version t + 1\<rparr>) (rm_targets rp),
     rm_revision := mr_version r + 1\<rparr>"
  have "apply_target rp ?e = Inr ?rp"
    by (rule apply_target_ok [OF rel t al v1(3,1,4) pv]) (use isAdmin_filled(2) in \<open>simp_all add: m v1 p\<close>)
  then have "replay_apply rp (scanEvent (logged_row ?ev db)) ct h c = Inr ?rp"
    by (auto simp: e replay_apply_def target_type_def)
  moreover have "validateEventShape (scanEvent (logged_row ?ev db)) = Inr ()"
    using i t(2) by (intro shape_logged [OF log, where p = "''target.''" and t = "drop 7 (target_type (sc_State change))"])
      (simp_all add: E m target_type_def)
  ultimately have ev: "replay_events ct h c (map scanEvent (evs @ [logged_row ?ev db])) zero_replay = Inr ?rp"
    using run_ok_snoc [OF rp] by blast
  note b = move_row_simps
  have "map_of (rm_targets ?rp) k = map_option row_abs (row_by_id k ?rows)" for k
    using rel t(1) v1(4) row_by_id_Some [of k rows]
    by (auto simp: replay_rel_def update_conv' row_by_id_map b move_row_def row_abs_def option.map_comp comp_def
        intro!: option.map_cong)
  then have "replay_rel ?rp c ct ?r ?rows (evs @ [logged_row ?ev db])"
    using rel v1 by (auto simp: replay_rel_def same_identity_def exercised_def list_all2_map1 b fun_eq_iff distinct_update target_type_def)
  moreover have "versions_ok ?r ?rows"
    using vs v1 mem by (fastforce simp: versions_ok_def move_row_def)
  moreover have "distinct (map tr_id ?rows)" using dist by (simp add: comp_def b)
  ultimately show ?thesis unfolding run_ok_def using load ev new by auto
qed

section \<open>Observations\<close>

lemma observed_event_simps [simp]:
  "e_Type (observed_event i ti p audit now) = ''target.observed''" "e_OccurredAt (observed_event i ti p audit now) = now"
  "e_ResourceType (observed_event i ti p audit now) = ''target''" "e_ResourceID (observed_event i ti p audit now) = ti"
  "e_MaintenanceID (observed_event i ti p audit now) = i" "e_TargetID (observed_event i ti p audit now) = ti"
  "e_FromState (observed_event i ti p audit now) = ''''" "e_ToState (observed_event i ti p audit now) = ''''"
  "e_FromVersion (observed_event i ti p audit now) = 0" "e_ToVersion (observed_event i ti p audit now) = 0"
  "e_AggregateVersion (observed_event i ti p audit now) = 0" "e_Payload (observed_event i ti p audit now) = p"
  by (simp_all add: observed_event_def zero_Event_def Let_def split: prod.split)

lemma run_observed:
  assumes ok: "run_ok E r cap rows evs" and i: "mr_id r \<noteq> ''''" "ti \<noteq> ''''" and t: "row_by_id ti rows = Some t"
    and act: "\<not> IsMaintenanceTerminal (mr_state r)" and E: "time_ok now"
    and pay: "canonicalJSONObject p0 = Inr payload" and log: "log_ok E (observed_event (mr_id r) ti payload audit now) db'"
  shows "run_ok E r cap rows (evs @ [logged_row (observed_event (mr_id r) ti payload audit now) db])"
    (is "run_ok E r cap rows (evs @ [logged_row ?ev db])")
proof -
  obtain ct h c rp where load: "loadCaptureForVerify E (mr_id r) cap = Inr (ct, h, c)"
    and rp: "replay_events ct h c (map scanEvent evs) zero_replay = Inr rp" and rel: "replay_rel rp c ct r rows evs"
    using ok by (auto simp: run_ok_def)
  have "payload \<noteq> ''''" using canonical_text_not_Nil [OF canonicalJSONObject_canonical [OF pay]] by simp
  moreover have "scanEvent (logged_row ?ev db) = (filled_event ?ev)\<lparr>e_ID := next_rowid (map er_journal_id (events_t db))\<rparr>"
    by (rule scan_logged) (simp add: E)
  moreover have "rm_state rp = mr_state r" "map_of (rm_targets rp) ti \<noteq> None" using rel t by (auto simp: replay_rel_def)
  ultimately have "replay_apply rp (scanEvent (logged_row ?ev db)) ct h c = Inr rp"
    using act i(2) canonicalJSONObject_fix [OF pay] by (simp add: replay_apply_def apply_observed_def)
  moreover have "validateEventShape (scanEvent (logged_row ?ev db)) = Inr ()"
    using i by (intro shape_logged [OF log, where p = "''target.''" and t = "''observed''"]) (simp_all add: E)
  ultimately have "replay_events ct h c (map scanEvent (evs @ [logged_row ?ev db])) zero_replay = Inr rp"
    using run_ok_snoc [OF rp] by blast
  moreover have "replay_rel rp c ct r rows (evs @ [logged_row ?ev db])"
    using rel by (simp add: replay_rel_def exercised_def)
  ultimately show ?thesis using ok load unfolding run_ok_def by auto
qed

section \<open>The invariant of the database\<close>

definition keys_ok :: "database \<Rightarrow> bool" where
  "keys_ok db \<longleftrightarrow> run_unique db \<and> target_unique db \<and> distinct (map cr_maintenance_id (captures_t db))
     \<and> sorted_wrt (<) (map er_journal_id (events_t db)) \<and> (\<forall>e \<in> set (events_t db). 0 < er_journal_id e)
     \<and> rowids_ok db \<and> (\<forall>r \<in> set (maintenance_t db). validID (mr_id r))"

definition target_keys :: "database \<Rightarrow> (string \<times> string) set" where
  "target_keys db = (\<lambda>r. (tr_maintenance_id r, tr_id r)) ` set (targets_t db)"

definition refs_ok :: "database \<Rightarrow> bool" where
  "refs_ok db \<longleftrightarrow> (\<forall>t \<in> set (targets_t db). tr_maintenance_id t \<in> mr_id ` set (maintenance_t db))
     \<and> (\<forall>c \<in> set (captures_t db). cr_maintenance_id c \<in> mr_id ` set (maintenance_t db))
     \<and> (\<forall>e \<in> set (events_t db). \<forall>i. er_maintenance_id e = Some i \<longrightarrow> i \<in> mr_id ` set (maintenance_t db))
     \<and> (\<forall>e \<in> set (events_t db). \<forall>i t. er_maintenance_id e = Some i \<longrightarrow> er_target_id e = Some t \<longrightarrow> (i, t) \<in> target_keys db)"

definition active_run :: "database \<Rightarrow> string \<Rightarrow> bool" where
  "active_run db i \<longleftrightarrow> (\<exists>m \<in> set (maintenance_t db). mr_id m = i \<and> \<not> lock_released (mr_state m))"

definition locks_ok :: "database \<Rightarrow> bool" where
  "locks_ok db \<longleftrightarrow> (\<forall>s \<in> set (targets_t db). \<forall>t \<in> set (targets_t db). tr_lock_key s = tr_lock_key t
     \<longrightarrow> active_run db (tr_maintenance_id s) \<longrightarrow> active_run db (tr_maintenance_id t)
     \<longrightarrow> tr_maintenance_id s = tr_maintenance_id t)"

definition runs_ok :: "env \<Rightarrow> database \<Rightarrow> bool" where
  "runs_ok E db \<longleftrightarrow> (\<forall>r \<in> set (maintenance_t db).
     run_ok E r (capture_by_id (mr_id r) db) (rows_of (mr_id r) db) (events_of (mr_id r) db))"

definition globals_ok :: "database \<Rightarrow> bool" where
  "globals_ok db \<longleftrightarrow> (\<forall>e \<in> set (events_t db). er_maintenance_id e = None \<longrightarrow> check_global_event (scanEvent e) = Inr ())"

definition db_inv :: "env \<Rightarrow> database \<Rightarrow> bool" where
  "db_inv E db \<longleftrightarrow> keys_ok db \<and> refs_ok db \<and> locks_ok db \<and> runs_ok E db \<and> globals_ok db"

lemma db_inv_empty: "db_inv E empty_db"
  by (simp add: db_inv_def empty_db_def keys_ok_def refs_ok_def locks_ok_def runs_ok_def globals_ok_def run_unique_def
      target_unique_def rowids_ok_def)

text \<open>Appending an event.\<close>

lemma events_of_log [simp]:
  "events_of j (log_event ev db) = events_of j db @ (if nullText (e_MaintenanceID ev) = Some j then [logged_row ev db] else [])"
  by (simp add: events_of_def)

lemma view_log [simp]:
  "rows_of j (log_event ev db) = rows_of j db" "capture_by_id j (log_event ev db) = capture_by_id j db"
  "maintenance_by_id j (log_event ev db) = maintenance_by_id j db"
  "run_unique (log_event ev db) = run_unique db" "target_unique (log_event ev db) = target_unique db"
  "rowids_ok (log_event ev db) = rowids_ok db" "active_run (log_event ev db) = active_run db"
  by (simp_all add: rows_of_def capture_by_id_def maintenance_by_id_def run_unique_def target_unique_def rowids_ok_def
      active_run_def fun_eq_iff)

lemma keys_ok_log:
  assumes "keys_ok db"
  shows "keys_ok (log_event ev db)"
proof -
  have "sorted_wrt (<) (map er_journal_id (events_t db) @ [next_rowid (map er_journal_id (events_t db))])"
    using assms next_rowid_fresh [of _ "map er_journal_id (events_t db)"] by (auto simp: keys_ok_def sorted_wrt_append)
  then show ?thesis using assms next_rowid_pos by (auto simp: keys_ok_def)
qed

lemma logged_target [simp]: "er_target_id (logged_row ev db) = nullText (e_TargetID ev)"
  by (simp add: logged_row_def event_row_of_def)

lemma refs_ok_log:
  "refs_ok db \<Longrightarrow> e_MaintenanceID ev = '''' \<or> e_MaintenanceID ev \<in> mr_id ` set (maintenance_t db)
    \<Longrightarrow> e_MaintenanceID ev = '''' \<or> e_TargetID ev = '''' \<or> (e_MaintenanceID ev, e_TargetID ev) \<in> target_keys db
    \<Longrightarrow> refs_ok (log_event ev db)"
  unfolding refs_ok_def target_keys_def log_event_tables by (auto simp: nullText_def split: if_splits)

lemma locks_ok_log [simp]: "locks_ok (log_event ev db) = locks_ok db"
  by (simp add: locks_ok_def)

lemma globals_ok_log: "globals_ok db \<Longrightarrow> e_MaintenanceID ev \<noteq> '''' \<Longrightarrow> globals_ok (log_event ev db)"
  by (auto simp: globals_ok_def nullText_def)

text \<open>A change that concerns one run.\<close>

lemma runs_ok_update:
  assumes "runs_ok E db" "maintenance_by_id i db = Some r" "run_unique db"
    and "maintenance_t db' = map (\<lambda>x. if mr_id x = i then f x else x) (maintenance_t db)" "mr_id (f r) = i"
    and "\<And>j. j \<noteq> i \<Longrightarrow> capture_by_id j db' = capture_by_id j db \<and> rows_of j db' = rows_of j db \<and> events_of j db' = events_of j db"
    and "run_ok E (f r) (capture_by_id i db') (rows_of i db') (events_of i db')"
  shows "runs_ok E db'"
  unfolding runs_ok_def
proof
  fix x
  assume "x \<in> set (maintenance_t db')"
  then obtain y where y: "y \<in> set (maintenance_t db)" "x = (if mr_id y = i then f y else y)"
    unfolding assms(4) by auto
  show "run_ok E x (capture_by_id (mr_id x) db') (rows_of (mr_id x) db') (events_of (mr_id x) db')"
  proof (cases "mr_id y = i")
    case True
    then have "y = r" using assms(2,3) y(1) maintenance_by_id_iff [of db i y] by simp
    with assms(5,7) y(2) True show ?thesis by simp
  next
    case False
    with assms(1,6) y show ?thesis by (simp add: runs_ok_def)
  qed
qed

lemma keys_ok_update:
  assumes "keys_ok db" "maintenance_t db' = map (\<lambda>x. if mr_id x = i then f x else x) (maintenance_t db)"
    and "\<And>x. mr_id (f x) = mr_id x \<and> mr_rowid (f x) = mr_rowid x"
    and "target_unique db'" "distinct (map cr_maintenance_id (captures_t db'))" "events_t db' = events_t db"
  shows "keys_ok db'"
proof -
  have "map mr_id (maintenance_t db') = map mr_id (maintenance_t db)"
    "map mr_rowid (maintenance_t db') = map mr_rowid (maintenance_t db)"
    using assms(3) by (simp_all add: assms(2))
  moreover have "\<forall>r \<in> set (maintenance_t db'). validID (mr_id r) \<and> 0 < mr_rowid r"
    using assms(1,3) by (auto simp: assms(2) keys_ok_def rowids_ok_def)
  ultimately show ?thesis
    using assms(1,4-6) by (simp add: keys_ok_def run_unique_def rowids_ok_def)
qed

lemma ids_update:
  "(\<And>x. mr_id (f x) = mr_id x) \<Longrightarrow> mr_id ` set (map (\<lambda>x. if mr_id x = i then f x else x) ms) = mr_id ` set ms"
  by (induction ms) auto

text \<open>A run that held no lock cannot take one by changing its state.\<close>

lemma locks_ok_mono:
  assumes "locks_ok db" "\<And>t. t \<in> set (targets_t db') \<Longrightarrow> active_run db' (tr_maintenance_id t) \<Longrightarrow> active_run db (tr_maintenance_id t)"
    and "\<And>t. t \<in> set (targets_t db') \<Longrightarrow> \<exists>s \<in> set (targets_t db). tr_lock_key s = tr_lock_key t \<and> tr_maintenance_id s = tr_maintenance_id t"
  shows "locks_ok db'"
  unfolding locks_ok_def
proof (intro ballI impI)
  fix s t
  assume st: "s \<in> set (targets_t db')" "t \<in> set (targets_t db')" "tr_lock_key s = tr_lock_key t"
    "active_run db' (tr_maintenance_id s)" "active_run db' (tr_maintenance_id t)"
  obtain s' t' where "s' \<in> set (targets_t db)" "tr_lock_key s' = tr_lock_key s" "tr_maintenance_id s' = tr_maintenance_id s"
    "t' \<in> set (targets_t db)" "tr_lock_key t' = tr_lock_key t" "tr_maintenance_id t' = tr_maintenance_id t"
    using assms(3) [OF st(1)] assms(3) [OF st(2)] by blast
  with st assms(1) assms(2) [OF st(1,4)] assms(2) [OF st(2,5)] show "tr_maintenance_id s = tr_maintenance_id t"
    unfolding locks_ok_def by metis
qed

lemma lock_holders_active:
  "t \<in> set (lock_holders db key) \<longleftrightarrow> t \<in> set (targets_t db) \<and> tr_lock_key t = key \<and> active_run db (tr_maintenance_id t)"
  by (auto simp: lock_holders_def active_run_def list_ex_iff)

end
