(* ===== verification/Preserve.thy ===== *)
theory Preserve
  imports Invariant
begin

text \<open>
  Every mutation keeps the invariant of the database. One lemma per operation on the effects, then
  one per operation of the store: an error leaves the database as it was, and a success keeps the
  invariant when the arguments are proper text and the instants are in range.
\<close>

section \<open>Effects keep the invariant\<close>

lemma fresh_views:
  assumes "refs_ok db" "maintenance_by_id i db = None"
  shows "rows_of i db = []" "capture_by_id i db = None" "events_of i db = []"
proof -
  have "i \<notin> mr_id ` set (maintenance_t db)" using assms(2) by (auto simp: maintenance_by_id_def find_None_iff)
  then show "rows_of i db = []" "capture_by_id i db = None" "events_of i db = []"
    using assms(1) by (auto simp: refs_ok_def rows_of_def capture_by_id_def events_of_def find_None_iff filter_empty_conv)
qed

lemma inv_create:
  assumes inv: "db_inv E db" and ok: "create_ok m db" "log_ok E (created_event m audit) (add_maintenance m db)"
    and args: "time_ok (m_CreatedAt m)" "valid_utf8 (m_ChangeTicket m)" "valid_utf8 (m_WorkflowVersion m)"
  shows "db_inv E (log_event (created_event m audit) (add_maintenance m db))"
proof -
  let ?db = "add_maintenance m db" and ?ev = "created_event m audit" and ?i = "m_ID m"
  let ?row = "(maintenance_row_of m)\<lparr>mr_rowid := next_rowid (map mr_rowid (maintenance_t db))\<rparr>"
  have id: "validID ?i" "?i \<noteq> ''''" "maintenance_by_id ?i db = None"
    using ok(1) validID_not_Nil by (auto simp: create_ok_def)
  have keys: "keys_ok db" and refs: "refs_ok db" and locks: "locks_ok db" and runs: "runs_ok E db" and glob: "globals_ok db"
    using inv by (simp_all add: db_inv_def)
  note fresh = fresh_views [OF refs id(3)]
  have nin: "?i \<notin> mr_id ` set (maintenance_t db)" using id(3) by (auto simp: maintenance_by_id_def find_None_iff)
  have row: "mr_id ?row = ?i" by (simp add: maintenance_row_of_def)
  have tabs: "maintenance_t ?db = maintenance_t db @ [?row]" "targets_t ?db = targets_t db" "captures_t ?db = captures_t db"
    "events_t ?db = events_t db" by (simp_all add: add_maintenance_def)
  have views: "rows_of j ?db = rows_of j db" "capture_by_id j ?db = capture_by_id j db" "events_of j ?db = events_of j db" for j
    by (simp_all add: rows_of_def capture_by_id_def events_of_def tabs)
  have "keys_ok ?db"
    using keys nin id(1) row next_rowid_pos [of "map mr_rowid (maintenance_t db)"] next_rowid_fresh [of _ "map mr_rowid (maintenance_t db)"]
    by (auto simp: keys_ok_def tabs run_unique_def target_unique_def rowids_ok_def image_iff)
  moreover have "refs_ok (log_event ?ev ?db)"
    using refs row by (intro refs_ok_log) (auto simp: refs_ok_def tabs target_keys_def)
  moreover have "locks_ok ?db"
    using refs nin row by (intro locks_ok_mono [OF locks]) (auto simp: tabs active_run_def refs_ok_def)
  moreover have "runs_ok E (log_event ?ev ?db)"
    unfolding runs_ok_def
  proof
    fix x
    assume "x \<in> set (maintenance_t (log_event ?ev ?db))"
    then have "x \<in> set (maintenance_t db) \<or> x = ?row" by (auto simp: tabs)
    then consider "x \<in> set (maintenance_t db)" "mr_id x \<noteq> ?i" | "x = ?row" using nin by (metis image_eqI)
    then show "run_ok E x (capture_by_id (mr_id x) (log_event ?ev ?db)) (rows_of (mr_id x) (log_event ?ev ?db))
        (events_of (mr_id x) (log_event ?ev ?db))"
    proof cases
      case 1
      with runs show ?thesis by (simp add: views runs_ok_def nullText_def)
    next
      case 2
      have "events_of ?i (log_event ?ev ?db) = [logged_row ?ev ?db]" using fresh id(2) by (simp add: views nullText_def)
      moreover have "run_ok E ?row None [] [logged_row ?ev ?db]" using ok args by (intro run_created)
      ultimately show ?thesis using 2 row fresh by (simp only: view_log views)
    qed
  qed
  moreover have "globals_ok (log_event ?ev ?db)"
    using glob id(2) by (intro globals_ok_log) (simp_all add: globals_ok_def tabs)
  ultimately show ?thesis using keys_ok_log unfolding db_inv_def by simp
qed

text \<open>A change of one run and its rows, with its event.\<close>

lemma inv_update:
  assumes inv: "db_inv E db" and r: "maintenance_by_id i db = Some r" "i \<noteq> ''''"
    and m: "maintenance_t db' = map (\<lambda>x. if mr_id x = i then f x else x) (maintenance_t db)"
      "\<And>x. mr_id (f x) = mr_id x \<and> mr_rowid (f x) = mr_rowid x"
    and t: "target_unique db'" "distinct (map cr_maintenance_id (captures_t db'))" "events_t db' = events_t db"
    and others: "\<And>j. j \<noteq> i \<Longrightarrow> rows_of j db' = rows_of j db \<and> capture_by_id j db' = capture_by_id j db"
    and keep: "target_keys db \<subseteq> target_keys db'"
    and ev: "e_MaintenanceID ev = i" "e_TargetID ev = '''' \<or> (i, e_TargetID ev) \<in> target_keys db'" and locks: "locks_ok db'"
    and run: "run_ok E (f r) (capture_by_id i db') (rows_of i db') (events_of i db @ [logged_row ev db'])"
  shows "db_inv E (log_event ev db')"
proof -
  have keys: "keys_ok db" and refs: "refs_ok db" and runs: "runs_ok E db" and glob: "globals_ok db"
    using inv by (simp_all add: db_inv_def)
  have u: "run_unique db" using keys by (simp add: keys_ok_def)
  have rid: "mr_id r = i" "i \<in> mr_id ` set (maintenance_t db)"
    using r(1) u by (auto simp: maintenance_by_id_iff)
  have ids: "mr_id ` set (maintenance_t db') = mr_id ` set (maintenance_t db)" unfolding m(1) by (rule ids_update) (simp add: m(2))
  have "tr_maintenance_id x \<in> mr_id ` set (maintenance_t db)" if "x \<in> set (targets_t db')" for x
  proof (cases "tr_maintenance_id x = i")
    case False
    have "x \<in> set (rows_of (tr_maintenance_id x) db')" using that by (simp add: rows_of_def)
    then have "x \<in> set (rows_of (tr_maintenance_id x) db)" using others [OF False] by simp
    with refs show ?thesis by (auto simp: rows_of_def refs_ok_def)
  qed (use rid in simp)
  moreover have "cr_maintenance_id x \<in> mr_id ` set (maintenance_t db)" if "x \<in> set (captures_t db')" for x
  proof (cases "cr_maintenance_id x = i")
    case False
    have "capture_by_id (cr_maintenance_id x) db' \<noteq> None" using that by (auto simp: capture_by_id_def find_None_iff)
    then have "capture_by_id (cr_maintenance_id x) db \<noteq> None" using others [OF False] by simp
    then have "\<exists>c \<in> set (captures_t db). cr_maintenance_id c = cr_maintenance_id x" by (auto simp: capture_by_id_def find_None_iff)
    with refs show ?thesis unfolding refs_ok_def by metis
  qed (use rid in simp)
  ultimately have "refs_ok db'" using refs t(3) ids keep unfolding refs_ok_def by auto
  moreover have "keys_ok db'" by (rule keys_ok_update [OF keys m t])
  moreover have "globals_ok db'" using glob t(3) by (simp add: globals_ok_def)
  moreover have "runs_ok E (log_event ev db')"
  proof (rule runs_ok_update [OF runs r(1) u])
    show "run_ok E (f r) (capture_by_id i (log_event ev db')) (rows_of i (log_event ev db')) (events_of i (log_event ev db'))"
      using run ev r(2) t(3) by (simp add: nullText_def events_of_def)
  qed (use m rid others ev t(3) in \<open>auto simp: nullText_def events_of_def\<close>)
  ultimately show ?thesis
    using locks ev rid ids keys_ok_log refs_ok_log globals_ok_log r(2) unfolding db_inv_def by simp
qed

lemma active_run_update:
  assumes "active_run db' j" "maintenance_t db' = map (\<lambda>x. if mr_id x = i then f x else x) (maintenance_t db)"
    and "run_unique db" "maintenance_by_id i db = Some r" "mr_id (f r) = i" "lock_released (mr_state r) \<Longrightarrow> lock_released (mr_state (f r))"
  shows "active_run db j"
proof -
  obtain m where m: "m \<in> set (maintenance_t db')" "mr_id m = j" "\<not> lock_released (mr_state m)"
    using assms(1) by (auto simp: active_run_def)
  then obtain x where x: "x \<in> set (maintenance_t db)" "m = (if mr_id x = i then f x else x)"
    unfolding assms(2) by auto
  have "mr_id x = i \<Longrightarrow> x = r" using assms(3,4) x(1) maintenance_by_id_iff [of db i x] by simp
  with x m assms(5,6) show ?thesis unfolding active_run_def by (metis (no_types, lifting))
qed

text \<open>The rows of a capture belong to its run only.\<close>

lemma add_capture_views:
  assumes "c_MaintenanceID c = i"
  shows "rows_of j (add_capture c ts db)
      = rows_of j db @ (if j = i then map (target_row_of i (formatRFC3339Nano (c_CapturedAt c))) ts else [])"
    and "j \<noteq> i \<Longrightarrow> capture_by_id j (add_capture c ts db) = capture_by_id j db"
    and "capture_by_id i db = None \<Longrightarrow> capture_by_id i (add_capture c ts db) = Some \<lparr>cr_maintenance_id = i,
      cr_captured_at = formatRFC3339Nano (c_CapturedAt c), cr_payload_json = c_Payload c, cr_sha256 = c_SHA256 c\<rparr>"
proof -
  have "find P (xs @ ys) = (case find P xs of None \<Rightarrow> find P ys | Some x \<Rightarrow> Some x)" for P :: "capture_row \<Rightarrow> bool" and xs ys
    by (induction xs) auto
  then show "j \<noteq> i \<Longrightarrow> capture_by_id j (add_capture c ts db) = capture_by_id j db"
    "capture_by_id i db = None \<Longrightarrow> capture_by_id i (add_capture c ts db) = Some \<lparr>cr_maintenance_id = i,
      cr_captured_at = formatRFC3339Nano (c_CapturedAt c), cr_payload_json = c_Payload c, cr_sha256 = c_SHA256 c\<rparr>"
    using assms by (auto simp: capture_by_id_def add_capture_def Let_def split: option.split)
  have "filter (\<lambda>r. tr_maintenance_id r = j) (map (target_row_of i st) ts) = (if j = i then map (target_row_of i st) ts else [])" for st
    by (induction ts) (auto simp: target_row_of_def)
  then show "rows_of j (add_capture c ts db)
      = rows_of j db @ (if j = i then map (target_row_of i (formatRFC3339Nano (c_CapturedAt c))) ts else [])"
    using assms by (simp add: rows_of_def add_capture_def Let_def)
qed

lemma set_run_views [simp]:
  "rows_of j (set_run i f db) = rows_of j db" "capture_by_id j (set_run i f db) = capture_by_id j db"
  "targets_t (set_run i f db) = targets_t db" "captures_t (set_run i f db) = captures_t db" "events_t (set_run i f db) = events_t db"
  "maintenance_t (set_run i f db) = map (\<lambda>x. if mr_id x = i then f x else x) (maintenance_t db)"
  "target_unique (set_run i f db) = target_unique db" "target_keys (set_run i f db) = target_keys db"
  by (simp_all add: set_run_def rows_of_def capture_by_id_def target_unique_def target_keys_def)

lemma target_keys_add_capture: "target_keys db \<subseteq> target_keys (add_capture c ts db)"
  by (auto simp: target_keys_def add_capture_def Let_def)

lemma target_keys_member: "target_unique db \<Longrightarrow> target_by_id i ti db = Some t \<Longrightarrow> (i, ti) \<in> target_keys db"
  by (force simp: target_keys_def target_by_id_iff)

lemma locks_ok_capture:
  assumes "locks_ok db" and free: "\<And>t. t \<in> set ts \<Longrightarrow> lock_holders db (ct_LockKey t) = []"
    and act: "\<And>j. active_run db' j \<Longrightarrow> active_run db j" and t: "targets_t db' = targets_t db @ map (target_row_of i stamp) ts"
  shows "locks_ok db'"
proof -
  have free': False if "t \<in> set ts" "x \<in> set (targets_t db)" "tr_lock_key x = ct_LockKey t" "active_run db' (tr_maintenance_id x)" for t x
    using free [OF that(1)] that act lock_holders_active [of x db "ct_LockKey t"] by auto
  show ?thesis unfolding locks_ok_def
  proof (intro ballI impI)
    fix x y
    assume xy: "x \<in> set (targets_t db')" "y \<in> set (targets_t db')" "tr_lock_key x = tr_lock_key y"
      "active_run db' (tr_maintenance_id x)" "active_run db' (tr_maintenance_id y)"
    then consider "x \<in> set (targets_t db)" "y \<in> set (targets_t db)"
      | t where "x \<in> set (targets_t db)" "t \<in> set ts" "y = target_row_of i stamp t"
      | t where "y \<in> set (targets_t db)" "t \<in> set ts" "x = target_row_of i stamp t"
      | t u where "x = target_row_of i stamp t" "y = target_row_of i stamp u"
      unfolding t by auto
    then show "tr_maintenance_id x = tr_maintenance_id y"
    proof cases
      case 1
      with assms(1) act xy show ?thesis unfolding locks_ok_def by metis
    next
      case (3 t)
      with free' [OF 3(2,1)] xy show ?thesis by (simp add: target_row_of_def)
    qed (use free' xy in \<open>auto simp: target_row_of_def\<close>)
  qed
qed

lemma inv_capture:
  assumes inv: "db_inv E db" and ok: "save_ok E m (capture_of E i at payload) ts audit now db"
    and pay: "canonicalJSONObject p0 = Inr payload" "parseCaptureTargets payload = Inr ts"
    and i: "validID i" and E: "env_ok E" "time_ok now"
    and args: "\<forall>t \<in> set ts. observed_ok t" "int (length ts) \<le> max_int64"
  shows "db_inv E (saved_capture E m (capture_of E i at payload) ts audit now db)"
proof -
  have keys: "keys_ok db" and refs: "refs_ok db" and locks: "locks_ok db" and runs: "runs_ok E db"
    using inv by (simp_all add: db_inv_def)
  have u: "run_unique db" "target_unique db" "distinct (map cr_maintenance_id (captures_t db))" using keys by (simp_all add: keys_ok_def)
  let ?c = "capture_of E i at payload"
  let ?f = "\<lambda>r. r\<lparr>mr_state := ''captured'', mr_version := wrap64 (m_Version m + 1), mr_updated_at := formatRFC3339Nano now\<rparr>"
  let ?db = "set_run i ?f (add_capture ?c ts db)" and ?ev = "captured_event E m ?c (length ts) audit now"
  have c: "c_MaintenanceID ?c = i" by (simp add: capture_of_def)
  obtain r where r: "maintenance_by_id i db = Some r" "m = scanMaintenance r" using ok c by (auto simp: save_ok_def)
  have rid: "mr_id r = i" "r \<in> set (maintenance_t db)" "m_Version m = mr_version r" "mr_state r = ''new''"
    using r u(1) ok by (auto simp: maintenance_by_id_iff scanMaintenance_def save_ok_def)
  have cap: "capture_by_id i db = None" "\<And>t. t \<in> set ts \<Longrightarrow> lock_holders db (ct_LockKey t) = []"
    "\<And>t. t \<in> set ts \<Longrightarrow> target_by_id i (ct_TargetID t) db = None" "0 < wrap64 (mr_version r + 1)" "log_ok E ?ev ?db"
    using ok c rid by (auto simp: save_ok_def)
  have mt: "maintenance_t ?db = map (\<lambda>x. if mr_id x = i then ?f x else x) (maintenance_t db)"
    "targets_t ?db = targets_t db @ map (target_row_of i (formatRFC3339Nano at)) ts" "events_t ?db = events_t db"
    "captures_t ?db = captures_t db @ [\<lparr>cr_maintenance_id = i, cr_captured_at = formatRFC3339Nano at, cr_payload_json = payload,
       cr_sha256 = sha256_hex E payload\<rparr>]"
    by (simp_all add: add_capture_def capture_of_def Let_def)
  have act: "active_run db j" if "active_run ?db j" for j
    using active_run_update [OF that mt(1) u(1) r(1)] rid by (simp add: lock_released_def)
  have "db_inv E (log_event ?ev ?db)"
  proof (rule inv_update [OF inv r(1) _ mt(1)])
    show "i \<noteq> ''''" using validID_not_Nil i by simp
    show "target_unique ?db"
      unfolding target_unique_def mt(2) using u(2) cap(3) parseCaptureTargets_Inr(1) [OF pay(2)]
      by (auto simp: target_unique_def comp_def target_row_of_def target_by_id_def find_None_iff distinct_map inj_on_def)
    show "distinct (map cr_maintenance_id (captures_t ?db))"
      unfolding mt(4) using u(3) cap(1) by (auto simp: capture_by_id_def find_None_iff)
    show "locks_ok ?db" using locks cap(2) act mt(2) by (rule locks_ok_capture)
    show "target_keys db \<subseteq> target_keys ?db" using target_keys_add_capture by simp
    have "run_ok E r None (rows_of i db) (events_of i db)" using runs rid(1,2) cap(1) by (auto simp: runs_ok_def)
    moreover have "log_ok E (captured_event E (scanMaintenance r) ?c (length ts) audit now) ?db" using cap(5) r(2) by simp
    ultimately have "run_ok E (?f r) (Some \<lparr>cr_maintenance_id = i, cr_captured_at = formatRFC3339Nano at,
          cr_payload_json = payload, cr_sha256 = sha256_hex E payload\<rparr>)
        (rows_of i db @ map (target_row_of i (formatRFC3339Nano at)) ts) (events_of i db @ [logged_row ?ev ?db])"
      unfolding r(2) rid(3) [unfolded r(2)] using validID_not_Nil [OF i] by (intro run_captured [OF _ rid(4,1) _ pay args E cap(4)])
    then show "run_ok E (?f r) (capture_by_id i ?db) (rows_of i ?db) (events_of i db @ [logged_row ?ev ?db])"
      using add_capture_views(1) [OF c] add_capture_views(3) [OF c cap(1)] by (simp add: capture_of_def)
  qed (use add_capture_views [OF c] c mt in simp_all)
  then show ?thesis by (simp add: saved_capture_def c)
qed

text \<open>The counts in the guards, as views of one run.\<close>

lemma capture_count_view:
  assumes "distinct (map cr_maintenance_id (captures_t db))"
  shows "capture_count i db = (if capture_by_id i db = None then 0 else 1)"
proof -
  have "length (filter (\<lambda>r. cr_maintenance_id r = i) cs) = (if find (\<lambda>r. cr_maintenance_id r = i) cs = None then 0 else 1)"
    if "distinct (map cr_maintenance_id cs)" for cs
    using that
  proof (induction cs)
    case (Cons a cs)
    show ?case
    proof (cases "cr_maintenance_id a = i")
      case True
      with Cons.prems show ?thesis by (auto simp: filter_empty_conv image_iff)
    qed (use Cons in simp)
  qed simp
  from this [OF assms] show ?thesis by (simp only: capture_count_def capture_by_id_def)
qed

lemma exercised_count_view: "exercised_count i db = 0 \<longleftrightarrow> \<not> exercised (events_of i db)"
  by (auto simp: exercised_count_def exercised_def events_of_def filter_empty_conv list_ex_iff)

lemma unresolved_count_view: "unresolved_count i db = 0 \<longleftrightarrow> (\<forall>t \<in> set (rows_of i db). \<not> unresolved t)"
  by (auto simp: unresolved_count_def rows_of_def filter_empty_conv)

lemma target_rows_view: "set (target_rows i db) = set (rows_of i db)"
  by (simp add: target_rows_def rows_of_def)

lemma transition_allowed_view:
  assumes "transition_allowed (scanMaintenance r) change audit db" "mr_id r = i" "distinct (map cr_maintenance_id (captures_t db))"
  shows "move_ok r (capture_by_id i db \<noteq> None) (rows_of i db) (events_of i db) change audit"
proof -
  have m: "m_ID (scanMaintenance r) = i" "m_State (scanMaintenance r) = mr_state r"
    using assms(2) by (simp_all add: scanMaintenance_def)
  have "target_rows i db \<noteq> [] \<longleftrightarrow> rows_of i db \<noteq> []" using target_rows_view by (metis set_empty2)
  with assms(1) show ?thesis
    unfolding transition_allowed_def move_ok_def reopen_allowed_def completion_allowed_def m
      capture_count_view [OF assms(3)] exercised_count_view unresolved_count_view target_rows_view
    by (cases "mr_state r = ''failed''"; cases "capture_by_id i db") simp_all
qed

lemma released_terminal: "lock_released st \<Longrightarrow> IsMaintenanceTerminal st \<and> st \<noteq> ''failed''"
  by (auto simp: lock_released_def IsMaintenanceTerminal_def)

lemma bump_row_ids [simp]: "tr_maintenance_id (bump_row u t) = tr_maintenance_id t" "tr_id (bump_row u t) = tr_id t"
  by (simp_all add: bump_row_def)

lemma target_keys_map:
  assumes "targets_t db' = map g (targets_t db)" "\<And>r. tr_maintenance_id (g r) = tr_maintenance_id r \<and> tr_id (g r) = tr_id r"
  shows "target_keys db' = target_keys db"
  using assms(2) by (simp add: target_keys_def assms(1) image_image)

lemma bump_targets_keys [simp]: "target_keys (bump_targets i u db) = target_keys db"
  by (rule target_keys_map [where g = "\<lambda>r. if tr_maintenance_id r = i then bump_row u r else r"])
    (simp_all add: bump_targets_def bump_row_def)

lemma set_target_keys [simp]:
  "target_keys (set_target i ti (\<lambda>r. r\<lparr>tr_state := st, tr_version := v, tr_updated_at := u\<rparr>) db) = target_keys db"
  by (rule target_keys_map [where g = "\<lambda>r. if tr_maintenance_id r = i then move_row ti st v u r else r"])
    (simp_all add: set_target_def move_row_def)

lemma bump_targets_views:
  "rows_of j (bump_targets i u db) = (if j = i then map (bump_row u) (rows_of j db) else rows_of j db)"
  "target_unique (bump_targets i u db) = target_unique db" "capture_by_id j (bump_targets i u db) = capture_by_id j db"
  "captures_t (bump_targets i u db) = captures_t db" "events_t (bump_targets i u db) = events_t db"
  "maintenance_t (bump_targets i u db) = maintenance_t db"
  "t \<in> set (targets_t (bump_targets i u db)) \<Longrightarrow> \<exists>s \<in> set (targets_t db). tr_lock_key s = tr_lock_key t \<and> tr_maintenance_id s = tr_maintenance_id t"
proof -
  have t: "targets_t (bump_targets i u db) = map (\<lambda>r. if tr_maintenance_id r = i then bump_row u r else r) (targets_t db)"
    by (simp add: bump_targets_def bump_row_def)
  have "filter (\<lambda>r. tr_maintenance_id r = j) (map (\<lambda>r. if tr_maintenance_id r = i then bump_row u r else r) ts)
      = (if j = i then map (bump_row u) (filter (\<lambda>r. tr_maintenance_id r = j) ts) else filter (\<lambda>r. tr_maintenance_id r = j) ts)" for ts
    by (induction ts) auto
  then show "rows_of j (bump_targets i u db) = (if j = i then map (bump_row u) (rows_of j db) else rows_of j db)"
    unfolding rows_of_def t .
  have "map (\<lambda>r. (tr_maintenance_id r, tr_id r)) (map (\<lambda>r. if tr_maintenance_id r = i then bump_row u r else r) ts)
      = map (\<lambda>r. (tr_maintenance_id r, tr_id r)) ts" for ts by simp
  then show "target_unique (bump_targets i u db) = target_unique db" unfolding target_unique_def t by (simp only:)
qed (auto simp: bump_targets_def capture_by_id_def)

lemma inv_transition:
  assumes inv: "db_inv E db" and r: "maintenance_by_id i db = Some r"
    and al: "transition_allowed (scanMaintenance r) change audit db" and v: "0 < wrap64 (mr_version r + 1)"
    and pay: "eventPayload d (TrimSpace (sc_Justification change)) = Inr payload"
    and log: "log_ok E (transition_event (scanMaintenance r) (sc_State change) payload audit now)
       (moved_run (scanMaintenance r) (sc_State change) now db)"
    and args: "time_ok now" "valid_utf8 (sc_Justification change)"
  shows "db_inv E (log_event (transition_event (scanMaintenance r) (sc_State change) payload audit now)
    (moved_run (scanMaintenance r) (sc_State change) now db))" (is "db_inv E (log_event ?ev ?db)")
proof -
  have keys: "keys_ok db" and locks: "locks_ok db" and runs: "runs_ok E db"
    using inv by (simp_all add: db_inv_def)
  have u: "run_unique db" "target_unique db" "distinct (map cr_maintenance_id (captures_t db))" using keys by (simp_all add: keys_ok_def)
  have rid: "mr_id r = i" "r \<in> set (maintenance_t db)" using r u(1) by (auto simp: maintenance_by_id_iff)
  have i: "i \<noteq> ''''" using keys rid validID_not_Nil by (auto simp: keys_ok_def)
  have m: "m_ID (scanMaintenance r) = i" "m_Version (scanMaintenance r) = mr_version r"
    using rid by (simp_all add: scanMaintenance_def)
  let ?f = "\<lambda>r'. r'\<lparr>mr_state := sc_State change, mr_version := wrap64 (mr_version r + 1), mr_updated_at := formatRFC3339Nano now\<rparr>"
  let ?b = "if capture_by_id i db \<noteq> None then bump_targets i (formatRFC3339Nano now) db else db"
  have db: "?db = set_run i ?f ?b" by (simp add: moved_run_def m capture_count_view [OF u(3)])
  have mt: "maintenance_t ?db = map (\<lambda>x. if mr_id x = i then ?f x else x) (maintenance_t db)"
    by (simp add: db bump_targets_views)
  note mv = transition_allowed_view [OF al rid(1) u(3)]
  have act: "active_run db j" if "active_run ?db j" for j
  proof (rule active_run_update [OF that mt u(1) r])
    show "lock_released (mr_state r) \<Longrightarrow> lock_released (mr_state (?f r))"
      using mv released_terminal [of "mr_state r"] by (simp add: move_ok_def)
  qed (simp add: rid)
  have run: "run_ok E (?f r) (capture_by_id i db) (if capture_by_id i db \<noteq> None then map (bump_row (formatRFC3339Nano now)) (rows_of i db) else rows_of i db)
      (events_of i db @ [logged_row ?ev ?db])"
    using runs rid i by (intro run_moved [OF _ _ mv args(1) v args(2) pay log]) (auto simp: runs_ok_def)
  have views: "capture_by_id j ?db = capture_by_id j db" "rows_of i ?db = (if capture_by_id i db \<noteq> None
      then map (bump_row (formatRFC3339Nano now)) (rows_of i db) else rows_of i db)" "j \<noteq> i \<Longrightarrow> rows_of j ?db = rows_of j db" for j
    by (simp_all add: db bump_targets_views)
  show ?thesis
  proof (rule inv_update [OF inv r i mt])
    show "run_ok E (?f r) (capture_by_id i ?db) (rows_of i ?db) (events_of i db @ [logged_row ?ev ?db])"
      using run by (simp only: views)
    show "locks_ok ?db"
      by (rule locks_ok_mono [OF locks act]) (use bump_targets_views(7) in \<open>auto simp: db split: if_splits\<close>)
  qed (use views m u in \<open>simp_all add: db bump_targets_views\<close>)
qed

lemma set_target_views:
  "rows_of j (set_target i ti (\<lambda>r. r\<lparr>tr_state := st, tr_version := v, tr_updated_at := u\<rparr>) db)
     = (if j = i then map (move_row ti st v u) (rows_of j db) else rows_of j db)"
  "target_unique (set_target i ti (\<lambda>r. r\<lparr>tr_state := st, tr_version := v, tr_updated_at := u\<rparr>) db) = target_unique db"
  "capture_by_id j (set_target i ti f db) = capture_by_id j db" "captures_t (set_target i ti f db) = captures_t db"
  "events_t (set_target i ti f db) = events_t db" "maintenance_t (set_target i ti f db) = maintenance_t db"
  "t \<in> set (targets_t (set_target i ti (\<lambda>r. r\<lparr>tr_state := st, tr_version := v, tr_updated_at := u\<rparr>) db))
     \<Longrightarrow> \<exists>s \<in> set (targets_t db). tr_lock_key s = tr_lock_key t \<and> tr_maintenance_id s = tr_maintenance_id t"
proof -
  let ?g = "\<lambda>r. if tr_maintenance_id r = i then move_row ti st v u r else r"
  let ?db = "set_target i ti (\<lambda>r. r\<lparr>tr_state := st, tr_version := v, tr_updated_at := u\<rparr>) db"
  have t: "targets_t ?db = map ?g (targets_t db)"
    by (simp add: set_target_def move_row_def)
  have g: "tr_maintenance_id (move_row ti st v u r) = tr_maintenance_id r" for r by (simp add: move_row_def)
  have "filter (\<lambda>r. tr_maintenance_id r = j) (map ?g ts)
      = (if j = i then map (move_row ti st v u) (filter (\<lambda>r. tr_maintenance_id r = j) ts) else filter (\<lambda>r. tr_maintenance_id r = j) ts)" for ts
    by (induction ts) (auto simp: g)
  then show "rows_of j ?db = (if j = i then map (move_row ti st v u) (rows_of j db) else rows_of j db)" unfolding rows_of_def t .
  have "map (\<lambda>r. (tr_maintenance_id r, tr_id r)) (map ?g ts) = map (\<lambda>r. (tr_maintenance_id r, tr_id r)) ts" for ts
    by (simp add: g move_row_simps)
  then show "target_unique ?db = target_unique db" unfolding target_unique_def t by (simp only:)
qed (auto simp: set_target_def capture_by_id_def)

lemma target_view: "target_by_id i ti db = row_by_id ti (rows_of i db)"
proof -
  have "find (\<lambda>r. tr_maintenance_id r = i \<and> tr_id r = ti) ts = find (\<lambda>r. tr_id r = ti) (filter (\<lambda>r. tr_maintenance_id r = i) ts)" for ts
    by (induction ts) auto
  then show ?thesis by (simp add: target_by_id_def row_by_id_def rows_of_def)
qed

lemma inv_target:
  assumes inv: "db_inv E db" and r: "maintenance_by_id i db = Some r" "target_by_id i ti db = Some t" "validID ti"
    and al: "target_allowed (scanMaintenance r) (scanTarget t) change audit" and v: "0 < wrap64 (mr_version r + 1)"
    and pay: "eventPayload d (TrimSpace (sc_Justification change)) = Inr payload"
    and log: "log_ok E (target_event (scanMaintenance r) (scanTarget t) (sc_State change) payload audit now)
       (moved_target (scanMaintenance r) (scanTarget t) (sc_State change) now db)"
    and args: "time_ok now" "valid_utf8 (sc_Justification change)"
  shows "db_inv E (log_event (target_event (scanMaintenance r) (scanTarget t) (sc_State change) payload audit now)
    (moved_target (scanMaintenance r) (scanTarget t) (sc_State change) now db))" (is "db_inv E (log_event ?ev ?db)")
proof -
  have keys: "keys_ok db" and locks: "locks_ok db" and runs: "runs_ok E db"
    using inv by (simp_all add: db_inv_def)
  have u: "run_unique db" "target_unique db" "distinct (map cr_maintenance_id (captures_t db))" using keys by (simp_all add: keys_ok_def)
  have rid: "mr_id r = i" "r \<in> set (maintenance_t db)" "tr_id t = ti" using r u by (auto simp: maintenance_by_id_iff target_by_id_iff)
  have i: "i \<noteq> ''''" "ti \<noteq> ''''" using keys rid r(3) validID_not_Nil by (auto simp: keys_ok_def)
  have m: "m_ID (scanMaintenance r) = i" "m_Version (scanMaintenance r) = mr_version r" "t_ID (scanTarget t) = ti" "t_Version (scanTarget t) = tr_version t"
    using rid by (simp_all add: scanMaintenance_def scanTarget_def)
  let ?f = "\<lambda>r'. r'\<lparr>mr_version := wrap64 (mr_version r + 1), mr_updated_at := formatRFC3339Nano now\<rparr>"
  let ?u = "formatRFC3339Nano now"
  let ?g = "\<lambda>t'. t'\<lparr>tr_state := sc_State change, tr_version := wrap64 (tr_version t + 1), tr_updated_at := ?u\<rparr>"
  have db: "?db = set_run i ?f (set_target i ti ?g db)" by (simp add: moved_target_def m)
  have mt: "maintenance_t ?db = map (\<lambda>x. if mr_id x = i then ?f x else x) (maintenance_t db)"
    by (simp add: db set_target_views)
  have act: "active_run db j" if "active_run ?db j" for j
    by (rule active_run_update [OF that mt u(1) r(1)]) (simp_all add: rid)
  have run: "run_ok E (?f r) (capture_by_id i db) (map (move_row ti (sc_State change) (wrap64 (tr_version t + 1)) ?u) (rows_of i db))
      (events_of i db @ [logged_row ?ev ?db])"
    using runs rid i r(2) by (intro run_target [OF _ _ _ _ al args(1) v args(2) pay log]) (auto simp: runs_ok_def target_view)
  have views: "capture_by_id j ?db = capture_by_id j db" "rows_of i ?db = map (move_row ti (sc_State change) (wrap64 (tr_version t + 1)) ?u) (rows_of i db)"
    "j \<noteq> i \<Longrightarrow> rows_of j ?db = rows_of j db" for j
    by (simp_all add: db set_target_views)
  show ?thesis
  proof (rule inv_update [OF inv r(1) i(1) mt])
    show "run_ok E (?f r) (capture_by_id i ?db) (rows_of i ?db) (events_of i db @ [logged_row ?ev ?db])"
      using run by (simp only: views)
    show "locks_ok ?db"
      by (rule locks_ok_mono [OF locks act]) (use set_target_views(7) in \<open>auto simp: db\<close>)
  qed (use views m u target_keys_member [OF u(2) r(2)] in \<open>simp_all add: db set_target_views\<close>)
qed

lemma inv_observe:
  assumes inv: "db_inv E db" and r: "maintenance_by_id i db = Some r" "target_by_id i ti db = Some t" "validID ti"
    and act: "\<not> IsMaintenanceTerminal (mr_state r)" and pay: "canonicalJSONObject p0 = Inr payload"
    and log: "log_ok E (observed_event i ti payload audit now) db" and now: "time_ok now"
  shows "db_inv E (log_event (observed_event i ti payload audit now) db)"
proof -
  have keys: "keys_ok db" and runs: "runs_ok E db" and locks: "locks_ok db" using inv by (simp_all add: db_inv_def)
  have u: "run_unique db" "target_unique db" "distinct (map cr_maintenance_id (captures_t db))" using keys by (simp_all add: keys_ok_def)
  have rid: "mr_id r = i" "r \<in> set (maintenance_t db)" using r(1) u(1) by (auto simp: maintenance_by_id_iff)
  have i: "i \<noteq> ''''" "ti \<noteq> ''''" using keys rid r(3) validID_not_Nil by (auto simp: keys_ok_def)
  have "run_ok E r (capture_by_id i db) (rows_of i db) (events_of i db @ [logged_row (observed_event i ti payload audit now) db])"
    using run_observed [OF _ _ i(2) _ act now pay] log runs rid i r(2) by (auto simp: runs_ok_def target_view)
  then show ?thesis
    using u locks target_keys_member [OF u(2) r(2)] by (intro inv_update [OF inv r(1) i(1), where f = "\<lambda>x. x"]) simp_all
qed

section \<open>Operations keep the invariant\<close>

text \<open>Arguments as the HTTP layer passes them: decoded strings are UTF-8, and instants have a text form.\<close>

definition create_args :: "Maintenance \<Rightarrow> bool" where
  "create_args m \<longleftrightarrow> valid_utf8 (m_ChangeTicket m) \<and> valid_utf8 (m_WorkflowVersion m)"

definition capture_args :: "Capture \<Rightarrow> bool" where
  "capture_args c \<longleftrightarrow>
    (case canonicalJSONObject (c_Payload c) of Inl _ \<Rightarrow> True
     | Inr payload \<Rightarrow> (case parseCaptureTargets payload of Inl _ \<Rightarrow> True
         | Inr ts \<Rightarrow> list_all observed_ok ts \<and> int (length ts) \<le> max_int64))"

definition change_args :: "StateChange \<Rightarrow> bool" where
  "change_args change \<longleftrightarrow> valid_utf8 (sc_Justification change)"

lemma bindT_Inl:
  "bindT m f s = (Inl e, s') \<longleftrightarrow> m s = (Inl e, s') \<or> (\<exists>x s1. m s = (Inr x, s1) \<and> f x s1 = (Inl e, s'))"
  by (auto simp: bindT_def split: prod.splits sum.splits)

lemma step_Inl [simp]:
  "throwT e s = (Inl e', s') \<longleftrightarrow> e' = e \<and> s' = s" "returnT x s \<noteq> (Inl e', s')" "nowT E s \<noteq> (Inl e', s')"
  "liftT r s = (Inl e', s') \<longleftrightarrow> r = Inl e' \<and> s' = s"
  by (auto simp: throwT_def returnT_def nowT_def liftT_def)

lemma CreateMaintenance_Inl: "CreateMaintenance E m audit s = (Inl e, s') \<Longrightarrow> s_db s' = s_db s"
  by (auto simp: CreateMaintenance_def Let_def bindT_Inl nowT_Inr dest: writeT_Inl_db split: if_splits sum.splits)

lemma CaptureMaintenance_Inl: "CaptureMaintenance E i c audit s = (Inl e, s') \<Longrightarrow> s_db s' = s_db s"
  by (auto simp: CaptureMaintenance_def bindT_Inl nowT_Inr returnT_Inr dest: writeT_Inl_db split: if_splits sum.splits)

lemma TransitionMaintenance_Inl: "TransitionMaintenance E i change pre audit s = (Inl e, s') \<Longrightarrow> s_db s' = s_db s"
  by (auto simp: TransitionMaintenance_def bindT_Inl liftT_Inr dest: writeT_Inl_db split: if_splits sum.splits)

lemma TransitionTarget_Inl: "TransitionTarget E i ti change pre audit s = (Inl e, s') \<Longrightarrow> s_db s' = s_db s"
  by (auto simp: TransitionTarget_def bindT_Inl liftT_Inr dest: writeT_Inl_db split: if_splits sum.splits)

lemma AddObservation_Inl: "AddObservation E i ti payload pre audit s = (Inl e, s') \<Longrightarrow> s_db s' = s_db s"
  by (auto simp: AddObservation_def dest: writeT_Inl_db split: if_splits sum.splits)

lemmas op_errors = CreateMaintenance_Inl CaptureMaintenance_Inl TransitionMaintenance_Inl TransitionTarget_Inl AddObservation_Inl

lemma db_inv_unique: "db_inv E db \<Longrightarrow> run_unique db" "db_inv E db \<Longrightarrow> target_unique db"
  by (simp_all add: db_inv_def keys_ok_def)

lemma keep_create:
  assumes "CreateMaintenance E m audit s = (res, s')" "db_inv E (s_db s)" "env_ok E" "create_args m"
  shows "db_inv E (s_db s')"
proof (cases res)
  case (Inr x)
  note c = CreateMaintenance_Inr [OF assms(1) [unfolded Inr]]
  show ?thesis unfolding c(7)
    using assms(3,4) c(2,4,5) by (intro inv_create [OF assms(2) c(1,6)]) (simp_all add: create_args_def env_ok_def)
qed (use assms op_errors(1) in auto)

lemma keep_capture:
  assumes "CaptureMaintenance E i c audit s = (res, s')" "db_inv E (s_db s)" "env_ok E" "capture_args c"
  shows "db_inv E (s_db s')"
proof (cases res)
  case (Inr x)
  show ?thesis using assms(1) [unfolded Inr] db_inv_unique(1) [OF assms(2)]
  proof (cases rule: CaptureMaintenance_Inr)
    case (saved payload targets at m now n k)
    show ?thesis unfolding saved(7)
      using assms(3,4) saved(2,3,5)
      by (intro inv_capture [OF assms(2) saved(6,2,3,1) assms(3)]) (simp_all add: capture_args_def env_ok_def list_all_iff)
  qed (use assms(2) in simp)
qed (use assms op_errors(2) in auto)

lemma keep_transition:
  assumes "TransitionMaintenance E i change pre audit s = (res, s')" "db_inv E (s_db s)" "env_ok E" "change_args change"
  shows "db_inv E (s_db s')"
proof (cases res)
  case (Inr x)
  show ?thesis using assms(1) [unfolded Inr] db_inv_unique(1) [OF assms(2)]
  proof (cases rule: TransitionMaintenance_Inr)
    case (1 r payload now n)
    show ?thesis unfolding 1(8)
      using assms(3,4) 1(2) by (intro inv_transition [OF assms(2) 1(1,5,6,3,7)]) (simp_all add: change_args_def env_ok_def)
  qed
qed (use assms op_errors(3) in auto)

lemma keep_target:
  assumes "TransitionTarget E i ti change pre audit s = (res, s')" "db_inv E (s_db s)" "env_ok E" "change_args change"
  shows "db_inv E (s_db s')"
proof (cases res)
  case (Inr x)
  show ?thesis using assms(1) [unfolded Inr] db_inv_unique [OF assms(2)]
  proof (cases rule: TransitionTarget_Inr)
    case (1 r tr payload now n)
    show ?thesis unfolding 1(11)
      using assms(3,4) 1(3) by (intro inv_target [OF assms(2) 1(1,2,9,6,7,4,10)]) (simp_all add: change_args_def env_ok_def)
  qed
qed (use assms op_errors(4) in auto)

lemma keep_observe:
  assumes "AddObservation E i ti payload pre audit s = (res, s')" "db_inv E (s_db s)" "env_ok E"
  shows "db_inv E (s_db s')"
proof (cases res)
  case (Inr x)
  show ?thesis using assms(1) [unfolded Inr]
  proof (cases rule: AddObservation_Inr)
    case (added canonical r tr now n)
    show ?thesis unfolding added(12)
      using assms(3) added(10) by (intro inv_observe [OF assms(2) added(6,7,2,8,3,11)]) (simp add: env_ok_def)
  qed (use assms(2) in simp)
qed (use assms op_errors(5) in auto)

end
