(* ===== verification/Accepts.thy ===== *)
theory Accepts
  imports Preserve
begin

text \<open>
  What \<open>verifyApplicationData\<close> means: it accepts every database that satisfies the invariant, and
  it accepts only databases whose locks are exclusive and whose runs are the replay of their events.
\<close>

section \<open>Locks\<close>

lemma active_targets_iff: "t \<in> set (active_targets db) \<longleftrightarrow> t \<in> set (targets_t db) \<and> active_run db (tr_maintenance_id t)"
  by (auto simp: active_targets_def active_run_def list_ex_iff)

lemma lock_holders_agree:
  assumes "locks_ok db" "x \<in> set (lock_holders db key)" "y \<in> set (lock_holders db key)"
  shows "tr_maintenance_id x = tr_maintenance_id y"
proof -
  have "x \<in> set (targets_t db)" "active_run db (tr_maintenance_id x)" "y \<in> set (targets_t db)" "active_run db (tr_maintenance_id y)"
    "tr_lock_key x = tr_lock_key y"
    using assms(2,3) lock_holders_active by metis+
  with assms(1) show ?thesis unfolding locks_ok_def by blast
qed

lemma classes_agree:
  "(\<forall>s \<in> A. \<forall>t \<in> A. f s = f t \<longrightarrow> g s = g t)
    \<longleftrightarrow> (\<forall>k \<in> f ` A. \<not> (\<exists>x \<in> g ` {t \<in> A. f t = k}. \<exists>y \<in> g ` {t \<in> A. f t = k}. x \<noteq> y))"
  by (simp add: image_def) metis

lemma lock_overlaps_0: "lock_overlaps db = 0 \<longleftrightarrow> locks_ok db"
proof -
  have one: "length (remdups xs) > 1 \<longleftrightarrow> (\<exists>x \<in> set xs. \<exists>y \<in> set xs. x \<noteq> y)" for xs :: "string list"
  proof -
    have "length (remdups xs) = card (set xs)" by (rule length_remdups_card_conv)
    moreover have "card (set xs) \<le> 1 \<longleftrightarrow> (\<forall>x \<in> set xs. \<forall>y \<in> set xs. x = y)"
      using card_le_Suc0_iff_eq [of "set xs"] by auto
    ultimately show ?thesis by (metis not_le)
  qed
  have "lock_overlaps db = 0 \<longleftrightarrow> (\<forall>k \<in> set (map tr_lock_key (active_targets db)).
      \<not> length (remdups (map tr_maintenance_id (filter (\<lambda>t. tr_lock_key t = k) (active_targets db)))) > 1)"
    by (auto simp: lock_overlaps_def filter_empty_conv)
  also have "\<dots> \<longleftrightarrow> locks_ok db"
  proof -
    let ?A = "set (active_targets db)"
    have "locks_ok db \<longleftrightarrow> (\<forall>s \<in> ?A. \<forall>t \<in> ?A. tr_lock_key s = tr_lock_key t \<longrightarrow> tr_maintenance_id s = tr_maintenance_id t)"
      unfolding locks_ok_def Ball_def active_targets_iff by meson
    also have "\<dots> \<longleftrightarrow> (\<forall>k \<in> tr_lock_key ` ?A. \<not> (\<exists>x \<in> tr_maintenance_id ` {t \<in> ?A. tr_lock_key t = k}.
        \<exists>y \<in> tr_maintenance_id ` {t \<in> ?A. tr_lock_key t = k}. x \<noteq> y))"
      by (rule classes_agree)
    finally show ?thesis unfolding one by (simp only: set_map set_filter)
  qed
  finally show ?thesis .
qed

section \<open>One run\<close>

lemma run_events_view:
  assumes "keys_ok db"
  shows "run_events i db = events_of i db"
proof -
  have "sorted_wrt (<) (map er_journal_id (events_t db))" using assms by (simp add: keys_ok_def)
  then have "sorted (map er_journal_id (events_of i db))"
    unfolding events_of_def by (simp add: sorted_wrt_map sorted_map sorted_wrt_filter sorted_wrt_mono_rel [of _ "\<lambda>x y. er_journal_id x < er_journal_id y"])
  then show ?thesis by (simp add: run_events_def events_of_def sort_key_id_if_sorted)
qed

lemma replay_matches_run:
  assumes "replay_rel rp c ct r rows evs" "evs \<noteq> []"
  shows "replay_matches (length evs) rp (scanMaintenance r) c"
  using assms by (auto simp: replay_matches_def replay_rel_def scanMaintenance_def same_identity_def)

lemma replay_targets_length:
  assumes "replay_rel rp c ct r rows evs" "distinct (map tr_id rows)"
  shows "length (rm_targets rp) = length rows" "length rows = length ct"
proof -
  note rel = assms(1) [unfolded replay_rel_def]
  have "fst ` set (rm_targets rp) = dom (map_of (rm_targets rp))" by (simp add: dom_map_of_conv_image_fst)
  also have "\<dots> = {k. row_by_id k rows \<noteq> None}" using rel by (auto simp: dom_def)
  also have "\<dots> = set (map tr_id rows)"
    using find_id [OF assms(2)] by (auto dest: row_by_id_Some)
  finally have "card (set (map fst (rm_targets rp))) = card (set (map tr_id rows))" by simp
  then show "length (rm_targets rp) = length rows"
    using rel assms(2) by (metis distinct_card length_map)
  show "length rows = length ct" using rel list_all2_lengthD by blast
qed

lemma target_matches_row:
  assumes rel: "replay_rel rp c ct r rows evs" and d: "distinct (map tr_id rows)" and t: "t \<in> set rows"
  shows "target_matches ct rp (scanTarget t)"
proof -
  have all2: "list_all2 capture_rel rows ct" using rel by (simp add: replay_rel_def)
  have ids: "map ct_TargetID ct = map tr_id rows"
    using all2 by (induction rule: list_all2_induct) (auto simp: capture_rel_def)
  obtain x where x: "x \<in> set ct" "capture_rel t x" 
    using all2 t by (induction rule: list_all2_induct) auto
  have "distinct (map fst (rev (map (\<lambda>c. (ct_TargetID c, c)) ct)))"
    using ids d by (simp add: comp_def flip: rev_map)
  then have "map_of (rev (map (\<lambda>c. (ct_TargetID c, c)) ct)) (tr_id t) = Some x"
    using x by (subst map_of_eq_Some_iff) (auto simp: capture_rel_def)
  moreover have "map_of (rm_targets rp) (tr_id t) = Some (row_abs t)"
    using rel find_id [OF d t] by (simp add: replay_rel_def)
  ultimately show ?thesis
    using x(2) by (auto simp: target_matches_def scanTarget_def capture_rel_def row_abs_def sameTime_def split: option.split)
qed

text \<open>A query of a session without faults.\<close>

lemma queryT_ok: "\<not> fault E (s_ticks s) \<Longrightarrow> queryT E q s = (Inr (q (s_db s)), tick s)"
  by (simp add: queryT_def)

lemma bindT_run: "m s = (Inr x, s1) \<Longrightarrow> bindT m f s = f x s1"
  by (simp add: bindT_def)

lemma verify_run:
  assumes inv: "db_inv E (s_db s)" and i: "i \<in> mr_id ` set (maintenance_t (s_db s))" and E: "\<And>n. \<not> fault E n"
  shows "\<exists>s'. verifyMaintenanceReplay E i s = (Inr (), s') \<and> s_db s' = s_db s"
proof -
  let ?db = "s_db s"
  have keys: "keys_ok ?db" and runs: "runs_ok E ?db" using inv by (simp_all add: db_inv_def)
  then have u: "run_unique ?db" by (simp add: keys_ok_def)
  obtain r where r: "r \<in> set (maintenance_t ?db)" "mr_id r = i" using i by auto
  then have m: "maintenance_by_id i ?db = Some r" using maintenance_by_id_iff [OF u] by simp
  obtain ct h c rp where load: "loadCaptureForVerify E i (capture_by_id i ?db) = Inr (ct, h, c)"
    and rp: "replay_events ct h c (map scanEvent (events_of i ?db)) zero_replay = Inr rp"
    and rel: "replay_rel rp c ct r (rows_of i ?db) (events_of i ?db)"
    and d: "distinct (map tr_id (rows_of i ?db))" and e: "events_of i ?db \<noteq> []"
    using runs r by (auto simp: runs_ok_def run_ok_def)
  have len: "length (target_rows i ?db) = length (rows_of i ?db)" by (simp add: target_rows_def rows_of_def)
  have "find (\<lambda>t. \<not> target_matches ct rp t) (map scanTarget (target_rows i ?db)) = None"
    using target_matches_row [OF rel d] by (auto simp: find_None_iff target_rows_view)
  then show ?thesis
    using replay_matches_run [OF rel e] replay_targets_length [OF rel d] len m load rp
    by (simp add: verifyMaintenanceReplay_def bindT_def queryT_def E liftT_def listTargets_def returnT_def Let_def
        run_events_view [OF keys])
qed

lemma verify_all_runs:
  assumes "db_inv E (s_db s)" "set is \<subseteq> mr_id ` set (maintenance_t (s_db s))" "\<And>n. \<not> fault E n"
  shows "\<exists>s'. verify_runs E is s = (Inr (), s') \<and> s_db s' = s_db s"
  using assms(1,2)
proof (induction "is" arbitrary: s)
  case (Cons i "is")
  obtain s1 where s1: "verifyMaintenanceReplay E i s = (Inr (), s1)" "s_db s1 = s_db s"
    using verify_run [OF Cons.prems(1) _ assms(3)] Cons.prems(2) by auto
  obtain s2 where "verify_runs E is s1 = (Inr (), s2)" "s_db s2 = s_db s1"
    using Cons.IH [of s1] Cons.prems s1(2) by auto
  with s1 show ?case by (simp add: bindT_def)
qed (simp add: returnT_def)

lemma check_all_Inr: "check_all f xs = Inr () \<longleftrightarrow> (\<forall>x \<in> set xs. f x = Inr ())"
  by (induction xs) (auto split: sum.split)

lemma db_inv_verifies:
  assumes inv: "db_inv E (s_db s)" and E: "\<And>n. \<not> fault E n" and sch: "required_schema sch"
  shows "fst (verifyApplicationData E sch s) = Inr ()"
proof -
  let ?db = "s_db s"
  obtain s0 where s0: "verifyRequiredSchema E sch s = (Inr (), s0)" "s_db s0 = ?db" using verifyRequiredSchema_ok [OF sch] E by blast
  have "lock_overlaps ?db = 0" using inv by (simp add: lock_overlaps_0 db_inv_def)
  then have 1: "verifyLockExclusivity E s0 = (Inr (), tick s0)"
    by (simp add: verifyLockExclusivity_def bindT_def queryT_def E returnT_def s0(2))
  obtain s1 where s1: "verify_runs E (sort (map mr_id (maintenance_t ?db))) (tick (tick s0)) = (Inr (), s1)" "s_db s1 = ?db"
    using verify_all_runs [of E "tick (tick s0)" "sort (map mr_id (maintenance_t ?db))"] inv E s0(2) by auto
  have "check_all check_global_event (map scanEvent (global_events ?db)) = Inr ()"
    using inv by (auto simp: check_all_Inr db_inv_def globals_ok_def global_events_def)
  with 1 s1 s0 show ?thesis
    by (simp add: verifyApplicationData_def bindT_def liftT_def queryT_def E verifyGlobalEvents_def)
qed

text \<open>The invariant does not depend on the fault oracle.\<close>

lemma db_inv_fault: "db_inv (E\<lparr>fault := f\<rparr>) db = db_inv E db"
proof -
  have sha: "sha256_hex (E\<lparr>fault := f\<rparr>) = sha256_hex E" by simp
  have "loadCaptureForVerify (E\<lparr>fault := f\<rparr>) = loadCaptureForVerify E"
    unfolding loadCaptureForVerify_def fun_eq_iff sha by (intro allI refl)
  then show ?thesis unfolding db_inv_def runs_ok_def run_ok_def by (simp only:)
qed

section \<open>What acceptance means\<close>

lemma verifyMaintenanceReplay_Inr:
  assumes "verifyMaintenanceReplay E i s = (Inr u, s')"
  obtains r ct h c rp where "maintenance_by_id i (s_db s) = Some r" "loadCaptureForVerify E i (capture_by_id i (s_db s)) = Inr (ct, h, c)"
    "replay_events ct h c (map scanEvent (run_events i (s_db s))) zero_replay = Inr rp"
    "replay_matches (length (run_events i (s_db s))) rp (scanMaintenance r) c"
    "\<forall>t \<in> set (target_rows i (s_db s)). target_matches ct rp (scanTarget t)" "s_db s' = s_db s"
  using assms unfolding verifyMaintenanceReplay_def listTargets_def
  by (auto simp: tx_simps Let_def find_None_iff split: option.splits if_splits prod.splits)

lemma verify_runs_Inr:
  assumes "verify_runs E is s = (Inr u, s')"
  shows "s_db s' = s_db s \<and> (\<forall>i \<in> set is. \<exists>s1 s2. s_db s1 = s_db s \<and> verifyMaintenanceReplay E i s1 = (Inr (), s2))"
  using assms
proof (induction "is" arbitrary: s)
  case (Cons i "is")
  then obtain s1 where s1: "verifyMaintenanceReplay E i s = (Inr (), s1)" "verify_runs E is s1 = (Inr u, s')"
    by (auto simp: bindT_Inr)
  have "s_db s1 = s_db s" using s1(1) by (rule verifyMaintenanceReplay_Inr) simp
  with Cons.IH [OF s1(2)] s1(1) show ?case by auto
qed (simp add: returnT_Inr)

lemma verifyApplicationData_Inr:
  assumes "verifyApplicationData E sch s = (Inr u, s')"
  shows "required_schema sch" "locks_ok (s_db s)" "s_db s' = s_db s"
    "\<forall>i \<in> mr_id ` set (maintenance_t (s_db s)). \<exists>s1 s2. s_db s1 = s_db s \<and> verifyMaintenanceReplay E i s1 = (Inr (), s2)"
    "globals_ok (s_db s)"
proof -
  obtain s0 s2 where s0: "verifyRequiredSchema E sch s = (Inr (), s0)" and l: "lock_overlaps (s_db s0) = 0"
    and s2: "verify_runs E (sort (map mr_id (maintenance_t (s_db s0)))) (tick (tick s0)) = (Inr (), s2)" "verifyGlobalEvents E s2 = (Inr u, s')"
    using assms unfolding verifyApplicationData_def verifyLockExclusivity_def
    by (auto simp: bindT_Inr queryT_Inr throwT_Inr returnT_Inr split: if_splits)
  note s1 = verifyRequiredSchema_Inr [OF s0] l [unfolded verifyRequiredSchema_Inr(2) [OF s0]]
  note v = verify_runs_Inr [OF s2(1), simplified s1(2)]
  have "s_db s' = s_db s2" "check_all check_global_event (map scanEvent (global_events (s_db s2))) = Inr ()"
    using s2(2) by (auto simp: verifyGlobalEvents_def bindT_Inr queryT_Inr liftT_Inr)
  with v s1 show "required_schema sch" "locks_ok (s_db s)" "s_db s' = s_db s" "globals_ok (s_db s)"
    "\<forall>i \<in> mr_id ` set (maintenance_t (s_db s)). \<exists>s1 s2. s_db s1 = s_db s \<and> verifyMaintenanceReplay E i s1 = (Inr (), s2)"
    by (auto simp: lock_overlaps_0 check_all_Inr globals_ok_def global_events_def)
qed

end
