(* ===== verification/Progress.thy ===== *)
theory Progress
  imports Accepts
begin

text \<open>
  Operations that succeed: creating a run with proper arguments always returns it when the
  database works, and a sample run of the store on concrete inputs, on which the theorems about
  operations are instantiated.
\<close>

section \<open>Texts that are valid JSON\<close>

fun json_members :: "(string \<times> json) list \<Rightarrow> (string \<times> string) list" where
  "json_members [] = []"
| "json_members ((k, v) # ms) = (k, render v) # json_members ms"

lemma members_text_render: "members_text (json_members ms) = render_members ms"
  by (induction ms rule: induct_list012) auto

lemma obj_text_valid:
  assumes "wf_members (maxNestingDepth - 1) ms"
  shows "json_valid (obj_text (json_members ms))"
proof -
  have "json_parse (render (JObj ms)) = Some (JObj ms)"
    using assms by (intro json_parse_render) (simp add: maxNestingDepth_def)
  then show ?thesis by (simp add: json_valid_def obj_text_def members_text_render)
qed

lemma canonical_empty: "canonical_text ''{}''"
  unfolding canonical_text_def by (intro exI [of _ "JObj []"]) (simp add: maxNestingDepth_def sort_members_def)

lemma canonicalJSONDefault_Nil: "canonicalJSONDefault '''' = Inr ''{}''"
  using canonical_text_valid [OF canonical_empty] canonical_text_fix [OF canonical_empty]
  by (simp add: canonicalJSONDefault_def normalizeJSON_def)

lemma marshal_Maintenance_valid:
  assumes "time_ok (m_CreatedAt m)" "time_ok (m_UpdatedAt m)" "valid_utf8 (m_ID m)" "valid_utf8 (m_State m)"
    and "valid_utf8 (m_ChangeTicket m)" "valid_utf8 (m_WorkflowVersion m)"
    and "canonical_text (m_Metadata m)" "m_Metadata m = render v" "wf_json (maxNestingDepth - 1) v"
  shows "\<exists>doc. marshal_Maintenance m = Some doc \<and> json_valid doc \<and> doc \<noteq> ''''"
proof -
  obtain c u where cu: "marshal_time (m_CreatedAt m) = Some c" "marshal_time (m_UpdatedAt m) = Some u"
    and doc: "marshal_Maintenance m = Some (obj_text ([(''id'', quote (m_ID m)), (''state'', quote (m_State m))]
       @ (if m_ChangeTicket m = '''' then [] else [(''change_ticket'', quote (m_ChangeTicket m))])
       @ (if m_WorkflowVersion m = '''' then [] else [(''workflow_version'', quote (m_WorkflowVersion m))])
       @ [(''metadata'', m_Metadata m), (''version'', FormatInt (m_Version m)), (''created_at'', c), (''updated_at'', u)]))"
    using marshal_Maintenance_text [OF assms(1,2,7)] .
  have t: "c = quote (formatRFC3339Nano (m_CreatedAt m))" "u = quote (formatRFC3339Nano (m_UpdatedAt m))"
    using cu marshal_time_quote by blast+
  let ?ms = "[(''id'', JStr (m_ID m)), (''state'', JStr (m_State m))]
       @ (if m_ChangeTicket m = '''' then [] else [(''change_ticket'', JStr (m_ChangeTicket m))])
       @ (if m_WorkflowVersion m = '''' then [] else [(''workflow_version'', JStr (m_WorkflowVersion m))])
       @ [(''metadata'', v), (''version'', JNum (FormatInt (m_Version m))), (''created_at'', JStr (formatRFC3339Nano (m_CreatedAt m))),
          (''updated_at'', JStr (formatRFC3339Nano (m_UpdatedAt m)))]"
  have "json_valid (obj_text (json_members ?ms))"
    using assms by (intro obj_text_valid) (auto simp: valid_utf8_time valid_num_FormatInt)
  moreover have "marshal_Maintenance m = Some (obj_text (json_members ?ms))"
    using doc t assms(8) by simp
  ultimately show ?thesis by auto
qed

section \<open>Creating a run succeeds\<close>

text \<open>A database that works: no statement fails, and SQLite's functions accept what the texts promise.\<close>

definition env_accepts :: "env \<Rightarrow> bool" where
  "env_accepts E \<longleftrightarrow> (\<forall>n. \<not> fault E n) \<and> (\<forall>t. json_valid t \<longrightarrow> sql_json_valid E t) \<and> (\<forall>i. validID i \<longrightarrow> sql_length E i = length i)"

lemma validID_length: "validID i \<Longrightarrow> 1 \<le> length i \<and> length i \<le> 200"
  by (cases i) (simp_all add: validID_def)

lemma appendEvent_forward:
  assumes "log_ok E ev (s_db s)" "\<not> fault E (s_ticks s)"
    and "case nullText (e_MaintenanceID ev) of None \<Rightarrow> True
       | Some m \<Rightarrow> (\<exists>x \<in> set (maintenance_t (s_db s)). mr_id x = m)
         \<and> (case nullText (e_TargetID ev) of None \<Rightarrow> True
            | Some t \<Rightarrow> (\<exists>x \<in> set (targets_t (s_db s)). tr_maintenance_id x = m \<and> tr_id x = t))"
  shows "appendEvent E ev s = (Inr (), (tick s)\<lparr>s_db := log_event ev (s_db s)\<rparr>)"
proof -
  have *: "appendEvent E ev s = execT E (insert_event E (event_row_of (filled_event ev))) s"
    using assms(1) by (simp add: log_ok_def appendEvent_eq)
  have "insert_event E (event_row_of (filled_event ev)) (s_db s) = Inr (log_event ev (s_db s))"
    using assms(1,3)
    by (auto simp: log_ok_def insert_event_def log_event_def logged_row_def event_row_of_def list_ex_iff split: option.splits)
  with assms(2) show ?thesis by (simp add: * execT_def)
qed

lemma create_succeeds:
  assumes E: "env_accepts E" "env_ok E" and id: "validID (m_ID m)" "m_State m \<in> {'''', ''new''}"
    and len: "length (m_ChangeTicket m) \<le> 200" "length (m_WorkflowVersion m) \<le> 100" and args: "create_args m"
    and md: "canonicalJSONDefault (m_Metadata m) = Inr (render v)" "wf_json (maxNestingDepth - 1) v" "length (render v) \<le> 64 * 1024"
    and fresh: "maintenance_by_id (m_ID m) (s_db s) = None" "\<forall>e \<in> set (events_t (s_db s)). er_maintenance_id e \<noteq> Some (m_ID m)"
    and clk: "clock E (s_ticks s) \<noteq> 0"
  shows "\<exists>s'. CreateMaintenance E m audit s = (Inr (m\<lparr>m_State := ''new'', m_Metadata := render v, m_Version := 1,
    m_CreatedAt := clock E (s_ticks s), m_UpdatedAt := clock E (s_ticks s)\<rparr>), s')" (is "\<exists>s'. _ = (Inr ?m, s')")
proof -
  let ?s = "tick (tick s)" and ?row = "maintenance_row_of ?m" and ?ev = "created_event ?m audit"
  have f: "\<not> fault E n" for n using E(1) by (simp add: env_accepts_def)
  have c: "canonical_text (render v)" using canonicalJSONDefault_canonical [OF md(1)] .
  have t: "time_ok (clock E n)" for n using E(2) by (simp add: env_ok_def)
  have "\<exists>doc. marshal_Maintenance ?m = Some doc \<and> json_valid doc \<and> doc \<noteq> ''''"
    using id args c md t validID_utf8 by (intro marshal_Maintenance_valid [where v = v]) (simp_all add: create_args_def)
  then obtain doc where doc: "marshal_Maintenance ?m = Some doc" "json_valid doc" "doc \<noteq> ''''" by blast
  have "maintenance_checks E ?row"
    using E(1) id(1) validID_length [OF id(1)] canonical_text_valid [OF c]
    by (simp add: maintenance_checks_def maintenance_row_of_def env_accepts_def)
  then have ins: "insert_maintenance E ?row (s_db s) = Inr (add_maintenance ?m (s_db s))"
    using fresh(1) by (auto simp: insert_maintenance_def add_maintenance_def maintenance_by_id_def find_None_iff list_ex_iff maintenance_row_of_def)
  have "log_ok E ?ev (add_maintenance ?m (s_db s))"
    using doc E(1) clk fresh(2) validID_not_Nil [OF id(1)]
    by (auto simp: log_ok_def event_checks_def transition_check_def env_accepts_def event_row_of_def nullText_def nullInt_def
        same_aggregate_version_def same_observation_def add_maintenance_def list_ex_iff)
  then have ap: "appendEvent E ?ev ((tick ?s)\<lparr>s_db := add_maintenance ?m (s_db s)\<rparr>)
      = (Inr (), (tick (tick ?s))\<lparr>s_db := log_event ?ev (add_maintenance ?m (s_db s))\<rparr>)"
    using f by (subst appendEvent_forward) (auto simp: nullText_def add_maintenance_def maintenance_row_of_def tick_def)
  have "create_tx E ?m audit ?s = (Inr (), (tick (tick ?s))\<lparr>s_db := log_event ?ev (add_maintenance ?m (s_db s))\<rparr>)"
  proof -
    obtain actor role req where "auditValues audit = (actor, role, req)" by (rule prod_cases3)
    with ap ins f show ?thesis by (simp add: create_tx_def created_event_def bindT_def mapErrT_def execT_def Let_def)
  qed
  then have "writeT E (create_tx E ?m audit) (tick s) = (Inr (), (tick (tick (tick ?s)))\<lparr>s_db := log_event ?ev (add_maintenance ?m (s_db s))\<rparr>)"
    using f by (simp add: writeT_def tick_def)
  moreover have "CreateMaintenance E m audit s = bindT (writeT E (create_tx E ?m audit)) (\<lambda>_. returnT ?m) (tick s)"
  proof -
    have m1: "(if m_State m = '''' then m\<lparr>m_State := ''new''\<rparr> else m) = m\<lparr>m_State := ''new''\<rparr>" using id(2) by (cases m) auto
    show ?thesis unfolding CreateMaintenance_def m1 using id len md by (simp add: Let_def bindT_def nowT_def)
  qed
  ultimately show ?thesis by (simp add: bindT_def returnT_def)
qed

section \<open>A sample run\<close>

definition sample_env :: env where
  "sample_env = \<lparr>clock = (\<lambda>n. 63800000000000000000), fault = (\<lambda>n. False), sql_json_valid = (\<lambda>t. True),
     sql_length = length, sql_text = (\<lambda>e. ''''), sha256_hex = (\<lambda>t. ''ab'')\<rparr>"

definition sample_audit :: AuditContext where
  "sample_audit = \<lparr>a_Actor = ''ops'', a_Role = ''operator'', a_RequestID = ''q1''\<rparr>"

definition sample_run :: Maintenance where
  "sample_run = zero_Maintenance\<lparr>m_ID := ''r1''\<rparr>"

definition sample_start :: session where
  "sample_start = \<lparr>s_db = empty_db, s_ticks = 0\<rparr>"

definition sample_created :: session where
  "sample_created = snd (CreateMaintenance sample_env sample_run sample_audit sample_start)"

lemma validID_Cons:
  "validID (c # s) \<longleftrightarrow> length s < 200 \<and> id_alnum c \<and> list_all (\<lambda>c. id_alnum c \<or> c \<in> set ''._:@+-'') s"
proof -
  have "(\<forall>i < length (c # s). id_alnum ((c # s) ! i) \<or> (i > 0 \<and> (c # s) ! i \<in> set ''._:@+-''))
      \<longleftrightarrow> id_alnum c \<and> (\<forall>i < length s. id_alnum (s ! i) \<or> s ! i \<in> set ''._:@+-'')"
    by (subst length_Cons, subst All_less_Suc2) simp
  then show ?thesis by (auto simp: validID_def list_all_length)
qed

lemma sample_ids [simp]: "validID ''r1''" "validID ''t1''"
  by (simp_all add: validID_Cons id_alnum_def less_eq_char_def)

lemma time_ok_sample: "time_ok 63800000000000000000"
proof -
  have "civil 738425 = (2022, 9, 28)" by code_simp
  then show ?thesis by (simp add: time_ok_def time_year_def nanos_per_sec_def)
qed

lemma clock_sample: "clock sample_env n = 63800000000000000000"
  by (simp add: sample_env_def)

lemma sample_env_ok: "env_ok sample_env" "env_accepts sample_env" "\<not> fault sample_env n"
  by (simp_all add: env_ok_def env_accepts_def sample_env_def time_ok_sample valid_utf8_ascii)

lemma sample_create:
  "CreateMaintenance sample_env sample_run sample_audit sample_start = (Inr (sample_run\<lparr>m_State := ''new'', m_Metadata := ''{}'',
     m_Version := 1, m_CreatedAt := 63800000000000000000, m_UpdatedAt := 63800000000000000000\<rparr>), sample_created)"
proof -
  have "\<exists>s'. CreateMaintenance sample_env sample_run sample_audit sample_start = (Inr (sample_run\<lparr>m_State := ''new'',
     m_Metadata := render (JObj []), m_Version := 1, m_CreatedAt := clock sample_env (s_ticks sample_start),
     m_UpdatedAt := clock sample_env (s_ticks sample_start)\<rparr>), s')"
    by (rule create_succeeds)
      (use sample_env_ok in \<open>simp_all add: sample_run_def zero_Maintenance_def canonicalJSONDefault_Nil sample_start_def
        empty_db_def maintenance_by_id_def create_args_def maxNestingDepth_def clock_sample\<close>)
  then show ?thesis by (auto simp: sample_created_def sample_env_def)
qed

text \<open>A run in the phase stopping with one target, and the operations on it.\<close>

definition sample_row :: maintenance_row where
  "sample_row = \<lparr>mr_rowid = 1, mr_id = ''r1'', mr_state = ''stopping'', mr_change_ticket = '''', mr_workflow_version = '''',
     mr_metadata_json = ''{}'', mr_version = 3, mr_created_at = ''c'', mr_updated_at = ''c''\<rparr>"

definition sample_target :: target_row where
  "sample_target = \<lparr>tr_maintenance_id = ''r1'', tr_id = ''t1'', tr_lock_key = ''k'', tr_state = ''captured'', tr_original_state = ''running'',
     tr_kind = '''', tr_host = '''', tr_observed_at = None, tr_metadata_json = ''{}'', tr_version = 2, tr_created_at = ''c'', tr_updated_at = ''c''\<rparr>"

definition sample_at :: "string \<Rightarrow> string \<Rightarrow> session" where
  "sample_at rstate tstate = \<lparr>s_db = \<lparr>maintenance_t = [sample_row\<lparr>mr_state := rstate\<rparr>],
     captures_t = [\<lparr>cr_maintenance_id = ''r1'', cr_captured_at = ''c'', cr_payload_json = ''{}'', cr_sha256 = ''ab''\<rparr>],
     targets_t = [sample_target\<lparr>tr_state := tstate\<rparr>], events_t = []\<rparr>, s_ticks = 0\<rparr>"

definition sample_live :: session where
  "sample_live = sample_at ''stopping'' ''captured''"

definition sample_change :: "string \<Rightarrow> StateChange" where
  "sample_change state = \<lparr>sc_State = state, sc_Justification = '''', sc_Detail = ''''\<rparr>"

definition sample_any :: VersionPrecondition where
  "sample_any = \<lparr>vp_Any = True, vp_Versions = []\<rparr>"

lemma TrimSpace_Nil [simp]: "TrimSpace '''' = ''''"
  by (rule TrimSpace_plain) simp

lemma sample_payload: "eventPayload '''' '''' = Inr (obj_text [(''detail'', ''{}'')])" "json_valid (obj_text [(''detail'', ''{}'')])"
proof -
  show "eventPayload '''' '''' = Inr (obj_text [(''detail'', ''{}'')])"
    using marshal_raw_canonical [OF canonical_empty] canonical_text_valid [OF canonical_empty]
    by (simp add: eventPayload_def omitempty_def marshal_struct_def)
  show "json_valid (obj_text [(''detail'', ''{}'')])"
    using obj_text_valid [of "[(''detail'', JObj [])]"] by (simp add: maxNestingDepth_def)
qed

lemmas sample_defs = sample_env_def sample_audit_def sample_row_def sample_target_def sample_live_def sample_at_def sample_change_def sample_any_def

lemmas tx_defs = bindT_def liftT_def returnT_def throwT_def nowT_def queryT_def execT_def execCountT_def writeT_def whenT_def rowT_def
  loadMaintenance_def loadTarget_def listTargets_def require_one_def tick_def

lemmas op_defs = transition_maintenance_tx_def transition_guards_def transition_target_tx_def target_guards_def observation_tx_def
  capture_tx_def save_capture_tx_def lifecycle_iffs vp_require_def maintenance_by_id_def target_by_id_def capture_by_id_def
  observation_by_request_def scanMaintenance_def scanTarget_def capture_count_def update_targets_def update_maintenance_def insert_capture_def
  Let_def maintenance_checks_def target_checks_def maintenance_identity_changed_def targets_identity_changed_def wrap64_id in_int64_def
  max_int64_def IsMaintenanceTerminal_def auditValues_def appendEvent_eq filled_event_def insert_event_def event_checks_def
  transition_check_def event_row_of_def nullText_def nullInt_def zero_Event_def targetPhaseAllowed_def

lemma sample_transition:
  "\<exists>agg s'. TransitionMaintenance sample_env ''r1'' (sample_change ''failed'') sample_any sample_audit sample_live = (Inr agg, s')"
  by (simp add: TransitionMaintenance_def op_defs sample_defs tx_defs sample_payload)

lemma sample_stopped:
  "\<exists>agg s'. TransitionMaintenance sample_env ''r1'' (sample_change ''stopped'') sample_any sample_audit (sample_at ''stopping'' ''stopped'') = (Inr agg, s')"
  by (simp add: TransitionMaintenance_def op_defs sample_defs tx_defs sample_payload validateStoppedBarrier_def unresolved_count_def unresolved_def)

lemma sample_completed:
  "\<exists>agg s'. TransitionMaintenance sample_env ''r1'' (sample_change ''completed'') sample_any sample_audit (sample_at ''starting'' ''healthy'') = (Inr agg, s')"
  by (simp add: TransitionMaintenance_def op_defs sample_defs tx_defs sample_payload validateCompletion_def target_rows_def targetCompletionAllowed_def)

lemma sample_transition_target:
  "\<exists>res s'. TransitionTarget sample_env ''r1'' ''t1'' (sample_change ''stopping'') sample_any sample_audit sample_live = (Inr res, s')"
  by (simp add: TransitionTarget_def op_defs sample_defs tx_defs sample_payload)

lemma sample_object: "canonicalJSONObject '''' = Inr ''{}''"
  using json_parse_render [of "JObj []"]
  by (simp add: canonicalJSONObject_def canonicalJSONDefault_Nil is_object_def maxNestingDepth_def)

lemma sample_observation:
  "\<exists>s'. AddObservation sample_env ''r1'' ''t1'' '''' sample_any sample_audit sample_live = (Inr (), s')"
  by (simp add: AddObservation_def op_defs sample_defs tx_defs sample_object canonical_text_valid [OF canonical_empty])

definition sample_capture :: Capture where
  "sample_capture = \<lparr>c_MaintenanceID = '''', c_CapturedAt = 0, c_Payload = '''', c_SHA256 = ''''\<rparr>"

lemma sample_targets: "parseCaptureTargets ''{}'' = Inr []"
proof -
  have "unmarshal_struct [''targets''] (\<lambda>f raw old. Some raw) '''' (obj_text []) = Some ''''"
    using canonical_text_valid [OF canonical_empty] by (subst unmarshal_obj_text) (simp_all add: obj_text_def)
  then show ?thesis by (simp add: parseCaptureTargets_def obj_text_def)
qed

lemma sample_capture_same:
  "\<exists>c s'. CaptureMaintenance sample_env ''r1'' sample_capture sample_audit sample_live = (Inr \<lparr>cres_Capture = c, cres_Created = False\<rparr>, s')"
  by (simp add: CaptureMaintenance_def sample_capture_def op_defs sample_defs tx_defs sample_object sample_targets)

definition sample_new :: session where
  "sample_new = \<lparr>s_db = \<lparr>maintenance_t = [sample_row\<lparr>mr_state := ''new'', mr_version := 1\<rparr>], captures_t = [], targets_t = [], events_t = []\<rparr>,
     s_ticks = 0\<rparr>"

lemma sample_capture_detail: "json_valid (capture_detail ''ab'' 0)" "capture_detail ''ab'' 0 \<noteq> ''''"
proof -
  have "valid_utf8 ''ab''" by (rule valid_utf8_ascii) simp
  then show "json_valid (capture_detail ''ab'' 0)"
    using obj_text_valid [of "[(''sha256'', JStr ''ab''), (''targets'', JNum (FormatInt 0))]"]
    by (simp add: capture_detail_def maxNestingDepth_def valid_num_FormatInt)
qed simp

lemma sample_capture_saved:
  "\<exists>c s'. CaptureMaintenance sample_env ''r1'' sample_capture sample_audit sample_new = (Inr \<lparr>cres_Capture = c, cres_Created = True\<rparr>, s')"
  by (simp add: CaptureMaintenance_def sample_capture_def sample_new_def op_defs sample_defs tx_defs sample_object sample_targets
      sample_capture_detail)

end
