(* ===== verification/Contracts.thy ===== *)
theory Contracts
  imports Progress
begin

text \<open>
  The contracts of the store's operations, as callers rely on them: what is stored can be read
  back, repeated requests are answered without a second effect, stale and forbidden requests are
  refused with the error the API reports, and the phase guards hold when a run moves on.
\<close>

lemma scan_simps:
  "m_ID (scanMaintenance r) = mr_id r" "m_State (scanMaintenance r) = mr_state r" "m_Version (scanMaintenance r) = mr_version r"
  "t_ID (scanTarget t) = tr_id t" "t_State (scanTarget t) = tr_state t" "t_Version (scanTarget t) = tr_version t"
  "t_OriginalState (scanTarget t) = tr_original_state t"
  by (simp_all add: scanMaintenance_def scanTarget_def)

section \<open>Creating\<close>

text \<open>C17: A created run can be read back exactly as it was returned, at version 1 in the state new.\<close>

theorem create_read_back:
  assumes "CreateMaintenance E m0 audit s = (Inr m, s')" "env_ok E" "\<And>n. \<not> fault E n"
  shows "m_State m = ''new'' \<and> m_Version m = 1 \<and> m_ID m = m_ID m0
    \<and> (\<exists>agg s''. GetMaintenanceAggregate E (m_ID m) s' = (Inr agg, s'') \<and> ma_Maintenance agg = m)"
proof -
  note c = CreateMaintenance_Inr [OF assms(1)]
  have t: "time_ok (m_CreatedAt m)" using c(2) assms(2) by (simp add: env_ok_def)
  have "find P (xs @ [x]) = Some x" if "find P xs = None" "P x" for P xs and x :: maintenance_row
    using that by (induction xs) (auto split: if_splits)
  then have "maintenance_by_id (m_ID m) (s_db s')
      = Some ((maintenance_row_of m)\<lparr>mr_rowid := next_rowid (map mr_rowid (maintenance_t (s_db s)))\<rparr>)"
    using c(1,7) by (simp add: create_ok_def maintenance_by_id_def add_maintenance_def maintenance_row_of_def)
  then show ?thesis
    using c t assms(3) by (simp add: create_ok_def scanMaintenance_def maintenance_row_of_def GetMaintenanceAggregate_def tx_defs listTargets_def)
qed

theorem create_read_back_witness:
  "\<exists>agg s''. GetMaintenanceAggregate sample_env ''r1'' sample_created = (Inr agg, s'')
    \<and> ma_Maintenance agg = sample_run\<lparr>m_State := ''new'', m_Metadata := ''{}'',
        m_Version := 1, m_CreatedAt := 63800000000000000000, m_UpdatedAt := 63800000000000000000\<rparr>"
  using create_read_back [OF sample_create sample_env_ok(1,3)] by (simp add: sample_run_def)

section \<open>Preconditions\<close>

text \<open>An updated run is found under its id.\<close>

lemma set_run_lookup:
  assumes "maintenance_by_id i db = Some r" "mr_id (f r) = i" "maintenance_t db' = maintenance_t db"
  shows "maintenance_by_id i (log_event ev (set_run i f db')) = Some (f r)"
proof -
  have "find (\<lambda>x. mr_id x = i) (map (\<lambda>x. if mr_id x = i then f x else x) ms) = Some (f r)"
    if "find (\<lambda>x. mr_id x = i) ms = Some r" for ms
    using that assms(2) by (induction ms) (auto split: if_splits)
  with assms show ?thesis by (simp add: maintenance_by_id_def)
qed

lemma set_target_lookup:
  assumes "target_by_id i t db = Some r" "tr_maintenance_id (f r) = i" "tr_id (f r) = t"
  shows "target_by_id i t (set_target i t f db) = Some (f r)"
proof -
  have "find (\<lambda>x. tr_maintenance_id x = i \<and> tr_id x = t) (map (\<lambda>x. if tr_maintenance_id x = i \<and> tr_id x = t then f x else x) ts) = Some (f r)"
    if "find (\<lambda>x. tr_maintenance_id x = i \<and> tr_id x = t) ts = Some r" for ts
    using that assms(2,3) by (induction ts) (auto split: if_splits)
  with assms show ?thesis by (simp add: target_by_id_def set_target_def)
qed

text \<open>The transactions of the two transitions up to their guards.\<close>

lemma transition_loads:
  assumes "validID i" "ValidMaintenanceState (sc_State change)" "\<And>n. \<not> fault E n" "maintenance_by_id i (s_db s) = Some r"
    and "eventPayload (sc_Detail change) (TrimSpace (sc_Justification change)) = Inr payload"
    and "vp_require pre (mr_version r) ''maintenance'' i (mr_state r) (sc_State change) = Inl e"
  shows "\<exists>s'. TransitionMaintenance E i change pre audit s = (Inl e, s') \<and> s_db s' = s_db s"
  using assms
  by (simp add: TransitionMaintenance_def transition_maintenance_tx_def tx_defs scanMaintenance_def)

lemma target_transition_loads:
  assumes "validID i" "validID ti" "ValidTargetState (sc_State change)" "\<And>n. \<not> fault E n"
    and "maintenance_by_id i (s_db s) = Some r" "target_by_id i ti (s_db s) = Some t" "\<not> IsMaintenanceTerminal (mr_state r)"
    and "eventPayload (sc_Detail change) (TrimSpace (sc_Justification change)) = Inr payload"
    and "vp_require pre (tr_version t) ''target'' ti (tr_state t) (sc_State change) = Inl e"
  shows "\<exists>s'. TransitionTarget E i ti change pre audit s = (Inl e, s') \<and> s_db s' = s_db s"
  using assms
  by (simp add: TransitionTarget_def transition_target_tx_def tx_defs scanMaintenance_def scanTarget_def)

definition refusal :: "VersionPrecondition \<Rightarrow> sentinel" where
  "refusal pre = (if vp_Versions pre = [] then ErrPreconditionRequired else ErrVersionConflict)"

lemma vp_require_refuses:
  assumes "\<not> vp_Any pre" "v \<notin> set (vp_Versions pre)"
  shows "\<exists>e. vp_require pre v kind i state requested = Inl e \<and> err_is e (refusal pre)"
  using assms by (auto simp: vp_require_def list_ex_iff refusal_def)

text \<open>C16: A run transition whose precondition does not name the current version is refused, without a
  precondition as \<open>ErrPreconditionRequired\<close> and with a stale one as \<open>ErrVersionConflict\<close>, and the
  database stays as it is.\<close>

theorem stale_transition_refused:
  assumes "validID i" "ValidMaintenanceState (sc_State change)" "\<And>n. \<not> fault E n" "maintenance_by_id i (s_db s) = Some r"
    and "eventPayload (sc_Detail change) (TrimSpace (sc_Justification change)) = Inr payload"
    and "\<not> vp_Any pre" "mr_version r \<notin> set (vp_Versions pre)"
  shows "\<exists>e s'. TransitionMaintenance E i change pre audit s = (Inl e, s') \<and> s_db s' = s_db s
    \<and> err_is e (if vp_Versions pre = [] then ErrPreconditionRequired else ErrVersionConflict)"
  using vp_require_refuses [OF assms(6,7)] transition_loads [OF assms(1-5)] unfolding refusal_def by meson

theorem stale_transition_refused_witness:
  "\<exists>e s'. TransitionMaintenance sample_env ''r1'' (sample_change ''failed'') \<lparr>vp_Any = False, vp_Versions = [2]\<rparr> sample_audit sample_live
     = (Inl e, s') \<and> s_db s' = s_db sample_live \<and> err_is e ErrVersionConflict"
  using stale_transition_refused [of "''r1''" "sample_change ''failed''" sample_env sample_live sample_row "obj_text [(''detail'', ''{}'')]"
    "\<lparr>vp_Any = False, vp_Versions = [2]\<rparr>" sample_audit]
  by (simp add: sample_env_ok sample_change_def lifecycle_iffs sample_payload sample_live_def sample_at_def maintenance_by_id_def sample_row_def)

text \<open>A target transition of an active run whose precondition does not name the target's current
  version is refused in the same two ways, and the database stays as it is.\<close>

theorem stale_target_refused:
  assumes "validID i" "validID ti" "ValidTargetState (sc_State change)" "\<And>n. \<not> fault E n"
    and "maintenance_by_id i (s_db s) = Some r" "target_by_id i ti (s_db s) = Some t" "\<not> IsMaintenanceTerminal (mr_state r)"
    and "eventPayload (sc_Detail change) (TrimSpace (sc_Justification change)) = Inr payload"
    and "\<not> vp_Any pre" "tr_version t \<notin> set (vp_Versions pre)"
  shows "\<exists>e s'. TransitionTarget E i ti change pre audit s = (Inl e, s') \<and> s_db s' = s_db s
    \<and> err_is e (if vp_Versions pre = [] then ErrPreconditionRequired else ErrVersionConflict)"
  using vp_require_refuses [OF assms(9,10)] target_transition_loads [OF assms(1-8)] unfolding refusal_def by meson

theorem stale_target_refused_witness:
  "\<exists>e s'. TransitionTarget sample_env ''r1'' ''t1'' (sample_change ''stopping'') \<lparr>vp_Any = False, vp_Versions = []\<rparr> sample_audit sample_live
     = (Inl e, s') \<and> s_db s' = s_db sample_live \<and> err_is e ErrPreconditionRequired"
  using stale_target_refused [of "''r1''" "''t1''" "sample_change ''stopping''" sample_env sample_live sample_row "sample_target\<lparr>tr_state := ''captured''\<rparr>"
    "obj_text [(''detail'', ''{}'')]" "\<lparr>vp_Any = False, vp_Versions = []\<rparr>" sample_audit]
  by (simp add: sample_env_ok sample_ids sample_change_def lifecycle_iffs sample_payload sample_live_def sample_at_def
    maintenance_by_id_def target_by_id_def sample_row_def sample_target_def IsMaintenanceTerminal_def)

section \<open>Transitions of a run\<close>

text \<open>The state tables name no empty state.\<close>

lemma transition_states: "ValidMaintenanceTransition a b \<Longrightarrow> a \<noteq> '''' \<and> b \<noteq> ''''" "ValidTargetTransition a b \<Longrightarrow> a \<noteq> '''' \<and> b \<noteq> ''''"
  by (auto simp: lifecycle_iffs)

text \<open>What a logged event leaves in the journal: its own values, with the caller's.\<close>

lemma logged_fields:
  "er_event_type (logged_row ev db) = e_Type ev" "er_resource_type (logged_row ev db) = e_ResourceType ev"
  "er_resource_id (logged_row ev db) = e_ResourceID ev" "er_maintenance_id (logged_row ev db) = nullText (e_MaintenanceID ev)"
  "er_target_id (logged_row ev db) = nullText (e_TargetID ev)" "er_from_state (logged_row ev db) = nullText (e_FromState ev)"
  "er_to_state (logged_row ev db) = nullText (e_ToState ev)" "er_from_version (logged_row ev db) = nullInt (e_FromVersion ev)"
  "er_to_version (logged_row ev db) = nullInt (e_ToVersion ev)" "er_aggregate_version (logged_row ev db) = nullInt (e_AggregateVersion ev)"
  by (simp_all add: logged_row_def event_row_of_def filled_event_def Let_def split: prod.split)

lemma logged_caller:
  assumes "auditValues audit = (e_Actor ev, e_Role ev, e_RequestID ev)"
  shows "(er_actor (logged_row ev db), er_role (logged_row ev db), er_request_id (logged_row ev db)) = auditValues audit"
proof -
  have "e_Actor ev \<noteq> ''''" "e_Role ev \<noteq> ''''" "e_RequestID ev \<noteq> ''''" using assms by (auto simp: auditValues_def split: if_splits)
  then show ?thesis using assms by (simp add: logged_row_def event_row_of_def filled_event_def auditValues_def)
qed

lemma transition_fields:
  "e_Type (transition_event m state payload audit now) = transition_type m state" "e_ResourceType (transition_event m state payload audit now) = ''maintenance''"
  "e_ResourceID (transition_event m state payload audit now) = m_ID m" "e_MaintenanceID (transition_event m state payload audit now) = m_ID m"
  "e_TargetID (transition_event m state payload audit now) = ''''"
  "e_FromState (transition_event m state payload audit now) = m_State m" "e_ToState (transition_event m state payload audit now) = state"
  "e_FromVersion (transition_event m state payload audit now) = m_Version m"
  "e_ToVersion (transition_event m state payload audit now) = wrap64 (m_Version m + 1)"
  "e_AggregateVersion (transition_event m state payload audit now) = wrap64 (m_Version m + 1)"
  by (simp_all add: transition_event_def zero_Event_def split: prod.split)

lemma target_fields:
  "e_Type (target_event m t state payload audit now) = target_type state" "e_ResourceType (target_event m t state payload audit now) = ''target''"
  "e_ResourceID (target_event m t state payload audit now) = t_ID t" "e_MaintenanceID (target_event m t state payload audit now) = m_ID m"
  "e_TargetID (target_event m t state payload audit now) = t_ID t"
  "e_FromState (target_event m t state payload audit now) = t_State t" "e_ToState (target_event m t state payload audit now) = state"
  "e_FromVersion (target_event m t state payload audit now) = t_Version t"
  "e_ToVersion (target_event m t state payload audit now) = wrap64 (t_Version t + 1)"
  "e_AggregateVersion (target_event m t state payload audit now) = wrap64 (m_Version m + 1)"
  by (simp_all add: target_event_def zero_Event_def split: prod.split)

lemma event_caller:
  "(er_actor (logged_row (transition_event m state payload audit now) db), er_role (logged_row (transition_event m state payload audit now) db),
    er_request_id (logged_row (transition_event m state payload audit now) db)) = auditValues audit"
  "(er_actor (logged_row (target_event m t state payload audit now) db), er_role (logged_row (target_event m t state payload audit now) db),
    er_request_id (logged_row (target_event m t state payload audit now) db)) = auditValues audit"
  by (rule logged_caller; simp add: transition_event_def target_event_def split: prod.split)+

lemma moved_events: "events_t (moved_run m state now db) = events_t db" "events_t (moved_target m t state now db) = events_t db"
  by (simp_all add: moved_run_def moved_target_def bump_targets_def set_target_def)

text \<open>C14: A transition that succeeds follows the lifecycle table, was allowed to that caller at that
  version, and leaves the run in the new state one version higher and otherwise as it was, with its answer
  read from the database it leaves. The journal gains exactly one event: a completion, a reopening of a failed
  run or a plain transition of this run, with the old and the new state and version and with the caller.\<close>

theorem transition_contract:
  assumes "TransitionMaintenance E i change pre audit s = (Inr agg, s')" "run_unique (s_db s)"
    and "\<forall>r \<in> set (maintenance_t (s_db s)). in_int64 (mr_version r)"
  shows "\<exists>r r'. maintenance_by_id i (s_db s) = Some r \<and> maintenance_by_id i (s_db s') = Some r'
    \<and> ValidMaintenanceTransition (mr_state r) (sc_State change) \<and> vp_match pre (mr_version r)
    \<and> r' = r\<lparr>mr_state := sc_State change, mr_version := mr_version r + 1, mr_updated_at := mr_updated_at r'\<rparr>
    \<and> (\<exists>row. events_t (s_db s') = events_t (s_db s) @ [row]
        \<and> er_event_type row = (if sc_State change = ''completed'' then ''maintenance.completed''
            else if mr_state r = ''failed'' then ''maintenance.reopened'' else ''maintenance.transitioned'')
        \<and> er_resource_type row = ''maintenance'' \<and> er_resource_id row = i \<and> er_maintenance_id row = Some i \<and> er_target_id row = None
        \<and> er_from_state row = Some (mr_state r) \<and> er_to_state row = Some (sc_State change)
        \<and> er_from_version row = nullInt (mr_version r) \<and> er_to_version row = Some (mr_version r + 1)
        \<and> er_aggregate_version row = Some (mr_version r + 1)
        \<and> (er_actor row, er_role row, er_request_id row) = auditValues audit)
    \<and> (mr_state r = ''failed'' \<longrightarrow> isAdmin (a_Role audit) \<and> validJustification (sc_Justification change) = Inr ())
    \<and> ma_Targets agg = map scanTarget (target_rows i (s_db s'))"
  using assms(1,2)
proof (cases rule: TransitionMaintenance_Inr)
  case (1 r payload now n)
  have r: "r \<in> set (maintenance_t (s_db s))" "mr_id r = i" using 1(1) assms(2) by (simp_all add: maintenance_by_id_iff)
  have m: "m_ID (scanMaintenance r) = i" "m_Version (scanMaintenance r) = mr_version r" using r by (simp_all add: scanMaintenance_def)
  have v: "wrap64 (mr_version r + 1) = mr_version r + 1" using wrap64_succ_pos 1(6) assms(3) r(1) by blast
  let ?r = "r\<lparr>mr_state := sc_State change, mr_version := mr_version r + 1, mr_updated_at := formatRFC3339Nano now\<rparr>"
  have "maintenance_by_id i (s_db s') = Some ?r"
    unfolding 1(8) moved_run_def m v using 1(1) by (rule set_run_lookup) (simp_all add: r bump_targets_views)
  moreover have t: "ValidMaintenanceTransition (mr_state r) (sc_State change)"
    "mr_state r = ''failed'' \<longrightarrow> isAdmin (a_Role audit) \<and> validJustification (sc_Justification change) = Inr ()"
    using 1(5) unfolding transition_allowed_def reopen_allowed_def scan_simps by (simp_all split: if_splits)
  define row where "row = logged_row (transition_event (scanMaintenance r) (sc_State change) payload audit now)
    (moved_run (scanMaintenance r) (sc_State change) now (s_db s))"
  have ne: "i \<noteq> ''''" "0 < mr_version r + 1" using 1(6,7) m(1) v by (simp_all add: log_ok_def transition_fields)
  have "er_event_type row = (if sc_State change = ''completed'' then ''maintenance.completed''
        else if mr_state r = ''failed'' then ''maintenance.reopened'' else ''maintenance.transitioned'')
      \<and> er_resource_type row = ''maintenance'' \<and> er_resource_id row = i \<and> er_maintenance_id row = Some i \<and> er_target_id row = None
      \<and> er_from_state row = Some (mr_state r) \<and> er_to_state row = Some (sc_State change)
      \<and> er_from_version row = nullInt (mr_version r) \<and> er_to_version row = Some (mr_version r + 1)
      \<and> er_aggregate_version row = Some (mr_version r + 1)"
    using ne transition_states(1) [OF t(1)] r(2)
    by (simp add: row_def logged_fields transition_fields transition_type_def nullText_def nullInt_def scan_simps v)
  moreover have "(er_actor row, er_role row, er_request_id row) = auditValues audit" unfolding row_def by (rule event_caller)
  moreover have "events_t (s_db s') = events_t (s_db s) @ [row]" by (simp add: 1(8) moved_events row_def)
  ultimately show ?thesis
    using 1(1,4) t unfolding 1(9) by (intro exI [of _ r] exI [of _ ?r]) simp
qed

lemma sample_live_ok: "run_unique (s_db sample_live)" "target_unique (s_db sample_live)"
  "\<forall>r \<in> set (maintenance_t (s_db sample_live)). in_int64 (mr_version r)" "\<forall>t \<in> set (targets_t (s_db sample_live)). in_int64 (tr_version t)"
  by (simp_all add: sample_live_def sample_at_def sample_row_def sample_target_def run_unique_def target_unique_def in_int64_def max_int64_def)

theorem transition_contract_witness:
  "\<exists>agg s'. TransitionMaintenance sample_env ''r1'' (sample_change ''failed'') sample_any sample_audit sample_live = (Inr agg, s')
     \<and> (\<exists>r' row. maintenance_by_id ''r1'' (s_db s') = Some r' \<and> mr_state r' = ''failed'' \<and> mr_version r' = 4
       \<and> events_t (s_db s') = events_t (s_db sample_live) @ [row] \<and> er_event_type row = ''maintenance.transitioned''
       \<and> er_to_state row = Some ''failed'' \<and> er_to_version row = Some 4)"
proof -
  obtain agg s' where "TransitionMaintenance sample_env ''r1'' (sample_change ''failed'') sample_any sample_audit sample_live = (Inr agg, s')"
    using sample_transition by blast
  moreover obtain r r' row where "maintenance_by_id ''r1'' (s_db sample_live) = Some r" "maintenance_by_id ''r1'' (s_db s') = Some r'"
    and r': "r' = r\<lparr>mr_state := ''failed'', mr_version := mr_version r + 1, mr_updated_at := mr_updated_at r'\<rparr>"
    and row: "events_t (s_db s') = events_t (s_db sample_live) @ [row]" "er_event_type row = (if mr_state r = ''failed'' then ''maintenance.reopened'' else ''maintenance.transitioned'')"
      "er_to_state row = Some ''failed''" "er_to_version row = Some (mr_version r + 1)"
    using transition_contract [OF calculation sample_live_ok(1,3)] by (auto simp: sample_change_def)
  moreover from this(1) have v: "mr_version r = 3" "mr_state r \<noteq> ''failed''"
    by (auto simp: sample_live_def sample_at_def maintenance_by_id_def sample_row_def)
  moreover have "mr_state r' = ''failed''" "mr_version r' = 4" using v by (subst r', simp)+
  ultimately show ?thesis by auto
qed

text \<open>C12: A run enters the state stopped only when every target is resolved: stopped or skipped, and an
  originally degraded or unknown target skipped.\<close>

theorem stopped_needs_resolved_targets:
  assumes "TransitionMaintenance E i change pre audit s = (Inr agg, s')" "run_unique (s_db s)" "sc_State change = ''stopped''"
    and "t \<in> set (targets_t (s_db s))" "tr_maintenance_id t = i"
  shows "tr_state t = ''skipped'' \<or> (tr_original_state t \<in> {''running'', ''stopped''} \<and> tr_state t = ''stopped'')"
  using assms(1,2)
proof (cases rule: TransitionMaintenance_Inr)
  case (1 r payload now n)
  have "m_ID (scanMaintenance r) = i" using 1(1) assms(2) by (simp add: scanMaintenance_def maintenance_by_id_iff)
  then have "unresolved_count i (s_db s) = 0" using 1(5) assms(3) by (simp add: transition_allowed_def)
  then have "\<not> unresolved t" using assms(4,5) by (auto simp: unresolved_count_def filter_empty_conv)
  then show ?thesis by (auto simp: unresolved_def split: if_splits)
qed

lemma sample_unique: "run_unique (s_db (sample_at a b))" "sample_target\<lparr>tr_state := b\<rparr> \<in> set (targets_t (s_db (sample_at a b)))"
  by (simp_all add: sample_at_def run_unique_def)

theorem stopped_needs_resolved_targets_witness:
  "\<exists>agg s'. TransitionMaintenance sample_env ''r1'' (sample_change ''stopped'') sample_any sample_audit (sample_at ''stopping'' ''stopped'') = (Inr agg, s')
     \<and> tr_original_state sample_target \<in> {''running'', ''stopped''}"
proof -
  obtain agg s' where "TransitionMaintenance sample_env ''r1'' (sample_change ''stopped'') sample_any sample_audit (sample_at ''stopping'' ''stopped'') = (Inr agg, s')"
    using sample_stopped by blast
  with stopped_needs_resolved_targets [OF this sample_unique(1) _ sample_unique(2)] show ?thesis by (auto simp: sample_change_def sample_target_def)
qed

text \<open>C13: A run is completed only from the state starting, with its capture, at least one target, and
  every target either skipped or back in the state it was captured in.\<close>

theorem completion_needs_reconciled_targets:
  assumes "TransitionMaintenance E i change pre audit s = (Inr agg, s')" "run_unique (s_db s)" "sc_State change = ''completed''"
  shows "(\<exists>r. maintenance_by_id i (s_db s) = Some r \<and> mr_state r = ''starting'') \<and> capture_count i (s_db s) = 1
    \<and> (\<exists>t \<in> set (targets_t (s_db s)). tr_maintenance_id t = i)
    \<and> (\<forall>t \<in> set (targets_t (s_db s)). tr_maintenance_id t = i \<longrightarrow> tr_state t = ''skipped''
        \<or> (tr_original_state t = ''running'' \<and> tr_state t = ''healthy'') \<or> (tr_original_state t = ''stopped'' \<and> tr_state t = ''stopped''))"
  using assms(1,2)
proof (cases rule: TransitionMaintenance_Inr)
  case (1 r payload now n)
  have m: "m_ID (scanMaintenance r) = i" "m_State (scanMaintenance r) = mr_state r"
    using 1(1) assms(2) by (simp_all add: scanMaintenance_def maintenance_by_id_iff)
  then have c: "completion_allowed i (s_db s)" "ValidMaintenanceTransition (mr_state r) ''completed''"
    using 1(5) assms(3) by (simp_all add: transition_allowed_def)
  have ts: "set (target_rows i (s_db s)) = {t \<in> set (targets_t (s_db s)). tr_maintenance_id t = i}" by (auto simp: target_rows_def)
  have "targetCompletionAllowed a b \<Longrightarrow> b = ''skipped'' \<or> (a = ''running'' \<and> b = ''healthy'') \<or> (a = ''stopped'' \<and> b = ''stopped'')" for a b
    by (auto simp: targetCompletionAllowed_def split: if_splits)
  moreover have "\<exists>t. t \<in> set (target_rows i (s_db s))" using c(1) by (cases "target_rows i (s_db s)") (auto simp: completion_allowed_def)
  ultimately show ?thesis using c 1(1) ts transition_sources(1) by (auto simp: completion_allowed_def)
qed

theorem completion_needs_reconciled_targets_witness:
  "\<exists>agg s'. TransitionMaintenance sample_env ''r1'' (sample_change ''completed'') sample_any sample_audit (sample_at ''starting'' ''healthy'') = (Inr agg, s')
     \<and> capture_count ''r1'' (s_db (sample_at ''starting'' ''healthy'')) = 1"
proof -
  obtain agg s' where "TransitionMaintenance sample_env ''r1'' (sample_change ''completed'') sample_any sample_audit (sample_at ''starting'' ''healthy'') = (Inr agg, s')"
    using sample_completed by blast
  with completion_needs_reconciled_targets [OF this sample_unique(1)] show ?thesis by (auto simp: sample_change_def)
qed

section \<open>Transitions of a target\<close>

text \<open>C15: A target transition that succeeds follows the target table within the right phase of an active
  run, only an administrator with a justification skips, and both rows advance by one version: the target's
  to the new state, the run's without a change of state, each otherwise as it was, and the answer shows them.
  The journal gains exactly one event on this target, a skip or a transition, with the old and the new state
  and version of the target, the new version of the run, and the caller.\<close>

theorem target_contract:
  assumes "TransitionTarget E i ti change pre audit s = (Inr res, s')" "run_unique (s_db s)" "target_unique (s_db s)"
    and "\<forall>r \<in> set (maintenance_t (s_db s)). in_int64 (mr_version r)" "\<forall>t \<in> set (targets_t (s_db s)). in_int64 (tr_version t)"
  shows "\<exists>r t. maintenance_by_id i (s_db s) = Some r \<and> target_by_id i ti (s_db s) = Some t
    \<and> \<not> IsMaintenanceTerminal (mr_state r) \<and> ValidTargetTransition (tr_state t) (sc_State change) \<and> vp_match pre (tr_version t)
    \<and> (if sc_State change = ''skipped'' then isAdmin (a_Role audit) \<and> validJustification (sc_Justification change) = Inr ()
       else tr_original_state t \<notin> {''stopped'', ''degraded'', ''unknown''})
    \<and> (sc_State change \<noteq> ''skipped'' \<longrightarrow> targetPhaseAllowed (mr_state r) (sc_State change))
    \<and> ttr_MaintenanceVersion res = mr_version r + 1 \<and> t_Version (ttr_Target res) = tr_version t + 1
    \<and> t_State (ttr_Target res) = sc_State change
    \<and> (\<exists>r'. maintenance_by_id i (s_db s') = Some r' \<and> r' = r\<lparr>mr_version := mr_version r + 1, mr_updated_at := mr_updated_at r'\<rparr>)
    \<and> (\<exists>t'. target_by_id i ti (s_db s') = Some t'
        \<and> t' = t\<lparr>tr_state := sc_State change, tr_version := tr_version t + 1, tr_updated_at := tr_updated_at t'\<rparr>)
    \<and> (\<exists>row. events_t (s_db s') = events_t (s_db s) @ [row]
        \<and> er_event_type row = (if sc_State change = ''skipped'' then ''target.skipped'' else ''target.transitioned'')
        \<and> er_resource_type row = ''target'' \<and> er_resource_id row = ti \<and> er_maintenance_id row = Some i \<and> er_target_id row = Some ti
        \<and> er_from_state row = Some (tr_state t) \<and> er_to_state row = Some (sc_State change)
        \<and> er_from_version row = nullInt (tr_version t) \<and> er_to_version row = Some (tr_version t + 1)
        \<and> er_aggregate_version row = Some (mr_version r + 1)
        \<and> (er_actor row, er_role row, er_request_id row) = auditValues audit)"
  using assms(1-3)
proof (cases rule: TransitionTarget_Inr)
  case (1 r t payload now n)
  have r: "r \<in> set (maintenance_t (s_db s))" "mr_id r = i" "t \<in> set (targets_t (s_db s))"
    using 1(1,2) assms(2,3) by (simp_all add: maintenance_by_id_iff target_by_id_iff)
  have m: "m_ID (scanMaintenance r) = i" "m_Version (scanMaintenance r) = mr_version r" using r by (simp_all add: scanMaintenance_def)
  have v: "wrap64 (mr_version r + 1) = mr_version r + 1" "wrap64 (tr_version t + 1) = tr_version t + 1"
    using wrap64_succ_pos 1(7,8) assms(4,5) r by blast+
  let ?r = "r\<lparr>mr_version := mr_version r + 1, mr_updated_at := formatRFC3339Nano now\<rparr>"
  have "maintenance_by_id i (s_db s') = Some ?r"
    unfolding 1(11) moved_target_def m v using 1(1) by (rule set_run_lookup) (simp_all add: r set_target_def)
  moreover have a: "\<not> IsMaintenanceTerminal (mr_state r)" "ValidTargetTransition (tr_state t) (sc_State change)"
    "if sc_State change = ''skipped'' then isAdmin (a_Role audit) \<and> validJustification (sc_Justification change) = Inr ()
       else tr_original_state t \<notin> {''stopped'', ''degraded'', ''unknown''}"
    "sc_State change \<noteq> ''skipped'' \<longrightarrow> targetPhaseAllowed (mr_state r) (sc_State change)"
    using 1(6) unfolding target_allowed_def scan_simps by (simp_all split: if_splits)
  let ?t = "t\<lparr>tr_state := sc_State change, tr_version := tr_version t + 1, tr_updated_at := formatRFC3339Nano now\<rparr>"
  have ti: "tr_maintenance_id t = i" "tr_id t = ti" using 1(2) assms(3) by (simp_all add: target_by_id_iff)
  then have "target_by_id i ti (s_db s') = Some ?t"
    unfolding 1(11) moved_target_def m v using set_target_lookup [OF 1(2)] by (simp add: target_by_id_def scan_simps v)
  moreover define row where "row = logged_row (target_event (scanMaintenance r) (scanTarget t) (sc_State change) payload audit now)
    (moved_target (scanMaintenance r) (scanTarget t) (sc_State change) now (s_db s))"
  have ne: "i \<noteq> ''''" "ti \<noteq> ''''" "0 < mr_version r + 1" "0 < tr_version t + 1"
    using assms(1) 1(7,8) v by (auto simp: TransitionTarget_def throwT_Inr dest: validID_not_Nil split: if_splits)
  have "er_event_type row = (if sc_State change = ''skipped'' then ''target.skipped'' else ''target.transitioned'')
      \<and> er_resource_type row = ''target'' \<and> er_resource_id row = ti \<and> er_maintenance_id row = Some i \<and> er_target_id row = Some ti
      \<and> er_from_state row = Some (tr_state t) \<and> er_to_state row = Some (sc_State change)
      \<and> er_from_version row = nullInt (tr_version t) \<and> er_to_version row = Some (tr_version t + 1)
      \<and> er_aggregate_version row = Some (mr_version r + 1)"
    using ne transition_states(2) [OF a(2)] r(2) ti
    by (simp add: row_def logged_fields target_fields target_type_def nullText_def nullInt_def scan_simps v)
  moreover have "(er_actor row, er_role row, er_request_id row) = auditValues audit" unfolding row_def by (rule event_caller)
  moreover have "events_t (s_db s') = events_t (s_db s) @ [row]" by (simp add: 1(11) moved_events row_def)
  ultimately show ?thesis
    using 1(1,2,5) a unfolding 1(12) v by (intro exI [of _ r] exI [of _ t]) simp
qed

theorem target_contract_witness:
  "\<exists>res s'. TransitionTarget sample_env ''r1'' ''t1'' (sample_change ''stopping'') sample_any sample_audit sample_live = (Inr res, s')
     \<and> ttr_MaintenanceVersion res = 4 \<and> (\<exists>t' row. target_by_id ''r1'' ''t1'' (s_db s') = Some t' \<and> tr_state t' = ''stopping'' \<and> tr_version t' = 3
       \<and> events_t (s_db s') = events_t (s_db sample_live) @ [row] \<and> er_event_type row = ''target.transitioned'' \<and> er_to_version row = Some 3)"
proof -
  obtain res s' where eq: "TransitionTarget sample_env ''r1'' ''t1'' (sample_change ''stopping'') sample_any sample_audit sample_live = (Inr res, s')"
    using sample_transition_target by blast
  obtain r t t' row where rt: "maintenance_by_id ''r1'' (s_db sample_live) = Some r" "target_by_id ''r1'' ''t1'' (s_db sample_live) = Some t"
    "ttr_MaintenanceVersion res = mr_version r + 1" "target_by_id ''r1'' ''t1'' (s_db s') = Some t'"
    and t': "t' = t\<lparr>tr_state := ''stopping'', tr_version := tr_version t + 1, tr_updated_at := tr_updated_at t'\<rparr>"
    and row: "events_t (s_db s') = events_t (s_db sample_live) @ [row]" "er_event_type row = ''target.transitioned''" "er_to_version row = Some (tr_version t + 1)"
    using target_contract [OF eq sample_live_ok] by (auto simp: sample_change_def)
  then have v: "mr_version r = 3" "tr_version t = 2"
    by (auto simp: sample_live_def sample_at_def maintenance_by_id_def target_by_id_def sample_row_def sample_target_def)
  have "tr_state t' = ''stopping''" "tr_version t' = 3" using v by (subst t', simp)+
  with eq rt row v show ?thesis by auto
qed

section \<open>Captures and observations are written once\<close>

lemma capture_found:
  assumes "validID i" "canonicalJSONObject (c_Payload c) = Inr payload" "parseCaptureTargets payload = Inr ts" "\<And>n. \<not> fault E n"
    and "maintenance_by_id i (s_db s) = Some r" "capture_by_id i (s_db s) = Some row"
  shows "\<exists>s'. CaptureMaintenance E i c audit s
      = (if cr_sha256 row = sha256_hex E payload \<and> cr_payload_json row = payload
         then Inr \<lparr>cres_Capture = scanCapture row, cres_Created = False\<rparr>
         else Inl (conflictError (Some ErrConflict) ''immutable_capture_mismatch'' ''capture'' i 0 0 (mr_state r) ''captured''), s')
    \<and> s_db s' = s_db s"
  using assms by (auto simp: CaptureMaintenance_def capture_tx_def Let_def tx_defs scanMaintenance_def)

lemma saved_capture_views:
  assumes "save_ok E m (capture_of E i at payload) ts audit now db"
  shows "capture_by_id i (saved_capture E m (capture_of E i at payload) ts audit now db)
      = Some \<lparr>cr_maintenance_id = i, cr_captured_at = formatRFC3339Nano at, cr_payload_json = payload, cr_sha256 = sha256_hex E payload\<rparr>"
    and "maintenance_by_id i (saved_capture E m (capture_of E i at payload) ts audit now db) \<noteq> None"
proof -
  have c: "c_MaintenanceID (capture_of E i at payload) = i" by (simp add: capture_of_def)
  obtain r where r: "maintenance_by_id i db = Some r" using assms c by (auto simp: save_ok_def)
  have "capture_by_id i db = None" using assms c by (simp add: save_ok_def)
  with add_capture_views(3) [OF c this, of ts] show "capture_by_id i (saved_capture E m (capture_of E i at payload) ts audit now db)
      = Some \<lparr>cr_maintenance_id = i, cr_captured_at = formatRFC3339Nano at, cr_payload_json = payload, cr_sha256 = sha256_hex E payload\<rparr>"
    by (simp add: saved_capture_def c) (simp add: capture_of_def)
  have "mr_id r = i" using r by (auto simp: maintenance_by_id_def find_Some_iff)
  with set_run_lookup [OF r] show "maintenance_by_id i (saved_capture E m (capture_of E i at payload) ts audit now db) \<noteq> None"
    by (simp add: saved_capture_def c add_capture_def Let_def)
qed

text \<open>What a successful capture answers is what is stored.\<close>

lemma capture_stored:
  assumes "CaptureMaintenance E i c audit s = (Inr res, s')" "run_unique (s_db s)" "env_ok E" "c_CapturedAt c = 0 \<or> time_ok (c_CapturedAt c)"
  obtains payload ts row where "validID i" "canonicalJSONObject (c_Payload c) = Inr payload" "parseCaptureTargets payload = Inr ts"
    "maintenance_by_id i (s_db s') \<noteq> None" "capture_by_id i (s_db s') = Some row"
    "cr_sha256 row = sha256_hex E payload" "cr_payload_json row = payload" "scanCapture row = cres_Capture res"
proof -
  obtain payload ts where v: "validID i" "canonicalJSONObject (c_Payload c) = Inr payload" "parseCaptureTargets payload = Inr ts"
    using assms(1) by (auto simp: CaptureMaintenance_def throwT_Inr bindT_Inr split: if_splits sum.splits)
  show ?thesis
    using assms(1,2)
  proof (cases rule: CaptureMaintenance_Inr)
    case (same payload' row)
    moreover have "maintenance_by_id i (s_db s) \<noteq> None"
      using assms(1) by (auto simp: CaptureMaintenance_def capture_tx_def Let_def tx_control loadMaintenance_Inr writeT_Inr split: if_splits sum.splits)
    ultimately show ?thesis using v by (intro that [OF v]) simp_all
  next
    case (saved payload' targets at m now n k)
    have "time_ok at" using saved(4) assms(3,4) by (auto simp: env_ok_def split: if_splits)
    with saved v saved_capture_views [OF saved(6)] show ?thesis
      by (intro that [OF v]) (auto simp: capture_of_def scanCapture_def)
  qed
qed

text \<open>C19: A saved capture is immutable: a request with another payload is refused with the conflict
  \<open>immutable_capture_mismatch\<close> and changes nothing.\<close>

theorem capture_immutable:
  assumes "validID i" "canonicalJSONObject (c_Payload c) = Inr payload" "parseCaptureTargets payload = Inr ts" "\<And>n. \<not> fault E n"
    and "maintenance_by_id i (s_db s) = Some r" "capture_by_id i (s_db s) = Some row" "cr_payload_json row \<noteq> payload"
  shows "\<exists>s'. CaptureMaintenance E i c audit s
    = (Inl (conflictError (Some ErrConflict) ''immutable_capture_mismatch'' ''capture'' i 0 0 (mr_state r) ''captured''), s') \<and> s_db s' = s_db s"
  using capture_found [OF assms(1-6), of audit] assms(7) by auto

theorem capture_immutable_witness:
  "\<exists>s s'. CaptureMaintenance sample_env ''r1'' sample_capture sample_audit s
    = (Inl (conflictError (Some ErrConflict) ''immutable_capture_mismatch'' ''capture'' ''r1'' 0 0 (mr_state sample_row) ''captured''), s') \<and> s_db s' = s_db s"
proof -
  let ?row = "\<lparr>cr_maintenance_id = ''r1'', cr_captured_at = ''c'', cr_payload_json = ''[]'', cr_sha256 = ''ab''\<rparr>"
  let ?s = "\<lparr>s_db = \<lparr>maintenance_t = [sample_row], captures_t = [?row], targets_t = [], events_t = []\<rparr>, s_ticks = 0\<rparr>"
  have "\<exists>s'. CaptureMaintenance sample_env ''r1'' sample_capture sample_audit ?s
    = (Inl (conflictError (Some ErrConflict) ''immutable_capture_mismatch'' ''capture'' ''r1'' 0 0 (mr_state sample_row) ''captured''), s') \<and> s_db s' = s_db ?s"
    by (rule capture_immutable [where payload = "''{}''" and ts = "[]" and row = ?row])
      (simp_all add: sample_capture_def sample_object sample_targets sample_env_ok maintenance_by_id_def capture_by_id_def sample_row_def)
  then show ?thesis by (rule exI [of _ ?s])
qed

lemma observation_found:
  assumes "validID i" "validID ti" "canonicalJSONObject payload = Inr canonical" "length canonical \<le> 64 * 1024" "\<And>n. \<not> fault E n"
    and "observation_by_request i ti (snd (snd (auditValues audit))) (s_db s) = Some row"
  shows "\<exists>s'. AddObservation E i ti payload pre audit s
      = (if er_payload_json row = canonical then Inr ()
         else Inl (conflictError (Some ErrConflict) ''observation_request_id_reused'' ''target'' ti 0 0 '''' ''observed''), s') \<and> s_db s' = s_db s"
proof -
  obtain actor role req where "auditValues audit = (actor, role, req)" by (rule prod_cases3)
  with assms show ?thesis by (simp add: AddObservation_def observation_tx_def tx_defs)
qed

lemma observed_lookup:
  "observation_by_request i ti (snd (snd (auditValues audit))) db = None \<Longrightarrow> i \<noteq> '''' \<Longrightarrow> ti \<noteq> '''' \<Longrightarrow> canonical \<noteq> '''' \<Longrightarrow>
    \<exists>row. observation_by_request i ti (snd (snd (auditValues audit))) (log_event (observed_event i ti canonical audit now) db) = Some row
      \<and> er_payload_json row = canonical"
proof -
  have "find P (xs @ [x]) = Some x" if "find P xs = None" "P x" for P xs and x :: event_row
    using that by (induction xs) (auto split: if_splits)
  moreover assume "observation_by_request i ti (snd (snd (auditValues audit))) db = None" "i \<noteq> ''''" "ti \<noteq> ''''" "canonical \<noteq> ''''"
  moreover have "e_RequestID (filled_event (observed_event i ti canonical audit now)) = snd (snd (auditValues audit))"
    by (simp add: observed_event_def filled_event_def auditValues_def)
  ultimately show ?thesis by (simp add: observation_by_request_def logged_row_def event_row_of_def nullText_def)
qed

text \<open>C20: A request id records at most one observation of a target: repeating the request with the same
  payload succeeds and changes nothing, with another payload it is refused and changes nothing.\<close>

theorem observation_idempotent:
  assumes "AddObservation E i ti payload pre audit s = (Inr u, s')" "\<And>n. \<not> fault E n"
    and "canonicalJSONObject payload' = Inr canonical'" "length canonical' \<le> 64 * 1024"
    and "snd (snd (auditValues audit')) = snd (snd (auditValues audit))"
  shows "\<exists>s''. AddObservation E i ti payload' pre' audit' s'
      = (if canonicalJSONObject payload = Inr canonical' then Inr ()
         else Inl (conflictError (Some ErrConflict) ''observation_request_id_reused'' ''target'' ti 0 0 '''' ''observed''), s'')
    \<and> s_db s'' = s_db s'"
proof -
  have v: "validID i" "validID ti" using assms(1) by (auto simp: AddObservation_def throwT_Inr split: if_splits)
  obtain row canonical where row: "canonicalJSONObject payload = Inr canonical" "er_payload_json row = canonical"
    "observation_by_request i ti (snd (snd (auditValues audit'))) (s_db s') = Some row"
    using assms(1)
  proof (cases rule: AddObservation_Inr)
    case (same canonical row)
    then show ?thesis using assms(5) by (intro that) simp_all
  next
    case (added canonical r tr now n)
    show ?thesis
      using observed_lookup [OF added(5) validID_not_Nil [OF v(1)] validID_not_Nil [OF v(2)] canonical_text_not_Nil [OF canonicalJSONObject_canonical [OF added(3)]], of now]
        added(3,12) assms(5) by (auto intro: that)
  qed
  from observation_found [OF v assms(3,4,2) row(3), of pre'] row(1,2) show ?thesis by simp
qed

theorem observation_idempotent_witness:
  "\<exists>s' s''. AddObservation sample_env ''r1'' ''t1'' '''' sample_any sample_audit sample_live = (Inr (), s')
    \<and> AddObservation sample_env ''r1'' ''t1'' '''' sample_any sample_audit s' = (Inr (), s'') \<and> s_db s'' = s_db s'"
proof -
  obtain s' where eq: "AddObservation sample_env ''r1'' ''t1'' '''' sample_any sample_audit sample_live = (Inr (), s')"
    using sample_observation by blast
  from observation_idempotent [OF eq sample_env_ok(3) sample_object] eq sample_object show ?thesis by fastforce
qed

end
