(* ===== verification/History.thy ===== *)
theory History
  imports Accepts
begin

text \<open>
  History is never rewritten: whatever an operation does, the rows that were there before keep their
  identity, versions never go down, captures and events stay, and a change of the database comes with
  exactly one new event.
\<close>

definition run_kept :: "maintenance_row \<Rightarrow> maintenance_row \<Rightarrow> bool" where
  "run_kept r r' \<longleftrightarrow> mr_rowid r' = mr_rowid r \<and> \<not> maintenance_identity_changed r r' \<and> mr_version r \<le> mr_version r'
     \<and> (mr_version r' = mr_version r \<longrightarrow> r' = r)"

definition target_kept :: "target_row \<Rightarrow> target_row \<Rightarrow> bool" where
  "target_kept t t' \<longleftrightarrow> \<not> targets_identity_changed t t' \<and> tr_version t \<le> tr_version t'
     \<and> (tr_version t' = tr_version t \<longrightarrow> t' = t)"

definition kept :: "('a \<Rightarrow> 'a \<Rightarrow> bool) \<Rightarrow> 'a list \<Rightarrow> 'a list \<Rightarrow> bool" where
  "kept R xs ys \<longleftrightarrow> (\<exists>zs ws. ys = zs @ ws \<and> list_all2 R xs zs)"

definition history_kept :: "database \<Rightarrow> database \<Rightarrow> bool" where
  "history_kept db db' \<longleftrightarrow> kept run_kept (maintenance_t db) (maintenance_t db') \<and> kept target_kept (targets_t db) (targets_t db')
     \<and> (\<exists>cs. captures_t db' = captures_t db @ cs)"

definition one_event :: "database \<Rightarrow> database \<Rightarrow> bool" where
  "one_event db db' \<longleftrightarrow> db' = db \<or> (\<exists>e. events_t db' = events_t db @ [e])"

lemma kept_refl: "(\<And>x. x \<in> set xs \<Longrightarrow> R x x) \<Longrightarrow> kept R xs (xs @ ys)"
  unfolding kept_def by (metis list.rel_refl_strong)

lemma kept_map: "(\<And>x. x \<in> set xs \<Longrightarrow> R x (f x)) \<Longrightarrow> kept R xs (map f xs)"
  unfolding kept_def by (intro exI [of _ "map f xs"] exI [of _ "[]"]) (auto simp: list_all2_map2 intro!: list.rel_refl_strong)

lemma kept_rows_refl [simp]: "run_kept r r" "target_kept t t"
  by (simp_all add: run_kept_def target_kept_def maintenance_identity_changed_def targets_identity_changed_def)

lemma kept_same [simp]: "kept run_kept ms ms" "kept run_kept ms (ms @ ms')" "kept target_kept ts ts" "kept target_kept ts (ts @ ts')"
  using kept_refl [of ms run_kept "[]"] kept_refl [of ms run_kept ms'] kept_refl [of ts target_kept "[]"] kept_refl [of ts target_kept ts']
  by simp_all

lemma history_refl: "history_kept db db" "one_event db db"
  by (simp_all add: history_kept_def one_event_def)

lemma history_log: "history_kept db db' \<Longrightarrow> history_kept db (log_event ev db')"
  by (simp add: history_kept_def)

lemma one_event_log: "events_t db' = events_t db \<Longrightarrow> one_event db (log_event ev db')"
  by (simp add: one_event_def)

text \<open>The one run with an id advances.\<close>

lemma kept_set_run:
  assumes "run_unique db" "maintenance_by_id i db = Some r" "run_kept r (f r)"
  shows "kept run_kept (maintenance_t db) (map (\<lambda>x. if mr_id x = i then f x else x) (maintenance_t db))"
proof (rule kept_map)
  fix x
  assume "x \<in> set (maintenance_t db)"
  then show "run_kept x (if mr_id x = i then f x else x)"
    using assms maintenance_by_id_iff [OF assms(1), of i x] by auto
qed

lemma run_advances:
  assumes "run_unique db" "maintenance_by_id i db = Some r" "mr_version r < v"
  shows "kept run_kept (maintenance_t db)
      (map (\<lambda>x. if mr_id x = i then x\<lparr>mr_state := st, mr_version := v, mr_updated_at := u\<rparr> else x) (maintenance_t db))"
    and "kept run_kept (maintenance_t db)
      (map (\<lambda>x. if mr_id x = i then x\<lparr>mr_version := v, mr_updated_at := u\<rparr> else x) (maintenance_t db))"
  using assms(3)
  by (intro kept_set_run [OF assms(1,2), where f = "\<lambda>x. x\<lparr>mr_state := st, mr_version := v, mr_updated_at := u\<rparr>"]
      kept_set_run [OF assms(1,2), where f = "\<lambda>x. x\<lparr>mr_version := v, mr_updated_at := u\<rparr>"],
      simp add: run_kept_def maintenance_identity_changed_def)+

lemma succ_version:
  assumes "db_inv E db" "maintenance_by_id i db = Some r" "0 < wrap64 (mr_version r + 1)"
  shows "mr_version r < wrap64 (mr_version r + 1)"
    and "target_by_id i ti db = Some t \<Longrightarrow> tr_version t < wrap64 (tr_version t + 1)"
proof -
  have r: "r \<in> set (maintenance_t db)" "mr_id r = i"
    using assms(1,2) db_inv_unique(1) maintenance_by_id_iff by blast+
  then have "versions_ok r (rows_of i db)" using assms(1) by (auto simp: db_inv_def runs_ok_def run_ok_def)
  note v = versions_succ [OF this assms(3)]
  show "mr_version r < wrap64 (mr_version r + 1)" using v(1) by simp
  assume "target_by_id i ti db = Some t"
  then have "t \<in> set (rows_of i db)" using row_by_id_Some by (fastforce simp: target_view)
  with v(4) show "tr_version t < wrap64 (tr_version t + 1)" by simp
qed

lemma history_create:
  "CreateMaintenance E m audit s = (Inr x, s') \<Longrightarrow> history_kept (s_db s) (s_db s') \<and> one_event (s_db s) (s_db s')"
  using CreateMaintenance_Inr(7) [of E m audit s x s']
  by (auto simp: history_kept_def one_event_def add_maintenance_def)

lemma history_capture:
  assumes "CaptureMaintenance E i c audit s = (Inr x, s')" "db_inv E (s_db s)"
  shows "history_kept (s_db s) (s_db s') \<and> one_event (s_db s) (s_db s')"
  using assms(1) db_inv_unique(1) [OF assms(2)]
proof (cases rule: CaptureMaintenance_Inr)
  case (same payload row)
  then show ?thesis using history_refl by simp
next
  case (saved payload targets at m now n k)
  obtain r where r: "maintenance_by_id i (s_db s) = Some r" "m = scanMaintenance r" "0 < wrap64 (m_Version m + 1)"
    using saved(6) by (auto simp: save_ok_def capture_of_def)
  then have v: "mr_version r < wrap64 (m_Version m + 1)" using succ_version(1) [OF assms(2) r(1)] by (simp add: scanMaintenance_def)
  show ?thesis
    using run_advances(1) [OF db_inv_unique(1) [OF assms(2)] r(1) v]
    by (auto simp: saved(7) saved_capture_def capture_of_def history_kept_def one_event_def add_capture_def Let_def)
qed

lemma history_transition:
  assumes "TransitionMaintenance E i change pre audit s = (Inr x, s')" "db_inv E (s_db s)"
  shows "history_kept (s_db s) (s_db s') \<and> one_event (s_db s) (s_db s')"
  using assms(1) db_inv_unique(1) [OF assms(2)]
proof (cases rule: TransitionMaintenance_Inr)
  case (1 r payload now n)
  have m: "m_ID (scanMaintenance r) = i" "m_Version (scanMaintenance r) = mr_version r"
    using 1(1) db_inv_unique(1) [OF assms(2)] maintenance_by_id_iff by (auto simp: scanMaintenance_def)
  have b: "kept target_kept (targets_t db) (targets_t (bump_targets i u db))" for u db
    unfolding bump_targets_def by (simp, rule kept_map) (simp add: target_kept_def targets_identity_changed_def)
  show ?thesis
    using run_advances(1) [OF db_inv_unique(1) [OF assms(2)] 1(1) succ_version(1) [OF assms(2) 1(1,6)]] b
    by (auto simp: 1(8) moved_run_def m history_kept_def one_event_def bump_targets_views)
qed

lemma history_target:
  assumes "TransitionTarget E i ti change pre audit s = (Inr x, s')" "db_inv E (s_db s)"
  shows "history_kept (s_db s) (s_db s') \<and> one_event (s_db s) (s_db s')"
  using assms(1) db_inv_unique [OF assms(2)]
proof (cases rule: TransitionTarget_Inr)
  case (1 r t payload now n)
  let ?db = "s_db s"
  have u: "run_unique ?db" "target_unique ?db" using db_inv_unique [OF assms(2)] by simp_all
  have m: "m_ID (scanMaintenance r) = i" "m_Version (scanMaintenance r) = mr_version r" "t_ID (scanTarget t) = ti" "t_Version (scanTarget t) = tr_version t"
    using 1(1,2) u by (auto simp: scanMaintenance_def scanTarget_def maintenance_by_id_iff target_by_id_iff)
  have "kept target_kept (targets_t ?db) (map (\<lambda>y. if tr_maintenance_id y = i \<and> tr_id y = ti
      then y\<lparr>tr_state := sc_State change, tr_version := wrap64 (tr_version t + 1), tr_updated_at := z\<rparr> else y) (targets_t ?db))" for z
  proof (rule kept_map)
    fix y
    assume "y \<in> set (targets_t ?db)"
    then have "tr_maintenance_id y = i \<and> tr_id y = ti \<Longrightarrow> y = t" using 1(2) target_by_id_iff [OF u(2), of i ti y] by auto
    then show "target_kept y (if tr_maintenance_id y = i \<and> tr_id y = ti
        then y\<lparr>tr_state := sc_State change, tr_version := wrap64 (tr_version t + 1), tr_updated_at := z\<rparr> else y)"
      using succ_version(2) [OF assms(2) 1(1,7,2)] by (auto simp: target_kept_def targets_identity_changed_def)
  qed
  then show ?thesis
    using run_advances(2) [OF u(1) 1(1) succ_version(1) [OF assms(2) 1(1,7)]]
    by (auto simp: 1(11) moved_target_def m history_kept_def one_event_def set_target_def)
qed

lemma history_observe:
  "AddObservation E i ti payload pre audit s = (Inr x, s') \<Longrightarrow> history_kept (s_db s) (s_db s') \<and> one_event (s_db s) (s_db s')"
  by (erule AddObservation_Inr) (simp_all add: history_refl history_log one_event_log)

lemma history_result:
  assumes "\<And>e. res = Inl e \<Longrightarrow> db' = db" "\<And>x. res = Inr x \<Longrightarrow> history_kept db db' \<and> one_event db db'"
  shows "history_kept db db' \<and> one_event db db'"
  using assms history_refl by (cases res) auto

lemmas history_ops = history_create history_capture history_transition history_target history_observe

end
