(* ===== verification/Board.thy ===== *)
theory Board
  imports Contracts History
begin

text \<open>
  What the store promises, without rows, journal, locks by trigger or transactions: a board of runs and
  targets with their states and versions, and the moves an operator may see on it. The operations on the
  database refine it: \<open>board_of\<close> reads the board off the tables, and what an operation does to the tables is
  one move of the board, or none.
\<close>

section \<open>The contract of a refinement\<close>

text \<open>A system with an invariant refines a specification when, from a state with the invariant, each of its
  steps is a step of the specification between the abstractions of its states.\<close>

locale refinement = invariant_system start step inv
  for start :: "'s \<Rightarrow> bool" and step :: "'s \<Rightarrow> 's \<Rightarrow> bool" and inv :: "'s \<Rightarrow> bool" +
  fixes abs :: "'s \<Rightarrow> 'a"
    and spec :: "'a \<Rightarrow> 'a \<Rightarrow> bool"
  assumes sim_step: "inv s \<Longrightarrow> step s t \<Longrightarrow> spec (abs s) (abs t)"
begin

lemma sim_steps: "step\<^sup>*\<^sup>* s t \<Longrightarrow> inv s \<Longrightarrow> spec\<^sup>*\<^sup>* (abs s) (abs t)"
proof (induction rule: rtranclp_induct)
  case (step t u)
  then have "inv t" using inv_rtranclp by blast
  with step show ?case by (meson rtranclp.rtrancl_into_rtrancl sim_step)
qed simp

lemma sim_reachable: "start s \<Longrightarrow> step\<^sup>*\<^sup>* s t \<Longrightarrow> spec\<^sup>*\<^sup>* (abs s) (abs t)"
  using sim_steps inv_start by blast

end

section \<open>The board and its moves\<close>

record slot =
  sl_lock :: string
  sl_original :: string
  sl_state :: string
  sl_version :: int

text \<open>Runs with state and version, the runs that have a capture, the slots of their targets, and the runs one
  of whose targets has been moved other than by skipping it.\<close>

record board =
  b_runs :: "string \<rightharpoonup> string \<times> int"
  b_captured :: "string set"
  b_targets :: "string \<times> string \<rightharpoonup> slot"
  b_exercised :: "string set"

definition no_board :: board where
  "no_board = \<lparr>b_runs = (\<lambda>i. None), b_captured = {}, b_targets = (\<lambda>k. None), b_exercised = {}\<rparr>"

definition holds_lock :: "board \<Rightarrow> string \<Rightarrow> string \<Rightarrow> bool" where
  "holds_lock b i key \<longleftrightarrow> (\<exists>t sl st v. b_targets b (i, t) = Some sl \<and> sl_lock sl = key \<and> b_runs b i = Some (st, v) \<and> \<not> lock_released st)"

definition resolved :: "slot \<Rightarrow> bool" where
  "resolved sl \<longleftrightarrow> sl_state sl = ''skipped'' \<or> sl_state sl = ''stopped'' \<and> sl_original sl \<in> {''running'', ''stopped''}"

definition run_may :: "board \<Rightarrow> string \<Rightarrow> string \<Rightarrow> string \<Rightarrow> bool" where
  "run_may b i old new \<longleftrightarrow> ValidMaintenanceTransition old new
    \<and> (old = ''failed'' \<longrightarrow> (new = ''new'' \<longleftrightarrow> i \<notin> b_captured b))
    \<and> (new = ''captured'' \<longrightarrow> old = ''failed'')
    \<and> (new = ''cancelled'' \<longrightarrow> old = ''captured'' \<longrightarrow> i \<notin> b_exercised b)
    \<and> (new = ''stopped'' \<longrightarrow> (\<forall>t sl. b_targets b (i, t) = Some sl \<longrightarrow> resolved sl))
    \<and> (new = ''completed'' \<longrightarrow> i \<in> b_captured b \<and> (\<exists>t sl. b_targets b (i, t) = Some sl)
        \<and> (\<forall>t sl. b_targets b (i, t) = Some sl \<longrightarrow> targetCompletionAllowed (sl_original sl) (sl_state sl)))"

definition target_may :: "string \<Rightarrow> slot \<Rightarrow> string \<Rightarrow> bool" where
  "target_may phase sl new \<longleftrightarrow> ValidTargetTransition (sl_state sl) new \<and> \<not> IsMaintenanceTerminal phase
    \<and> (new \<noteq> ''skipped'' \<longrightarrow> sl_original sl \<notin> {''degraded'', ''unknown'', ''stopped''} \<and> targetPhaseAllowed phase new)"

definition fresh_slot :: "slot \<Rightarrow> bool" where
  "fresh_slot sl \<longleftrightarrow> sl_version sl = 1 \<and> sl_original sl \<in> {''running'', ''stopped'', ''degraded'', ''unknown''}
    \<and> sl_state sl = (if sl_original sl = ''stopped'' then ''stopped'' else ''captured'')"

definition bumped :: "slot \<Rightarrow> slot" where
  "bumped sl = sl\<lparr>sl_version := sl_version sl + 1\<rparr>"

inductive board_step :: "board \<Rightarrow> board \<Rightarrow> bool" where
  idle: "board_step b b"
| create: "b_runs b i = None \<Longrightarrow> board_step b (b\<lparr>b_runs := (b_runs b)(i \<mapsto> (''new'', 1))\<rparr>)"
| capture: "b_runs b i = Some (''new'', v) \<Longrightarrow> i \<notin> b_captured b
    \<Longrightarrow> (\<And>t sl. ts t = Some sl \<Longrightarrow> fresh_slot sl \<and> b_targets b (i, t) = None \<and> (\<forall>j. \<not> holds_lock b j (sl_lock sl)))
    \<Longrightarrow> board_step b (b\<lparr>b_runs := (b_runs b)(i \<mapsto> (''captured'', v + 1)), b_captured := insert i (b_captured b),
          b_targets := b_targets b ++ (\<lambda>k. if fst k = i then ts (snd k) else None)\<rparr>)"
| transition: "b_runs b i = Some (old, v) \<Longrightarrow> run_may b i old new
    \<Longrightarrow> board_step b (b\<lparr>b_runs := (b_runs b)(i \<mapsto> (new, v + 1)),
          b_targets := (\<lambda>k. if fst k = i \<and> i \<in> b_captured b then map_option bumped (b_targets b k) else b_targets b k)\<rparr>)"
| target: "b_runs b i = Some (phase, v) \<Longrightarrow> b_targets b (i, t) = Some sl \<Longrightarrow> target_may phase sl new
    \<Longrightarrow> board_step b (b\<lparr>b_runs := (b_runs b)(i \<mapsto> (phase, v + 1)),
          b_targets := (b_targets b)((i, t) \<mapsto> bumped (sl\<lparr>sl_state := new\<rparr>)),
          b_exercised := (if new = ''skipped'' then b_exercised b else insert i (b_exercised b))\<rparr>)"

text \<open>Once a run is completed or cancelled, nothing on the board changes it or its targets.\<close>

lemma released_stuck: "lock_released st \<Longrightarrow> \<not> run_may b i st new" "lock_released st \<Longrightarrow> \<not> target_may st sl new" "\<not> lock_released ''new''"
  by (auto simp: lock_released_def run_may_def target_may_def ValidMaintenanceTransition_iff IsMaintenanceTerminal_def)

lemma board_frozen:
  assumes "board_step b b'" "b_runs b i = Some (st, v)" "lock_released st"
  shows "b_runs b' i = Some (st, v) \<and> (\<forall>t. b_targets b' (i, t) = b_targets b (i, t))"
  using assms(1)
proof cases
  case (capture j w ts)
  then have "j \<noteq> i" using assms(2,3) released_stuck(3) by auto
  then show ?thesis using assms(2) capture(1) by (simp add: map_add_def)
next
  case (transition j old w new)
  then have "j \<noteq> i" using assms(2,3) released_stuck(1) by auto
  then show ?thesis using assms(2) transition(1) by simp
next
  case (target j phase w t sl new)
  then have "j \<noteq> i" using assms(2,3) released_stuck(2) by auto
  then show ?thesis using assms(2) target(1) by simp
qed (use assms(2) in auto)

lemma board_frozen_steps:
  assumes "board_step\<^sup>*\<^sup>* b b'" "b_runs b i = Some (st, v)" "lock_released st"
  shows "b_runs b' i = Some (st, v) \<and> (\<forall>t. b_targets b' (i, t) = b_targets b (i, t))"
  using assms(1)
proof (induction rule: rtranclp_induct)
  case (step y z)
  from board_frozen [OF step(2) _ assms(3)] step(3) show ?case by auto
qed (use assms(2) in simp)

section \<open>The board of a database\<close>

definition slot_of :: "target_row \<Rightarrow> slot" where
  "slot_of r = \<lparr>sl_lock = tr_lock_key r, sl_original = tr_original_state r, sl_state = tr_state r, sl_version = tr_version r\<rparr>"

definition board_of :: "database \<Rightarrow> board" where
  "board_of db = \<lparr>b_runs = (\<lambda>i. map_option (\<lambda>r. (mr_state r, mr_version r)) (maintenance_by_id i db)),
     b_captured = cr_maintenance_id ` set (captures_t db),
     b_targets = (\<lambda>(i, t). map_option slot_of (target_by_id i t db)),
     b_exercised = {i. exercised_count i db \<noteq> 0}\<rparr>"

lemma board_of_empty: "board_of empty_db = no_board"
  by (auto simp: board_of_def no_board_def empty_db_def maintenance_by_id_def target_by_id_def exercised_count_def)

lemma board_of_simps:
  "b_runs (board_of db) i = map_option (\<lambda>r. (mr_state r, mr_version r)) (maintenance_by_id i db)"
  "i \<in> b_captured (board_of db) \<longleftrightarrow> i \<in> cr_maintenance_id ` set (captures_t db)"
  "b_targets (board_of db) (i, t) = map_option slot_of (target_by_id i t db)"
  "i \<in> b_exercised (board_of db) \<longleftrightarrow> exercised_count i db \<noteq> 0"
  by (simp_all add: board_of_def)

text \<open>How the board reads the tables when a row is changed or rows are added.\<close>

lemma find_map: "find P (map f xs) = map_option f (find (\<lambda>x. P (f x)) xs)"
  by (induction xs) auto

lemma find_append: "find P (xs @ ys) = (case find P xs of None \<Rightarrow> find P ys | Some x \<Rightarrow> Some x)"
  by (induction xs) auto

lemma runs_set_run:
  assumes "maintenance_by_id i db = Some r" "\<And>x. mr_id (f x) = mr_id x" "maintenance_t db' = maintenance_t db"
  shows "b_runs (board_of (set_run i f db')) = (b_runs (board_of db))(i \<mapsto> (mr_state (f r), mr_version (f r)))"
proof
  fix j
  have "maintenance_by_id j (set_run i f db') = map_option (\<lambda>x. if mr_id x = i then f x else x) (maintenance_by_id j db)"
    using assms(2,3) by (auto simp: maintenance_by_id_def set_run_def find_map if_distrib [of mr_id] cong: if_cong)
  moreover have "mr_id x = j" if "maintenance_by_id j db = Some x" for x
    using that by (auto simp: maintenance_by_id_def find_Some_iff)
  ultimately show "b_runs (board_of (set_run i f db')) j = ((b_runs (board_of db))(i \<mapsto> (mr_state (f r), mr_version (f r)))) j"
    using assms(1) by (auto simp: board_of_simps option.map_comp intro!: option.map_cong)
qed

lemma board_parts:
  "b_targets (board_of (set_run i f db)) = b_targets (board_of db)" "b_captured (board_of (set_run i f db)) = b_captured (board_of db)"
  "b_exercised (board_of (set_run i f db)) = b_exercised (board_of db)"
  "b_runs (board_of (log_event ev db)) = b_runs (board_of db)" "b_targets (board_of (log_event ev db)) = b_targets (board_of db)"
  "b_captured (board_of (log_event ev db)) = b_captured (board_of db)"
  by (simp_all add: board_of_def set_run_def maintenance_by_id_def target_by_id_def exercised_count_def)

lemma exercised_log:
  "b_exercised (board_of (log_event ev db))
    = b_exercised (board_of db) \<union> (if e_Type ev = ''target.transitioned'' \<and> e_MaintenanceID ev \<noteq> '''' then {e_MaintenanceID ev} else {})"
  by (auto simp: board_of_def exercised_count_def log_event_def logged_row_def event_row_of_def nullText_def)

lemma event_kinds:
  "e_Type (created_event m audit) = ''maintenance.created''" "e_Type (captured_event E m cap n audit now) = ''maintenance.captured''"
  "e_Type (transition_event m new payload audit now) = transition_type m new" "e_Type (observed_event i ti payload audit now) = ''target.observed''"
  "e_Type (target_event m t new payload audit now) = target_type new" "e_MaintenanceID (target_event m t new payload audit now) = m_ID m"
  by (simp_all add: created_event_def captured_event_def transition_event_def observed_event_def target_event_def Let_def split: prod.splits)

lemma target_by_id_map:
  assumes "targets_t db' = map g (targets_t db)" "\<And>x. tr_maintenance_id (g x) = tr_maintenance_id x \<and> tr_id (g x) = tr_id x"
  shows "target_by_id i t db' = map_option g (target_by_id i t db)"
  using assms by (simp add: target_by_id_def find_map)

lemma target_key: "target_by_id i t db = Some r \<Longrightarrow> r \<in> set (targets_t db) \<and> tr_maintenance_id r = i \<and> tr_id r = t"
  by (auto simp: target_by_id_def find_Some_iff)

lemma run_key: "maintenance_by_id i db = Some r \<Longrightarrow> r \<in> set (maintenance_t db) \<and> mr_id r = i"
  by (auto simp: maintenance_by_id_def find_Some_iff)

lemma board_eqI:
  "b_runs b = b_runs c \<Longrightarrow> b_captured b = b_captured c \<Longrightarrow> b_targets b = b_targets c \<Longrightarrow> b_exercised b = b_exercised c \<Longrightarrow> b = (c :: board)"
  by simp

section \<open>The operations refine the board\<close>

lemma next_version:
  assumes "db_inv E db" "maintenance_by_id i db = Some r" "0 < wrap64 (mr_version r + 1)"
  shows "wrap64 (mr_version r + 1) = mr_version r + 1"
    and "target_by_id i ti db = Some t \<Longrightarrow> wrap64 (tr_version t + 1) = tr_version t + 1"
proof -
  have r: "r \<in> set (maintenance_t db)" "mr_id r = i"
    using assms(1,2) db_inv_unique(1) maintenance_by_id_iff by blast+
  then have "versions_ok r (rows_of i db)" using assms(1) by (auto simp: db_inv_def runs_ok_def run_ok_def)
  note v = versions_succ [OF this assms(3)]
  show "wrap64 (mr_version r + 1) = mr_version r + 1" by (rule v(1))
  assume "target_by_id i ti db = Some t"
  then have "t \<in> set (rows_of i db)" using row_by_id_Some by (fastforce simp: target_view)
  then show "wrap64 (tr_version t + 1) = tr_version t + 1" by (rule v(4))
qed

lemma board_create:
  assumes "CreateMaintenance E m0 audit s = (Inr m, s')"
  shows "board_step (board_of (s_db s)) (board_of (s_db s'))"
proof -
  note c = CreateMaintenance_Inr [OF assms]
  let ?b = "board_of (s_db s)"
  have "board_of (s_db s') = ?b\<lparr>b_runs := (b_runs ?b)(m_ID m \<mapsto> (''new'', 1))\<rparr>"
  proof (rule board_eqI)
    show "b_runs (board_of (s_db s')) = b_runs (?b\<lparr>b_runs := (b_runs ?b)(m_ID m \<mapsto> (''new'', 1))\<rparr>)"
    proof
      fix i
      show "b_runs (board_of (s_db s')) i = b_runs (?b\<lparr>b_runs := (b_runs ?b)(m_ID m \<mapsto> (''new'', 1))\<rparr>) i"
        using c(1) by (auto simp: c(7) board_of_simps maintenance_by_id_def add_maintenance_def find_append create_ok_def maintenance_row_of_def split: option.splits)
    qed
  qed (simp_all add: c(7) board_parts exercised_log event_kinds,
      simp_all add: board_of_def add_maintenance_def target_by_id_def exercised_count_def)
  moreover have "b_runs ?b (m_ID m) = None" using c(1) by (simp add: create_ok_def board_of_simps)
  ultimately show ?thesis using board_step.create by simp
qed

lemma no_holder:
  assumes "lock_holders db key = []"
  shows "\<not> holds_lock (board_of db) j key"
proof
  assume "holds_lock (board_of db) j key"
  then obtain t r m where "target_by_id j t db = Some r" "tr_lock_key r = key" "maintenance_by_id j db = Some m" "\<not> lock_released (mr_state m)"
    by (auto simp: holds_lock_def board_of_simps slot_of_def)
  then have "r \<in> set (lock_holders db key)"
    using target_key run_key by (fastforce simp: lock_holders_def list_ex_iff)
  then show False using assms by simp
qed

lemma board_capture:
  assumes "CaptureMaintenance E i c audit s = (Inr res, s')" "db_inv E (s_db s)"
  shows "board_step (board_of (s_db s)) (board_of (s_db s'))"
  using assms(1) db_inv_unique(1) [OF assms(2)]
proof (cases rule: CaptureMaintenance_Inr)
  case (same payload row)
  then show ?thesis by (simp add: board_step.idle)
next
  case (saved payload targets at m now n k)
  let ?db = "s_db s" and ?b = "board_of (s_db s)"
  obtain r where r: "maintenance_by_id i ?db = Some r" "m = scanMaintenance r" "mr_state r = ''new''" "0 < wrap64 (mr_version r + 1)"
    "capture_by_id i ?db = None"
    using saved(6) by (auto simp: save_ok_def capture_of_def scanMaintenance_def)
  have v: "wrap64 (mr_version r + 1) = mr_version r + 1" by (rule next_version(1) [OF assms(2) r(1,4)])
  define ts where "ts = (\<lambda>t. map_option (\<lambda>u. slot_of (target_row_of i (formatRFC3339Nano at) u)) (find (\<lambda>u. ct_TargetID u = t) targets))"
  have ts: "\<exists>u \<in> set targets. ct_TargetID u = t \<and> sl = slot_of (target_row_of i (formatRFC3339Nano at) u)" if "ts t = Some sl" for t sl
    using that by (force simp: ts_def find_Some_iff)
  have "board_of (s_db s') = ?b\<lparr>b_runs := (b_runs ?b)(i \<mapsto> (''captured'', mr_version r + 1)), b_captured := insert i (b_captured ?b),
      b_targets := b_targets ?b ++ (\<lambda>k. if fst k = i then ts (snd k) else None)\<rparr>" (is "_ = ?c")
  proof (rule board_eqI)
    show "b_runs (board_of (s_db s')) = b_runs ?c"
      using r(1) by (simp add: saved(7) saved_capture_def capture_of_def board_parts r(2) scan_simps v)
        (subst runs_set_run [OF r(1)], simp_all add: add_capture_def Let_def)
    show "b_captured (board_of (s_db s')) = b_captured ?c"
      by (auto simp: saved(7) saved_capture_def capture_of_def board_parts) (auto simp: board_of_def add_capture_def Let_def)
    show "b_exercised (board_of (s_db s')) = b_exercised ?c"
      by (simp add: saved(7) saved_capture_def capture_of_def board_parts exercised_log event_kinds)
        (simp add: board_of_def exercised_count_def add_capture_def Let_def)
    show "b_targets (board_of (s_db s')) = b_targets ?c"
    proof
      fix k
      obtain j t where k: "k = (j :: string, t :: string)" by (cases k)
      have "find (\<lambda>r. tr_maintenance_id r = j \<and> tr_id r = t) (map (target_row_of i (formatRFC3339Nano at)) targets)
          = (if j = i then map_option (target_row_of i (formatRFC3339Nano at)) (find (\<lambda>u. ct_TargetID u = t) targets) else None)"
        by (auto simp: find_map target_row_of_def find_None_iff)
      moreover have "ts t = None \<or> target_by_id i t ?db = None" using saved(6) ts [of t] by (cases "ts t") (auto simp: save_ok_def capture_of_def)
      ultimately show "b_targets (board_of (s_db s')) k = b_targets ?c k"
        by (auto simp: k saved(7) saved_capture_def capture_of_def board_parts board_of_simps add_capture_def Let_def target_by_id_def
            find_append map_add_def ts_def option.map_comp comp_def split: option.splits)
    qed
  qed
  moreover have "board_step ?b \<dots>"
  proof (rule board_step.capture)
    show "b_runs ?b i = Some (''new'', mr_version r)" using r by (simp add: board_of_simps)
    show "i \<notin> b_captured ?b" using r(5) by (auto simp: board_of_simps capture_by_id_def find_None_iff)
    fix t sl
    assume "ts t = Some sl"
    then obtain u where u: "u \<in> set targets" "ct_TargetID u = t" "sl = slot_of (target_row_of i (formatRFC3339Nano at) u)" using ts by blast
    have "fresh_slot sl" using parseCaptureTargets_Inr(3) [OF saved(3) u(1)]
      by (auto simp: u fresh_slot_def slot_of_def target_row_of_def initial_target_state_def)
    moreover have "b_targets ?b (i, t) = None" using saved(6) u by (auto simp: save_ok_def capture_of_def board_of_simps)
    moreover have "\<not> holds_lock ?b j (sl_lock sl)" for j
      using saved(6) u by (intro no_holder) (auto simp: save_ok_def slot_of_def target_row_of_def)
    ultimately show "fresh_slot sl \<and> b_targets ?b (i, t) = None \<and> (\<forall>j. \<not> holds_lock ?b j (sl_lock sl))" by blast
  qed
  ultimately show ?thesis by simp
qed

text \<open>The guards of a transition read on the board.\<close>

lemma capture_once: "db_inv E db \<Longrightarrow> capture_count i db = (if i \<in> b_captured (board_of db) then 1 else 0)"
proof -
  assume "db_inv E db"
  then have "distinct (map cr_maintenance_id (captures_t db))" by (simp add: db_inv_def keys_ok_def)
  moreover have "length (filter (\<lambda>r. cr_maintenance_id r = i) cs) = (if i \<in> cr_maintenance_id ` set cs then 1 else 0)"
    if "distinct (map cr_maintenance_id cs)" for cs
    using that by (induction cs) (auto simp: filter_empty_conv image_iff)
  ultimately show ?thesis by (simp only: capture_count_def board_of_simps)
qed

lemma board_may:
  assumes "db_inv E db" "maintenance_by_id i db = Some r" "transition_allowed (scanMaintenance r) change audit db"
  shows "run_may (board_of db) i (mr_state r) (sc_State change)"
proof -
  have i: "mr_id r = i" using run_key [OF assms(2)] by simp
  have row: "\<exists>x \<in> set (targets_t db). tr_maintenance_id x = i \<and> sl = slot_of x" if "b_targets (board_of db) (i, t) = Some sl" for t sl
    using that target_key by (fastforce simp: board_of_simps)
  have res: "resolved (slot_of x) \<longleftrightarrow> \<not> unresolved x" for x by (auto simp: resolved_def slot_of_def unresolved_def)
  have "resolved sl" if "sc_State change = ''stopped''" "b_targets (board_of db) (i, t) = Some sl" for t sl
    using assms(3) that(1) row [OF that(2)] res by (auto simp: transition_allowed_def unresolved_count_def scan_simps i filter_empty_conv)
  moreover have "(\<exists>t sl. b_targets (board_of db) (i, t) = Some sl) \<and> (\<forall>t sl. b_targets (board_of db) (i, t) = Some sl \<longrightarrow> targetCompletionAllowed (sl_original sl) (sl_state sl))
      \<and> i \<in> b_captured (board_of db)" if "sc_State change = ''completed''"
  proof -
    have c: "completion_allowed i db" using assms(3) that by (simp add: transition_allowed_def scan_simps i)
    then obtain x where x: "x \<in> set (target_rows i db)" unfolding completion_allowed_def by (meson list.set_sel(1))
    then have "target_by_id i (tr_id x) db = Some x"
      using target_by_id_iff [OF db_inv_unique(2) [OF assms(1)]] by (simp add: target_rows_def)
    then have ex: "b_targets (board_of db) (i, tr_id x) = Some (slot_of x)" by (simp add: board_of_simps)
    have all: "targetCompletionAllowed (sl_original sl) (sl_state sl)" if "b_targets (board_of db) (i, t) = Some sl" for t sl
      using c row [OF that] by (auto simp: completion_allowed_def target_rows_def slot_of_def)
    have "capture_count i db = 1" using c unfolding completion_allowed_def by (rule conjunct1)
    then have "i \<in> b_captured (board_of db)" using capture_once [OF assms(1), of i] by (metis zero_neq_one)
    then show ?thesis using ex all by (intro conjI exI allI impI)
  qed
  moreover have "sc_State change = ''new'' \<longleftrightarrow> i \<notin> b_captured (board_of db)" if "mr_state r = ''failed''"
    using assms(3) that capture_once [OF assms(1), of i] by (auto simp: transition_allowed_def reopen_allowed_def scan_simps i split: if_splits)
  moreover have "i \<notin> b_exercised (board_of db)" if "sc_State change = ''cancelled''" "mr_state r = ''captured''"
    using assms(3) that by (simp add: transition_allowed_def scan_simps i board_of_simps)
  moreover have "ValidMaintenanceTransition (mr_state r) (sc_State change)" "sc_State change = ''captured'' \<Longrightarrow> mr_state r = ''failed''"
    using assms(3) by (simp_all add: transition_allowed_def scan_simps)
  ultimately show ?thesis unfolding run_may_def by blast
qed

lemma board_transition:
  assumes "TransitionMaintenance E i change pre audit s = (Inr res, s')" "db_inv E (s_db s)"
  shows "board_step (board_of (s_db s)) (board_of (s_db s'))"
  using assms(1) db_inv_unique(1) [OF assms(2)]
proof (cases rule: TransitionMaintenance_Inr)
  case (1 r payload now n)
  let ?db = "s_db s" and ?b = "board_of (s_db s)" and ?new = "sc_State change"
  have rid: "mr_id r = i" using 1(1) by (auto simp: maintenance_by_id_def find_Some_iff)
  have v: "wrap64 (mr_version r + 1) = mr_version r + 1" by (rule next_version(1) [OF assms(2) 1(1,6)])
  have "board_of (s_db s') = ?b\<lparr>b_runs := (b_runs ?b)(i \<mapsto> (?new, mr_version r + 1)),
      b_targets := (\<lambda>k. if fst k = i \<and> i \<in> b_captured ?b then map_option bumped (b_targets ?b k) else b_targets ?b k)\<rparr>" (is "_ = ?c")
  proof (rule board_eqI)
    show "b_runs (board_of (s_db s')) = b_runs ?c"
      by (simp only: 1(8) moved_run_def board_parts scan_simps rid v) (subst runs_set_run [OF 1(1)], simp_all add: bump_targets_def)
    show "b_captured (board_of (s_db s')) = b_captured ?c"
      by (simp add: 1(8) moved_run_def board_parts) (simp add: board_of_def bump_targets_def)
    show "b_exercised (board_of (s_db s')) = b_exercised ?c"
      by (simp add: 1(8) moved_run_def board_parts exercised_log event_kinds transition_type_def) (simp add: board_of_def exercised_count_def bump_targets_def)
    show "b_targets (board_of (s_db s')) = b_targets ?c"
    proof
      fix k
      obtain j t where k: "k = (j :: string, t :: string)" by (cases k)
      have "target_by_id j t (bump_targets i u ?db) = map_option (\<lambda>r. if tr_maintenance_id r = i then bump_row u r else r) (target_by_id j t ?db)" for u
        by (rule target_by_id_map) (simp_all add: bump_targets_def bump_row_def)
      then show "b_targets (board_of (s_db s')) k = b_targets ?c k"
        using target_key [of j t ?db] capture_once [OF assms(2), of i]
        by (cases "target_by_id j t ?db") (auto simp: k 1(8) moved_run_def board_parts board_of_simps scan_simps rid bumped_def slot_of_def bump_row_def)
    qed
  qed
  moreover have "board_step ?b \<dots>"
  proof (rule board_step.transition)
    show "b_runs ?b i = Some (mr_state r, mr_version r)" using 1(1) by (simp add: board_of_simps)
    show "run_may ?b i (mr_state r) ?new" using 1(5) by (rule board_may [OF assms(2) 1(1)])
  qed
  ultimately show ?thesis by simp
qed

lemma board_target:
  assumes "TransitionTarget E i ti change pre audit s = (Inr res, s')" "db_inv E (s_db s)"
  shows "board_step (board_of (s_db s)) (board_of (s_db s'))"
  using assms(1) db_inv_unique [OF assms(2)]
proof (cases rule: TransitionTarget_Inr)
  case (1 r t payload now n)
  let ?db = "s_db s" and ?b = "board_of (s_db s)" and ?new = "sc_State change"
  have ids: "mr_id r = i" "tr_id t = ti" using 1(1,2) by (auto simp: maintenance_by_id_def target_by_id_def find_Some_iff)
  have v: "wrap64 (mr_version r + 1) = mr_version r + 1" "wrap64 (tr_version t + 1) = tr_version t + 1"
    using next_version [OF assms(2) 1(1,7)] 1(2) by blast+
  have "board_of (s_db s') = ?b\<lparr>b_runs := (b_runs ?b)(i \<mapsto> (mr_state r, mr_version r + 1)),
      b_targets := (b_targets ?b)((i, ti) \<mapsto> bumped ((slot_of t)\<lparr>sl_state := ?new\<rparr>)),
      b_exercised := (if ?new = ''skipped'' then b_exercised ?b else insert i (b_exercised ?b))\<rparr>" (is "_ = ?c")
  proof (rule board_eqI)
    show "b_runs (board_of (s_db s')) = b_runs ?c"
      by (simp add: 1(11) moved_target_def board_parts scan_simps ids v) (subst runs_set_run [OF 1(1)], simp_all add: set_target_def)
    show "b_captured (board_of (s_db s')) = b_captured ?c"
      by (simp add: 1(11) moved_target_def board_parts) (simp add: board_of_def set_target_def)
    have "i \<noteq> ''''" using 1(1) assms(2) by (auto simp: db_inv_def keys_ok_def maintenance_by_id_def find_Some_iff validID_def)
    then show "b_exercised (board_of (s_db s')) = b_exercised ?c"
      by (simp add: 1(11) moved_target_def board_parts exercised_log event_kinds target_type_def scan_simps ids) (simp add: board_of_def exercised_count_def set_target_def)
    show "b_targets (board_of (s_db s')) = b_targets ?c"
    proof
      fix k
      obtain j u where k: "k = (j :: string, u :: string)" by (cases k)
      let ?f = "\<lambda>x. x\<lparr>tr_state := ?new, tr_version := tr_version t + 1, tr_updated_at := formatRFC3339Nano now\<rparr>"
      have "target_by_id j u (set_target i ti ?f ?db) = map_option (\<lambda>x. if tr_maintenance_id x = i \<and> tr_id x = ti then ?f x else x) (target_by_id j u ?db)"
        by (rule target_by_id_map) (simp_all add: set_target_def)
      moreover have "b_targets (board_of (s_db s')) (j, u) = map_option slot_of (target_by_id j u (set_target i ti ?f ?db))"
        by (simp add: 1(11) moved_target_def board_parts board_of_simps scan_simps ids v)
      ultimately show "b_targets (board_of (s_db s')) k = b_targets ?c k"
        using target_key [of j u ?db] 1(2)
        by (cases "target_by_id j u ?db"; cases "j = i"; cases "u = ti") (simp_all add: k board_of_simps bumped_def slot_of_def)
    qed
  qed
  moreover have "board_step ?b \<dots>"
  proof (rule board_step.target)
    show "b_runs ?b i = Some (mr_state r, mr_version r)" using 1(1) by (simp add: board_of_simps)
    show "b_targets ?b (i, ti) = Some (slot_of t)" using 1(2) by (simp add: board_of_simps)
    show "target_may (mr_state r) (slot_of t) ?new"
      using 1(6) unfolding target_may_def target_allowed_def scan_simps slot_of_def by (cases "?new = ''skipped''") simp_all
  qed
  ultimately show ?thesis by simp
qed

lemma board_observe:
  assumes "AddObservation E i ti payload pre audit s = (Inr u, s')"
  shows "board_of (s_db s') = board_of (s_db s)"
  using assms
proof (cases rule: AddObservation_Inr)
  case (added canonical r tr now n)
  then show ?thesis by (intro board_eqI) (simp_all add: board_parts exercised_log event_kinds)
qed simp

section \<open>Rows that stay\<close>

text \<open>A row that is kept at its version is the same row.\<close>

lemma kept_find:
  assumes "kept R xs ys" "find P xs = Some x" "\<And>x y. R x y \<Longrightarrow> P x = P y"
  shows "\<exists>y. find P ys = Some y \<and> R x y"
proof -
  have "\<exists>y. find P zs = Some y \<and> R x y" if "list_all2 R us zs" "find P us = Some x" for us zs
    using that by (induction rule: list_all2_induct) (auto simp: assms(3) split: if_splits)
  with assms(1,2) show ?thesis by (fastforce simp: kept_def find_append)
qed

lemma run_stays:
  assumes "history_kept db db'" "maintenance_by_id i db = Some r" "b_runs (board_of db') i = b_runs (board_of db) i"
  shows "maintenance_by_id i db' = Some r"
proof -
  obtain r' where "maintenance_by_id i db' = Some r'" "run_kept r r'"
    using kept_find [of run_kept "maintenance_t db" "maintenance_t db'" "\<lambda>x. mr_id x = i" r] assms(1,2)
    by (auto simp: history_kept_def maintenance_by_id_def run_kept_def maintenance_identity_changed_def)
  then show ?thesis using assms(2,3) by (auto simp: board_of_simps run_kept_def)
qed

lemma target_stays:
  assumes "history_kept db db'" "b_targets (board_of db') (i, t) = b_targets (board_of db) (i, t)"
  shows "target_by_id i t db' = target_by_id i t db"
proof (cases "target_by_id i t db")
  case (Some x)
  obtain x' where "target_by_id i t db' = Some x'" "target_kept x x'"
    using kept_find [of target_kept "targets_t db" "targets_t db'" "\<lambda>x. tr_maintenance_id x = i \<and> tr_id x = t" x] assms(1) Some
    by (auto simp: history_kept_def target_by_id_def target_kept_def targets_identity_changed_def)
  then show ?thesis using Some assms(2) by (auto simp: board_of_simps target_kept_def slot_of_def)
qed (use assms(2) in \<open>simp add: board_of_simps\<close>)

end
