(* ===== verification/Http.thy ===== *)
theory Http
  imports Mutations Cursor
begin

text \<open>
  Requests and responses of the HTTP API (\<open>internal/api/server.go\<close>): query strings, bodies, the
  \<open>If-Match\<close> precondition, request ids, and the translation of store errors into responses. Of
  \<open>net/http\<close> and \<open>net/url\<close> the model has what the sources use: header values, the escaped path,
  percent-decoding and the parsing of the query.
\<close>

section \<open>Requests\<close>

text \<open>
  A header name is given with its values; the body is the bytes that can be read, and whether
  reading then ends with an error. \<open>rq_escaped\<close> is \<open>URL.EscapedPath()\<close>.
\<close>

record request =
  rq_method :: string
  rq_escaped :: string
  rq_query :: string
  rq_header :: "string \<Rightarrow> string list"
  rq_body :: string
  rq_body_error :: bool

definition header_Get :: "request \<Rightarrow> string \<Rightarrow> string" where
  "header_Get r name = (case rq_header r name of [] \<Rightarrow> '''' | v # _ \<Rightarrow> v)"

text \<open>Percent-decoding; a plus sign is a space in a query only.\<close>

fun unescape :: "bool \<Rightarrow> string \<Rightarrow> string option" where
  "unescape q [] = Some []"
| "unescape q (c # s) =
    (if c = CHR ''%'' then
       (case s of a # b # r \<Rightarrow>
          (case (hex_val a, hex_val b) of
             (Some x, Some y) \<Rightarrow> map_option (Cons (char_of (16 * x + y))) (unescape q r)
           | _ \<Rightarrow> None)
        | _ \<Rightarrow> None)
     else map_option (Cons (if q \<and> c = CHR ''+'' then CHR '' '' else c)) (unescape q s))"

text \<open>\<open>URL.Query()\<close>: pairs separated by ampersands; a malformed pair is dropped.\<close>

definition query_pair :: "string \<Rightarrow> (string \<times> string) option" where
  "query_pair p =
    (if p = '''' \<or> CHR '';'' \<in> set p then None
     else (case (unescape True (takeWhile (\<lambda>c. c \<noteq> CHR ''='') p), unescape True (drop 1 (dropWhile (\<lambda>c. c \<noteq> CHR ''='') p))) of
         (Some k, Some v) \<Rightarrow> Some (k, v)
       | _ \<Rightarrow> None))"

definition url_Query :: "request \<Rightarrow> (string \<times> string) list" where
  "url_Query r = List.map_filter query_pair (Split (rq_query r) CHR ''&'')"

definition query_Get :: "(string \<times> string) list \<Rightarrow> string \<Rightarrow> string" where
  "query_Get query name = (case map_of query name of None \<Rightarrow> '''' | Some v \<Rightarrow> v)"

section \<open>Query parameters\<close>

definition queryPageLimit :: "request \<Rightarrow> go_error + int" where
  "queryPageLimit r =
    (let value = TrimSpace (query_Get (url_Query r) ''limit'') in
     if value = '''' then Inr 100
     else (case Atoi value of
         None \<Rightarrow> Inl (Wrapped ErrInvalid ''limit must be between 1 and 200'')
       | Some limit \<Rightarrow>
         if limit < 1 \<or> limit > 200 then Inl (Wrapped ErrInvalid ''limit must be between 1 and 200'')
         else Inr limit))"

text \<open>The range over the query meets unknown names in no particular order; the model reports the first.\<close>

definition rejectUnknownQuery :: "(string \<times> string) list \<Rightarrow> string list \<Rightarrow> go_error + unit" where
  "rejectUnknownQuery query allowed =
    (case find (\<lambda>p. fst p \<notin> set allowed) query of
       Some p \<Rightarrow> Inl (Wrapped ErrInvalid (''unsupported query parameter '' @ fst p))
     | None \<Rightarrow> Inr ())"

definition maintenanceListOptions :: "request \<Rightarrow> go_error + MaintenanceListOptions" where
  "maintenanceListOptions r =
    (let query = url_Query r; get = (\<lambda>name. TrimSpace (query_Get query name)) in
     case rejectUnknownQuery query [''state'', ''maintenance_id'', ''change_ticket'', ''workflow_version'', ''cursor'', ''limit''] of
       Inl e \<Rightarrow> Inl e
     | Inr _ \<Rightarrow>
       (case queryPageLimit r of
          Inl e \<Rightarrow> Inl e
        | Inr limit \<Rightarrow> Inr \<lparr>mo_State = get ''state'', mo_MaintenanceID = get ''maintenance_id'',
            mo_ChangeTicket = get ''change_ticket'', mo_WorkflowVersion = get ''workflow_version'',
            mo_Cursor = get ''cursor'', mo_Limit = limit\<rparr>))"

definition eventListOptions :: "request \<Rightarrow> go_error + EventListOptions" where
  "eventListOptions r =
    (let query = url_Query r; get = (\<lambda>name. TrimSpace (query_Get query name)) in
     case rejectUnknownQuery query [''maintenance_id'', ''target_id'', ''event_type'', ''resource_type'', ''resource_id'',
         ''actor'', ''role'', ''request_id'', ''cursor'', ''limit''] of
       Inl e \<Rightarrow> Inl e
     | Inr _ \<Rightarrow>
       (case queryPageLimit r of
          Inl e \<Rightarrow> Inl e
        | Inr limit \<Rightarrow>
          (let opts = \<lparr>eo_MaintenanceID = get ''maintenance_id'', eo_TargetID = get ''target_id'',
             eo_EventType = get ''event_type'', eo_ResourceType = get ''resource_type'', eo_ResourceID = get ''resource_id'',
             eo_Actor = get ''actor'', eo_Role = get ''role'', eo_RequestID = get ''request_id'',
             eo_Cursor = get ''cursor'', eo_Limit = limit\<rparr>
           in if eo_TargetID opts \<noteq> '''' \<and> eo_MaintenanceID opts = ''''
                then Inl (Wrapped ErrInvalid ''target_id requires maintenance_id'')
              else Inr opts)))"

section \<open>Bodies\<close>

record maintenanceRequest =
  mrq_MaintenanceID :: string
  mrq_ChangeTicket :: string
  mrq_WorkflowVersion :: string
  mrq_Metadata :: string

record stateChangeRequest =
  scr_State :: string
  scr_Justification :: string
  scr_Detail :: string

definition storeValue :: "stateChangeRequest \<Rightarrow> StateChange" where
  "storeValue r = \<lparr>sc_State = scr_State r, sc_Justification = scr_Justification r, sc_Detail = scr_Detail r\<rparr>"

definition set_maintenanceRequest :: "string \<Rightarrow> string \<Rightarrow> maintenanceRequest \<Rightarrow> maintenanceRequest option" where
  "set_maintenanceRequest f raw q =
    (if f = ''maintenance_id'' then map_option (\<lambda>x. q\<lparr>mrq_MaintenanceID := x\<rparr>) (dec_string raw (mrq_MaintenanceID q))
     else if f = ''change_ticket'' then map_option (\<lambda>x. q\<lparr>mrq_ChangeTicket := x\<rparr>) (dec_string raw (mrq_ChangeTicket q))
     else if f = ''workflow_version'' then map_option (\<lambda>x. q\<lparr>mrq_WorkflowVersion := x\<rparr>) (dec_string raw (mrq_WorkflowVersion q))
     else Some (q\<lparr>mrq_Metadata := raw\<rparr>))"

definition set_stateChangeRequest :: "string \<Rightarrow> string \<Rightarrow> stateChangeRequest \<Rightarrow> stateChangeRequest option" where
  "set_stateChangeRequest f raw q =
    (if f = ''state'' then map_option (\<lambda>x. q\<lparr>scr_State := x\<rparr>) (dec_string raw (scr_State q))
     else if f = ''justification'' then map_option (\<lambda>x. q\<lparr>scr_Justification := x\<rparr>) (dec_string raw (scr_Justification q))
     else Some (q\<lparr>scr_Detail := raw\<rparr>))"

text \<open>
  \<open>io.ReadAll\<close> over a reader limited to one byte more than \<open>limit\<close>: an error of the body is met only
  when the limit is not reached before it.
\<close>

definition readBody :: "request \<Rightarrow> nat \<Rightarrow> string option" where
  "readBody r limit =
    (let data = take (limit + 1) (rq_body r) in
     if rq_body_error r \<and> length (rq_body r) < limit + 1 then None
     else if length data = 0 \<or> length data > limit then None
     else Some data)"

text \<open>
  \<open>Decode\<close> with \<open>DisallowUnknownFields\<close>, and then nothing but white space: the text is one JSON value,
  and each member of the object sets a field. Every error gives the same response.
\<close>

definition decode_strict ::
    "string list \<Rightarrow> (string \<Rightarrow> string \<Rightarrow> 'a \<Rightarrow> 'a option) \<Rightarrow> 'a \<Rightarrow> string \<Rightarrow> 'a option" where
  "decode_strict names upd x s =
    (case json_parse s of
       None \<Rightarrow> None
     | Some JNull \<Rightarrow> Some x
     | Some v \<Rightarrow>
       (case raw_object s of None \<Rightarrow> None
        | Some ms \<Rightarrow> set_members
            (\<lambda>k raw y. case match_field names k of None \<Rightarrow> None | Some f \<Rightarrow> upd f raw y) ms x))"

definition decodeJSON_maintenance :: "request \<Rightarrow> maintenanceRequest option" where
  "decodeJSON_maintenance r =
    (case readBody r (2 * 1024 * 1024) of None \<Rightarrow> None
     | Some data \<Rightarrow> decode_strict [''maintenance_id'', ''change_ticket'', ''workflow_version'', ''metadata'']
         set_maintenanceRequest \<lparr>mrq_MaintenanceID = '''', mrq_ChangeTicket = '''', mrq_WorkflowVersion = '''', mrq_Metadata = ''''\<rparr> data)"

definition decodeJSON_change :: "request \<Rightarrow> stateChangeRequest option" where
  "decodeJSON_change r =
    (case readBody r (2 * 1024 * 1024) of None \<Rightarrow> None
     | Some data \<Rightarrow> decode_strict [''state'', ''justification'', ''detail'']
         set_stateChangeRequest \<lparr>scr_State = '''', scr_Justification = '''', scr_Detail = ''''\<rparr> data)"

definition isJSONObject :: "string \<Rightarrow> bool" where
  "isJSONObject raw =
    (let trimmed = TrimSpace raw in
     length trimmed \<ge> 2 \<and> hd trimmed = CHR ''{'' \<and> last trimmed = CHR ''}'' \<and> json_valid trimmed)"

definition decodeJSONObject :: "request \<Rightarrow> nat \<Rightarrow> string option" where
  "decodeJSONObject r limit =
    (case readBody r limit of None \<Rightarrow> None
     | Some data \<Rightarrow> if \<not> isJSONObject data then None else Some data)"

section \<open>Preconditions\<close>

definition blank :: "char \<Rightarrow> bool" where
  "blank c \<longleftrightarrow> c = CHR '' '' \<or> c = CHR 0x09"

definition etag_char :: "char \<Rightarrow> bool" where
  "etag_char c \<longleftrightarrow> (let b = byte_val c in b = 0x21 \<or> (0x23 \<le> b \<and> b \<le> 0x7e) \<or> 0x80 \<le> b)"

text \<open>One round of the loop: the tag at the start of the text, whether it is weak, and the rest.\<close>

definition read_etag :: "string \<Rightarrow> (bool \<times> string \<times> string) option" where
  "read_etag raw =
    (let s = dropWhile blank raw; weak = HasPrefix s ''W/''; s = (if weak then drop 2 s else s) in
     case s of
       [] \<Rightarrow> None
     | c # s \<Rightarrow>
       if c \<noteq> dquote then None
       else let opaque = takeWhile (\<lambda>c. c \<noteq> dquote) s; rest = dropWhile (\<lambda>c. c \<noteq> dquote) s in
         if \<not> list_all etag_char opaque \<or> rest = [] then None
         else Some (weak, opaque, dropWhile blank (tl rest)))"

definition etag_version :: "bool \<Rightarrow> string \<Rightarrow> int list" where
  "etag_version weak opaque =
    (if weak then []
     else (case ParseInt opaque of None \<Rightarrow> []
       | Some version \<Rightarrow> if version > 0 \<and> FormatInt version = opaque then [version] else []))"

lemma read_etag_shorter: "read_etag raw = Some (weak, opaque, rest) \<Longrightarrow> length rest < length raw"
proof -
  have d: "length (dropWhile P s) \<le> length s" for P and s :: string by (simp add: length_dropWhile_le)
  assume a: "read_etag raw = Some (weak, opaque, rest)"
  define s where "s = (let s = dropWhile blank raw in if HasPrefix s ''W/'' then drop 2 s else s)"
  obtain c t where t: "s = c # t" "rest = dropWhile blank (tl (dropWhile (\<lambda>c. c \<noteq> dquote) t))"
    using a by (auto simp: read_etag_def s_def Let_def split: list.splits if_splits)
  have "length s \<le> length raw" using d [of blank raw] by (auto simp: s_def Let_def)
  moreover have "length rest \<le> length t"
    unfolding t(2) using d [of blank "tl (dropWhile (\<lambda>c. c \<noteq> dquote) t)"] d [of "\<lambda>c. c \<noteq> dquote" t] by simp
  ultimately show ?thesis using t(1) by simp
qed

function etag_list :: "int list \<Rightarrow> string \<Rightarrow> int list option" where
  "etag_list versions raw =
    (case read_etag raw of
       None \<Rightarrow> None
     | Some (weak, opaque, rest) \<Rightarrow>
       (let versions = versions @ etag_version weak opaque in
        case rest of
          [] \<Rightarrow> Some versions
        | c # rest \<Rightarrow> if c \<noteq> CHR '','' \<or> rest = [] then None else etag_list versions rest))"
  by pat_completeness auto

termination etag_list
  by (relation "measure (\<lambda>(versions, raw). length raw)") (auto dest!: read_etag_shorter)

declare etag_list.simps [simp del]

definition versionPrecondition :: "request \<Rightarrow> string + VersionPrecondition" where
  "versionPrecondition r =
    (let raw = TrimSpace (Join (rq_header r ''If-Match'') '','') in
     if raw = '''' then Inl ''if_match_required''
     else if raw = ''*'' then Inr \<lparr>vp_Any = True, vp_Versions = []\<rparr>
     else (case etag_list [] raw of
         None \<Rightarrow> Inl ''invalid_if_match''
       | Some versions \<Rightarrow> Inr \<lparr>vp_Any = False, vp_Versions = (if length versions = 0 then versions @ [0] else versions)\<rparr>))"

section \<open>Request ids\<close>

definition hex_EncodeToString :: "string \<Rightarrow> string" where
  "hex_EncodeToString s = concat (map (\<lambda>c. [hex_char (byte_val c div 16), hex_char (byte_val c mod 16)]) s)"

text \<open>\<open>random\<close> is what \<open>rand.Read\<close> gives, \<open>nanos\<close> the clock it falls back to.\<close>

definition requestID :: "string option \<Rightarrow> int \<Rightarrow> request \<Rightarrow> string" where
  "requestID random nanos r =
    (let value = TrimSpace (header_Get r ''X-Request-ID'') in
     if value \<noteq> '''' \<and> length value \<le> 128 \<and> \<not> ContainsAny value [CHR 0x0D, CHR 0x0A] then value
     else (case random of None \<Rightarrow> FormatInt nanos | Some bytes \<Rightarrow> hex_EncodeToString bytes))"

section \<open>Responses\<close>

text \<open>\<open>json.Encoder\<close> writes a map with its keys in order and ends the text with a newline.\<close>

definition json_map :: "(string \<times> string) list \<Rightarrow> string" where
  "json_map ms = obj_text (sort_key fst ms) @ [CHR 0x0A]"

definition store_error_code :: "go_error \<Rightarrow> string \<times> nat" where
  "store_error_code err =
    (if err_is err ErrNotFound then (''not_found'', 404)
     else if err_is err ErrForbidden then (''forbidden'', 403)
     else if err_is err ErrVersionConflict then (''version_conflict'', 412)
     else if err_is err ErrPreconditionRequired then (''if_match_required'', 428)
     else if err_is err ErrConflict then (''conflict'', 409)
     else if err_is err ErrInvalid then (''invalid_resource'', 400)
     else (''internal_error'', 500))"

definition conflict_details :: "ConflictError \<Rightarrow> (string \<times> string) list" where
  "conflict_details c =
    (let text_field = (\<lambda>k v. if v \<noteq> '''' then [(k, quote v)] else []);
         version_field = (\<lambda>k v. if v > 0 then [(k, FormatInt v)] else []) in
     text_field ''reason'' (Reason c) @ text_field ''resource_type'' (ResourceType c) @ text_field ''resource_id'' (ResourceID c)
     @ text_field ''holder'' (Holder c) @ version_field ''expected_version'' (ExpectedVersion c)
     @ version_field ''current_version'' (CurrentVersion c) @ text_field ''current_state'' (CurrentState c)
     @ text_field ''requested_state'' (RequestedState c))"

text \<open>\<open>errors.As(err, &details)\<close>.\<close>

fun as_conflict :: "go_error \<Rightarrow> ConflictError option" where
  "as_conflict (Conflict c) = Some c"
| "as_conflict (Annotated msg e) = as_conflict e"
| "as_conflict e = None"

definition store_error_body :: "env \<Rightarrow> go_error \<Rightarrow> string" where
  "store_error_body E err =
    (let code = fst (store_error_code err) in
     json_map ([(''error'', quote code)]
       @ (if code = ''invalid_resource'' \<or> code = ''conflict'' \<or> code = ''version_conflict''
          then [(''message'', quote (err_text (sql_text E) err))] else [])
       @ (case as_conflict err of Some details \<Rightarrow> conflict_details details | None \<Rightarrow> [])))"

section \<open>Entity tags round-trip\<close>

lemma FormatInt_plain:
  assumes "0 < v" "c \<in> set (FormatInt v)"
  shows "etag_char c \<and> c \<noteq> dquote \<and> \<not> blank c"
proof -
  have "isDigit c" using assms showNat_digits [of "nat v"] by (auto simp: FormatInt_def list_all_iff)
  then have "0x30 \<le> byte_val c \<and> byte_val c \<le> 0x39" by (simp add: isDigit_def less_eq_char_def)
  then show ?thesis by (auto simp: etag_char_def blank_def Let_def)
qed

lemma takeWhile_plain:
  "\<forall>c \<in> set s. c \<noteq> x \<Longrightarrow> takeWhile (\<lambda>c. c \<noteq> x) (s @ x # t) = s"
  "\<forall>c \<in> set s. c \<noteq> x \<Longrightarrow> dropWhile (\<lambda>c. c \<noteq> x) (s @ x # t) = x # t"
  by (induction s) auto

lemma read_etag_VersionETag:
  assumes "0 < v" "\<not> blank (hd t) \<or> t = []"
  shows "read_etag (VersionETag v @ t) = Some (False, FormatInt v, t)"
proof -
  have "dropWhile blank t = t" using assms(2) by (cases t) auto
  moreover have "list_all etag_char (FormatInt v)" using FormatInt_plain [OF assms(1)] by (simp add: list_all_iff)
  moreover have "\<not> blank dquote" by (simp add: blank_def)
  ultimately show ?thesis
    using takeWhile_plain [of "FormatInt v" dquote t] FormatInt_plain [OF assms(1)]
    by (simp add: read_etag_def VersionETag_def HasPrefix_def Let_def)
qed

lemma etag_version_FormatInt: "0 < v \<Longrightarrow> v \<le> max_int64 \<Longrightarrow> etag_version False (FormatInt v) = [v]"
  using decimal.dec_enc [of v] by (simp add: etag_version_def in_int64_def)

lemma etag_list_Join:
  assumes "vs \<noteq> []" "\<forall>v \<in> set vs. 0 < v \<and> v \<le> max_int64"
  shows "etag_list acc (Join (map VersionETag vs) '','') = Some (acc @ vs)"
  using assms
proof (induction "map VersionETag vs" "'',''" arbitrary: vs acc rule: Join.induct)
  case (2 s)
  then obtain v where v: "vs = [v]" "0 < v" "v \<le> max_int64" by auto
  then show ?case
    using read_etag_VersionETag [of v "[]"] by (subst etag_list.simps) (simp add: etag_version_FormatInt)
next
  case (3 s t ss)
  then obtain v w ws where v: "vs = v # w # ws" "0 < v" "v \<le> max_int64" by (cases vs rule: remdups_adj.cases) auto
  have IH: "etag_list (acc @ [v]) (Join (map VersionETag (w # ws)) '','') = Some ((acc @ [v]) @ w # ws)"
    using 3 v by (intro "3.hyps") auto
  have "Join (map VersionETag (w # ws)) '','' \<noteq> []" by (cases ws) (simp_all add: VersionETag_def)
  moreover have "\<not> blank CHR '',''" by (simp add: blank_def)
  ultimately show ?case
    using IH v read_etag_VersionETag [of v "CHR '','' # Join (map VersionETag (w # ws)) '',''"]
    by (subst etag_list.simps) (simp add: etag_version_FormatInt)
qed simp

lemma Join_ends:
  assumes "ss \<noteq> []" "\<forall>s \<in> set ss. s \<noteq> [] \<and> hd s = c \<and> last s = c"
  shows "Join ss sep \<noteq> [] \<and> hd (Join ss sep) = c \<and> last (Join ss sep) = c"
  using assms by (induction ss sep rule: Join.induct) auto

lemma versionPrecondition_tags:
  assumes "rq_header r ''If-Match'' = map VersionETag vs" "vs \<noteq> []" "\<forall>v \<in> set vs. 0 < v \<and> v \<le> max_int64"
  shows "versionPrecondition r = Inr \<lparr>vp_Any = False, vp_Versions = vs\<rparr>"
proof -
  let ?j = "Join (map VersionETag vs) '',''"
  have j: "?j \<noteq> []" "hd ?j = dquote" "last ?j = dquote"
    using Join_ends [of "map VersionETag vs" dquote "'',''"] assms(2) by (simp_all add: VersionETag_def)
  then have "TrimSpace ?j = ?j" by (intro TrimSpace_ends) (simp_all add: space_runes_def)
  moreover have "?j \<noteq> ''*''" using j(2) by auto
  ultimately show ?thesis using etag_list_Join [OF assms(2,3), of "[]"] j(1) assms(1,2) by (simp add: versionPrecondition_def Let_def)
qed

text \<open>C40: A client that sends back the entity tags it was given has the precondition that holds exactly at
  these versions, whether it sends them in one header or in several.\<close>

theorem etag_roundtrip:
  assumes "rq_header r ''If-Match'' = map VersionETag vs" "vs \<noteq> []" "\<forall>v \<in> set vs. 0 < v \<and> v \<le> max_int64"
  shows "\<exists>pre. versionPrecondition r = Inr pre \<and> (\<forall>v. vp_match pre v \<longleftrightarrow> v \<in> set vs)"
  using versionPrecondition_tags [OF assms] by (auto simp: list_ex_iff)

definition sample_request :: "string \<Rightarrow> string \<Rightarrow> request" where
  "sample_request method path = \<lparr>rq_method = method, rq_escaped = path, rq_query = '''', rq_header = (\<lambda>name. []),
     rq_body = '''', rq_body_error = False\<rparr>"

theorem etag_roundtrip_witness:
  "\<exists>pre. versionPrecondition ((sample_request ''PATCH'' ''/'')\<lparr>rq_header := (\<lambda>name. [VersionETag 3, VersionETag 4])\<rparr>) = Inr pre
    \<and> vp_match pre 3 \<and> \<not> vp_match pre 5"
  using etag_roundtrip [of "(sample_request ''PATCH'' ''/'')\<lparr>rq_header := (\<lambda>name. [VersionETag 3, VersionETag 4])\<rparr>" "[3, 4]"]
  by (auto simp: max_int64_def simp del: vp_match.simps)

text \<open>The precondition of a request is a star or a list that is not empty: the store never sees a
  request without a precondition.\<close>

lemma versionPrecondition_given: "versionPrecondition r = Inr pre \<Longrightarrow> vp_Any pre \<or> vp_Versions pre \<noteq> []"
  by (auto simp: versionPrecondition_def Let_def split: if_splits option.splits)

section \<open>Responses to store errors\<close>

fun sentinel_status :: "sentinel \<Rightarrow> nat" where
  "sentinel_status ErrNotFound = 404"
| "sentinel_status ErrForbidden = 403"
| "sentinel_status ErrVersionConflict = 412"
| "sentinel_status ErrPreconditionRequired = 428"
| "sentinel_status ErrConflict = 409"
| "sentinel_status ErrInvalid = 400"
| "sentinel_status ErrCorrupt = 500"

lemma sentinel_status_inj: "sentinel_status x = sentinel_status y \<longleftrightarrow> x = y"
  by (cases x; cases y) simp_all

lemma sentinel_status_bounds: "400 \<le> sentinel_status x \<and> sentinel_status x \<le> 500 \<and> (500 \<le> sentinel_status x \<longleftrightarrow> x = ErrCorrupt)"
  by (cases x) simp_all

text \<open>The response to a store error is an error status that tells the client apart from the server: 5xx
  exactly when the error is none of the refusals of the store (a corrupt store or a database failure), and
  otherwise the refusal determines the status and the status the refusal.\<close>

theorem store_error_status:
  "(snd (store_error_code e) \<ge> 500 \<longleftrightarrow> (\<forall>x. err_is e x \<longrightarrow> x = ErrCorrupt))
    \<and> 400 \<le> snd (store_error_code e) \<and> snd (store_error_code e) \<le> 500
    \<and> (\<forall>x. x \<noteq> ErrCorrupt \<longrightarrow> (err_is e x \<longleftrightarrow> snd (store_error_code e) = snd (store_error_code (Sentinel x))))"
proof (cases "\<exists>x. err_is e x")
  case True
  then obtain x where x: "err_is e x" by blast
  then have is_x: "err_is e y \<longleftrightarrow> y = x" for y using err_is_unique by blast
  have code: "snd (store_error_code e) = sentinel_status x" "snd (store_error_code (Sentinel y)) = sentinel_status y" for y
    unfolding store_error_code_def is_x by (cases x; simp) (cases y; simp)
  show ?thesis unfolding code is_x using sentinel_status_bounds [of x] sentinel_status_inj [of x] by metis
next
  case False
  then have "snd (store_error_code e) = 500" "\<not> err_is e x" for x by (simp_all add: store_error_code_def)
  moreover have "x \<noteq> ErrCorrupt \<Longrightarrow> snd (store_error_code (Sentinel x)) \<noteq> 500" for x
    by (cases x) (simp_all add: store_error_code_def)
  ultimately show ?thesis by fastforce
qed

end
