(* ===== verification/Auth.thy ===== *)
theory Auth
  imports Marshal
begin

text \<open>
  Package \<open>internal/auth\<close>: the token file, the authenticator it gives, and the two checks of a
  request. The SHA-256 digest of package \<open>crypto\<close> is the parameter \<open>digest\<close>; the file is given
  by what the operating system reports of it. An error is a value that names the message; the
  text of a wrapped error of another package is left out.
\<close>

section \<open>Types\<close>

record Principal =
  p_Name :: string
  p_Role :: string

record auth_token =
  tk_name :: string
  tk_role :: string
  tk_value :: string

datatype auth_error =
    TokenWhitespace | EmptyToken | TokenTooLong | BadRole | NameRequired | NameTooLong
  | DuplicateName | DuplicateValue
  | EmptyRecord | RecordNotObject | InvalidRecord | DuplicateField string | InvalidValue string
  | TrailingData | UnknownField string | FieldRequired string | FieldNotString string
  | NameEmpty | NameWhitespace
  | OpenFailed | StatFailed | BadFileMode | AtLine nat auth_error | ReadFailed | NoTokens
  | Unauthorized | AuthForbidden

definition maxTokenLen :: nat where "maxTokenLen = 4096"

definition maxNameLen :: nat where "maxNameLen = 200"

definition isRole :: "string \<Rightarrow> bool" where
  "isRole role \<longleftrightarrow> role = ''reader'' \<or> role = ''operator'' \<or> role = ''admin''"

definition role_rank :: "string \<Rightarrow> int" where
  "role_rank role =
    (if role = ''admin'' then 3 else if role = ''operator'' then 2 else if role = ''reader'' then 1 else 0)"

section \<open>Adding a token\<close>

fun duplicate_error :: "(string \<Rightarrow> string) \<Rightarrow> auth_token \<Rightarrow> auth_token list \<Rightarrow> auth_error option" where
  "duplicate_error digest t [] = None"
| "duplicate_error digest t (existing # rest) =
    (if tk_name existing = tk_name t then Some DuplicateName
     else if digest (tk_value t) = digest (tk_value existing) then Some DuplicateValue
     else duplicate_error digest t rest)"

definition auth_add :: "(string \<Rightarrow> string) \<Rightarrow> auth_token list \<Rightarrow> auth_token \<Rightarrow> auth_error + auth_token list" where
  "auth_add digest tokens t =
    (if tk_value t \<noteq> TrimSpace (tk_value t) then Inl TokenWhitespace
     else if tk_value t = '''' then Inl EmptyToken
     else if length (tk_value t) > maxTokenLen then Inl TokenTooLong
     else if \<not> isRole (tk_role t) then Inl BadRole
     else if tk_name t = '''' then Inl NameRequired
     else if length (tk_name t) > maxNameLen then Inl NameTooLong
     else (case duplicate_error digest t tokens of
         Some e \<Rightarrow> Inl e
       | None \<Rightarrow> Inr (tokens @ [t])))"

text \<open>\<open>New\<close> ranges over a Go map, in no particular order: the argument lists its entries in the order
  of the range.\<close>

fun add_configured ::
    "(string \<Rightarrow> string) \<Rightarrow> nat \<Rightarrow> auth_token list \<Rightarrow> (string \<times> string) list \<Rightarrow> auth_error + auth_token list" where
  "add_configured digest index tokens [] = Inr tokens"
| "add_configured digest index tokens ((value, role) # values) =
    (case auth_add digest tokens \<lparr>tk_name = ''configured-token-'' @ FormatInt (int (Suc index)),
        tk_role = role, tk_value = TrimSpace value\<rparr> of
       Inl e \<Rightarrow> Inl e
     | Inr tokens' \<Rightarrow> add_configured digest (Suc index) tokens' values)"

definition auth_New :: "(string \<Rightarrow> string) \<Rightarrow> (string \<times> string) list \<Rightarrow> auth_error + auth_token list" where
  "auth_New digest values =
    (case add_configured digest 0 [] values of
       Inl e \<Rightarrow> Inl e
     | Inr tokens \<Rightarrow> if length tokens = 0 then Inl NoTokens else Inr tokens)"

section \<open>A record of the token file\<close>

text \<open>
  The members of the object, read with the token interface of \<open>json.Decoder\<close>: \<open>first\<close> says whether
  the decoder stands behind the opening brace, where no comma may precede the key.
\<close>

function token_fields ::
    "bool \<Rightarrow> (string \<times> string) list \<Rightarrow> string \<Rightarrow> auth_error + ((string \<times> string) list \<times> string)" where
  "token_fields first members s =
    (case skip_ws s of
       [] \<Rightarrow> Inl InvalidRecord
     | c # r \<Rightarrow>
       if c = CHR ''}'' then Inr (members, r)
       else if c = CHR '']'' then Inl InvalidRecord
       else if \<not> first \<and> c \<noteq> CHR '','' then Inl InvalidRecord
       else (case read_key (if first then s else r) of
           None \<Rightarrow> Inl InvalidRecord
         | Some (key, rest) \<Rightarrow>
           if key \<in> fst ` set members then Inl (DuplicateField key)
           else (case skip_ws rest of
               [] \<Rightarrow> Inl (InvalidValue key)
             | d # t \<Rightarrow>
               if d \<noteq> CHR '':'' then Inl (InvalidValue key)
               else (case decode_next t of
                   None \<Rightarrow> Inl (InvalidValue key)
                 | Some (v, r2) \<Rightarrow> token_fields False (members @ [(key, raw_slice (skip_ws t) r2)]) r2))))"
  by pat_completeness auto

termination token_fields
proof (relation "measure (\<lambda>(first, members, s). length s)", goal_cases)
  case (2 first members s c r p key rest d t q v r2)
  have "length (if first then s else r) \<le> length s" using skip_ws_Cons_le [OF 2(1)] by simp
  with 2 show ?case by (auto dest!: read_key_shorter decode_next_shorter skip_ws_Cons_le)
qed simp

declare token_fields.simps [simp del]

definition auth_decodeJSONObject :: "string \<Rightarrow> auth_error + (string \<times> string) list" where
  "auth_decodeJSONObject line =
    (case skip_ws line of
       [] \<Rightarrow> Inl InvalidRecord
     | c # r \<Rightarrow>
       if c \<noteq> CHR ''{''
         then Inl (if c = CHR ''['' \<or> decode_next line \<noteq> None then RecordNotObject else InvalidRecord)
       else (case token_fields True [] r of
           Inl e \<Rightarrow> Inl e
         | Inr (members, rest) \<Rightarrow> if skip_ws rest \<noteq> [] then Inl TrailingData else Inr members))"

text \<open>The range over the members meets unknown ones in no particular order; the model reports the first
  of the text.\<close>

definition parseLine :: "string \<Rightarrow> auth_error + auth_token" where
  "parseLine line =
    (if TrimSpace line = '''' then Inl EmptyRecord
     else if \<not> HasPrefix (TrimSpace line) ''{'' then Inl RecordNotObject
     else (case auth_decodeJSONObject line of
         Inl e \<Rightarrow> Inl e
       | Inr members \<Rightarrow>
         (case find (\<lambda>f. fst f \<notin> {''name'', ''role'', ''token''}) members of
            Some f \<Rightarrow> Inl (UnknownField (fst f))
          | None \<Rightarrow>
            (case map_of members ''token'' of None \<Rightarrow> Inl (FieldRequired ''token'')
             | Some rawToken \<Rightarrow>
            (case map_of members ''role'' of None \<Rightarrow> Inl (FieldRequired ''role'')
             | Some rawRole \<Rightarrow>
            (case dec_string rawToken '''' of None \<Rightarrow> Inl (FieldNotString ''token'')
             | Some value \<Rightarrow>
            (case dec_string rawRole '''' of None \<Rightarrow> Inl (FieldNotString ''role'')
             | Some role \<Rightarrow>
               if \<not> isRole role then Inl BadRole
               else
            (case map_of members ''name'' of None \<Rightarrow> Inl (FieldRequired ''name'')
             | Some rawName \<Rightarrow>
            (case dec_string rawName '''' of None \<Rightarrow> Inl (FieldNotString ''name'')
             | Some name \<Rightarrow>
               if name = '''' then Inl NameEmpty
               else if name \<noteq> TrimSpace name then Inl NameWhitespace
               else Inr \<lparr>tk_name = name, tk_role = role, tk_value = value\<rparr>)))))))))"

section \<open>The token file\<close>

text \<open>
  What the operating system gives for the path: opening fails, or the file's status fails, or its
  mode and the bytes that can be read from it, and whether reading then ended with an error.
\<close>

record token_file =
  tf_stat_ok :: bool
  tf_regular :: bool
  tf_perm :: nat
  tf_bytes :: string
  tf_read_error :: bool

text \<open>\<open>bufio.ScanLines\<close> with a buffer of at most 1 MiB: a line, without its newline, has to be shorter
  than the buffer.\<close>

definition maxLine :: nat where "maxLine = 1024 * 1024"

fun split_lines :: "string \<Rightarrow> string \<Rightarrow> string list" where
  "split_lines acc [] = (if acc = [] then [] else [rev acc])"
| "split_lines acc (c # s) = (if c = CHR 0x0A then rev acc # split_lines [] s else split_lines (c # acc) s)"

definition dropCR :: "string \<Rightarrow> string" where
  "dropCR s = TrimSuffix s [CHR 0x0D]"

fun load_lines :: "(string \<Rightarrow> string) \<Rightarrow> nat \<Rightarrow> auth_token list \<Rightarrow> string list \<Rightarrow> auth_error + auth_token list" where
  "load_lines digest line tokens [] = Inr tokens"
| "load_lines digest line tokens (raw # raws) =
    (if length raw \<ge> maxLine then Inl ReadFailed
     else let line = Suc line; txt = TrimSpace (dropCR raw) in
       if txt = '''' then load_lines digest line tokens raws
       else (case parseLine txt of
           Inl e \<Rightarrow> Inl (AtLine line e)
         | Inr entry \<Rightarrow>
           (case auth_add digest tokens entry of
              Inl e \<Rightarrow> Inl (AtLine line e)
            | Inr tokens' \<Rightarrow> load_lines digest line tokens' raws)))"

definition LoadFile :: "(string \<Rightarrow> string) \<Rightarrow> token_file option \<Rightarrow> auth_error + auth_token list" where
  "LoadFile digest file =
    (case file of
       None \<Rightarrow> Inl OpenFailed
     | Some f \<Rightarrow>
       if \<not> tf_stat_ok f then Inl StatFailed
       else if \<not> tf_regular f \<or> and (tf_perm f) 31 \<noteq> 0 then Inl BadFileMode
       else (case load_lines digest 0 [] (split_lines [] (tf_bytes f)) of
           Inl e \<Rightarrow> Inl e
         | Inr tokens \<Rightarrow>
           if tf_read_error f then Inl ReadFailed
           else if length tokens = 0 then Inl NoTokens
           else Inr tokens))"

section \<open>Checking a request\<close>

text \<open>The argument is the value of the header \<open>Authorization\<close>, empty when there is none; \<open>None\<close> is the
  nil authenticator.\<close>

definition Authenticate :: "(string \<Rightarrow> string) \<Rightarrow> auth_token list option \<Rightarrow> string \<Rightarrow> auth_error + Principal" where
  "Authenticate digest a rawHeader =
    (case a of
       None \<Rightarrow> Inl Unauthorized
     | Some tokens \<Rightarrow>
       if length rawHeader > length ''Bearer '' + maxTokenLen then Inl Unauthorized
       else let header = TrimSpace rawHeader in
         if length header < length ''Bearer '' \<or> \<not> EqualFold (take (length ''Bearer '') header) ''Bearer ''
           then Inl Unauthorized
         else let provided = TrimSpace (drop (length ''Bearer '') header) in
           if provided = '''' \<or> ContainsAny provided [CHR '' '', CHR 0x09, CHR 0x0D, CHR 0x0A]
             then Inl Unauthorized
           else (case find (\<lambda>candidate. digest provided = digest (tk_value candidate)) tokens of
               None \<Rightarrow> Inl Unauthorized
             | Some candidate \<Rightarrow> Inr \<lparr>p_Name = tk_name candidate, p_Role = tk_role candidate\<rparr>))"

definition Require :: "Principal \<Rightarrow> string \<Rightarrow> auth_error + unit" where
  "Require p minimum =
    (if role_rank (p_Role p) < role_rank minimum then Inl AuthForbidden else Inr ())"

section \<open>Authenticators hold well-formed tokens\<close>

definition token_ok :: "auth_token \<Rightarrow> bool" where
  "token_ok t \<longleftrightarrow> tk_value t = TrimSpace (tk_value t) \<and> tk_value t \<noteq> '''' \<and> length (tk_value t) \<le> maxTokenLen
     \<and> isRole (tk_role t) \<and> tk_name t \<noteq> '''' \<and> length (tk_name t) \<le> maxNameLen"

definition tokens_ok :: "(string \<Rightarrow> string) \<Rightarrow> auth_token list \<Rightarrow> bool" where
  "tokens_ok digest ts \<longleftrightarrow> (\<forall>t \<in> set ts. token_ok t) \<and> distinct (map tk_name ts) \<and> distinct (map (digest \<circ> tk_value) ts)"

lemma tokens_ok_Nil [simp]: "tokens_ok digest []"
  by (simp add: tokens_ok_def)

lemma duplicate_error_None:
  "duplicate_error digest t ts = None \<longleftrightarrow> tk_name t \<notin> tk_name ` set ts \<and> digest (tk_value t) \<notin> (digest \<circ> tk_value) ` set ts"
  by (induction ts) auto

lemma auth_add_ok: "auth_add digest ts t = Inr ts' \<Longrightarrow> tokens_ok digest ts \<Longrightarrow> tokens_ok digest ts'"
  by (auto simp: auth_add_def tokens_ok_def token_ok_def duplicate_error_None split: if_splits option.splits)

lemma add_configured_ok: "add_configured digest n ts vs = Inr ts' \<Longrightarrow> tokens_ok digest ts \<Longrightarrow> tokens_ok digest ts'"
  by (induction digest n ts vs rule: add_configured.induct) (auto split: sum.splits dest: auth_add_ok)

lemma load_lines_ok: "load_lines digest n ts raws = Inr ts' \<Longrightarrow> tokens_ok digest ts \<Longrightarrow> tokens_ok digest ts'"
  by (induction digest n ts raws rule: load_lines.induct) (fastforce simp: Let_def split: sum.splits if_splits dest: auth_add_ok)+

section \<open>Trimming around a prefix\<close>

lemma long_runes_high: "r \<in> set space_runes \<Longrightarrow> length r \<noteq> 1 \<Longrightarrow> \<forall>c \<in> set r. 128 \<le> (of_char c :: nat)"
  by (auto simp: space_runes_def)

lemma match_len_rev_append:
  assumes "match_len (map rev space_runes) s = 0" "s \<noteq> []" "of_char c < (128 :: nat)"
  shows "match_len (map rev space_runes) (s @ c # x) = 0"
  unfolding match_len_0_iff
proof (intro ballI impI notI)
  fix q assume q: "q \<in> set (map rev space_runes)" "q \<noteq> []" "HasPrefix (s @ c # x) q"
  then obtain r where r: "q = rev r" "r \<in> set space_runes" by auto
  obtain y where y: "s @ c # x = q @ y" using q(3) by (auto simp: HasPrefix_iff)
  show False
  proof (cases "length q \<le> length s")
    case True
    then have "HasPrefix s q" using y by (metis HasPrefix_def append_eq_conv_conj take_append diff_is_0_eq' take0 append_Nil2)
    with assms(1) q(1,2) show False by (auto simp: match_len_0_iff)
  next
    case False
    then have "q ! length s = c" using y by (metis nth_append nth_append_length not_le)
    then have "c \<in> set r" using False r by (metis nth_mem not_le set_rev)
    moreover have "length r \<noteq> 1" using False assms(2) r by (cases s) auto
    ultimately show False using long_runes_high [OF r(2)] assms(3) by fastforce
  qed
qed

lemma TrimSpace_fix:
  assumes "TrimSpace v = v"
  shows "match_len space_runes v = 0" "match_len (map rev space_runes) (rev v) = 0"
proof -
  have "match_len (map rev space_runes) (rev (TrimSpace v)) = 0"
    by (simp add: TrimSpace_def TrimRightSpace_def match_len_trim_with)
  with assms show "match_len (map rev space_runes) (rev v) = 0" by simp
  let ?l = "trim_with space_runes v"
  obtain t where t: "rev ?l = t @ trim_with (map rev space_runes) (rev ?l)" using trim_with_suffix by blast
  then have "?l = TrimSpace v @ rev t"
    unfolding TrimSpace_def TrimRightSpace_def TrimLeftSpace_def by (metis rev_append rev_rev_ident)
  then have "match_len space_runes (TrimSpace v) = 0"
    using match_len_trim_with [of space_runes v] by (metis match_len_prefix)
  with assms show "match_len space_runes v = 0" by simp
qed

lemma TrimSpace_append:
  assumes "TrimSpace v = v" "v \<noteq> []" "match_len space_runes (p @ v) = 0" "p \<noteq> []" "of_char (last p) < (128 :: nat)"
  shows "TrimSpace (p @ v) = p @ v"
proof -
  have p: "rev (p @ v) = rev v @ last p # rev (butlast p)" using assms(4) by (cases p rule: rev_cases) auto
  have "match_len (map rev space_runes) (rev (p @ v)) = 0"
    unfolding p by (rule match_len_rev_append [OF TrimSpace_fix(2) [OF assms(1)] _ assms(5)]) (simp add: assms(2))
  then show ?thesis using assms(3) by (simp add: TrimSpace_def TrimLeftSpace_def TrimRightSpace_def trim_with_fix)
qed

text \<open>The spellings of the scheme: folding case gives back a text of the same length whose first byte is a
  letter and whose last byte is the blank.\<close>

lemma fold_name_plain:
  assumes "length s = length (fold_name s)"
  shows "fold_name s = map lower_char s"
proof -
  have le: "length (fold_name x) \<le> length x" for x by (induction x rule: fold_name.induct) auto
  show ?thesis
    using assms
  proof (induction s rule: fold_name.induct)
    case (2 c s)
    have "\<not> (c = CHR 0xE2 \<and> take 2 s = [CHR 0x84, CHR 0xAA])" "\<not> (c = CHR 0xC5 \<and> take 1 s = [CHR 0xBF])"
      using 2(4) le [of "drop 2 s"] le [of "drop 1 s"] by (auto split: if_splits)
    with 2 show ?case by (auto split: if_splits)
  qed simp
qed

lemma lower_char_ascii: "lower_char c = CHR ''b'' \<Longrightarrow> c = CHR ''b'' \<or> c = CHR ''B''" "lower_char c = CHR '' '' \<Longrightarrow> c = CHR '' ''"
proof -
  have up: "c = char_of (n - 32) \<and> 97 \<le> n \<and> n \<le> 122 \<or> c = d" if "lower_char c = d" "n = of_char d" for d and n :: nat
  proof (cases "CHR ''A'' \<le> c \<and> c \<le> CHR ''Z''")
    case True
    then have b: "65 \<le> (of_char c :: nat)" "of_char c \<le> (90 :: nat)" by (simp_all add: less_eq_char_def)
    have "d = char_of (of_char c + 32 :: nat)" using True that(1) by (simp add: lower_char_def)
    then have "n = of_char c + 32" using b that(2) by (simp add: of_char_of)
    then show ?thesis using b by (simp add: char_of_char)
  next
    case False
    then have "lower_char c = c" by (simp only: lower_char_def if_False)
    then show ?thesis using that(1) by simp
  qed
  show "lower_char c = CHR ''b'' \<Longrightarrow> c = CHR ''b'' \<or> c = CHR ''B''" 
    using up [of "CHR ''b''" 98] char_of_char [of "CHR ''B''", where 'a = nat] by auto
  show "lower_char c = CHR '' '' \<Longrightarrow> c = CHR '' ''" using up [of "CHR '' ''" 32] by simp
qed

lemma Bearer_spelling:
  assumes "EqualFold scheme ''Bearer ''" "length scheme = 7"
  shows "hd scheme = CHR ''b'' \<or> hd scheme = CHR ''B''" "last scheme = CHR '' ''" "scheme \<noteq> []"
proof -
  have b: "fold_name ''Bearer '' = ''bearer ''" by code_simp
  then have f: "fold_name scheme = ''bearer ''" using assms(1) unfolding EqualFold_def by (rule trans [rotated])
  then have m: "map lower_char scheme = ''bearer ''" using assms(2) fold_name_plain [of scheme] by simp
  then show ne: "scheme \<noteq> []" by auto
  have "lower_char (hd scheme) = hd (map lower_char scheme)" "lower_char (last scheme) = last (map lower_char scheme)"
    using ne by (simp_all add: list.map_sel(1) last_map)
  then have "lower_char (hd scheme) = CHR ''b''" "lower_char (last scheme) = CHR '' ''" unfolding m by simp_all
  then show "hd scheme = CHR ''b'' \<or> hd scheme = CHR ''B''" "last scheme = CHR '' ''"
    by (simp_all add: lower_char_ascii)
qed

lemma TrimSpace_Bearer:
  assumes "TrimSpace v = v" "v \<noteq> []" "EqualFold scheme ''Bearer ''" "length scheme = 7"
  shows "TrimSpace (scheme @ v) = scheme @ v"
proof (rule TrimSpace_append [OF assms(1,2)])
  note b = Bearer_spelling [OF assms(3,4)]
  obtain c r where s: "scheme = c # r" "c = CHR ''b'' \<or> c = CHR ''B''" using b(1,3) by (cases scheme) auto
  show "scheme \<noteq> []" "of_char (last scheme) < (128 :: nat)" using b(2,3) by simp_all
  have "match_len space_runes (CHR ''b'' # r @ v) = 0" "match_len space_runes (CHR ''B'' # r @ v) = 0"
    by (simp_all add: match_len_0_iff space_runes_def HasPrefix_def)
  then show "match_len space_runes (scheme @ v) = 0" using s by auto
qed

section \<open>Authentication\<close>

definition principal_of :: "auth_token \<Rightarrow> Principal" where
  "principal_of t = \<lparr>p_Name = tk_name t, p_Role = tk_role t\<rparr>"

lemma find_unique:
  assumes "distinct (map f xs)" "x \<in> set xs"
  shows "find (\<lambda>y. f x = f y) xs = Some x"
  using assms by (induction xs) (auto simp: image_iff)

lemma authenticate_token:
  assumes "tokens_ok digest ts" "t \<in> set ts" "\<not> ContainsAny (tk_value t) [CHR '' '', CHR 0x09, CHR 0x0D, CHR 0x0A]"
    and "EqualFold scheme ''Bearer ''" "length scheme = 7"
  shows "Authenticate digest (Some ts) (scheme @ tk_value t) = Inr (principal_of t)"
proof -
  have t: "TrimSpace (tk_value t) = tk_value t" "tk_value t \<noteq> ''''" "length (tk_value t) \<le> maxTokenLen"
    using assms(1,2) by (auto simp: tokens_ok_def token_ok_def)
  have "find (\<lambda>c. digest (tk_value t) = digest (tk_value c)) ts = Some t"
    using find_unique [of "digest \<circ> tk_value" ts t] assms(1,2) by (simp add: tokens_ok_def)
  moreover have "length ''Bearer '' = 7" by simp
  ultimately show ?thesis
    using t assms(3-5) TrimSpace_Bearer [OF t(1,2) assms(4,5)] unfolding Authenticate_def principal_of_def
    by (simp del: length_Cons add: Let_def)
qed

lemma authenticate_Inr:
  assumes "Authenticate digest (Some ts) h = Inr p"
  shows "\<exists>t \<in> set ts. p = principal_of t \<and> digest (TrimSpace (drop 7 (TrimSpace h))) = digest (tk_value t)
    \<and> fold_name (take 7 (TrimSpace h)) = ''bearer '' \<and> TrimSpace (drop 7 (TrimSpace h)) \<noteq> ''''"
proof -
  have l: "length ''Bearer '' = 7" "fold_name ''Bearer '' = ''bearer ''" by simp code_simp
  have "\<exists>t. find (\<lambda>c. digest (TrimSpace (drop 7 (TrimSpace h))) = digest (tk_value c)) ts = Some t \<and> p = principal_of t"
    "fold_name (take 7 (TrimSpace h)) = ''bearer ''" "TrimSpace (drop 7 (TrimSpace h)) \<noteq> ''''"
    using assms unfolding Authenticate_def l EqualFold_def Let_def by (simp_all add: principal_of_def split: if_splits option.splits)
  then show ?thesis by (auto simp: find_Some_iff intro!: bexI [OF _ nth_mem])
qed

section \<open>Records round-trip\<close>

lemma read_key_esc: "valid_utf8 k \<Longrightarrow> read_key (dquote # esc k @ dquote # y) = Some (k, y)"
  using read_key_quote [of k y] by (simp add: quote_def)

lemma token_fields_text:
  assumes "ms \<noteq> []" "distinct (map fst ms)" "fst ` set got \<inter> fst ` set ms = {}"
    and "\<forall>(k, t) \<in> set ms. valid_utf8 k \<and> (\<exists>v. value_text t v)"
  shows "token_fields first got ((if first then '''' else '','') @ members_text ms @ CHR ''}'' # x) = Inr (got @ ms, x)"
  using assms
proof (induction ms arbitrary: first got rule: members_text.induct)
  case (2 k t)
  then obtain v where k: "valid_utf8 k" and v: "value_text t v" by auto
  have "decode_next (t @ CHR ''}'' # x) = Some (v, CHR ''}'' # x)" using v by (simp add: value_text_def)
  moreover have "token_fields False (got @ [(k, t)]) (CHR ''}'' # x) = Inr (got @ [(k, t)], x)"
    by (subst token_fields.simps) (simp add: is_ws_def)
  ultimately show ?case
    using value_text_skip_ws [OF v] "2.prems"(3)
    by (subst token_fields.simps) (simp add: read_key_esc k is_ws_def raw_slice_def quote_def split: if_splits)
next
  case (3 k t m ms)
  then obtain v where k: "valid_utf8 k" and v: "value_text t v" by auto
  have IH: "token_fields False (got @ [(k, t)]) (CHR '','' # members_text (m # ms) @ CHR ''}'' # x) = Inr ((got @ [(k, t)]) @ m # ms, x)"
    using "3.prems" "3.IH" [of "got @ [(k, t)]" False] by auto
  have "decode_next (t @ CHR '','' # y) = Some (v, CHR '','' # y)" for y using v by (simp add: value_text_def)
  then show ?case
    using value_text_skip_ws [OF v] IH "3.prems"(3)
    by (subst token_fields.simps) (simp add: read_key_esc k is_ws_def raw_slice_def quote_def split: if_splits)
qed simp

definition token_members :: "auth_token \<Rightarrow> (string \<times> string) list" where
  "token_members t = [(''name'', quote (tk_name t)), (''role'', quote (tk_role t)), (''token'', quote (tk_value t))]"

lemma TrimSpace_braces: "TrimSpace (CHR ''{'' # s @ ''}'') = CHR ''{'' # s @ ''}''"
  by (rule TrimSpace_ends) (simp_all add: space_runes_def)

lemma isRole_utf8: "isRole r \<Longrightarrow> valid_utf8 r"
  by (auto simp: isRole_def intro!: valid_utf8_ascii)

lemma parseLine_text:
  assumes "valid_utf8 (tk_name t)" "valid_utf8 (tk_value t)" "isRole (tk_role t)" "tk_name t \<noteq> ''''" "TrimSpace (tk_name t) = tk_name t"
  shows "parseLine (obj_text (token_members t)) = Inr t"
proof -
  have keys: "valid_utf8 ''name''" "valid_utf8 ''role''" "valid_utf8 ''token''" by code_simp+
  have "token_fields True [] (members_text (token_members t) @ ''}'') = Inr (token_members t, [])"
    using token_fields_text [of "token_members t" "[]" True "[]"] assms keys isRole_utf8 [OF assms(3)]
    by (auto simp: token_members_def intro: value_text_quote)
  then have "auth_decodeJSONObject (obj_text (token_members t)) = Inr (token_members t)"
    by (simp add: auth_decodeJSONObject_def obj_text_def is_ws_def)
  moreover have "TrimSpace (obj_text (token_members t)) = obj_text (token_members t)"
    unfolding obj_text_def by (rule TrimSpace_braces)
  moreover have "HasPrefix (obj_text ms) ''{''" "obj_text ms \<noteq> ''''" for ms by (simp_all add: obj_text_def HasPrefix_def)
  ultimately show ?thesis
    using assms isRole_utf8 [OF assms(3)] by (simp add: parseLine_def token_members_def)
qed

section \<open>Loading a file written one record per line\<close>

definition file_of :: "string \<Rightarrow> token_file" where
  "file_of bytes = \<lparr>tf_stat_ok = True, tf_regular = True, tf_perm = 288, tf_bytes = bytes, tf_read_error = False\<rparr>"

lemma split_lines_plain: "CHR 0x0A \<notin> set s \<Longrightarrow> s \<noteq> [] \<or> acc \<noteq> [] \<Longrightarrow> split_lines acc s = [rev acc @ s]"
  by (induction s arbitrary: acc) auto

lemma load_one:
  assumes "parseLine l = Inr t" "TrimSpace l = l" "l \<noteq> ''''" "CHR 0x0A \<notin> set l" "\<not> HasSuffix l [CHR 0x0D]"
    and "length l < maxLine" "token_ok t"
  shows "LoadFile digest (Some (file_of l)) = Inr [t]"
proof -
  have "auth_add digest [] t = Inr [t]" using assms(7) by (simp add: auth_add_def token_ok_def)
  then show ?thesis
    using assms split_lines_plain [of l "[]"] by (simp add: LoadFile_def file_of_def dropCR_def TrimSuffix_def Let_def)
qed

definition sample_token :: auth_token where
  "sample_token = \<lparr>tk_name = ''ci'', tk_role = ''operator'', tk_value = ''s3cret''\<rparr>"

lemma sample_token_plain: "TrimSpace ''ci'' = ''ci''" "TrimSpace ''s3cret'' = ''s3cret''"
  by (rule TrimSpace_plain, simp add: space_runes_def)+

lemma sample_token_ok: "token_ok sample_token"
  using sample_token_plain by (simp add: token_ok_def sample_token_def isRole_def maxTokenLen_def maxNameLen_def)

lemma sample_token_text: "obj_text (token_members sample_token)
    = CHR ''{'' # members_text (token_members sample_token) @ ''}''"
  "members_text (token_members sample_token)
    = quote ''name'' @ CHR '':'' # quote ''ci'' @ CHR '','' # quote ''role'' @ CHR '':'' # quote ''operator'' @ CHR '','' # quote ''token'' @ CHR '':'' # quote ''s3cret''"
  by (simp_all add: obj_text_def token_members_def sample_token_def)

lemma sample_file: "LoadFile digest (Some (file_of (obj_text (token_members sample_token)))) = Inr [sample_token]"
proof (rule load_one [OF parseLine_text])
  have "valid_utf8 ''ci''" "valid_utf8 ''s3cret''" by (simp_all add: valid_utf8_ascii)
  then show "valid_utf8 (tk_name sample_token)" "valid_utf8 (tk_value sample_token)" by (simp_all add: sample_token_def)
  have q: "quote ''name'' = dquote # ''name'' @ [dquote]" "quote ''ci'' = dquote # ''ci'' @ [dquote]"
    "quote ''role'' = dquote # ''role'' @ [dquote]" "quote ''operator'' = dquote # ''operator'' @ [dquote]"
    "quote ''token'' = dquote # ''token'' @ [dquote]" "quote ''s3cret'' = dquote # ''s3cret'' @ [dquote]"
    by code_simp+
  show "CHR 0x0A \<notin> set (obj_text (token_members sample_token))" "length (obj_text (token_members sample_token)) < maxLine"
    unfolding sample_token_text q by (simp_all add: maxLine_def)
  show "TrimSpace (obj_text (token_members sample_token)) = obj_text (token_members sample_token)"
    unfolding obj_text_def by (rule TrimSpace_braces)
  show "\<not> HasSuffix (obj_text (token_members sample_token)) [CHR 0x0D]" by (simp add: obj_text_def HasSuffix_def HasPrefix_def)
qed (use sample_token_plain sample_token_ok in \<open>simp_all add: sample_token_def isRole_def obj_text_def\<close>)

section \<open>Properties\<close>

text \<open>A token file is accepted only when it is a regular file closed to group writes and to other users,
  and what it gives is a non-empty list of well-formed tokens with distinct names and distinct digests.\<close>

theorem loaded_tokens_ok:
  assumes "LoadFile digest (Some f) = Inr ts"
  shows "tf_regular f \<and> and (tf_perm f) 31 = 0 \<and> ts \<noteq> [] \<and> distinct (map tk_name ts) \<and> distinct (map (digest \<circ> tk_value) ts)
    \<and> (\<forall>t \<in> set ts. isRole (tk_role t) \<and> tk_name t \<noteq> '''' \<and> tk_value t \<noteq> '''' \<and> TrimSpace (tk_value t) = tk_value t
        \<and> length (tk_value t) \<le> 4096 \<and> length (tk_name t) \<le> 200)"
proof -
  have "load_lines digest 0 [] (split_lines [] (tf_bytes f)) = Inr ts" "tf_regular f" "and (tf_perm f) 31 = 0" "ts \<noteq> []"
    using assms by (auto simp: LoadFile_def split: if_splits sum.splits)
  moreover from this(1) have "tokens_ok digest ts" by (rule load_lines_ok) simp
  ultimately show ?thesis by (simp add: tokens_ok_def token_ok_def maxTokenLen_def maxNameLen_def)
qed

theorem loaded_tokens_ok_witness:
  "LoadFile id (Some (file_of (obj_text (token_members sample_token)))) = Inr [sample_token]
    \<and> isRole (tk_role sample_token) \<and> distinct (map tk_name [sample_token])"
  using loaded_tokens_ok [OF sample_file [of id]] sample_file [of id] by simp

text \<open>C38: A loaded token without white space inside authenticates as its principal with any spelling of the Bearer
  scheme, upper or lower case; and, where no other credential has the digest of a loaded token, only a
  header of a Bearer scheme with the value of a loaded token authenticates, as that token's principal.\<close>

theorem authenticate_exact:
  assumes "LoadFile digest (Some f) = Inr ts"
    and "\<forall>t \<in> set ts. digest (TrimSpace (drop 7 (TrimSpace h))) = digest (tk_value t) \<longrightarrow> TrimSpace (drop 7 (TrimSpace h)) = tk_value t"
  shows "(Authenticate digest (Some ts) h = Inr p \<longrightarrow> EqualFold (take 7 (TrimSpace h)) ''Bearer '' \<and>
      (\<exists>t \<in> set ts. p = \<lparr>p_Name = tk_name t, p_Role = tk_role t\<rparr> \<and> TrimSpace (drop 7 (TrimSpace h)) = tk_value t))
    \<and> (\<forall>t \<in> set ts. \<forall>scheme. \<not> ContainsAny (tk_value t) [CHR '' '', CHR 0x09, CHR 0x0D, CHR 0x0A]
        \<and> EqualFold scheme ''Bearer '' \<and> length scheme = 7 \<longrightarrow>
      Authenticate digest (Some ts) (scheme @ tk_value t) = Inr \<lparr>p_Name = tk_name t, p_Role = tk_role t\<rparr>)"
proof -
  have "load_lines digest 0 [] (split_lines [] (tf_bytes f)) = Inr ts"
    using assms by (auto simp: LoadFile_def split: if_splits sum.splits)
  then have ok: "tokens_ok digest ts" by (rule load_lines_ok) simp
  have "fold_name ''Bearer '' = ''bearer ''" by code_simp
  then have "Authenticate digest (Some ts) h = Inr p \<longrightarrow> EqualFold (take 7 (TrimSpace h)) ''Bearer '' \<and>
      (\<exists>t \<in> set ts. p = \<lparr>p_Name = tk_name t, p_Role = tk_role t\<rparr> \<and> TrimSpace (drop 7 (TrimSpace h)) = tk_value t)"
    using authenticate_Inr [of digest ts h p] assms(2) unfolding principal_of_def EqualFold_def by metis
  then show ?thesis using authenticate_token [OF ok] unfolding principal_of_def by blast
qed

theorem authenticate_exact_witness:
  "Authenticate id (Some [sample_token]) (''bEARER '' @ ''s3cret'') = Inr \<lparr>p_Name = ''ci'', p_Role = ''operator''\<rparr>"
proof -
  have s: "EqualFold ''bEARER '' ''Bearer ''" "\<not> ContainsAny ''s3cret'' [CHR '' '', CHR 0x09, CHR 0x0D, CHR 0x0A]" "length ''bEARER '' = 7"
    by code_simp+
  have "sample_token \<in> set [sample_token]" by simp
  with authenticate_exact [OF sample_file [of id], of "''''" "\<lparr>p_Name = '''', p_Role = ''''\<rparr>"] s
  have "Authenticate id (Some [sample_token]) (''bEARER '' @ tk_value sample_token) = Inr \<lparr>p_Name = tk_name sample_token, p_Role = tk_role sample_token\<rparr>"
    by (simp add: sample_token_def del: append.simps length_Cons)
  then show ?thesis by (simp only: sample_token_def auth_token.simps)
qed

text \<open>C39: The line with the JSON record of a token is read back as the token, if its texts are UTF-8, its role is known
  and its name is not empty and has no white space around it.\<close>

theorem token_record_roundtrip:
  assumes "valid_utf8 (tk_name t)" "valid_utf8 (tk_value t)" "isRole (tk_role t)" "tk_name t \<noteq> ''''" "TrimSpace (tk_name t) = tk_name t"
  shows "parseLine (obj_text [(''name'', quote (tk_name t)), (''role'', quote (tk_role t)), (''token'', quote (tk_value t))]) = Inr t"
  using parseLine_text [OF assms] by (simp add: token_members_def)

theorem token_record_roundtrip_witness:
  "parseLine (obj_text [(''name'', quote ''ci''), (''role'', quote ''operator''), (''token'', quote ''s3cret'')]) = Inr sample_token"
  using token_record_roundtrip [of sample_token] sample_token_plain by (simp add: sample_token_def isRole_def valid_utf8_ascii)

end
