(* ===== verification/Routes.thy ===== *)
theory Routes
  imports Http Auth
begin

text \<open>
  Routing (\<open>routes.go\<close> over \<open>http.ServeMux\<close>): the table of routes with the role each one requires,
  the cleaning of paths, and the choice of a route. Of the multiplexer the model has what this table
  uses: patterns with a method, literal segments and single-segment wildcards, no pattern that ends
  in a slash, no host. A redirect or a refusal of the multiplexer itself is a status only.
\<close>

section \<open>The table\<close>

datatype endpoint =
    Health | Readiness | Version | Metrics
  | ListMaintenance | CreateMaintenanceRun | GetMaintenance | TransitionRun
  | GetRunCapture | CaptureRun | GetRunTarget | TransitionRunTarget | ObserveTarget
  | ListJournal | CreateBackupFile | DownloadBackup

datatype segment = Lit string | Wild

record route =
  rt_method :: string
  rt_path :: "segment list"
  rt_role :: "string option"
  rt_endpoint :: endpoint

definition open_route :: "string \<Rightarrow> endpoint \<Rightarrow> route" where
  "open_route p e = \<lparr>rt_method = ''GET'', rt_path = [Lit p], rt_role = None, rt_endpoint = e\<rparr>"

definition api_route :: "string \<Rightarrow> segment list \<Rightarrow> string \<Rightarrow> endpoint \<Rightarrow> route" where
  "api_route method path role e =
    \<lparr>rt_method = method, rt_path = Lit ''api'' # Lit ''v1'' # path, rt_role = Some role, rt_endpoint = e\<rparr>"

definition buildRoutes :: "route list" where
  "buildRoutes =
    [open_route ''healthz'' Health, open_route ''livez'' Health, open_route ''startupz'' Health,
     open_route ''readyz'' Readiness, open_route ''version'' Version, open_route ''metrics'' Metrics,
     api_route ''GET'' [Lit ''maintenance''] ''reader'' ListMaintenance,
     api_route ''POST'' [Lit ''maintenance''] ''operator'' CreateMaintenanceRun,
     api_route ''GET'' [Lit ''maintenance'', Wild] ''reader'' GetMaintenance,
     api_route ''PATCH'' [Lit ''maintenance'', Wild] ''operator'' TransitionRun,
     api_route ''GET'' [Lit ''maintenance'', Wild, Lit ''capture''] ''reader'' GetRunCapture,
     api_route ''PUT'' [Lit ''maintenance'', Wild, Lit ''capture''] ''operator'' CaptureRun,
     api_route ''GET'' [Lit ''maintenance'', Wild, Lit ''targets'', Wild] ''reader'' GetRunTarget,
     api_route ''PATCH'' [Lit ''maintenance'', Wild, Lit ''targets'', Wild] ''operator'' TransitionRunTarget,
     api_route ''POST'' [Lit ''maintenance'', Wild, Lit ''targets'', Wild, Lit ''observations''] ''operator'' ObserveTarget,
     api_route ''GET'' [Lit ''events''] ''reader'' ListJournal,
     api_route ''POST'' [Lit ''admin'', Lit ''backups''] ''admin'' CreateBackupFile,
     api_route ''GET'' [Lit ''admin'', Lit ''backups'', Wild] ''admin'' DownloadBackup,
     api_route ''HEAD'' [Lit ''admin'', Lit ''backups'', Wild] ''admin'' DownloadBackup]"

section \<open>Paths\<close>

text \<open>\<open>path.Clean\<close> of a rooted path: the segments without empty ones and dots, a double dot removes the
  segment before it.\<close>

fun clean_segments :: "string list \<Rightarrow> string list \<Rightarrow> string list" where
  "clean_segments acc [] = rev acc"
| "clean_segments acc (s # ss) =
    (if s = '''' \<or> s = ''.'' then clean_segments acc ss
     else if s = ''..'' then clean_segments (tl acc) ss
     else clean_segments (s # acc) ss)"

definition cleanPath :: "string \<Rightarrow> string" where
  "cleanPath p =
    (if p = '''' then ''/''
     else let p = (if hd p \<noteq> CHR ''/'' then CHR ''/'' # p else p);
              np = CHR ''/'' # Join (clean_segments [] (Split p CHR ''/'')) ''/''
       in if last p = CHR ''/'' \<and> np \<noteq> ''/'' then np @ ''/'' else np)"

definition unescape_or_same :: "string \<Rightarrow> string" where
  "unescape_or_same s = (case unescape False s of None \<Rightarrow> s | Some t \<Rightarrow> t)"

text \<open>The segments that the patterns are matched with: each one unescaped, and a slash at the end of the
  path is a segment of its own.\<close>

definition path_segments :: "string \<Rightarrow> string list" where
  "path_segments p =
    (let ss = Split (tl p) CHR ''/'' in
     map unescape_or_same (if last ss = '''' then butlast ss @ [''/''] else ss))"

fun match_segments :: "segment list \<Rightarrow> string list \<Rightarrow> string list option" where
  "match_segments [] [] = Some []"
| "match_segments (Lit l # ps) (s # ss) = (if s = l then match_segments ps ss else None)"
| "match_segments (Wild # ps) (s # ss) = (if s \<noteq> ''/'' then map_option (Cons s) (match_segments ps ss) else None)"
| "match_segments _ _ = None"

section \<open>Choosing a route\<close>

definition route_for :: "string \<Rightarrow> string list \<Rightarrow> (route \<times> string list) option" where
  "route_for method ss =
    (case List.map_filter (\<lambda>r. if rt_method r = method then map_option (Pair r) (match_segments (rt_path r) ss) else None) buildRoutes of
       [] \<Rightarrow> None | m # _ \<Rightarrow> Some m)"

datatype routed = Found route "string list" | Redirected | NotAllowed | NoRoute

definition mux_route :: "request \<Rightarrow> routed" where
  "mux_route r =
    (let path = (if rq_method r = ''CONNECT'' then rq_escaped r else cleanPath (rq_escaped r)); ss = path_segments path in
     if path \<noteq> rq_escaped r then Redirected
     else (case route_for (rq_method r) ss of
         Some (rt, vs) \<Rightarrow> Found rt vs
       | None \<Rightarrow>
         (case (if rq_method r = ''HEAD'' then route_for ''GET'' ss else None) of
            Some (rt, vs) \<Rightarrow> Found rt vs
          | None \<Rightarrow> if list_ex (\<lambda>rt. match_segments (rt_path rt) ss \<noteq> None) buildRoutes then NotAllowed else NoRoute)))"

definition url_Path :: "request \<Rightarrow> string" where
  "url_Path r = unescape_or_same (rq_escaped r)"

definition isAPIPath :: "string \<Rightarrow> bool" where
  "isAPIPath path \<longleftrightarrow> path = ''/api/v1'' \<or> HasPrefix path ''/api/v1/''"

section \<open>Laws of the table\<close>

text \<open>Every route that changes something requires at least an operator, and those of backups an admin.\<close>

definition changes :: "endpoint \<Rightarrow> bool" where
  "changes e \<longleftrightarrow> e \<in> {CreateMaintenanceRun, TransitionRun, CaptureRun, TransitionRunTarget, ObserveTarget, CreateBackupFile, DownloadBackup}"

definition backups :: "endpoint \<Rightarrow> bool" where
  "backups e \<longleftrightarrow> e = CreateBackupFile \<or> e = DownloadBackup"

definition needs :: "route \<Rightarrow> nat" where
  "needs rt = (case rt_role rt of None \<Rightarrow> 0 | Some role \<Rightarrow> nat (role_rank role))"

lemma routes_roles: "rt \<in> set buildRoutes \<Longrightarrow> changes (rt_endpoint rt) \<Longrightarrow> 2 \<le> needs rt"
  "rt \<in> set buildRoutes \<Longrightarrow> backups (rt_endpoint rt) \<Longrightarrow> 3 \<le> needs rt"
  by (auto simp: buildRoutes_def open_route_def api_route_def changes_def backups_def needs_def role_rank_def)

lemma routes_open: "rt \<in> set buildRoutes \<Longrightarrow> rt_role rt = None \<Longrightarrow> rt_endpoint rt \<in> {Health, Readiness, Version, Metrics}"
  by (auto simp: buildRoutes_def open_route_def api_route_def)

lemma routes_methods: "rt \<in> set buildRoutes \<Longrightarrow> changes (rt_endpoint rt) \<Longrightarrow> \<not> backups (rt_endpoint rt) \<Longrightarrow> rt_method rt \<notin> {''GET'', ''HEAD''}"
  by (auto simp: buildRoutes_def open_route_def api_route_def changes_def backups_def)

lemma route_for_listed: "route_for method ss = Some (rt, vs) \<Longrightarrow> rt \<in> set buildRoutes \<and> rt_method rt = method \<and> match_segments (rt_path rt) ss = Some vs"
proof -
  assume a: "route_for method ss = Some (rt, vs)"
  let ?f = "\<lambda>r. if rt_method r = method then map_option (Pair r) (match_segments (rt_path r) ss) else None"
  have "(rt, vs) \<in> set (List.map_filter ?f buildRoutes)" using a by (auto simp: route_for_def split: list.splits)
  then obtain r where "r \<in> set buildRoutes" "?f r = Some (rt, vs)" by (auto simp: List.map_filter_def)
  then show ?thesis by (auto split: if_splits)
qed

lemma mux_route_listed: "mux_route r = Found rt vs \<Longrightarrow> rt \<in> set buildRoutes"
  by (auto simp: mux_route_def Let_def split: if_splits option.splits dest: route_for_listed)

text \<open>The one route for GET requests that changes something is the download of a backup.\<close>

lemma routes_reads: "rt \<in> set buildRoutes \<Longrightarrow> changes (rt_endpoint rt) \<Longrightarrow> rt_method rt = ''GET'' \<or> rt_method rt = ''HEAD'' \<Longrightarrow> rt_endpoint rt = DownloadBackup"
  by (auto simp: buildRoutes_def open_route_def api_route_def changes_def)

lemma mux_route_method: "mux_route r = Found rt vs \<Longrightarrow> rt_method rt = rq_method r \<or> rq_method r = ''HEAD'' \<and> rt_method rt = ''GET''"
  by (auto simp: mux_route_def Let_def split: if_splits option.splits prod.splits dest: route_for_listed)


end
