(* ===== verification/Encode.thy ===== *)
theory Encode
  imports Reads
begin

text \<open>
  How \<open>json.Encoder\<close> writes the values that the API sends: targets, captures, events, aggregates and
  pages. Each is the JSON form of the struct in \<open>store.go\<close>, with \<open>omitempty\<close> where its tag says so;
  \<open>None\<close> is an error of the encoder.
\<close>

definition marshal_array :: "string option list \<Rightarrow> string option" where
  "marshal_array xs = map_option (\<lambda>ts. CHR ''['' # Join ts '','' @ '']'') (those xs)"

definition marshal_Target :: "Target \<Rightarrow> string option" where
  "marshal_Target t = marshal_struct
    ([(''id'', Some (quote (t_ID t)))]
     @ omitempty (t_MaintenanceID t) ''maintenance_id'' (Some (quote (t_MaintenanceID t)))
     @ [(''lock_key'', Some (quote (t_LockKey t))), (''state'', Some (quote (t_State t))),
        (''original_state'', Some (quote (t_OriginalState t)))]
     @ omitempty (t_Kind t) ''kind'' (Some (quote (t_Kind t)))
     @ omitempty (t_Host t) ''host'' (Some (quote (t_Host t)))
     @ (case t_ObservedAt t of None \<Rightarrow> [] | Some x \<Rightarrow> [(''observed_at'', marshal_time x)])
     @ omitempty (t_Metadata t) ''metadata'' (marshal_raw (t_Metadata t))
     @ [(''version'', Some (FormatInt (t_Version t))), (''created_at'', marshal_time (t_CreatedAt t)),
        (''updated_at'', marshal_time (t_UpdatedAt t))])"

definition marshal_Capture :: "Capture \<Rightarrow> string option" where
  "marshal_Capture c = marshal_struct
    [(''maintenance_id'', Some (quote (c_MaintenanceID c))), (''captured_at'', marshal_time (c_CapturedAt c)),
     (''payload'', marshal_raw (c_Payload c)), (''sha256'', Some (quote (c_SHA256 c)))]"

definition marshal_MaintenanceAggregate :: "MaintenanceAggregate \<Rightarrow> string option" where
  "marshal_MaintenanceAggregate a = marshal_struct
    [(''maintenance'', marshal_Maintenance (ma_Maintenance a)), (''targets'', marshal_array (map marshal_Target (ma_Targets a)))]"

definition omitzero :: "int \<Rightarrow> string \<Rightarrow> (string \<times> string option) list" where
  "omitzero v k = (if v = 0 then [] else [(k, Some (FormatInt v))])"

definition marshal_Event :: "Event \<Rightarrow> string option" where
  "marshal_Event e = marshal_struct
    ([(''id'', Some (FormatInt (e_ID e))), (''type'', Some (quote (e_Type e))), (''occurred_at'', marshal_time (e_OccurredAt e)),
      (''request_id'', Some (quote (e_RequestID e))), (''actor'', Some (quote (e_Actor e))), (''role'', Some (quote (e_Role e))),
      (''resource_type'', Some (quote (e_ResourceType e))), (''resource_id'', Some (quote (e_ResourceID e)))]
     @ omitempty (e_MaintenanceID e) ''maintenance_id'' (Some (quote (e_MaintenanceID e)))
     @ omitempty (e_TargetID e) ''target_id'' (Some (quote (e_TargetID e)))
     @ omitempty (e_FromState e) ''from_state'' (Some (quote (e_FromState e)))
     @ omitempty (e_ToState e) ''to_state'' (Some (quote (e_ToState e)))
     @ omitzero (e_FromVersion e) ''from_version'' @ omitzero (e_ToVersion e) ''to_version''
     @ omitzero (e_AggregateVersion e) ''aggregate_version''
     @ [(''payload'', marshal_raw (e_Payload e))])"

definition marshal_MaintenancePage :: "MaintenancePage \<Rightarrow> string option" where
  "marshal_MaintenancePage p = marshal_struct
    ((''items'', marshal_array (map marshal_Maintenance (mp_Items p)))
     # omitempty (mp_NextCursor p) ''next_cursor'' (Some (quote (mp_NextCursor p))))"

definition marshal_EventPage :: "EventPage \<Rightarrow> string option" where
  "marshal_EventPage p = marshal_struct
    ((''items'', marshal_array (map marshal_Event (ep_Items p)))
     # omitempty (ep_NextCursor p) ''next_cursor'' (Some (quote (ep_NextCursor p))))"

end
