(* ===== verification/Files.thy ===== *)
theory Files
  imports Verify
begin

text \<open>
  Files, the SQLite file format as a parameter, and the checks of a database file: \<open>VerifyPath\<close> of
  \<open>verify.go\<close>, \<open>Open\<close> and \<open>inspectDatabasePath\<close> of \<open>store.go\<close>, and the checks of \<open>startup.go\<close>.
  A file system is a list of named files; the backups live in one directory, so there a name is
  relative to it, and a restore names its paths in full. Every call of the operating system may fail
  by the fault oracle, and a call that fails leaves the files as they are.
\<close>

section \<open>Files\<close>

datatype file_kind = Regular | Directory | Symlink string | Special

record inode =
  f_kind :: file_kind
  f_bytes :: string
  f_mtime :: time

type_synonym files = "(string \<times> inode) list"

definition del_file :: "string \<Rightarrow> files \<Rightarrow> files" where
  "del_file n fs = filter (\<lambda>p. fst p \<noteq> n) fs"

definition put_file :: "string \<Rightarrow> inode \<Rightarrow> files \<Rightarrow> files" where
  "put_file n f fs = (n, f) # del_file n fs"

text \<open>Following symbolic links; the kernel gives up after 40.\<close>

fun resolve :: "nat \<Rightarrow> files \<Rightarrow> string \<Rightarrow> inode option" where
  "resolve 0 fs n = None"
| "resolve (Suc k) fs n =
    (case map_of fs n of None \<Rightarrow> None
     | Some f \<Rightarrow> (case f_kind f of Symlink t \<Rightarrow> resolve k fs t | _ \<Rightarrow> Some f))"

definition notExist :: go_error where
  "notExist = PlainError ''file does not exist''"

definition osFailure :: go_error where
  "osFailure = PlainError ''input/output error''"

text \<open>Why a path cannot be resolved: a missing file, or too many links.\<close>

fun resolve_error :: "nat \<Rightarrow> files \<Rightarrow> string \<Rightarrow> go_error" where
  "resolve_error 0 fs n = osFailure"
| "resolve_error (Suc k) fs n =
    (case map_of fs n of None \<Rightarrow> notExist
     | Some f \<Rightarrow> (case f_kind f of Symlink t \<Rightarrow> resolve_error k fs t | _ \<Rightarrow> osFailure))"

definition os_Lstat :: "string \<Rightarrow> files \<Rightarrow> (go_error + inode) \<times> files" where
  "os_Lstat n fs = ((case map_of fs n of None \<Rightarrow> Inl notExist | Some f \<Rightarrow> Inr f), fs)"

definition os_Stat :: "string \<Rightarrow> files \<Rightarrow> (go_error + inode) \<times> files" where
  "os_Stat n fs = ((case resolve 40 fs n of None \<Rightarrow> Inl (resolve_error 40 fs n) | Some f \<Rightarrow> Inr f), fs)"

text \<open>Opening a file and reading all of it.\<close>

definition os_Read :: "string \<Rightarrow> files \<Rightarrow> (go_error + string) \<times> files" where
  "os_Read n fs = ((case resolve 40 fs n of None \<Rightarrow> Inl (resolve_error 40 fs n)
     | Some f \<Rightarrow> if f_kind f = Directory then Inl osFailure else Inr (f_bytes f)), fs)"

definition os_Remove :: "string \<Rightarrow> files \<Rightarrow> (go_error + unit) \<times> files" where
  "os_Remove n fs = (case map_of fs n of None \<Rightarrow> (Inl notExist, fs) | Some f \<Rightarrow> (Inr (), del_file n fs))"

definition os_Rename :: "string \<Rightarrow> string \<Rightarrow> files \<Rightarrow> (go_error + unit) \<times> files" where
  "os_Rename a b fs =
    (case map_of fs a of None \<Rightarrow> (Inl notExist, fs)
     | Some f \<Rightarrow>
       if map_option f_kind (map_of fs b) = Some Directory then (Inl osFailure, fs)
       else (Inr (), put_file b f (del_file a fs)))"

definition os_WriteFile :: "string \<Rightarrow> string \<Rightarrow> time \<Rightarrow> files \<Rightarrow> (go_error + unit) \<times> files" where
  "os_WriteFile n bytes now fs =
    (let f = \<lparr>f_kind = Regular, f_bytes = bytes, f_mtime = now\<rparr> in
     case map_option f_kind (map_of fs n) of
       Some Directory \<Rightarrow> (Inl osFailure, fs)
     | Some (Symlink t) \<Rightarrow> (Inr (), put_file t f fs)
     | _ \<Rightarrow> (Inr (), put_file n f fs))"

text \<open>A call that needs the file to be there and changes nothing that is modelled: sync and chmod.\<close>

definition os_Touch :: "string \<Rightarrow> files \<Rightarrow> (go_error + unit) \<times> files" where
  "os_Touch n fs = ((case resolve 40 fs n of None \<Rightarrow> Inl (resolve_error 40 fs n) | Some f \<Rightarrow> Inr ()), fs)"

text \<open>The names of a directory in order, with whether the entry is a directory.\<close>

definition os_ReadDir :: "files \<Rightarrow> (go_error + (string \<times> bool) list) \<times> files" where
  "os_ReadDir fs = (Inr (sort_key fst (map (\<lambda>p. (fst p, f_kind (snd p) = Directory)) fs)), fs)"

section \<open>Programs on a store and its files\<close>

record world =
  w_session :: session
  w_schema :: schema
  w_files :: files

type_synonym 'a io = "(world, 'a) st"

definition storeT :: "'a tx \<Rightarrow> 'a io" where
  "storeT t w = (case t (w_session w) of (r, s) \<Rightarrow> (r, w\<lparr>w_session := s\<rparr>))"

definition tickW :: "world \<Rightarrow> world" where
  "tickW w = w\<lparr>w_session := tick (w_session w)\<rparr>"

definition osT :: "env \<Rightarrow> (files \<Rightarrow> (go_error + 'a) \<times> files) \<Rightarrow> 'a io" where
  "osT E f w =
    (if fault E (s_ticks (w_session w)) then (Inl osFailure, tickW w)
     else (case f (w_files w) of (r, fs) \<Rightarrow> (r, (tickW w)\<lparr>w_files := fs\<rparr>)))"

text \<open>A call whose error the code ignores, or looks at as a value.\<close>

definition ignoreT :: "(world, 'a) st \<Rightarrow> unit io" where
  "ignoreT t w = (Inr (), snd (t w))"

definition attemptT :: "('s, 'a) st \<Rightarrow> ('s, go_error + 'a) st" where
  "attemptT t s = (case t s of (r, s') \<Rightarrow> (Inr r, s'))"

definition annotateT :: "string \<Rightarrow> ('s, 'a) st \<Rightarrow> ('s, 'a) st" where
  "annotateT msg t = mapErrT (Annotated msg) t"

text \<open>A deferred call runs on every way out.\<close>

definition deferT :: "'b io \<Rightarrow> 'a io \<Rightarrow> 'a io" where
  "deferT cleanup body w = (case body w of (r, w') \<Rightarrow> (r, snd (cleanup w')))"

text \<open>A call that runs only when the program fails, and does not change its error.\<close>

definition onErrorT :: "'b io \<Rightarrow> 'a io \<Rightarrow> 'a io" where
  "onErrorT handler m w = (case m w of (Inl e, w') \<Rightarrow> (Inl e, snd (handler w')) | (Inr x, w') \<Rightarrow> (Inr x, w'))"

text \<open>The schema and the rows of the store, as one read of a separate connection sees them.\<close>

definition snapshotT :: "(schema \<times> database) io" where
  "snapshotT w = (Inr (w_schema w, s_db (w_session w)), w)"

text \<open>The store that \<open>Open\<close> returns.\<close>

definition openedT :: "schema \<Rightarrow> database \<Rightarrow> unit io" where
  "openedT sch db w = (Inr (), w\<lparr>w_schema := sch, w_session := (w_session w)\<lparr>s_db := db\<rparr>\<rparr>)"

text \<open>Queries on the database in another file, in which the store is not involved.\<close>

definition onFileT :: "database \<Rightarrow> 'a tx \<Rightarrow> 'a io" where
  "onFileT db t w =
    (case t \<lparr>s_db = db, s_ticks = s_ticks (w_session w)\<rparr> of
       (r, s) \<Rightarrow> (r, w\<lparr>w_session := (w_session w)\<lparr>s_ticks := s_ticks s\<rparr>\<rparr>))"

section \<open>SQLite files\<close>

text \<open>
  SQLite's file format and checks are parameters: the bytes it writes for a schema and its rows, what
  it reads from bytes, the texts of its two integrity checks, the schema version, and its own version.
  A database may have a rollback journal or a write-ahead log beside its file: \<open>sq_pages\<close> is the database that a
  connection then sees, \<open>sq_wal_mode\<close> gives the file, the log and the index of the log after
  \<open>PRAGMA journal_mode=WAL\<close>, and \<open>sq_commit\<close> the log after a transaction has committed.
\<close>

record sqlite =
  sq_image :: "schema \<Rightarrow> database \<Rightarrow> string"
  sq_open :: "string \<Rightarrow> (schema \<times> database) option"
  sq_integrity :: "string \<Rightarrow> string"
  sq_quick :: "string \<Rightarrow> string"
  sq_schema_version :: "string \<Rightarrow> int"
  sq_version :: string
  sq_pages :: "string \<Rightarrow> string option \<Rightarrow> string option \<Rightarrow> string"
  sq_wal_mode :: "string \<Rightarrow> string option \<Rightarrow> string option \<Rightarrow> string \<times> string \<times> string"
  sq_commit :: "string \<Rightarrow> string \<Rightarrow> schema \<Rightarrow> database \<Rightarrow> string"

text \<open>The database in a file with its journal and its log; a file without them is the database itself.\<close>

definition db_pages :: "sqlite \<Rightarrow> string \<Rightarrow> string option \<Rightarrow> string option \<Rightarrow> string" where
  "db_pages Q main journal wal = (if journal = None \<and> wal = None then main else sq_pages Q main journal wal)"

text \<open>The name of the file behind symbolic links: SQLite keeps journal and log beside that file.\<close>

fun real_name :: "nat \<Rightarrow> files \<Rightarrow> string \<Rightarrow> string option" where
  "real_name 0 fs n = None"
| "real_name (Suc k) fs n =
    (case map_of fs n of None \<Rightarrow> Some n
     | Some f \<Rightarrow> (case f_kind f of Symlink t \<Rightarrow> real_name k fs t | _ \<Rightarrow> Some n))"

definition log_of :: "files \<Rightarrow> string \<Rightarrow> string option" where
  "log_of fs n = (case map_of fs n of None \<Rightarrow> None | Some f \<Rightarrow> if f_kind f = Regular then Some (f_bytes f) else None)"

definition database_pages :: "sqlite \<Rightarrow> files \<Rightarrow> string \<Rightarrow> string" where
  "database_pages Q fs n =
    (case map_of fs n of None \<Rightarrow> ''''
     | Some f \<Rightarrow> db_pages Q (f_bytes f) (log_of fs (n @ ''-journal'')) (log_of fs (n @ ''-wal'')))"

definition sq_Read :: "sqlite \<Rightarrow> string \<Rightarrow> files \<Rightarrow> (go_error + string) \<times> files" where
  "sq_Read Q path fs =
    ((case real_name 40 fs path of None \<Rightarrow> Inl (SqlError DriverFailure)
      | Some n \<Rightarrow> if map_option f_kind (map_of fs n) = Some Regular then Inr (database_pages Q fs n) else Inl (SqlError DriverFailure)), fs)"

text \<open>\<open>PRAGMA journal_mode=WAL\<close> on the database at a path, which it creates when there is none: the file gets the
  header of the new mode, log and index are there, and a rollback journal is finished and removed.\<close>

definition sq_SetWAL :: "sqlite \<Rightarrow> string \<Rightarrow> time \<Rightarrow> files \<Rightarrow> (go_error + unit) \<times> files" where
  "sq_SetWAL Q path now fs =
    (case real_name 40 fs path of None \<Rightarrow> (Inl (SqlError DriverFailure), fs)
     | Some n \<Rightarrow>
       if list_ex (\<lambda>x. map_option f_kind (map_of fs (n @ x)) \<notin> {None, Some Regular}) ['''', ''-wal'', ''-shm'', ''-journal'']
         \<or> map_of fs n \<noteq> None \<and> sq_open Q (database_pages Q fs n) = None
       then (Inl (SqlError DriverFailure), fs)
       else (case sq_wal_mode Q (case log_of fs n of None \<Rightarrow> '''' | Some main \<Rightarrow> main) (log_of fs (n @ ''-journal'')) (log_of fs (n @ ''-wal'')) of
           (main, wal, index) \<Rightarrow>
             let file = \<lambda>bytes. \<lparr>f_kind = Regular, f_bytes = bytes, f_mtime = now\<rparr> in
             (Inr (), put_file n (file main) (put_file (n @ ''-wal'') (file wal) (put_file (n @ ''-shm'') (file index)
               (del_file (n @ ''-journal'') fs))))))"

text \<open>A committed transaction goes to the log.\<close>

definition sq_Commit :: "sqlite \<Rightarrow> string \<Rightarrow> schema \<Rightarrow> database \<Rightarrow> time \<Rightarrow> files \<Rightarrow> (go_error + unit) \<times> files" where
  "sq_Commit Q path sch db now fs =
    (case real_name 40 fs path of None \<Rightarrow> (Inl (SqlError DriverFailure), fs)
     | Some n \<Rightarrow>
       (case (log_of fs n, log_of fs (n @ ''-wal'')) of
          (Some main, Some wal) \<Rightarrow>
            (Inr (), put_file (n @ ''-wal'') \<lparr>f_kind = Regular, f_bytes = sq_commit Q main wal sch db, f_mtime = now\<rparr> fs)
        | _ \<Rightarrow> (Inl (SqlError DriverFailure), fs)))"

text \<open>What the documentation of SQLite promises of the two: the mode of the journal is no part of the data, and a
  committed transaction is what the next reader sees.\<close>

definition wal_ok :: "sqlite \<Rightarrow> bool" where
  "wal_ok Q \<longleftrightarrow>
    (\<forall>main journal wal main' wal' index. main \<noteq> '''' \<longrightarrow> sq_wal_mode Q main journal wal = (main', wal', index) \<longrightarrow>
       sq_open Q (db_pages Q main' None (Some wal')) = sq_open Q (db_pages Q main journal wal)
       \<and> sq_quick Q (db_pages Q main' None (Some wal')) = sq_quick Q (db_pages Q main journal wal))
  \<and> (\<forall>main wal. sq_open Q (db_pages Q main None (Some (sq_commit Q main wal (initializeSchema empty_schema) empty_db)))
       = Some (initializeSchema empty_schema, empty_db))"

text \<open>\<open>PRAGMA foreign_key_check\<close> for the references of \<open>schema.sql\<close>.\<close>

definition fk_violation :: "database \<Rightarrow> bool" where
  "fk_violation db \<longleftrightarrow>
    list_ex (\<lambda>c. cr_maintenance_id c \<notin> mr_id ` set (maintenance_t db)) (captures_t db)
  \<or> list_ex (\<lambda>t. tr_maintenance_id t \<notin> mr_id ` set (maintenance_t db)) (targets_t db)
  \<or> list_ex (\<lambda>e. (case er_maintenance_id e of None \<Rightarrow> False | Some i \<Rightarrow>
       i \<notin> mr_id ` set (maintenance_t db)
       \<or> (case er_target_id e of None \<Rightarrow> False
          | Some t \<Rightarrow> (i, t) \<notin> (\<lambda>r. (tr_maintenance_id r, tr_id r)) ` set (targets_t db)))) (events_t db)"

record VerifyResult =
  vr_SQLiteVersion :: string
  vr_IntegrityCheck :: string
  vr_ForeignKeys :: string
  vr_ApplicationData :: string

text \<open>
  \<open>VerifyPath\<close>: the file is opened read-only; a file that SQLite cannot read is an error of the first
  check that reads it. It is a file that stands alone, as the backups and the staged copies do that the
  program verifies: a log beside it is not read here.
\<close>

definition VerifyPath :: "env \<Rightarrow> sqlite \<Rightarrow> string \<Rightarrow> VerifyResult io" where
  "VerifyPath E Q path =
    bindT (annotateT ''stat database'' (osT E (os_Stat path)))
    (\<lambda>info. if f_kind info \<noteq> Regular \<or> f_bytes info = '''' then throwT (PlainError ''database must be a non-empty regular file'')
      else bindT (osT E (\<lambda>fs. (Inr (), fs)))
    (\<lambda>_. bindT (osT E (os_Read path))
    (\<lambda>bytes. if compareVersions (sq_version Q) minimumSQLite < 0
      then throwT (PlainError (''sqlite runtime '' @ sq_version Q @ '' is older than required '' @ minimumSQLite))
      else (case sq_open Q bytes of
          None \<Rightarrow> throwT (SqlError DriverFailure)
        | Some (sch, db) \<Rightarrow>
          bindT (onFileT db (queryT E (\<lambda>db. sq_integrity Q bytes)))
          (\<lambda>integrity. if \<not> EqualFold integrity ''ok'' then throwT (Wrapped ErrCorrupt integrity)
            else bindT (onFileT db (queryT E fk_violation))
          (\<lambda>violation. if violation then throwT (Wrapped ErrCorrupt ''foreign key violation'')
            else bindT (onFileT db (verifyApplicationData E sch))
          (\<lambda>_. returnT \<lparr>vr_SQLiteVersion = sq_version Q, vr_IntegrityCheck = integrity, vr_ForeignKeys = ''ok'',
             vr_ApplicationData = ''ok''\<rparr>)))))))"

section \<open>Opening the store\<close>

definition isMemoryPath :: "string \<Rightarrow> bool" where
  "isMemoryPath path \<longleftrightarrow> path = '':memory:'' \<or> HasPrefix path ''file::memory:'' \<or> HasPrefix path ''file:memdb''"

text \<open>\<open>filepath.Base\<close> on Unix.\<close>

definition path_Base :: "string \<Rightarrow> string" where
  "path_Base p =
    (if p = '''' then ''.''
     else let q = rev (dropWhile (\<lambda>c. c = CHR ''/'') (rev p)) in
       if q = '''' then ''/'' else rev (takeWhile (\<lambda>c. c \<noteq> CHR ''/'') (rev q)))"

fun refuse_sidecars :: "env \<Rightarrow> string \<Rightarrow> string list \<Rightarrow> unit io" where
  "refuse_sidecars E path [] = returnT ()"
| "refuse_sidecars E path (ext # exts) =
    bindT (attemptT (osT E (os_Stat (path @ ext))))
    (\<lambda>r. case r of
        Inr _ \<Rightarrow> throwT (PlainError (''refusing to initialize database while orphan sidecar '' @ path_Base (path @ ext) @ '' exists''))
      | Inl e \<Rightarrow> if e \<noteq> notExist then throwT e else refuse_sidecars E path exts)"

text \<open>\<open>os.MkdirAll\<close> only fails or not: directories themselves are not modelled.\<close>

definition os_MkdirAll :: "files \<Rightarrow> (go_error + unit) \<times> files" where
  "os_MkdirAll fs = (Inr (), fs)"

definition inspectDatabasePath :: "env \<Rightarrow> string \<Rightarrow> bool io" where
  "inspectDatabasePath E path =
    (if isMemoryPath path then returnT False
     else bindT (annotateT ''create database directory'' (osT E os_MkdirAll))
     (\<lambda>_. bindT (attemptT (osT E (os_Stat path)))
     (\<lambda>r. case r of
         Inr info \<Rightarrow>
           if f_kind info \<noteq> Regular \<or> f_bytes info = ''''
             then throwT (PlainError ''refusing to initialize invalid existing database file'') else returnT True
       | Inl e \<Rightarrow> if e \<noteq> notExist then throwT e
           else bindT (refuse_sidecars E path [''-wal'', ''-shm'', ''-journal'']) (\<lambda>_. returnT False))))"

definition startupQuickCheck :: "env \<Rightarrow> sqlite \<Rightarrow> string \<Rightarrow> unit io" where
  "startupQuickCheck E Q bytes =
    bindT (annotateT ''sqlite startup quick check'' (storeT (queryT E (\<lambda>db. sq_quick Q bytes))))
    (\<lambda>result. if \<not> EqualFold result ''ok'' then throwT (Wrapped ErrCorrupt result) else returnT ())"

text \<open>
  \<open>Open\<close> gives the store in the world's session and schema: the rows of the file with its journal and log,
  or an empty database with a new schema. The schema transaction of a new file is one call that fails or
  not, and its log has the schema once it has committed.
\<close>

definition open_existing :: "env \<Rightarrow> sqlite \<Rightarrow> string \<Rightarrow> unit io" where
  "open_existing E Q path =
    bindT (osT E (sq_Read Q path))
    (\<lambda>bytes. bindT (startupQuickCheck E Q bytes)
    (\<lambda>_. case sq_open Q bytes of
        None \<Rightarrow> throwT (SqlError DriverFailure)
      | Some (sch, db) \<Rightarrow>
        bindT (onFileT db (requireSchemaIdentity E sch))
        (\<lambda>_. openedT sch db)))"

definition open_new :: "env \<Rightarrow> sqlite \<Rightarrow> string \<Rightarrow> unit io" where
  "open_new E Q path =
    bindT (annotateT ''initialize schema''
      (if isMemoryPath path then storeT (queryT E (\<lambda>db. ()))
       else bindT (storeT (nowT E)) (\<lambda>now. osT E (sq_Commit Q path (initializeSchema empty_schema) empty_db now))))
    (\<lambda>_. bindT (openedT (initializeSchema empty_schema) empty_db)
    (\<lambda>_. if isMemoryPath path then returnT () else osT E (os_Touch path)))"

text \<open>The pragmas of \<open>Open\<close>. Three of them set the connection; the last one also changes the files.\<close>

definition pragma_wal :: string where
  "pragma_wal = ''PRAGMA journal_mode=WAL''"

fun run_pragmas :: "env \<Rightarrow> sqlite \<Rightarrow> string \<Rightarrow> string list \<Rightarrow> unit io" where
  "run_pragmas E Q path [] = returnT ()"
| "run_pragmas E Q path (pragma # pragmas) =
    bindT (annotateT pragma
      (if pragma = pragma_wal \<and> \<not> isMemoryPath path
       then bindT (storeT (nowT E)) (\<lambda>now. osT E (sq_SetWAL Q path now))
       else storeT (queryT E (\<lambda>db. ()))))
    (\<lambda>_. run_pragmas E Q path pragmas)"

definition Open :: "env \<Rightarrow> sqlite \<Rightarrow> string \<Rightarrow> unit io" where
  "Open E Q path =
    (if TrimSpace path = '''' then throwT (PlainError ''database path is required'')
     else bindT (inspectDatabasePath E path)
     (\<lambda>existed. bindT (run_pragmas E Q path [''PRAGMA busy_timeout=5000'', ''PRAGMA foreign_keys=ON'', ''PRAGMA synchronous=FULL'', pragma_wal])
     (\<lambda>_. bindT (storeT (queryT E (\<lambda>db. ())))
     (\<lambda>_. if compareVersions (sq_version Q) minimumSQLite < 0
       then throwT (PlainError (''sqlite runtime '' @ sq_version Q @ '' is older than required '' @ minimumSQLite))
       else bindT (if existed then open_existing E Q path else open_new E Q path)
     (\<lambda>_. bindT snapshotT
     (\<lambda>(sch, db). annotateT ''verify startup schema'' (storeT (verifyRequiredSchema E sch))))))))"

text \<open>\<open>Ready\<close> of a file-backed store reads the schema version of the file through a read-only
  connection; an in-memory store is pinged.\<close>

definition Ready :: "env \<Rightarrow> sqlite \<Rightarrow> string \<Rightarrow> unit io" where
  "Ready E Q path =
    (if isMemoryPath path then storeT (queryT E (\<lambda>db. ()))
     else bindT (osT E (sq_Read Q path))
     (\<lambda>bytes. case sq_open Q bytes of
         None \<Rightarrow> throwT (SqlError DriverFailure)
       | Some (sch, db) \<Rightarrow>
         bindT (onFileT db (queryT E (\<lambda>db. sq_schema_version Q bytes)))
         (\<lambda>schemaVersion. if schemaVersion < 1 then throwT (PlainError ''unexpected readiness schema version'') else returnT ())))"

section \<open>Inversion of successful programs\<close>

lemma osT_Inr [tx_simps]:
  "osT E f w = (Inr x, w') \<longleftrightarrow>
     \<not> fault E (s_ticks (w_session w)) \<and> (\<exists>fs. f (w_files w) = (Inr x, fs) \<and> w' = (tickW w)\<lparr>w_files := fs\<rparr>)"
  by (auto simp: osT_def split: prod.splits)

lemma storeT_Inr [tx_simps]: "storeT t w = (Inr x, w') \<longleftrightarrow> (\<exists>s. t (w_session w) = (Inr x, s) \<and> w' = w\<lparr>w_session := s\<rparr>)"
  by (auto simp: storeT_def split: prod.splits)

lemma annotateT_Inr [tx_simps]: "annotateT msg t s = (Inr x, s') \<longleftrightarrow> t s = (Inr x, s')"
  by (simp add: annotateT_def mapErrT_Inr)

lemma attemptT_Inr [tx_simps]: "attemptT t s = (Inr x, s') \<longleftrightarrow> t s = (x, s')"
  by (auto simp: attemptT_def split: prod.splits)

lemma onErrorT_Inr [tx_simps]: "onErrorT h t w = (Inr x, w') \<longleftrightarrow> t w = (Inr x, w')"
  by (auto simp: onErrorT_def split: prod.splits sum.splits)

lemma ignoreT_Inr [tx_simps]: "ignoreT t w = (Inr u, w') \<longleftrightarrow> w' = snd (t w)"
  by (auto simp: ignoreT_def)

lemma snapshotT_Inr [tx_simps]: "snapshotT w = (Inr p, w') \<longleftrightarrow> p = (w_schema w, s_db (w_session w)) \<and> w' = w"
  by (auto simp: snapshotT_def)

lemma openedT_Inr [tx_simps]:
  "openedT sch db w = (Inr u, w') \<longleftrightarrow> w' = w\<lparr>w_schema := sch, w_session := (w_session w)\<lparr>s_db := db\<rparr>\<rparr>"
  by (auto simp: openedT_def)

lemma onFileT_Inr [tx_simps]:
  "onFileT db t w = (Inr x, w') \<longleftrightarrow> (\<exists>s. t \<lparr>s_db = db, s_ticks = s_ticks (w_session w)\<rparr> = (Inr x, s)
     \<and> w' = w\<lparr>w_session := (w_session w)\<lparr>s_ticks := s_ticks s\<rparr>\<rparr>)"
  by (auto simp: onFileT_def split: prod.splits)

text \<open>What a program leaves as it was: the files, the rows and the schema.\<close>

type_synonym view = "files \<times> database \<times> schema"

definition view :: "world \<Rightarrow> view" where
  "view w = (w_files w, s_db (w_session w), w_schema w)"

lemma view_simps [simp]:
  "view (tickW w) = view w" "view (w\<lparr>w_session := (w_session w)\<lparr>s_ticks := n\<rparr>\<rparr>) = view w"
  "view (w\<lparr>w_files := fs\<rparr>) = (fs, s_db (w_session w), w_schema w)" "w_files (tickW w) = w_files w"
  "s_db (w_session (tickW w)) = s_db (w_session w)" "w_schema (tickW w) = w_schema w"
  by (simp_all add: view_def tickW_def)

text \<open>A verified file: SQLite reads it, finds its structure and references intact, and its rows pass the
  application checks.\<close>

definition verified_bytes :: "env \<Rightarrow> sqlite \<Rightarrow> string \<Rightarrow> bool" where
  "verified_bytes E Q bytes \<longleftrightarrow> bytes \<noteq> '''' \<and> (\<exists>sch db n s. sq_open Q bytes = Some (sch, db)
     \<and> EqualFold (sq_integrity Q bytes) ''ok'' \<and> \<not> fk_violation db
     \<and> verifyApplicationData E sch \<lparr>s_db = db, s_ticks = n\<rparr> = (Inr (), s))"

lemma VerifyPath_Inr:
  assumes "VerifyPath E Q path w = (Inr r, w')"
  obtains f where "resolve 40 (w_files w) path = Some f" "f_kind f = Regular" "verified_bytes E Q (f_bytes f)" "view w' = view w"
    "r = \<lparr>vr_SQLiteVersion = sq_version Q, vr_IntegrityCheck = sq_integrity Q (f_bytes f), vr_ForeignKeys = ''ok'', vr_ApplicationData = ''ok''\<rparr>"
proof -
  obtain f where f: "resolve 40 (w_files w) path = Some f" "f_kind f = Regular" "f_bytes f \<noteq> ''''"
    using assms unfolding VerifyPath_def
    by (auto simp: bindT_Inr annotateT_Inr osT_Inr os_Stat_def throwT_Inr split: if_splits option.splits)
  obtain sch db where s: "sq_open Q (f_bytes f) = Some (sch, db)"
    using assms f unfolding VerifyPath_def
    by (auto simp: bindT_Inr annotateT_Inr osT_Inr os_Stat_def os_Read_def throwT_Inr split: if_splits option.splits)
  show ?thesis
    using assms f s unfolding VerifyPath_def
    by (intro that [OF f(1,2)])
      (auto simp: bindT_Inr annotateT_Inr osT_Inr os_Stat_def os_Read_def throwT_Inr returnT_Inr onFileT_Inr queryT_Inr verified_bytes_def view_def tickW_def split: if_splits)
qed

section \<open>Running without faults\<close>

text \<open>
  The weakest precondition of a program in an environment without faults: from every world with this
  view the program returns, and its result and the view after it satisfy the postcondition.
\<close>

definition wp :: "'a io \<Rightarrow> view \<Rightarrow> ('a \<Rightarrow> view \<Rightarrow> bool) \<Rightarrow> bool" where
  "wp m v P \<longleftrightarrow> (\<forall>w. view w = v \<longrightarrow> (\<exists>x w'. m w = (Inr x, w') \<and> P x (view w')))"

lemma wpD: "wp m (view w) P \<Longrightarrow> \<exists>x w'. m w = (Inr x, w') \<and> P x (view w')"
  by (simp add: wp_def)

lemma wp_mono: "wp m v P \<Longrightarrow> (\<And>x v'. P x v' \<Longrightarrow> R x v') \<Longrightarrow> wp m v R"
  unfolding wp_def by blast

lemma wp_return: "P x v \<Longrightarrow> wp (returnT x) v P"
  by (simp add: wp_def returnT_def)

lemma wp_lift: "r = Inr x \<Longrightarrow> P x v \<Longrightarrow> wp (liftT r) v P"
  by (simp add: wp_def liftT_def)

lemma wp_bind: "wp m v (\<lambda>x v'. wp (f x) v' P) \<Longrightarrow> wp (bindT m f) v P"
  unfolding wp_def bindT_def by fastforce

lemma wp_annotate: "wp m v P \<Longrightarrow> wp (annotateT msg m) v P"
  unfolding wp_def annotateT_def mapErrT_def by fastforce

lemma wp_mapErr: "wp m v P \<Longrightarrow> wp (mapErrT g m) v P"
  unfolding wp_def mapErrT_def by fastforce

lemma wp_onError: "wp m v P \<Longrightarrow> wp (onErrorT h m) v P"
  unfolding wp_def onErrorT_def by fastforce

lemma wp_attempt: "wp m v (\<lambda>x. P (Inr x)) \<Longrightarrow> wp (attemptT m) v P"
  unfolding wp_def attemptT_def by fastforce

lemma wp_os:
  assumes "\<And>n. \<not> fault E n" "f fs = (Inr x, fs')" "P x (fs', db, sch)"
  shows "wp (osT E f) (fs, db, sch) P"
  using assms by (simp add: wp_def view_def osT_def tickW_def)

lemma wp_os_error:
  assumes "\<And>n. \<not> fault E n" "f fs = (Inl e, fs')" "P (Inl e) (fs', db, sch)"
  shows "wp (attemptT (osT E f)) (fs, db, sch) P"
  using assms by (simp add: wp_def view_def osT_def tickW_def attemptT_def)

lemma wp_ignore_os:
  assumes "\<And>n. \<not> fault E n" "P () (snd (f fs), db, sch)"
  shows "wp (ignoreT (osT E f)) (fs, db, sch) P"
  using assms by (auto simp: wp_def view_def osT_def tickW_def ignoreT_def split: prod.split)

lemma wp_defer_os:
  assumes "\<And>n. \<not> fault E n" "wp body v (\<lambda>x (fs, db, sch). P x (snd (f fs), db, sch))"
  shows "wp (deferT (osT E f) body) v P"
proof -
  have "view (snd (osT E f w)) = (snd (f (w_files w)), s_db (w_session w), w_schema w)" for w
    using assms(1) by (simp add: view_def osT_def tickW_def split: prod.split)
  with assms(2) show ?thesis unfolding wp_def deferT_def view_def by fastforce
qed

lemma wp_store_ok:
  assumes "\<And>s. \<exists>s'. t s = (Inr x, s') \<and> s_db s' = s_db s" "P x v"
  shows "wp (storeT t) v P"
  unfolding wp_def storeT_def
proof (intro allI impI)
  fix w
  assume "view w = v"
  moreover obtain s' where "t (w_session w) = (Inr x, s')" "s_db s' = s_db (w_session w)" using assms(1) by blast
  ultimately show "\<exists>x w'. (case t (w_session w) of (r, s) \<Rightarrow> (r, w\<lparr>w_session := s\<rparr>)) = (Inr x, w') \<and> P x (view w')"
    using assms(2) by (auto simp: view_def)
qed

lemma wp_file_ok:
  assumes "\<And>s. \<exists>s'. t s = (Inr x, s') \<and> s_db s' = s_db s" "P x v"
  shows "wp (onFileT db t) v P"
  unfolding wp_def
proof (intro allI impI)
  fix w
  assume "view w = v"
  moreover obtain s' where "t \<lparr>s_db = db, s_ticks = s_ticks (w_session w)\<rparr> = (Inr x, s')" using assms(1) by blast
  ultimately show "\<exists>x w'. onFileT db t w = (Inr x, w') \<and> P x (view w')"
    using assms(2) by (auto simp: onFileT_def view_def)
qed

lemma wp_store:
  assumes "\<And>n. \<exists>x s'. t \<lparr>s_db = db, s_ticks = n\<rparr> = (Inr x, s') \<and> P x (fs, s_db s', sch)"
  shows "wp (storeT t) (fs, db, sch) P"
  unfolding wp_def
proof (intro allI impI)
  fix w :: world
  assume w: "view w = (fs, db, sch)"
  obtain n where n: "w_session w = \<lparr>s_db = db, s_ticks = n\<rparr>" using w by (cases "w_session w") (simp add: view_def)
  from assms [of n] show "\<exists>x w'. storeT t w = (Inr x, w') \<and> P x (view w')"
    using w n by (auto simp: storeT_def view_def)
qed

lemma wp_query:
  assumes "\<And>n. \<not> fault E n" "P (q db) (fs, db, sch)"
  shows "wp (storeT (queryT E q)) (fs, db, sch) P"
  using assms by (intro wp_store) (simp add: queryT_def)

lemma wp_now: "(\<And>n. P (clock E n) (fs, db, sch)) \<Longrightarrow> wp (storeT (nowT E)) (fs, db, sch) P"
  by (intro wp_store) (simp add: nowT_def)

lemma wp_snapshot: "P (sch, db) (fs, db, sch) \<Longrightarrow> wp snapshotT (fs, db, sch) P"
  by (simp add: wp_def view_def snapshotT_def)

lemma wp_onFile:
  assumes "\<And>n. \<exists>s'. t \<lparr>s_db = db, s_ticks = n\<rparr> = (Inr x, s')" "P x v"
  shows "wp (onFileT db t) v P"
  unfolding wp_def
proof (intro allI impI)
  fix w :: world
  assume w: "view w = v"
  obtain s' where "t \<lparr>s_db = db, s_ticks = s_ticks (w_session w)\<rparr> = (Inr x, s')" using assms(1) by blast
  then show "\<exists>x w'. onFileT db t w = (Inr x, w') \<and> P x (view w')" using assms(2) w by (simp add: onFileT_def view_def)
qed

lemma wp_onFile_query:
  assumes "\<And>n. \<not> fault E n" "P (q db) v"
  shows "wp (onFileT db (queryT E q)) v P"
  using assms by (intro wp_onFile) (simp_all add: queryT_def)

lemmas wp_rules = wp_bind wp_return wp_annotate wp_mapErr wp_onError wp_lift

section \<open>Lookups\<close>

lemma map_of_del_file [simp]: "map_of (del_file n fs) m = (if m = n then None else map_of fs m)"
  by (induction fs) (auto simp: del_file_def)

lemma map_of_put_file [simp]: "map_of (put_file n f fs) m = (if m = n then Some f else map_of fs m)"
  by (simp add: put_file_def)

lemma resolve_regular: "map_of fs n = Some f \<Longrightarrow> f_kind f = Regular \<Longrightarrow> resolve 40 fs n = Some f"
  by (simp add: numeral_eq_Suc)

lemma real_name_regular: "map_of fs n = Some f \<Longrightarrow> f_kind f = Regular \<Longrightarrow> real_name 40 fs n = Some n"
  by (simp add: numeral_eq_Suc)

lemma real_name_resolve: "real_name k fs n = Some m \<Longrightarrow> resolve k fs n = map_of fs m"
  by (induction k fs n rule: real_name.induct) (auto split: option.splits file_kind.splits)

text \<open>Files may come and go at the end of the links: the name there stays what it was.\<close>

lemma real_name_end:
  assumes "real_name k fs n = Some m" "\<And>x. x \<noteq> m \<Longrightarrow> (\<exists>f t. map_of fs x = Some f \<and> f_kind f = Symlink t) \<Longrightarrow> map_of fs' x = map_of fs x"
    and "\<And>f t. map_of fs' m = Some f \<Longrightarrow> f_kind f \<noteq> Symlink t"
  shows "real_name k fs' n = Some m"
  using assms
proof (induction k fs n rule: real_name.induct)
  case (2 k fs n)
  show ?case
  proof (cases "n = m")
    case True
    have "f_kind f \<noteq> Symlink t" if "map_of fs' n = Some f" for f t using 2(4) that True by blast
    then show ?thesis using True by (auto split: option.splits file_kind.splits)
  next
    case False
    then obtain f t where f: "map_of fs n = Some f" "f_kind f = Symlink t" "real_name k fs t = Some m"
      using 2(2) by (auto split: option.splits file_kind.splits)
    have "map_of fs' n = map_of fs n" by (rule 2(3) [OF False]) (use f(1,2) in blast)
    then have "map_of fs' n = Some f" using f(1) by simp
    moreover have "real_name k fs' t = Some m" by (rule 2(1) [OF f 2(3,4)])
    ultimately show ?thesis using f(2) by simp
  qed
qed simp

lemma log_of_put: "log_of (put_file n f fs) m = (if m = n then (if f_kind f = Regular then Some (f_bytes f) else None) else log_of fs m)"
  by (simp add: log_of_def)

lemma log_of_del: "log_of (del_file n fs) m = (if m = n then None else log_of fs m)"
  by (simp add: log_of_def)

end
