(* ===== verification/Indent.thy ===== *)
theory Indent
  imports Progress
begin

text \<open>
  Indented JSON: what \<open>json.MarshalIndent\<close> writes for a struct without nested values, and that it is
  read back like the compact text.
\<close>

text \<open>\<open>json.MarshalIndent(v, "", "  ")\<close>: one member per line.\<close>

fun indent_members :: "(string \<times> string) list \<Rightarrow> string" where
  "indent_members [] = []"
| "indent_members [(k, t)] = CHR 0x0A # CHR '' '' # CHR '' '' # quote k @ CHR '':'' # CHR '' '' # t"
| "indent_members ((k, t) # m # ms) =
    CHR 0x0A # CHR '' '' # CHR '' '' # quote k @ CHR '':'' # CHR '' '' # t @ CHR '','' # indent_members (m # ms)"

definition indent_object :: "(string \<times> string) list \<Rightarrow> string" where
  "indent_object ms = CHR ''{'' # indent_members ms @ [CHR 0x0A, CHR ''}'']"

section \<open>Parsing indented text\<close>

lemma ws_simps [simp]: "is_ws CHR '' ''" "is_ws CHR 0x0A" "\<not> is_ws CHR '':''" "\<not> is_ws CHR '',''" "\<not> is_ws CHR ''}''" "\<not> is_ws dquote"
  by (simp_all add: is_ws_def)

lemma parse_value_blank: "is_ws c \<Longrightarrow> parse_value n d (c # s) = parse_value n d s"
  by (cases n) simp_all

lemma decode_next_value:
  assumes "wf_json maxNestingDepth v" "num_stop r"
  shows "decode_next (CHR '' '' # render v @ r) = Some (v, r)"
  by (rule decode_next_of_fuel [where n = "Suc (2 * length (render v @ r))"])
    (simp add: parse_value_blank parse_render(1) [OF assms] del: parse_value.simps)

lemma read_key_indented: "valid_utf8 k \<Longrightarrow> read_key (CHR 0x0A # CHR '' '' # CHR '' '' # quote k @ r) = Some (k, r)"
  using read_key_quote [of k r] by (simp add: read_key_def)

lemma num_stop_newline: "num_stop (CHR 0x0A # r)"
  by (rule num_stop_ws) simp

lemma raw_members_indent:
  assumes "ms \<noteq> []" "\<forall>(k, v) \<in> set ms. valid_utf8 k \<and> wf_json maxNestingDepth v"
  shows "raw_members (indent_members (json_members ms) @ CHR 0x0A # CHR ''}'' # x) = Some (json_members ms)"
  using assms
proof (induction ms rule: induct_list012)
  case (2 m)
  then obtain k v where m: "m = (k, v)" "valid_utf8 k" "wf_json maxNestingDepth v" by (cases m) auto
  have s: "skip_ws (render v @ CHR 0x0A # CHR ''}'' # x) = render v @ CHR 0x0A # CHR ''}'' # x" by (rule skip_ws_render [OF m(3)])
  show ?case
    by (subst raw_members.simps) (simp add: m read_key_indented decode_next_value [OF m(3) num_stop_newline] s raw_slice_def)
next
  case (3 m1 m2 ms)
  then obtain k v where m: "m1 = (k, v)" "valid_utf8 k" "wf_json maxNestingDepth v" by (cases m1) auto
  obtain k2 v2 where m2: "m2 = (k2, v2)" by (cases m2)
  have IH: "raw_members (indent_members (json_members (m2 # ms)) @ CHR 0x0A # CHR ''}'' # x) = Some (json_members (m2 # ms))"
    using 3 by auto
  have s: "skip_ws (render v @ r) = render v @ r" for r by (rule skip_ws_render [OF m(3)])
  have d: "decode_next (CHR '' '' # render v @ CHR '','' # r) = Some (v, CHR '','' # r)" for r
    by (rule decode_next_value [OF m(3)]) simp
  show ?case
    using IH by (subst raw_members.simps) (simp add: m m2 read_key_indented d s raw_slice_def)
qed simp

lemma parse_members_mono: "parse_members n d s = Some (ms, r) \<Longrightarrow> n \<le> m \<Longrightarrow> parse_members m d s = Some (ms, r)"
  by (rotate_tac, induction m rule: dec_induct) (auto intro: parse_mono_step simp del: parse_members.simps)

lemma read_member_indented:
  assumes "valid_utf8 k" "wf_json d v" "num_stop r" "2 * length (render v @ r) < n"
  shows "read_member n d (CHR 0x0A # CHR '' '' # CHR '' '' # quote k @ CHR '':'' # CHR '' '' # render v @ r) = Some ((k, v), r)"
  using assms by (simp add: read_member_def read_key_indented parse_value_blank parse_render(1) del: parse_value.simps)

lemma parse_members_indent:
  assumes "ms \<noteq> []" "\<forall>(k, v) \<in> set ms. valid_utf8 k \<and> wf_json d v"
  shows "\<exists>n. parse_members n d (indent_members (json_members ms) @ CHR 0x0A # CHR ''}'' # x) = Some (ms, x)"
  using assms
proof (induction ms rule: induct_list012)
  case (2 m)
  then obtain k v where m: "m = (k, v)" "valid_utf8 k" "wf_json d v" by (cases m) auto
  let ?n = "Suc (2 * length (render v @ CHR 0x0A # CHR ''}'' # x))"
  have "parse_members (Suc ?n) d (indent_members (json_members [m]) @ CHR 0x0A # CHR ''}'' # x) = Some ([m], x)"
    using read_member_indented [OF m(2,3) num_stop_newline, of "CHR ''}'' # x" ?n]
    by (simp add: parse_members_Suc m(1) del: parse_members.simps)
  then show ?case by blast
next
  case (3 m1 m2 ms)
  then obtain k v where m: "m1 = (k, v)" "valid_utf8 k" "wf_json d v" by (cases m1) auto
  obtain k2 v2 where m2: "m2 = (k2, v2)" by (cases m2)
  let ?r = "indent_members (json_members (m2 # ms)) @ CHR 0x0A # CHR ''}'' # x"
  obtain n where n: "parse_members n d ?r = Some (m2 # ms, x)" using 3 by auto
  let ?n = "max n (Suc (2 * length (render v @ CHR '','' # ?r)))"
  have "parse_members ?n d ?r = Some (m2 # ms, x)" using n by (rule parse_members_mono) simp
  moreover have "read_member ?n d (CHR 0x0A # CHR '' '' # CHR '' '' # quote k @ CHR '':'' # CHR '' '' # render v @ CHR '','' # ?r)
      = Some ((k, v), CHR '','' # ?r)"
    by (rule read_member_indented [OF m(2,3)]) simp_all
  ultimately have "parse_members (Suc ?n) d (indent_members (json_members (m1 # m2 # ms)) @ CHR 0x0A # CHR ''}'' # x) = Some (m1 # m2 # ms, x)"
    by (simp add: parse_members_Suc m(1) m2 del: parse_members.simps)
  then show ?case by blast
qed simp

lemma indent_members_hd: "ms \<noteq> [] \<Longrightarrow> \<exists>k r. indent_members (json_members ms) = CHR 0x0A # CHR '' '' # CHR '' '' # quote k @ r"
  by (cases ms rule: remdups_adj.cases) (force simp: split_beta)+

lemma unmarshal_indent_object:
  assumes "ms \<noteq> []" "\<forall>(k, v) \<in> set ms. valid_utf8 k \<and> wf_json (maxNestingDepth - 1) v \<and> wf_json maxNestingDepth v"
  shows "unmarshal_struct names upd x (indent_object (json_members ms) @ [CHR 0x0A])
    = unmarshal_struct names upd x (obj_text (json_members ms))"
proof -
  let ?s = "indent_object (json_members ms) @ [CHR 0x0A]"
  obtain k r where h: "indent_members (json_members ms) = CHR 0x0A # CHR '' '' # CHR '' '' # quote k @ r"
    using indent_members_hd [OF assms(1)] by blast
  have nb: "take 1 (skip_ws (indent_members (json_members ms) @ y)) \<noteq> ''}''" for y
    unfolding h by (simp add: quote_def)
  obtain n where "parse_members n (maxNestingDepth - 1) (indent_members (json_members ms) @ CHR 0x0A # CHR ''}'' # [CHR 0x0A]) = Some (ms, [CHR 0x0A])"
    using parse_members_indent [OF assms(1), of "maxNestingDepth - 1" "[CHR 0x0A]"] assms(2) by auto
  then have "parse_value (Suc n) maxNestingDepth ?s = Some (JObj ms, [CHR 0x0A])"
    using nb by (simp add: indent_object_def maxNestingDepth_def is_ws_def)
  then have p: "json_parse ?s = Some (JObj ms)" using decode_next_of_fuel [of "Suc n" ?s] by (simp only: json_parse_def) simp
  have o: "raw_object ?s = Some (json_members ms)"
    using raw_members_indent [OF assms(1), of "[CHR 0x0A]"] assms(2) nb by (auto simp: raw_object_def indent_object_def is_ws_def)
  have wf: "wf_members (maxNestingDepth - 1) ms" using assms(2) by (induction ms) auto
  have "json_parse (render (JObj ms)) = Some (JObj ms)" using wf by (intro json_parse_render) (simp add: maxNestingDepth_def)
  then have q: "json_parse (obj_text (json_members ms)) = Some (JObj ms)" by (simp add: obj_text_def members_text_render)
  have "\<forall>(k, t) \<in> set (json_members ms). valid_utf8 k \<and> (\<exists>v. value_text t v)"
    using assms(2) by (induction ms) (use value_text_render in \<open>fastforce+\<close>)
  then have "raw_object (obj_text (json_members ms)) = Some (json_members ms)" by (rule raw_object_text)
  with p o q show ?thesis by (simp add: unmarshal_struct_def)
qed

end
