(* ===== verification/Backup.thy ===== *)
theory Backup
  imports Files Indent
begin

text \<open>
  Backups (\<open>backup.go\<close> and \<open>artifacts.go\<close>): the directory of published backups, each a database
  file with a manifest beside it, creating one with its checks, finding one again, and removing old
  ones. File names are relative to the backup directory.
\<close>

section \<open>Published backups\<close>

definition artifact_char :: "char \<Rightarrow> bool" where
  "artifact_char c \<longleftrightarrow> (CHR ''a'' \<le> c \<and> c \<le> CHR ''z'') \<or> (CHR ''A'' \<le> c \<and> c \<le> CHR ''Z'')
     \<or> (CHR ''0'' \<le> c \<and> c \<le> CHR ''9'') \<or> c \<in> set ''._-''"

definition validateRegularFile :: "env \<Rightarrow> string \<Rightarrow> unit io" where
  "validateRegularFile E name =
    bindT (mapErrT (\<lambda>e. if e = notExist then Sentinel ErrNotFound else e) (osT E (os_Lstat name)))
    (\<lambda>info. if f_kind info \<noteq> Regular then throwT (Wrapped ErrInvalid ''backup artifact is not a regular file'')
      else returnT ())"

definition readBackupManifest :: "env \<Rightarrow> string \<Rightarrow> BackupManifest io" where
  "readBackupManifest E name =
    bindT (mapErrT (\<lambda>e. if e = notExist then Sentinel ErrNotFound else e) (osT E (os_Read name)))
    (\<lambda>bytes. let data = take (1024 * 1024) bytes in
      if length data = 1024 * 1024 then throwT (Wrapped ErrCorrupt ''invalid backup manifest'')
      else (case unmarshal_BackupManifest data of
          None \<Rightarrow> throwT (Wrapped ErrCorrupt ''invalid backup manifest'')
        | Some manifest \<Rightarrow> returnT manifest))"

definition digest_matches :: "env \<Rightarrow> string \<Rightarrow> BackupManifest \<Rightarrow> bool" where
  "digest_matches E bytes manifest \<longleftrightarrow>
     int (length bytes) = bm_Bytes manifest \<and> EqualFold (sha256_hex E bytes) (bm_SHA256 manifest)"

definition validateBackupDigest :: "env \<Rightarrow> string \<Rightarrow> BackupManifest \<Rightarrow> unit io" where
  "validateBackupDigest E name manifest =
    bindT (osT E (os_Read name))
    (\<lambda>bytes. if \<not> digest_matches E bytes manifest
      then throwT (Wrapped ErrCorrupt ''backup artifact does not match its manifest'') else returnT ())"

text \<open>The name of the database file that an artifact name stands for.\<close>

definition artifact_database :: "string \<Rightarrow> string option" where
  "artifact_database name =
    (if length name = 0 \<or> length name > 200 \<or> path_Base name \<noteq> name \<or> ContainsAny name [CHR ''/'', bslash] then None
     else if \<not> list_all artifact_char name then None
     else let databaseName = (if HasSuffix name ''.db.manifest.json'' then TrimSuffix name ''.manifest.json'' else name) in
       if \<not> HasPrefix databaseName ''lazarus-'' \<or> \<not> HasSuffix databaseName ''.db'' then None else Some databaseName)"

text \<open>The first result, a path, is the name of the artifact in the directory.\<close>

definition BackupArtifact :: "env \<Rightarrow> sqlite \<Rightarrow> string \<Rightarrow> (string \<times> BackupManifest) io" where
  "BackupArtifact E Q name =
    (case artifact_database name of
       None \<Rightarrow> throwT (Wrapped ErrInvalid ''invalid backup artifact name'')
     | Some databaseName \<Rightarrow>
       let manifestName = databaseName @ ''.manifest.json'' in
       bindT (validateRegularFile E manifestName)
       (\<lambda>_. bindT (readBackupManifest E manifestName)
       (\<lambda>manifest. if bm_Filename manifest \<noteq> databaseName
         then throwT (Wrapped ErrCorrupt ''backup manifest filename mismatch'')
         else bindT (validateRegularFile E databaseName)
       (\<lambda>_. bindT (validateBackupDigest E databaseName manifest)
       (\<lambda>_. bindT (annotateT ''validate backup artifact'' (VerifyPath E Q databaseName))
       (\<lambda>verified. returnT (if HasSuffix name ''.db.manifest.json'' then manifestName else databaseName, manifest)))))))"

text \<open>
  \<open>ValidateOpenedBackupArtifact\<close> reads the file again through the handle that will be sent. Go compares
  the two manifests with their times as values; in the model a time is an instant.
\<close>

definition ValidateOpenedBackupArtifact :: "env \<Rightarrow> inode option \<Rightarrow> string \<Rightarrow> BackupManifest \<Rightarrow> unit io" where
  "ValidateOpenedBackupArtifact E handle artifact manifest =
    (case handle of
       None \<Rightarrow> throwT (Wrapped ErrInvalid ''backup artifact is not open'')
     | Some f \<Rightarrow>
       bindT (osT E (\<lambda>fs. (Inr (), fs)))
       (\<lambda>_. if f_kind f \<noteq> Regular then throwT (Wrapped ErrInvalid ''backup artifact is not a regular file'')
         else bindT (osT E (\<lambda>fs. (Inr (f_bytes f), fs)))
       (\<lambda>bytes. bindT
         (if HasSuffix artifact ''.manifest.json''
          then (if length (take (1024 * 1024 + 1) bytes) > 1024 * 1024
                  \<or> unmarshal_BackupManifest (take (1024 * 1024 + 1) bytes) \<noteq> Some manifest
                then throwT (Wrapped ErrCorrupt ''opened manifest changed after validation'') else returnT ())
          else if \<not> digest_matches E bytes manifest
            then throwT (Wrapped ErrCorrupt ''opened backup changed after validation'')
          else returnT ())
       (\<lambda>_. osT E (\<lambda>fs. (Inr (), fs))))))"

section \<open>Events about backups\<close>

text \<open>The error of \<open>json.Marshal(manifest)\<close> is dropped; the payload is then empty.\<close>

definition RecordBackupCreated :: "env \<Rightarrow> BackupManifest \<Rightarrow> AuditContext \<Rightarrow> unit tx" where
  "RecordBackupCreated E manifest audit =
    (let detail = (case marshal_BackupManifest (manifest\<lparr>bm_AuditRecorded := True\<rparr>) of None \<Rightarrow> '''' | Some d \<Rightarrow> d);
         (actor, role, requestID) = auditValues audit
     in writeT E (appendEvent E (zero_Event\<lparr>e_Type := ''backup.created'', e_OccurredAt := bm_CreatedAt manifest,
          e_RequestID := requestID, e_Actor := actor, e_Role := role, e_ResourceType := ''backup'',
          e_ResourceID := bm_Filename manifest, e_Payload := detail\<rparr>)))"

definition download_payload :: "BackupManifest \<Rightarrow> string \<Rightarrow> string" where
  "download_payload manifest artifact = obj_text
    [(''artifact'', quote artifact), (''bytes'', FormatInt (bm_Bytes manifest)),
     (''filename'', quote (bm_Filename manifest)), (''sha256'', quote (bm_SHA256 manifest))]"

definition RecordBackupDownload :: "env \<Rightarrow> BackupManifest \<Rightarrow> string \<Rightarrow> AuditContext \<Rightarrow> unit tx" where
  "RecordBackupDownload E manifest artifact audit =
    (let (actor, role, requestID) = auditValues audit in
     writeT E (bindT (nowT E)
       (\<lambda>now. appendEvent E (zero_Event\<lparr>e_Type := ''backup.downloaded'', e_OccurredAt := now,
          e_RequestID := requestID, e_Actor := actor, e_Role := role, e_ResourceType := ''backup'',
          e_ResourceID := bm_Filename manifest, e_Payload := download_payload manifest artifact\<rparr>))))"

text \<open>The latest creation event of the request, and whether its backup is still there.\<close>

definition backup_event :: "string \<Rightarrow> string \<Rightarrow> database \<Rightarrow> event_row option" where
  "backup_event requestID actor db =
    (case rev (sort_key er_journal_id (filter (\<lambda>r. er_event_type r = ''backup.created'' \<and> er_request_id r = requestID
        \<and> er_actor r = actor) (events_t db))) of
       [] \<Rightarrow> None | r # _ \<Rightarrow> Some r)"

definition backupForRequest :: "env \<Rightarrow> sqlite \<Rightarrow> string \<Rightarrow> string \<Rightarrow> BackupManifest option io" where
  "backupForRequest E Q requestID actor =
    (if TrimSpace requestID = '''' then returnT None
     else bindT (storeT (queryT E (backup_event requestID actor)))
     (\<lambda>found. case found of
         None \<Rightarrow> returnT None
       | Some r \<Rightarrow>
         (case unmarshal_BackupManifest (er_payload_json r) of
            None \<Rightarrow> throwT (Wrapped ErrCorrupt ''saved backup event is invalid'')
          | Some manifest \<Rightarrow>
            if bm_Filename manifest = '''' then throwT (Wrapped ErrCorrupt ''saved backup event is invalid'')
            else if path_Base (bm_Filename manifest) \<noteq> bm_Filename manifest
              then throwT (Wrapped ErrCorrupt ''saved backup event has an invalid filename'')
            else bindT (attemptT (BackupArtifact E Q (bm_Filename manifest)))
            (\<lambda>r. case r of
                Inl e \<Rightarrow> returnT None
              | Inr (path, validated) \<Rightarrow> returnT (Some (validated\<lparr>bm_AuditRecorded := True\<rparr>))))))"

section \<open>Cleaning up\<close>

definition isBackupTempName :: "string \<Rightarrow> bool" where
  "isBackupTempName name \<longleftrightarrow> list_ex (HasSuffix name) [''.tmp'', ''.tmp-wal'', ''.tmp-shm'', ''.tmp-journal'']"

definition removeT :: "env \<Rightarrow> string \<Rightarrow> string \<Rightarrow> unit io" where
  "removeT E msg name =
    bindT (attemptT (osT E (os_Remove name)))
    (\<lambda>r. case r of Inr _ \<Rightarrow> returnT ()
      | Inl e \<Rightarrow> if e = notExist then returnT () else throwT (Annotated msg e))"

fun forT :: "('b \<Rightarrow> ('s, unit) st) \<Rightarrow> 'b list \<Rightarrow> ('s, unit) st" where
  "forT f [] = returnT ()"
| "forT f (x # xs) = bindT (f x) (\<lambda>_. forT f xs)"

definition cleanup_temp :: "env \<Rightarrow> string \<times> bool \<Rightarrow> unit io" where
  "cleanup_temp E entry =
    (let (name, isDir) = entry in
     if isDir \<or> \<not> HasPrefix name ''lazarus-'' \<or> \<not> isBackupTempName name then returnT ()
     else removeT E (''remove incomplete backup '' @ name) name)"

text \<open>Remove a file of one kind whose companion is missing.\<close>

definition cleanup_unpaired :: "env \<Rightarrow> string \<Rightarrow> (string \<Rightarrow> string) \<Rightarrow> string \<Rightarrow> string \<times> bool \<Rightarrow> unit io" where
  "cleanup_unpaired E ext companion what entry =
    (let (name, isDir) = entry in
     if isDir \<or> \<not> HasPrefix name ''lazarus-'' \<or> \<not> HasSuffix name ext then returnT ()
     else bindT (attemptT (osT E (os_Stat (companion name))))
     (\<lambda>r. case r of
         Inr _ \<Rightarrow> returnT ()
       | Inl e \<Rightarrow> if e \<noteq> notExist then throwT (Annotated (''inspect '' @ what @ '' '' @ name) e)
           else removeT E (''remove '' @ what @ '' '' @ name) name))"

text \<open>A pass over the directory, which is read anew.\<close>

definition forEntries :: "env \<Rightarrow> (string \<times> bool \<Rightarrow> unit io) \<Rightarrow> unit io" where
  "forEntries E f = bindT (osT E os_ReadDir) (\<lambda>entries. forT f entries)"

definition cleanupBackupTemps :: "env \<Rightarrow> unit io" where
  "cleanupBackupTemps E =
    bindT (forEntries E (cleanup_temp E))
    (\<lambda>_. bindT (forEntries E (cleanup_unpaired E ''.db'' (\<lambda>n. n @ ''.manifest.json'') ''incomplete backup''))
    (\<lambda>_. forEntries E (cleanup_unpaired E ''.db.manifest.json'' (\<lambda>n. TrimSuffix n ''.manifest.json'') ''orphan manifest'')))"

section \<open>Rotation\<close>

text \<open>Opening a file and syncing it needs the file and changes nothing that is modelled; the directory is
  always there.\<close>

definition syncFile :: "env \<Rightarrow> string \<Rightarrow> unit io" where
  "syncFile E name = osT E (os_Touch name)"

definition syncDir :: "env \<Rightarrow> unit io" where
  "syncDir E = osT E (\<lambda>fs. (Inr (), fs))"

definition backup_names :: "(string \<times> bool) list \<Rightarrow> string list" where
  "backup_names entries = map fst (filter (\<lambda>(name, isDir). \<not> isDir \<and> HasPrefix name ''lazarus-'' \<and> HasSuffix name ''.db'') entries)"

definition rotate_one :: "env \<Rightarrow> int \<Rightarrow> time \<Rightarrow> string \<Rightarrow> unit io" where
  "rotate_one E minAge now name =
    (let drop_it = bindT (removeT E (''rotate backup '' @ name) name)
           (\<lambda>_. ignoreT (osT E (os_Remove (name @ ''.manifest.json'')))) in
     if minAge > 0 then
       bindT (attemptT (osT E (os_Stat name)))
       (\<lambda>r. case r of
           Inl e \<Rightarrow> if e = notExist then returnT () else throwT (Annotated (''inspect backup age '' @ name) e)
         | Inr info \<Rightarrow> if now - f_mtime info < minAge then returnT () else drop_it)
     else drop_it)"

text \<open>File names are compared as texts, newest first; syncing the directory only fails or not.\<close>

definition rotateBackupsWithAge :: "env \<Rightarrow> nat \<Rightarrow> int \<Rightarrow> time \<Rightarrow> unit io" where
  "rotateBackupsWithAge E keep minAge now =
    bindT (osT E os_ReadDir)
    (\<lambda>entries. let items = rev (sort (backup_names entries)) in
      if length items \<le> keep then returnT ()
      else bindT (forT (rotate_one E minAge now) (drop keep items))
      (\<lambda>_. syncDir E))"

section \<open>Creating a backup\<close>

definition defaultKeepBack :: int where "defaultKeepBack = 7"

definition backup_stamp :: "time \<Rightarrow> string" where
  "backup_stamp t =
    (let secs = t div nanos_per_sec; ns = nat (t mod nanos_per_sec);
         sod = nat (secs mod 86400); (y, m, d) = civil (secs div 86400)
     in format_year y @ pad 2 (nat m) @ pad 2 (nat d) @ ''T''
        @ pad 2 (sod div 3600) @ pad 2 (sod div 60 mod 60) @ pad 2 (sod mod 60) @ ''.'' @ pad 9 ns @ ''Z'')"

text \<open>Times count nanoseconds from year 1, Unix time from 1970; \<open>UnixNano\<close> wraps around.\<close>

definition UnixNano :: "time \<Rightarrow> int" where
  "UnixNano t = wrap64 (t - 62135596800 * nanos_per_sec)"

definition backup_name :: "time \<Rightarrow> string" where
  "backup_name now = ''lazarus-'' @ backup_stamp now @ ''-'' @ FormatInt (UnixNano now) @ ''.db''"

definition openBackupConnection :: "env \<Rightarrow> string \<Rightarrow> unit io" where
  "openBackupConnection E path =
    (if isMemoryPath path then throwT (PlainError ''online backup requires a file-backed database'')
     else bindT (annotateT ''configure backup snapshot connection'' (storeT (queryT E (\<lambda>db. ()))))
     (\<lambda>_. annotateT ''configure backup snapshot connection'' (storeT (queryT E (\<lambda>db. ())))))"

definition integrityCheckDB :: "env \<Rightarrow> sqlite \<Rightarrow> unit io" where
  "integrityCheckDB E Q =
    bindT snapshotT
    (\<lambda>(sch, db). bindT (annotateT ''sqlite integrity check'' (storeT (queryT E (\<lambda>db. sq_integrity Q (sq_image Q sch db)))))
    (\<lambda>integrity. if \<not> EqualFold integrity ''ok'' then throwT (Wrapped ErrCorrupt integrity)
      else bindT (annotateT ''sqlite foreign key check'' (storeT (queryT E fk_violation)))
    (\<lambda>violation. if violation then throwT (Wrapped ErrCorrupt ''foreign key violation'') else returnT ())))"

text \<open>\<open>VACUUM INTO\<close> needs a new path and writes the rows as they are.\<close>

definition vacuumInto :: "env \<Rightarrow> sqlite \<Rightarrow> string \<Rightarrow> unit io" where
  "vacuumInto E Q name =
    bindT (storeT (nowT E))
    (\<lambda>now. bindT snapshotT
    (\<lambda>(sch, db). osT E (\<lambda>fs. if map_of fs name \<noteq> None then (Inl (SqlError DriverFailure), fs)
      else (Inr (), put_file name \<lparr>f_kind = Regular, f_bytes = sq_image Q sch db, f_mtime = now\<rparr> fs))))"

definition manifest_members :: "BackupManifest \<Rightarrow> (string \<times> string option) list" where
  "manifest_members b =
    [(''filename'', Some (quote (bm_Filename b))), (''created_at'', marshal_time (bm_CreatedAt b)),
     (''bytes'', Some (FormatInt (bm_Bytes b))), (''sha256'', Some (quote (bm_SHA256 b))),
     (''sqlite_version'', Some (quote (bm_SQLiteVersion b))), (''integrity_check'', Some (quote (bm_IntegrityCheck b))),
     (''foreign_key_check'', Some (quote (bm_ForeignKeys b))), (''application_check'', Some (quote (bm_Application b))),
     (''audit_recorded'', Some (marshal_bool (bm_AuditRecorded b)))]"

text \<open>The manifest is written under a temporary name and renamed.\<close>

definition publish_manifest :: "env \<Rightarrow> string \<Rightarrow> BackupManifest \<Rightarrow> unit io" where
  "publish_manifest E base manifest =
    (case marshal_members (manifest_members manifest) of
       None \<Rightarrow> throwT (PlainError ''json: error calling MarshalJSON for type time.Time'')
     | Some ms \<Rightarrow>
       let manifestTmp = base @ ''.manifest.json.tmp''; manifestPath = base @ ''.manifest.json'' in
       bindT (storeT (nowT E))
       (\<lambda>now. bindT (annotateT ''write backup manifest'' (osT E (os_WriteFile manifestTmp (indent_object ms @ [CHR 0x0A]) now)))
       (\<lambda>_. bindT (annotateT ''sync backup manifest'' (syncFile E manifestTmp))
       (\<lambda>_. bindT (onErrorT (osT E (os_Remove manifestTmp))
           (annotateT ''publish backup manifest'' (osT E (os_Rename manifestTmp manifestPath))))
       (\<lambda>_. bindT (annotateT ''sync backup manifest'' (syncFile E manifestPath))
       (\<lambda>_. annotateT ''sync backup directory'' (syncDir E)))))))"

text \<open>From the copy to the published database file: what runs before the deferred removal.\<close>

definition publish_database :: "env \<Rightarrow> sqlite \<Rightarrow> string \<Rightarrow> time \<Rightarrow> BackupManifest io" where
  "publish_database E Q base now =
    (let tmpPath = base @ ''.tmp'' in
     bindT (annotateT ''set backup permissions'' (osT E (os_Touch tmpPath)))
     (\<lambda>_. bindT (annotateT ''backup application validation failed'' (VerifyPath E Q tmpPath))
     (\<lambda>first. if vr_ApplicationData first \<noteq> ''ok'' then throwT (PlainError ''backup application validation failed: %!w(<nil>)'')
       else bindT (annotateT ''open backup for hashing'' (osT E (os_Touch tmpPath)))
     (\<lambda>_. bindT (annotateT ''hash backup'' (osT E (os_Read tmpPath)))
     (\<lambda>bytes. bindT (annotateT ''close backup after hashing'' (osT E (\<lambda>fs. (Inr (), fs))))
     (\<lambda>_. let manifest = \<lparr>bm_Filename = base, bm_CreatedAt = now, bm_Bytes = int (length bytes), bm_SHA256 = sha256_hex E bytes,
         bm_SQLiteVersion = sq_version Q, bm_IntegrityCheck = vr_IntegrityCheck first, bm_ForeignKeys = vr_ForeignKeys first,
         bm_Application = vr_ApplicationData first, bm_AuditRecorded = False\<rparr> in
       bindT (annotateT ''backup application validation failed'' (VerifyPath E Q tmpPath))
     (\<lambda>verified. if vr_ApplicationData verified \<noteq> ''ok'' then throwT (PlainError ''backup application validation failed: %!w(<nil>)'')
       else bindT (annotateT ''sync backup'' (syncFile E tmpPath))
     (\<lambda>_. bindT (annotateT ''publish backup'' (osT E (os_Rename tmpPath base)))
     (\<lambda>_. bindT (annotateT ''sync published backup'' (syncDir E))
     (\<lambda>_. returnT manifest))))))))))"

definition createBackup :: "env \<Rightarrow> sqlite \<Rightarrow> nat \<Rightarrow> int \<Rightarrow> AuditContext \<Rightarrow> BackupManifest io" where
  "createBackup E Q keep minAge audit =
    bindT (storeT (nowT E))
    (\<lambda>now. let base = backup_name now; tmpPath = base @ ''.tmp'' in
      bindT (ignoreT (osT E (os_Remove tmpPath)))
    (\<lambda>_. bindT (onErrorT (osT E (os_Remove tmpPath)) (annotateT ''vacuum into'' (vacuumInto E Q tmpPath)))
    (\<lambda>_. deferT (osT E (os_Remove tmpPath))
      (bindT (publish_database E Q base now)
      (\<lambda>manifest. bindT (storeT (attemptT (RecordBackupCreated E manifest audit)))
      (\<lambda>recorded. let manifest = manifest\<lparr>bm_AuditRecorded := \<not> isl recorded\<rparr> in
        bindT (publish_manifest E base manifest)
      (\<lambda>_. bindT (rotateBackupsWithAge E keep minAge now)
      (\<lambda>_. returnT manifest))))))))"

definition BackupWithRetention ::
    "env \<Rightarrow> sqlite \<Rightarrow> string \<Rightarrow> string \<Rightarrow> int \<Rightarrow> int \<Rightarrow> AuditContext \<Rightarrow> BackupManifest io" where
  "BackupWithRetention E Q path dir keep minAge audit =
    (if TrimSpace dir = '''' then throwT (PlainError ''backup directory is required'')
     else if minAge < 0 then throwT (PlainError ''backup minimum age must not be negative'')
     else let keep = (if keep \<le> 0 then defaultKeepBack else keep); keep = (if keep > 1000 then 1000 else keep) in
       bindT (annotateT ''create backup directory'' (osT E os_MkdirAll))
     (\<lambda>_. bindT (cleanupBackupTemps E)
     (\<lambda>_. bindT (backupForRequest E Q (a_RequestID audit) (a_Actor audit))
     (\<lambda>existing. case existing of
         Some manifest \<Rightarrow> returnT manifest
       | None \<Rightarrow>
         bindT (openBackupConnection E path)
         (\<lambda>_. bindT (integrityCheckDB E Q)
         (\<lambda>_. bindT (storeT (queryT E (\<lambda>db. ())))
         (\<lambda>_. createBackup E Q (nat keep) minAge audit)))))))"

definition store_Backup ::
    "env \<Rightarrow> sqlite \<Rightarrow> string \<Rightarrow> string \<Rightarrow> int \<Rightarrow> AuditContext \<Rightarrow> BackupManifest io" where
  "store_Backup E Q path dir keep audit = BackupWithRetention E Q path dir keep 0 audit"

end
