(* ===== verification/Stamps.thy ===== *)
theory Stamps
  imports Backup
begin

text \<open>
  The names that backups are given and the size of their manifests: a name is always one that
  \<open>BackupArtifact\<close> accepts, and a manifest stays below the limit of \<open>readBackupManifest\<close>.
\<close>

section \<open>Lengths of formatted values\<close>

lemma civil_bounds:
  assumes "civil n = (y, m, d)"
  shows "nat m < 10 ^ 2" "nat d < 10 ^ 2"
  using civil_ok [OF assms] by (auto simp: days_in_def split: if_splits)

lemma clock_bounds:
  fixes sod :: nat
  assumes "sod < 86400"
  shows "sod div 3600 < 10 ^ 2" "sod div 60 mod 60 < 10 ^ 2" "sod mod 60 < 10 ^ 2"
  using assms by simp_all

lemma nanos_bound: "nat (t mod nanos_per_sec) < 10 ^ 9"
  by (simp add: nanos_per_sec_def nat_less_iff)

lemma sod_bound: "nat (secs mod 86400) < 86400"
  by (simp add: nat_less_iff)

lemma length_year: "time_ok t \<Longrightarrow> civil (t div nanos_per_sec div 86400) = (y, m, d) \<Longrightarrow> length (format_year y) = 4"
  by (auto simp: time_ok_def time_year_def format_year_def intro!: pad_facts(1))

lemma length_strip: "length (strip_zeros s) \<le> length s"
  by (metis length_dropWhile_le length_rev strip_zeros_def)

lemma length_time: "time_ok t \<Longrightarrow> length (formatRFC3339Nano t) \<le> 30"
proof -
  assume t: "time_ok t"
  obtain y m d where c: "civil (t div nanos_per_sec div 86400) = (y, m, d)" by (rule prod_cases3)
  have "length (format_frac (nat (t mod nanos_per_sec))) \<le> 10"
    using length_strip [of "pad 9 (nat (t mod nanos_per_sec))"] pad_facts(1) [OF nanos_bound] by (simp add: format_frac_def)
  then show ?thesis
    using length_year [OF t c] c civil_bounds [OF c] clock_bounds [OF sod_bound]
    by (simp add: formatRFC3339Nano_def Let_def pad_facts(1))
qed

lemma length_stamp: "time_ok t \<Longrightarrow> length (backup_stamp t) = 26"
proof -
  assume t: "time_ok t"
  obtain y m d where c: "civil (t div nanos_per_sec div 86400) = (y, m, d)" by (rule prod_cases3)
  show ?thesis
    using length_year [OF t c] c civil_bounds [OF c] clock_bounds [OF sod_bound] pad_facts(1) [OF nanos_bound]
    by (simp add: backup_stamp_def Let_def pad_facts(1))
qed

lemma length_FormatInt: "in_int64 x \<Longrightarrow> length (FormatInt x) \<le> 20"
proof -
  assume x: "in_int64 x"
  have "nat (- x) < 10 ^ 19" "nat x < 10 ^ 19" using x by (auto simp: in_int64_def max_int64_def)
  from this [THEN length_showNat] show ?thesis by (simp add: FormatInt_def)
qed

lemma length_esc: "length (esc s) \<le> 6 * length s"
proof (induction s rule: esc.induct)
  case (1 s)
  show ?case
  proof (cases s)
    case (Cons c r)
    let ?n = "snd (esc_unit s)"
    have "length (fst (esc_unit s)) \<le> 6 * min (length s) (Suc ?n)"
      using Cons by (auto simp: esc_unit_def esc_ascii_def esc_rune_def min_def)
    moreover have "length (esc (drop (Suc ?n) s)) \<le> 6 * (length s - Suc ?n)" using 1 Cons by simp
    moreover have "min (length s) (Suc ?n) + (length s - Suc ?n) = length s" by simp
    ultimately show ?thesis using Cons by (subst esc.simps) simp
  qed (simp add: esc.simps)
qed

lemma length_quote: "length (quote s) \<le> 6 * length s + 2"
  using length_esc [of s] by (simp add: quote_def)

section \<open>Names\<close>

lemma artifact_digit: "isDigit c \<Longrightarrow> artifact_char c"
  unfolding isDigit_def artifact_char_def by blast

lemma artifact_others: "list_all artifact_char ''-''" "list_all artifact_char ''.''" "list_all artifact_char ''T''"
  "list_all artifact_char ''Z''" "list_all artifact_char ''lazarus-''" "list_all artifact_char ''.db''"
  by (simp_all add: artifact_char_def less_eq_char_def)

lemma artifact_pad: "list_all artifact_char (pad w n)"
proof -
  have "isDigit CHR ''0''" by (simp add: isDigit_def less_eq_char_def)
  with artifact_digit showNat_digits [of n] show ?thesis by (auto simp: pad_def list_all_iff)
qed

lemma artifact_FormatInt: "list_all artifact_char (FormatInt x)"
  using artifact_others(1) artifact_digit showNat_digits by (auto simp: FormatInt_def list_all_iff)

lemma artifact_stamp: "list_all artifact_char (backup_stamp t)"
  using artifact_others by (simp add: backup_stamp_def Let_def artifact_pad format_year_def split: prod.split)

lemma artifact_backup_name: "list_all artifact_char (backup_name t)"
  using artifact_others artifact_stamp artifact_FormatInt unfolding backup_name_def by simp

lemma length_backup_name: "time_ok t \<Longrightarrow> length (backup_name t) \<le> 58"
  using length_stamp [of t] length_FormatInt [OF wrap64_range] by (simp add: backup_name_def UnixNano_def)

lemma artifact_no_separator: "artifact_char c \<Longrightarrow> c \<noteq> CHR ''/'' \<and> c \<noteq> bslash"
  by (auto simp: artifact_char_def less_eq_char_def)

lemma artifact_ascii: "artifact_char c \<Longrightarrow> byte_val c < 0x80"
  by (auto simp: artifact_char_def less_eq_char_def)

lemma path_Base_plain: "p \<noteq> '''' \<Longrightarrow> CHR ''/'' \<notin> set p \<Longrightarrow> path_Base p = p"
proof (cases p rule: rev_cases)
  case (snoc ys y)
  assume a: "CHR ''/'' \<notin> set p"
  then have "takeWhile (\<lambda>c. c \<noteq> CHR ''/'') (rev ys) = rev ys" using snoc by (auto simp: takeWhile_eq_all_conv)
  moreover have "y \<noteq> CHR ''/''" using a snoc by auto
  ultimately show ?thesis using snoc by (simp add: path_Base_def del: takeWhile_eq_all_conv)
qed simp

lemma backup_name_shape: "HasPrefix (backup_name t) ''lazarus-''" "HasSuffix (backup_name t) ''.db''"
  "\<not> HasSuffix (backup_name t) ''.db.manifest.json''" "backup_name t \<noteq> ''''"
proof -
  show "HasPrefix (backup_name t) ''lazarus-''" unfolding backup_name_def by (rule HasPrefix_append)
  obtain u where u: "backup_name t = u @ ''.db''" by (simp add: backup_name_def)
  then show "HasSuffix (backup_name t) ''.db''" by (simp add: HasSuffix_iff)
  show "\<not> HasSuffix (backup_name t) ''.db.manifest.json''" using u by (simp add: HasSuffix_def HasPrefix_def)
  show "backup_name t \<noteq> ''''" by (simp add: backup_name_def)
qed

lemma backup_name_artifact: "time_ok t \<Longrightarrow> artifact_database (backup_name t) = Some (backup_name t)"
proof -
  assume t: "time_ok t"
  have chars: "c \<in> set (backup_name t) \<Longrightarrow> c \<noteq> CHR ''/'' \<and> c \<noteq> bslash" for c
    using artifact_backup_name [of t] artifact_no_separator by (auto simp: list_all_iff)
  then have "path_Base (backup_name t) = backup_name t" by (intro path_Base_plain backup_name_shape(4)) blast
  moreover have "\<not> ContainsAny (backup_name t) [CHR ''/'', bslash]" using chars by (auto simp: ContainsAny_def list_ex_iff)
  ultimately show ?thesis
    using length_backup_name [OF t] artifact_backup_name [of t] backup_name_shape [of t] by (simp add: artifact_database_def)
qed

lemma backup_name_utf8: "valid_utf8 (backup_name t)"
  using artifact_backup_name [of t] artifact_ascii by (intro valid_utf8_ascii) (auto simp: list_all_iff)

end
