(* ===== verification/Retention.thy ===== *)
theory Retention
  imports Stamps Accepts
begin

text \<open>
  The laws of backups: their manifests round-trip, their events keep the store's invariant, what is
  found has been verified, and cleaning up and rotation remove nothing else. That backups succeed is shown in
  the theory of recovery.
\<close>

section \<open>Manifests\<close>

definition manifest_ok :: "BackupManifest \<Rightarrow> bool" where
  "manifest_ok b \<longleftrightarrow> time_ok (bm_CreatedAt b) \<and> in_int64 (bm_Bytes b) \<and> valid_utf8 (bm_Filename b) \<and> valid_utf8 (bm_SHA256 b)
     \<and> valid_utf8 (bm_SQLiteVersion b) \<and> valid_utf8 (bm_IntegrityCheck b) \<and> valid_utf8 (bm_ForeignKeys b) \<and> valid_utf8 (bm_Application b)"

definition manifest_values :: "BackupManifest \<Rightarrow> (string \<times> json) list" where
  "manifest_values b =
    [(''filename'', JStr (bm_Filename b)), (''created_at'', JStr (formatRFC3339Nano (bm_CreatedAt b))),
     (''bytes'', JNum (FormatInt (bm_Bytes b))), (''sha256'', JStr (bm_SHA256 b)), (''sqlite_version'', JStr (bm_SQLiteVersion b)),
     (''integrity_check'', JStr (bm_IntegrityCheck b)), (''foreign_key_check'', JStr (bm_ForeignKeys b)),
     (''application_check'', JStr (bm_Application b)), (''audit_recorded'', JBool (bm_AuditRecorded b))]"

lemma manifest_text:
  assumes "manifest_ok b"
  shows "marshal_members (manifest_members b) = Some (json_members (manifest_values b))"
    and "marshal_BackupManifest b = Some (obj_text (json_members (manifest_values b)))"
proof -
  have "\<exists>x. marshal_time (bm_CreatedAt b) = Some x" using assms by (simp add: manifest_ok_def marshal_time_def)
  then have "marshal_time (bm_CreatedAt b) = Some (quote (formatRFC3339Nano (bm_CreatedAt b)))" using marshal_time_quote by blast
  then show "marshal_members (manifest_members b) = Some (json_members (manifest_values b))"
    by (simp add: manifest_members_def manifest_values_def marshal_bool_def)
  moreover have "marshal_BackupManifest b = marshal_struct (manifest_members b)"
    by (simp add: marshal_BackupManifest_def manifest_members_def)
  ultimately show "marshal_BackupManifest b = Some (obj_text (json_members (manifest_values b)))"
    by (simp add: marshal_struct_def)
qed

lemma manifest_values_wf:
  assumes "manifest_ok b"
  shows "\<forall>(k, v) \<in> set (manifest_values b). valid_utf8 k \<and> wf_json d v"
  using assms by (simp add: manifest_ok_def manifest_values_def valid_num_FormatInt valid_utf8_time)

lemma manifest_valid:
  assumes "manifest_ok b"
  shows "json_valid (obj_text (json_members (manifest_values b)))"
proof (rule obj_text_valid)
  have "wf_members d ms" if "\<forall>(k, v) \<in> set ms. valid_utf8 k \<and> wf_json d v" for d ms using that by (induction ms) auto
  then show "wf_members (maxNestingDepth - 1) (manifest_values b)" using manifest_values_wf [OF assms] by blast
qed

lemma manifest_read_back:
  assumes "manifest_ok b"
  shows "unmarshal_BackupManifest (obj_text (json_members (manifest_values b))) = Some b"
proof -
  have "\<exists>x. marshal_time (bm_CreatedAt b) = Some x" using assms by (simp add: manifest_ok_def marshal_time_def)
  then have t: "dec_time (quote (formatRFC3339Nano (bm_CreatedAt b))) old = Some (bm_CreatedAt b)" for old
    using dec_time_text marshal_time_quote by metis
  have texts: "\<forall>(k, t) \<in> set (json_members ms). valid_utf8 k \<and> (\<exists>v. value_text t v)"
    if "\<forall>(k, v) \<in> set ms. valid_utf8 k \<and> wf_json maxNestingDepth v" for ms
    using that by (induction ms) (use value_text_render in \<open>fastforce+\<close>)
  have b: "dec_bool (render (JBool x)) old = Some x" for x old using dec_bool_text [of x old] by (simp add: marshal_bool_def)
  show ?thesis
    unfolding unmarshal_BackupManifest_def
      unmarshal_obj_text [OF manifest_valid [OF assms] texts [OF manifest_values_wf [OF assms]]]
    using assms t b by (simp add: manifest_ok_def manifest_values_def BackupManifest_fields_def set_BackupManifest_def
      zero_BackupManifest_def del: render.simps(2))
qed

lemma manifest_indented:
  assumes "manifest_ok b"
  shows "unmarshal_BackupManifest (indent_object (json_members (manifest_values b)) @ [CHR 0x0A]) = Some b"
proof -
  have "manifest_values b \<noteq> []" by (simp add: manifest_values_def)
  moreover have "\<forall>(k, v) \<in> set (manifest_values b). valid_utf8 k \<and> wf_json (maxNestingDepth - 1) v \<and> wf_json maxNestingDepth v"
    using manifest_values_wf [OF assms] by (auto simp: split_beta)
  ultimately show ?thesis
    unfolding unmarshal_BackupManifest_def
    by (rule trans [OF unmarshal_indent_object manifest_read_back [OF assms, unfolded unmarshal_BackupManifest_def]])
qed

lemma manifest_size:
  assumes "manifest_ok b" "length (bm_Filename b) \<le> 200" "length (bm_SHA256 b) \<le> 200" "length (bm_SQLiteVersion b) \<le> 200"
    and "length (bm_IntegrityCheck b) \<le> 200" "length (bm_ForeignKeys b) \<le> 200" "length (bm_Application b) \<le> 200"
  shows "length (indent_object (json_members (manifest_values b)) @ [CHR 0x0A]) < 1024 * 1024"
proof -
  have q: "length s \<le> 200 \<Longrightarrow> length (quote s) \<le> 1202" for s using length_quote [of s] by simp
  have k: "length (quote ''filename'') \<le> 1202" "length (quote ''created_at'') \<le> 1202" "length (quote ''bytes'') \<le> 1202"
    "length (quote ''sha256'') \<le> 1202" "length (quote ''sqlite_version'') \<le> 1202" "length (quote ''integrity_check'') \<le> 1202"
    "length (quote ''foreign_key_check'') \<le> 1202" "length (quote ''application_check'') \<le> 1202" "length (quote ''audit_recorded'') \<le> 1202"
    by (simp_all add: q)
  have "length (formatRFC3339Nano (bm_CreatedAt b)) \<le> 200" using assms(1) length_time [of "bm_CreatedAt b"] by (simp add: manifest_ok_def)
  then have v: "length (quote (formatRFC3339Nano (bm_CreatedAt b))) \<le> 1202" by (rule q)
  have n: "length (FormatInt (bm_Bytes b)) \<le> 20" using assms(1) by (intro length_FormatInt) (simp add: manifest_ok_def)
  have r: "length (render (JBool x)) \<le> 5" for x by (cases x) simp_all
  show ?thesis
    using k v n r [of "bm_AuditRecorded b"] q [OF assms(2)] q [OF assms(3)] q [OF assms(4)] q [OF assms(5)] q [OF assms(6)] q [OF assms(7)]
    by (simp add: indent_object_def manifest_values_def del: render.simps(2))
qed

section \<open>Events about backups keep the invariant\<close>

lemma inv_global:
  assumes "db_inv E db" "e_MaintenanceID ev = ''''" "check_global_event (scanEvent (logged_row ev db)) = Inr ()"
  shows "db_inv E (log_event ev db)"
proof -
  have "runs_ok E (log_event ev db)" using assms(1,2) by (simp add: db_inv_def runs_ok_def nullText_def)
  moreover have "globals_ok (log_event ev db)" using assms(1,3) by (auto simp: db_inv_def globals_ok_def)
  moreover have "refs_ok (log_event ev db)" using assms(1,2) by (intro refs_ok_log) (simp_all add: db_inv_def)
  ultimately show ?thesis using assms(1) keys_ok_log by (simp add: db_inv_def)
qed

text \<open>A manifest that describes a file: what \<open>RecordBackupCreated\<close> is given, and the part of it
  that \<open>RecordBackupDownload\<close> uses.\<close>

definition manifest_args :: "BackupManifest \<Rightarrow> bool" where
  "manifest_args b \<longleftrightarrow> manifest_ok b \<and> bm_SHA256 b \<noteq> '''' \<and> 1 \<le> bm_Bytes b"

definition download_args :: "BackupManifest \<Rightarrow> bool" where
  "download_args b \<longleftrightarrow> valid_utf8 (bm_Filename b) \<and> valid_utf8 (bm_SHA256 b) \<and> bm_SHA256 b \<noteq> '''' \<and> 1 \<le> bm_Bytes b \<and> in_int64 (bm_Bytes b)"

lemma RecordBackupCreated_Inl: "RecordBackupCreated E b audit s = (Inl e, s') \<Longrightarrow> s_db s' = s_db s"
  by (auto simp: RecordBackupCreated_def Let_def split: prod.splits dest: writeT_Inl_db)

lemma RecordBackupDownload_Inl: "RecordBackupDownload E b name audit s = (Inl e, s') \<Longrightarrow> s_db s' = s_db s"
  by (auto simp: RecordBackupDownload_def Let_def split: prod.splits dest: writeT_Inl_db)

definition backup_event_of :: "string \<Rightarrow> BackupManifest \<Rightarrow> string \<Rightarrow> time \<Rightarrow> AuditContext \<Rightarrow> Event" where
  "backup_event_of kind b payload now audit =
    (let (actor, role, requestID) = auditValues audit in
     zero_Event\<lparr>e_Type := kind, e_OccurredAt := now, e_RequestID := requestID, e_Actor := actor, e_Role := role,
       e_ResourceType := ''backup'', e_ResourceID := bm_Filename b, e_Payload := payload\<rparr>)"

lemma backup_event_of_simps [simp]:
  "e_Type (backup_event_of k b p now a) = k" "e_OccurredAt (backup_event_of k b p now a) = now"
  "e_ResourceType (backup_event_of k b p now a) = ''backup''" "e_ResourceID (backup_event_of k b p now a) = bm_Filename b"
  "e_MaintenanceID (backup_event_of k b p now a) = ''''" "e_TargetID (backup_event_of k b p now a) = ''''"
  "e_FromState (backup_event_of k b p now a) = ''''" "e_ToState (backup_event_of k b p now a) = ''''"
  "e_FromVersion (backup_event_of k b p now a) = 0" "e_ToVersion (backup_event_of k b p now a) = 0"
  "e_AggregateVersion (backup_event_of k b p now a) = 0" "e_Payload (backup_event_of k b p now a) = p"
  by (simp_all add: backup_event_of_def zero_Event_def split: prod.splits)

lemma append_written:
  assumes "writeT E (appendEvent E ev) s = (Inr u, s')"
  shows "s_db s' = log_event ev (s_db s) \<and> log_ok E ev (s_db s)"
proof -
  obtain s1 where "appendEvent E ev (tick s) = (Inr u, s1)" "s' = tick s1" using assms unfolding writeT_Inr by blast
  with appendEvent_Inr(1,2) [OF this(1)] show ?thesis by simp
qed

lemma RecordBackupCreated_Inr:
  assumes "RecordBackupCreated E b audit s = (Inr u, s')" "manifest_ok b"
  shows "s_db s' = log_event (backup_event_of ''backup.created'' b (obj_text (json_members (manifest_values (b\<lparr>bm_AuditRecorded := True\<rparr>))))
      (bm_CreatedAt b) audit) (s_db s)"
    and "log_ok E (backup_event_of ''backup.created'' b (obj_text (json_members (manifest_values (b\<lparr>bm_AuditRecorded := True\<rparr>))))
      (bm_CreatedAt b) audit) (s_db s)"
proof -
  have "manifest_ok (b\<lparr>bm_AuditRecorded := True\<rparr>)" using assms(2) by (simp add: manifest_ok_def)
  note m = manifest_text(2) [OF this]
  show "s_db s' = log_event (backup_event_of ''backup.created'' b (obj_text (json_members (manifest_values (b\<lparr>bm_AuditRecorded := True\<rparr>))))
      (bm_CreatedAt b) audit) (s_db s)"
    "log_ok E (backup_event_of ''backup.created'' b (obj_text (json_members (manifest_values (b\<lparr>bm_AuditRecorded := True\<rparr>))))
      (bm_CreatedAt b) audit) (s_db s)"
    using assms(1) unfolding RecordBackupCreated_def m
    by (auto simp: backup_event_of_def split: prod.splits dest: append_written)
qed

lemma RecordBackupDownload_Inr:
  assumes "RecordBackupDownload E b name audit s = (Inr u, s')"
  obtains n where "s_db s' = log_event (backup_event_of ''backup.downloaded'' b (download_payload b name) (clock E n) audit) (s_db s)"
    "log_ok E (backup_event_of ''backup.downloaded'' b (download_payload b name) (clock E n) audit) (s_db s)"
proof -
  obtain s1 where a: "appendEvent E (backup_event_of ''backup.downloaded'' b (download_payload b name) (clock E (s_ticks (tick s))) audit) (tick (tick s)) = (Inr u, s1)"
    "s_db s' = s_db s1"
    using assms unfolding RecordBackupDownload_def
    by (auto simp: backup_event_of_def writeT_Inr bindT_Inr nowT_Inr split: prod.splits)
  then show ?thesis using that appendEvent_Inr(1,2) [OF a(1)] by simp
qed

lemma backup_event_check:
  assumes "log_ok E (backup_event_of ''backup.created'' b (obj_text (json_members (manifest_values (b\<lparr>bm_AuditRecorded := True\<rparr>)))) now audit) db"
    and "manifest_args b" "time_ok now"
  shows "check_global_event (scanEvent (logged_row (backup_event_of ''backup.created'' b
    (obj_text (json_members (manifest_values (b\<lparr>bm_AuditRecorded := True\<rparr>)))) now audit) db)) = Inr ()" (is "check_global_event (scanEvent (logged_row ?ev db)) = _")
proof -
  have "manifest_ok (b\<lparr>bm_AuditRecorded := True\<rparr>)" using assms(2) by (simp add: manifest_args_def manifest_ok_def)
  note m = manifest_read_back [OF this]
  have "validateEventShape (scanEvent (logged_row ?ev db)) = Inr ()"
    by (rule shape_logged [OF assms(1), where p = "''backup.''" and t = "''created''"]) (simp_all add: assms(3))
  moreover have "scanEvent (logged_row ?ev db) = (filled_event ?ev)\<lparr>e_ID := next_rowid (map er_journal_id (events_t db))\<rparr>"
    using assms(3) by (intro scan_logged) simp
  moreover have "obj_text (json_members (manifest_values (b\<lparr>bm_AuditRecorded := True\<rparr>))) \<noteq> ''''" by (simp add: obj_text_def)
  ultimately show ?thesis using assms(2) m by (simp add: check_global_event_def manifest_args_def)
qed

lemma keep_backup_created:
  assumes "RecordBackupCreated E b audit s = (res, s')" "db_inv E (s_db s)" "manifest_args b"
  shows "db_inv E (s_db s')"
proof (cases res)
  case (Inr u)
  have "manifest_ok b" "time_ok (bm_CreatedAt b)" using assms(3) by (simp_all add: manifest_args_def manifest_ok_def)
  note c = RecordBackupCreated_Inr [OF assms(1) [unfolded Inr] this(1)] and t = this(2)
  show ?thesis unfolding c(1) using backup_event_check [OF c(2) assms(3) t] assms(2) by (intro inv_global) simp_all
qed (use assms RecordBackupCreated_Inl in auto)

lemma download_check:
  assumes "log_ok E (backup_event_of ''backup.downloaded'' b (download_payload b name) now audit) db"
    and "download_args b" "time_ok now" "valid_utf8 name" "name \<noteq> ''''"
  shows "check_global_event (scanEvent (logged_row (backup_event_of ''backup.downloaded'' b (download_payload b name) now audit) db)) = Inr ()"
    (is "check_global_event (scanEvent (logged_row ?ev db)) = _")
proof -
  let ?ms = "[(''artifact'', quote name), (''bytes'', FormatInt (bm_Bytes b)), (''filename'', quote (bm_Filename b)), (''sha256'', quote (bm_SHA256 b))]"
  have ok: "valid_utf8 (bm_Filename b)" "valid_utf8 (bm_SHA256 b)" "in_int64 (bm_Bytes b)" using assms(2) by (simp_all add: download_args_def)
  have texts: "\<forall>(k, t) \<in> set ?ms. valid_utf8 k \<and> (\<exists>v. value_text t v)"
    using value_text_quote [OF assms(4)] value_text_quote [OF ok(1)] value_text_quote [OF ok(2)] value_text_int by auto
  have p: "download_payload b name \<noteq> ''''" by (simp add: download_payload_def obj_text_def)
  then have "json_valid (obj_text ?ms)" using assms(1) by (simp add: log_ok_def download_payload_def)
  note un = unmarshal_obj_text [OF this texts]
  have "unmarshal_download_detail (download_payload b name)
      = Some \<lparr>dd_Filename = bm_Filename b, dd_SHA256 = bm_SHA256 b, dd_Bytes = bm_Bytes b, dd_Artifact = name\<rparr>"
    unfolding unmarshal_download_detail_def download_payload_def un using ok assms(4) by (simp add: set_download_detail_def)
  moreover have "validateEventShape (scanEvent (logged_row ?ev db)) = Inr ()"
    by (rule shape_logged [OF assms(1), where p = "''backup.''" and t = "''downloaded''"]) (simp_all add: assms(3))
  moreover have "scanEvent (logged_row ?ev db) = (filled_event ?ev)\<lparr>e_ID := next_rowid (map er_journal_id (events_t db))\<rparr>"
    using assms(3) by (intro scan_logged) simp
  ultimately show ?thesis using assms(2,5) p by (simp add: check_global_event_def download_args_def)
qed

lemma keep_backup_download:
  assumes "RecordBackupDownload E b name audit s = (res, s')" "db_inv E (s_db s)" "env_ok E" "download_args b" "valid_utf8 name" "name \<noteq> ''''"
  shows "db_inv E (s_db s')"
proof (cases res)
  case (Inr u)
  obtain n where c: "s_db s' = log_event (backup_event_of ''backup.downloaded'' b (download_payload b name) (clock E n) audit) (s_db s)"
    "log_ok E (backup_event_of ''backup.downloaded'' b (download_payload b name) (clock E n) audit) (s_db s)"
    using RecordBackupDownload_Inr [OF assms(1) [unfolded Inr]] by blast
  have t: "time_ok (clock E n)" using assms(3) by (simp add: env_ok_def)
  show ?thesis unfolding c(1) using download_check [OF c(2) assms(4) t assms(5,6)] assms(2) by (intro inv_global) simp_all
qed (use assms RecordBackupDownload_Inl in auto)

section \<open>What is found has been verified\<close>

lemma validateRegularFile_Inr:
  "validateRegularFile E name w = (Inr u, w') \<longleftrightarrow> \<not> fault E (s_ticks (w_session w)) \<and> w' = tickW w
    \<and> (\<exists>f. map_of (w_files w) name = Some f \<and> f_kind f = Regular)"
  by (auto simp: validateRegularFile_def bindT_Inr mapErrT_Inr osT_Inr os_Lstat_def throwT_Inr returnT_Inr tickW_def
      split: option.splits if_splits)

lemma readBackupManifest_Inr:
  assumes "readBackupManifest E name w = (Inr m, w')"
  obtains f where "resolve 40 (w_files w) name = Some f" "unmarshal_BackupManifest (f_bytes f) = Some m"
    "length (f_bytes f) < 1024 * 1024" "view w' = view w"
proof -
  obtain f where f: "resolve 40 (w_files w) name = Some f" "view w' = view w"
    "unmarshal_BackupManifest (take (1024 * 1024) (f_bytes f)) = Some m" "length (take (1024 * 1024) (f_bytes f)) \<noteq> 1024 * 1024"
    using assms by (auto simp: readBackupManifest_def bindT_Inr mapErrT_Inr osT_Inr os_Read_def throwT_Inr returnT_Inr Let_def view_def tickW_def
      split: option.splits if_splits)
  then have "length (f_bytes f) < 1024 * 1024" by (simp add: min_def split: if_splits)
  with f show ?thesis using that by simp
qed

lemma validateBackupDigest_Inr:
  assumes "validateBackupDigest E name m w = (Inr u, w')"
  obtains f where "resolve 40 (w_files w) name = Some f" "digest_matches E (f_bytes f) m" "view w' = view w"
  using assms by (auto simp: validateBackupDigest_def bindT_Inr osT_Inr os_Read_def throwT_Inr returnT_Inr view_def tickW_def
      split: option.splits if_splits)

lemma artifact_name:
  assumes "artifact_database name = Some base"
  shows "(if HasSuffix name ''.db.manifest.json'' then base @ ''.manifest.json'' else base) = name"
    and "HasPrefix base ''lazarus-''" "HasSuffix base ''.db''" "path_Base base = base"
proof -
  have b: "base = (if HasSuffix name ''.db.manifest.json'' then TrimSuffix name ''.manifest.json'' else name)"
    "HasPrefix base ''lazarus-''" "HasSuffix base ''.db''" "\<not> ContainsAny name [CHR ''/'', bslash]"
    using assms by (auto simp: artifact_database_def Let_def split: if_splits)
  have long: "\<exists>t. name = (t @ ''.db'') @ ''.manifest.json''" if "HasSuffix name ''.db.manifest.json''"
    using that by (simp add: HasSuffix_iff)
  have trim: "TrimSuffix (t @ x) x = t" for t x by (simp add: TrimSuffix_def)
  show n: "(if HasSuffix name ''.db.manifest.json'' then base @ ''.manifest.json'' else base) = name"
  proof (cases "HasSuffix name ''.db.manifest.json''")
    case True
    with long obtain t where "name = (t @ ''.db'') @ ''.manifest.json''" by blast
    then show ?thesis using True b(1) trim [of "t @ ''.db''" "''.manifest.json''"] by simp
  qed (use b(1) in simp)
  show "HasPrefix base ''lazarus-''" "HasSuffix base ''.db''" by (rule b)+
  have "CHR ''/'' \<notin> set name" using b(4) by (auto simp: ContainsAny_def list_ex_iff)
  then have "CHR ''/'' \<notin> set base" using n by (metis UnCI set_append)
  moreover have "base \<noteq> ''''" using b(2) by (auto simp: HasPrefix_iff)
  ultimately show "path_Base base = base" by (rule path_Base_plain [rotated])
qed

lemma BackupArtifact_Inr:
  assumes "BackupArtifact E Q name w = (Inr (path, m), w')"
  obtains f g where "artifact_database name = Some (bm_Filename m)" "path = name" "view w' = view w"
    "map_of (w_files w) (bm_Filename m) = Some f" "f_kind f = Regular" "digest_matches E (f_bytes f) m" "verified_bytes E Q (f_bytes f)"
    "map_of (w_files w) (bm_Filename m @ ''.manifest.json'') = Some g" "f_kind g = Regular"
    "unmarshal_BackupManifest (f_bytes g) = Some m" "length (f_bytes g) < 1024 * 1024"
proof -
  obtain base where base: "artifact_database name = Some base"
    using assms by (auto simp: BackupArtifact_def throwT_Inr split: option.splits)
  obtain w1 w2 w3 w4 r where steps: "validateRegularFile E (base @ ''.manifest.json'') w = (Inr (), w1)"
    "readBackupManifest E (base @ ''.manifest.json'') w1 = (Inr m, w2)" "bm_Filename m = base"
    "validateRegularFile E base w2 = (Inr (), w3)" "validateBackupDigest E base m w3 = (Inr (), w4)"
    "VerifyPath E Q base w4 = (Inr r, w')" "path = (if HasSuffix name ''.db.manifest.json'' then base @ ''.manifest.json'' else base)"
    using assms base unfolding BackupArtifact_def
    by (auto simp: bindT_Inr throwT_Inr returnT_Inr annotateT_Inr Let_def split: if_splits)
  obtain g where g: "map_of (w_files w) (base @ ''.manifest.json'') = Some g" "f_kind g = Regular" "w1 = tickW w"
    using steps(1) unfolding validateRegularFile_Inr by auto
  obtain g' where g': "resolve 40 (w_files w1) (base @ ''.manifest.json'') = Some g'" "unmarshal_BackupManifest (f_bytes g') = Some m"
    "length (f_bytes g') < 1024 * 1024" "view w2 = view w1" using readBackupManifest_Inr [OF steps(2)] .
  obtain f where f: "map_of (w_files w2) base = Some f" "f_kind f = Regular" "w3 = tickW w2"
    using steps(4) unfolding validateRegularFile_Inr by auto
  obtain f' where f': "resolve 40 (w_files w3) base = Some f'" "digest_matches E (f_bytes f') m" "view w4 = view w3"
    using validateBackupDigest_Inr [OF steps(5)] .
  obtain f'' where f'': "resolve 40 (w_files w4) base = Some f''" "verified_bytes E Q (f_bytes f'')" "view w' = view w4"
    using VerifyPath_Inr [OF steps(6)] .
  have files: "w_files w1 = w_files w" "w_files w2 = w_files w" "w_files w3 = w_files w" "w_files w4 = w_files w"
    using g(3) g'(4) f(3) f'(3) by (simp_all add: view_def)
  have "g' = g" using resolve_regular [OF g(1,2)] g'(1) files by simp
  moreover have "f' = f" "f'' = f" using resolve_regular [OF f(1,2)] f'(1) f''(1) files by simp_all
  moreover have "view w' = view w" using g(3) g'(4) f(3) f'(3) f''(3) by simp
  ultimately show ?thesis
    using that [of f g] base steps(3,7) artifact_name(1) [OF base] g g' f f' f'' files by simp
qed

section \<open>Removing files\<close>

text \<open>A program that only removes files, and only files of the set \<open>S\<close>.\<close>

definition only_removed :: "string set \<Rightarrow> world \<Rightarrow> world \<Rightarrow> bool" where
  "only_removed S w w' \<longleftrightarrow> s_db (w_session w') = s_db (w_session w) \<and> w_schema w' = w_schema w
     \<and> (\<forall>n. map_of (w_files w') n = map_of (w_files w) n \<or> n \<in> S \<and> map_of (w_files w') n = None)"

lemma only_removed_refl: "view w' = view w \<Longrightarrow> only_removed S w w'"
  by (simp add: only_removed_def view_def)

lemma only_removed_trans: "only_removed S w w' \<Longrightarrow> only_removed T w' w'' \<Longrightarrow> only_removed (S \<union> T) w w''"
  unfolding only_removed_def by (metis UnI1 UnI2)

lemma only_removed_mono: "only_removed S w w' \<Longrightarrow> S \<subseteq> T \<Longrightarrow> only_removed T w w'"
  unfolding only_removed_def by blast

lemma only_removed_keeps: "only_removed S w w' \<Longrightarrow> n \<notin> S \<Longrightarrow> map_of (w_files w') n = map_of (w_files w) n"
  unfolding only_removed_def by blast

lemma only_removed_absent: "only_removed S w w' \<Longrightarrow> map_of (w_files w) n = None \<Longrightarrow> map_of (w_files w') n = None"
  unfolding only_removed_def by metis

lemma os_Remove_removed: "osT E (os_Remove n) w = (r, w') \<Longrightarrow> only_removed {n} w w' \<and> (r = Inr () \<or> r = Inl notExist \<longrightarrow> map_of (w_files w') n = None)"
  by (auto simp: osT_def os_Remove_def only_removed_def tickW_def osFailure_def notExist_def split: if_splits option.splits)

lemma os_Stat_view: "osT E (os_Stat n) w = (r, w') \<Longrightarrow> view w' = view w"
  by (auto simp: osT_def os_Stat_def view_def tickW_def split: if_splits)

lemma removeT_removed:
  assumes "removeT E msg n w = (r, w')"
  shows "only_removed {n} w w'" "r = Inr u \<Longrightarrow> map_of (w_files w') n = None"
proof -
  obtain r1 w1 where 1: "osT E (os_Remove n) w = (r1, w1)" by (cases "osT E (os_Remove n) w")
  then have 2: "w' = w1" "r = Inr u \<Longrightarrow> r1 = Inr () \<or> r1 = Inl notExist"
    using assms by (auto simp: removeT_def bindT_def attemptT_def returnT_def throwT_def split: sum.splits if_splits)
  show "only_removed {n} w w'" "r = Inr u \<Longrightarrow> map_of (w_files w') n = None" using os_Remove_removed [OF 1] 2 by blast+
qed

text \<open>A loop over files that only removes.\<close>

lemma forT_removed:
  assumes "\<And>x w r w'. x \<in> set xs \<Longrightarrow> f x w = (r, w') \<Longrightarrow> only_removed (S x) w w'"
  shows "forT f xs w = (r, w') \<Longrightarrow> only_removed (\<Union>x \<in> set xs. S x) w w'"
  using assms
proof (induction xs arbitrary: w)
  case Nil
  then show ?case by (simp add: returnT_def only_removed_refl)
next
  case (Cons x xs)
  obtain r1 w1 where 1: "f x w = (r1, w1)" by (cases "f x w")
  note a = Cons.prems(2) [OF list.set_intros(1) 1]
  show ?case
  proof (cases r1)
    case (Inl e)
    with 1 Cons.prems(1) have "w' = w1" by (simp add: bindT_def)
    with a show ?thesis by (auto intro: only_removed_mono)
  next
    case (Inr u)
    with 1 Cons.prems(1) have "forT f xs w1 = (r, w')" by (simp add: bindT_def)
    then have "only_removed (\<Union>x \<in> set xs. S x) w1 w'" using Cons by simp
    from only_removed_trans [OF a this] show ?thesis by simp
  qed
qed

lemma forT_each:
  assumes "forT f xs w = (Inr u, w')" "x \<in> set xs"
    and "\<And>y w r w'. y \<in> set xs \<Longrightarrow> f y w = (r, w') \<Longrightarrow> only_removed U w w'"
    and "\<And>w w'. f x w = (Inr (), w') \<Longrightarrow> P w'"
    and "\<And>w w'. P w \<Longrightarrow> only_removed U w w' \<Longrightarrow> P w'"
  shows "P w'"
  using assms(1-3)
proof (induction xs arbitrary: w)
  case (Cons y ys)
  obtain w1 where 1: "f y w = (Inr (), w1)" "forT f ys w1 = (Inr u, w')" using Cons.prems(1) by (auto simp: bindT_Inr)
  have step: "z \<in> set ys \<Longrightarrow> f z v = (r, v') \<Longrightarrow> only_removed U v v'" for z v r v' by (rule Cons.prems(3)) simp_all
  show ?case
  proof (cases "x \<in> set ys")
    case True
    show ?thesis by (rule Cons.IH [OF 1(2) True]) (rule step)
  next
    case False
    with Cons.prems(2) 1(1) have "P w1" using assms(4) by auto
    moreover have "only_removed (\<Union>x \<in> set ys. U) w1 w'" by (rule forT_removed [OF _ 1(2)]) (rule step)
    then have "only_removed U w1 w'" by (rule only_removed_mono) auto
    ultimately show ?thesis by (rule assms(5))
  qed
qed simp

section \<open>Rotation\<close>

lemma rotate_one_removed:
  assumes "rotate_one E minAge now n w = (r, w')"
  shows "only_removed {n, n @ ''.manifest.json''} w w'"
    and "0 < minAge \<Longrightarrow> map_of (w_files w) n = Some f \<Longrightarrow> f_kind f = Regular \<Longrightarrow> now - f_mtime f < minAge \<Longrightarrow> only_removed {} w w'"
    and "r = Inr u \<Longrightarrow> minAge \<le> 0 \<Longrightarrow> map_of (w_files w') n = None"
proof -
  let ?drop = "bindT (removeT E (''rotate backup '' @ n) n) (\<lambda>_. ignoreT (osT E (os_Remove (n @ ''.manifest.json''))))"
  have drop: "only_removed {n, n @ ''.manifest.json''} w1 w2 \<and> (r1 = Inr u \<longrightarrow> map_of (w_files w2) n = None)"
    if d: "?drop w1 = (r1, w2)" for w1 w2 r1
  proof -
    obtain r3 w3 where 3: "removeT E (''rotate backup '' @ n) n w1 = (r3, w3)" by (cases "removeT E (''rotate backup '' @ n) n w1")
    note a = removeT_removed [OF 3]
    show ?thesis
    proof (cases r3)
      case (Inl e)
      with d 3 have "w2 = w3" "r1 \<noteq> Inr u" by (auto simp: bindT_def)
      with a(1) show ?thesis by (auto intro: only_removed_mono)
    next
      case (Inr v)
      obtain r4 w4 where 4: "osT E (os_Remove (n @ ''.manifest.json'')) w3 = (r4, w4)" by (cases "osT E (os_Remove (n @ ''.manifest.json'')) w3")
      with d 3 Inr have w: "w2 = w4" by (simp add: bindT_def ignoreT_def)
      have b: "only_removed {n @ ''.manifest.json''} w3 w4" using os_Remove_removed [OF 4] by blast
      have "only_removed {n, n @ ''.manifest.json''} w1 w4" using only_removed_trans [OF a(1) b] by (simp add: insert_commute)
      then show ?thesis using only_removed_absent [OF b a(2) [OF Inr]] w by simp
    qed
  qed
  show 3: "r = Inr u \<Longrightarrow> minAge \<le> 0 \<Longrightarrow> map_of (w_files w') n = None" using assms drop by (simp add: rotate_one_def Let_def)
  show "only_removed {n, n @ ''.manifest.json''} w w'"
    and "0 < minAge \<Longrightarrow> map_of (w_files w) n = Some f \<Longrightarrow> f_kind f = Regular \<Longrightarrow> now - f_mtime f < minAge \<Longrightarrow> only_removed {} w w'"
  proof -
    obtain r1 w1 where 1: "osT E (os_Stat n) w = (r1, w1)" by (cases "osT E (os_Stat n) w")
    note v = os_Stat_view [OF 1]
    have rest: "0 < minAge \<Longrightarrow> w' = w1 \<or> (\<exists>info. r1 = Inr info \<and> \<not> now - f_mtime info < minAge \<and> ?drop w1 = (r, w'))"
      using assms 1 by (auto simp: rotate_one_def Let_def bindT_def [of "attemptT _"] attemptT_def returnT_def throwT_def split: sum.splits if_splits)
    have "only_removed {n, n @ ''.manifest.json''} w w'" if "0 < minAge"
      using rest [OF that] drop only_removed_refl [OF v] only_removed_trans [OF only_removed_refl [OF v, of "{}"]] by (metis sup_bot_left)
    then show "only_removed {n, n @ ''.manifest.json''} w w'" using assms drop by (cases "0 < minAge") (auto simp: rotate_one_def Let_def)
    assume y: "0 < minAge" "map_of (w_files w) n = Some f" "f_kind f = Regular" "now - f_mtime f < minAge"
    have "r1 = Inr info \<Longrightarrow> info = f" for info
      using 1 resolve_regular [OF y(2,3)] by (auto simp: osT_def os_Stat_def split: if_splits)
    then have "w' = w1" using rest [OF y(1)] y(4) by blast
    then show "only_removed {} w w'" using only_removed_refl [OF v] by simp
  qed
qed

lemma forT_invariant:
  assumes "\<And>x w r w'. x \<in> set xs \<Longrightarrow> I w \<Longrightarrow> f x w = (r, w') \<Longrightarrow> I w'"
  shows "forT f xs w = (r, w') \<Longrightarrow> I w \<Longrightarrow> I w'"
  using assms
proof (induction xs arbitrary: w)
  case (Cons x xs)
  obtain r1 w1 where 1: "f x w = (r1, w1)" by (cases "f x w")
  have "I w1" using Cons.prems(2,3) 1 by (meson list.set_intros(1))
  moreover have "w' = w1 \<or> forT f xs w1 = (r, w')" using Cons.prems(1) 1 by (cases r1) (auto simp: bindT_def)
  ultimately show ?case using Cons.IH Cons.prems(3) by (metis list.set_intros(2))
qed (simp add: returnT_def)

text \<open>The backups in a directory, newest name first.\<close>

definition dir_backups :: "files \<Rightarrow> string list" where
  "dir_backups fs = rev (sort (backup_names (sort_key fst (map (\<lambda>p. (fst p, f_kind (snd p) = Directory)) fs))))"

lemma dir_backups_shape: "n \<in> set (dir_backups fs) \<Longrightarrow> HasPrefix n ''lazarus-'' \<and> HasSuffix n ''.db''"
  by (auto simp: dir_backups_def backup_names_def)

lemma distinct_map_sort: "distinct (map fst l) \<Longrightarrow> distinct (map fst (sort_key fst l))"
  by (simp add: distinct_map)

lemma distinct_dir_backups: "distinct (map fst fs) \<Longrightarrow> distinct (dir_backups fs)"
proof -
  assume d: "distinct (map fst fs)"
  let ?l = "map (\<lambda>p. (fst p, f_kind (snd p) = Directory)) fs"
  have "map fst ?l = map fst fs" by simp
  then have "distinct (map fst ?l)" using d by (simp only:)
  then have "distinct (map fst (sort_key fst ?l))" by (rule distinct_map_sort)
  then have "distinct (backup_names (sort_key fst ?l))" unfolding backup_names_def by (rule distinct_map_filter)
  then show ?thesis by (simp add: dir_backups_def)
qed

lemma manifest_not_db: "HasSuffix n ''.db'' \<Longrightarrow> n \<noteq> m @ ''.manifest.json''"
  by (auto simp: HasSuffix_def HasPrefix_def)

lemma rotate_steps:
  assumes "rotateBackupsWithAge E keep minAge now w = (r, w')"
  shows "view w' = view w \<and> (r = Inr () \<longrightarrow> drop keep (dir_backups (w_files w)) = [])
    \<or> (\<exists>r1 w1 w2. view w1 = view w \<and> forT (rotate_one E minAge now) (drop keep (dir_backups (w_files w))) w1 = (r1, w2)
        \<and> view w' = view w2 \<and> (r = Inr () \<longrightarrow> r1 = Inr ()))"
proof (cases "fault E (s_ticks (w_session w))")
  case True
  then show ?thesis using assms by (auto simp: rotateBackupsWithAge_def bindT_def osT_def)
next
  case False
  let ?d = "dir_backups (w_files w)"
  have read: "osT E os_ReadDir w = (Inr (sort_key fst (map (\<lambda>p. (fst p, f_kind (snd p) = Directory)) (w_files w))), tickW w)"
    using False by (simp add: osT_def os_ReadDir_def tickW_def)
  show ?thesis
  proof (cases "length ?d \<le> keep")
    case True
    then show ?thesis using assms read by (auto simp: rotateBackupsWithAge_def bindT_def returnT_def Let_def dir_backups_def)
  next
    case long: False
    obtain r1 w2 where 1: "forT (rotate_one E minAge now) (drop keep ?d) (tickW w) = (r1, w2)"
      by (cases "forT (rotate_one E minAge now) (drop keep ?d) (tickW w)")
    have "view w' = view w2 \<and> (r = Inr () \<longrightarrow> r1 = Inr ())"
      using assms read long 1 unfolding rotateBackupsWithAge_def bindT_def [of "osT E os_ReadDir"] dir_backups_def
      by (cases r1) (auto simp: bindT_def syncDir_def osT_def Let_def view_def tickW_def split: if_splits)
    then show ?thesis using 1 by (intro disjI2 exI [of _ r1] exI [of _ "tickW w"] exI [of _ w2]) simp
  qed
qed

text \<open>C36: Rotation removes only backups beyond the newest \<open>keep\<close> and their manifests, whatever fails meanwhile;
  with a minimum age it removes no younger one, and without one a rotation that succeeds has removed them all.\<close>

theorem rotation_keeps_newest:
  assumes "rotateBackupsWithAge E keep minAge now w = (r, w')" "distinct (map fst (w_files w))"
  defines "old \<equiv> set (drop keep (dir_backups (w_files w)))"
  shows "only_removed (old \<union> (\<lambda>n. n @ ''.manifest.json'') ` old) w w'
    \<and> (\<forall>n \<in> set (take keep (dir_backups (w_files w))). map_of (w_files w') n = map_of (w_files w) n
        \<and> map_of (w_files w') (n @ ''.manifest.json'') = map_of (w_files w) (n @ ''.manifest.json''))
    \<and> (\<forall>n \<in> old. \<forall>f. 0 < minAge \<longrightarrow> map_of (w_files w) n = Some f \<longrightarrow> f_kind f = Regular \<longrightarrow> now - f_mtime f < minAge
        \<longrightarrow> map_of (w_files w') n = Some f)
    \<and> (r = Inr () \<longrightarrow> minAge \<le> 0 \<longrightarrow> (\<forall>n \<in> old. map_of (w_files w') n = None))"
proof -
  let ?keep = "set (take keep (dir_backups (w_files w)))"
  have apart: "old \<inter> ?keep = {}" unfolding old_def using set_take_disj_set_drop_if_distinct [OF distinct_dir_backups [OF assms(2)]] by blast
  have db: "n \<in> old \<union> ?keep \<Longrightarrow> HasSuffix n ''.db''" for n
    using dir_backups_shape unfolding old_def by (auto dest: in_set_dropD in_set_takeD)
  have steps: "only_removed (old \<union> (\<lambda>n. n @ ''.manifest.json'') ` old) w w'
    \<and> (\<forall>n \<in> old. \<forall>f. 0 < minAge \<longrightarrow> map_of (w_files w) n = Some f \<longrightarrow> f_kind f = Regular \<longrightarrow> now - f_mtime f < minAge
        \<longrightarrow> map_of (w_files w') n = Some f)
    \<and> (r = Inr () \<longrightarrow> minAge \<le> 0 \<longrightarrow> (\<forall>n \<in> old. map_of (w_files w') n = None))"
    using rotate_steps [OF assms(1)]
  proof
    assume "view w' = view w \<and> (r = Inr () \<longrightarrow> drop keep (dir_backups (w_files w)) = [])"
    then show ?thesis unfolding old_def by (auto intro: only_removed_refl simp: view_def)
  next
    assume "\<exists>r1 w1 w2. view w1 = view w \<and> forT (rotate_one E minAge now) (drop keep (dir_backups (w_files w))) w1 = (r1, w2)
        \<and> view w' = view w2 \<and> (r = Inr () \<longrightarrow> r1 = Inr ())"
    then obtain r1 w1 w2 where 1: "view w1 = view w" "forT (rotate_one E minAge now) (drop keep (dir_backups (w_files w))) w1 = (r1, w2)"
      "view w' = view w2" "r = Inr () \<longrightarrow> r1 = Inr ()" by blast
    have f: "w_files w1 = w_files w" "w_files w' = w_files w2" using 1(1,3) by (simp_all add: view_def)
    have "only_removed (\<Union>n \<in> old. {n, n @ ''.manifest.json''}) w1 w2"
      unfolding old_def by (rule forT_removed [OF rotate_one_removed(1) 1(2)])
    then have "only_removed (\<Union>n \<in> old. {n, n @ ''.manifest.json''}) w w'" using 1(1,3) by (simp add: only_removed_def view_def)
    then have "only_removed (old \<union> (\<lambda>n. n @ ''.manifest.json'') ` old) w w'" by (rule only_removed_mono) auto
    moreover have "map_of (w_files w') n = Some g"
      if y: "n \<in> old" "0 < minAge" "map_of (w_files w) n = Some g" "f_kind g = Regular" "now - f_mtime g < minAge" for n g
      unfolding f(2)
    proof (rule forT_invariant [OF _ 1(2)])
      fix x v q v'
      assume x: "x \<in> set (drop keep (dir_backups (w_files w)))" "map_of (w_files v) n = Some g" "rotate_one E minAge now x v = (q, v')"
      show "map_of (w_files v') n = Some g"
      proof (cases "x = n")
        case True
        from rotate_one_removed(2) [OF x(3) y(2) x(2) [folded True] y(4,5)] show ?thesis using x(2) by (simp add: only_removed_def)
      next
        case False
        have "n \<noteq> x @ ''.manifest.json''" using db y(1) manifest_not_db by blast
        with only_removed_keeps [OF rotate_one_removed(1) [OF x(3)]] False x(2) show ?thesis by simp
      qed
    qed (use y(3) f(1) in simp)
    moreover have "map_of (w_files w') n = None" if "r = Inr ()" "minAge \<le> 0" "n \<in> old" for n
      unfolding f(2)
    proof (rule forT_each [where f = "rotate_one E minAge now" and x = n and U = UNIV])
      show "forT (rotate_one E minAge now) (drop keep (dir_backups (w_files w))) w1 = (Inr (), w2)" using 1(2,4) that(1) by simp
      show "n \<in> set (drop keep (dir_backups (w_files w)))" using that(3) by (simp add: old_def)
    qed (erule only_removed_mono [OF rotate_one_removed(1)], simp, erule rotate_one_removed(3) [OF _ refl that(2)],
      erule only_removed_absent, assumption)
    ultimately show ?thesis by blast
  qed
  moreover have "map_of (w_files w') n = map_of (w_files w) n \<and> map_of (w_files w') (n @ ''.manifest.json'') = map_of (w_files w) (n @ ''.manifest.json'')"
    if "n \<in> ?keep" for n
  proof -
    have "n \<notin> old" "HasSuffix n ''.db''" using that apart db by blast+
    moreover have "m \<in> old \<Longrightarrow> m \<noteq> n @ ''.manifest.json''" for m using db manifest_not_db by blast
    ultimately have "n \<notin> old \<union> (\<lambda>n. n @ ''.manifest.json'') ` old" "n @ ''.manifest.json'' \<notin> old \<union> (\<lambda>n. n @ ''.manifest.json'') ` old"
      using manifest_not_db by auto
    from this [THEN only_removed_keeps [OF conjunct1 [OF steps]]] show ?thesis by (rule conjI)
  qed
  ultimately show ?thesis by blast
qed

definition sample_inode :: inode where
  "sample_inode = \<lparr>f_kind = Regular, f_bytes = ''x'', f_mtime = 0\<rparr>"

definition sample_dir :: world where
  "sample_dir = \<lparr>w_session = sample_start, w_schema = initializeSchema empty_schema,
     w_files = map (\<lambda>n. (n, sample_inode)) [''lazarus-1.db'', ''lazarus-2.db'', ''lazarus-2.db.manifest.json'', ''lazarus-3.db.tmp'']\<rparr>"

theorem rotation_keeps_newest_witness:
  "\<exists>r w'. rotateBackupsWithAge sample_env 1 0 0 sample_dir = (r, w')
    \<and> map_of (w_files w') ''lazarus-2.db'' = Some sample_inode \<and> map_of (w_files w') ''lazarus-2.db.manifest.json'' = Some sample_inode"
proof -
  obtain r w' where r: "rotateBackupsWithAge sample_env 1 0 0 sample_dir = (r, w')" by (cases "rotateBackupsWithAge sample_env 1 0 0 sample_dir")
  have d: "distinct (map fst (w_files sample_dir))" by (simp add: sample_dir_def)
  have "take 1 (dir_backups (w_files sample_dir)) = [''lazarus-2.db'']" by code_simp
  then have "''lazarus-2.db'' \<in> set (take 1 (dir_backups (w_files sample_dir)))" by simp
  with rotation_keeps_newest [OF r d] have "map_of (w_files w') ''lazarus-2.db'' = map_of (w_files sample_dir) ''lazarus-2.db''
    \<and> map_of (w_files w') (''lazarus-2.db'' @ ''.manifest.json'') = map_of (w_files sample_dir) (''lazarus-2.db'' @ ''.manifest.json'')" by blast
  moreover have "map_of (w_files sample_dir) ''lazarus-2.db'' = Some sample_inode"
    "map_of (w_files sample_dir) (''lazarus-2.db'' @ ''.manifest.json'') = Some sample_inode" by (simp_all add: sample_dir_def)
  ultimately show ?thesis using r by simp
qed

section \<open>Cleaning up\<close>

text \<open>Names that cleaning up may remove.\<close>

definition cleanable :: "string \<Rightarrow> bool" where
  "cleanable n \<longleftrightarrow> HasPrefix n ''lazarus-'' \<and> (isBackupTempName n \<or> HasSuffix n ''.db'' \<or> HasSuffix n ''.db.manifest.json'')"

lemma HasSuffix_last: "HasSuffix n p \<Longrightarrow> p \<noteq> '''' \<Longrightarrow> last n = last p"
  by (auto simp: HasSuffix_iff)

lemma suffixes_apart:
  "HasSuffix n ''.db'' \<Longrightarrow> \<not> isBackupTempName n" "HasSuffix n ''.db'' \<Longrightarrow> \<not> HasSuffix n ''.db.manifest.json''"
  "HasSuffix n ''.db.manifest.json'' \<Longrightarrow> \<not> isBackupTempName n" "\<not> isBackupTempName (n @ ''.manifest.json'')"
  "\<not> HasSuffix (n @ ''.manifest.json'') ''.db''"
  by (auto simp: isBackupTempName_def dest!: HasSuffix_last)

lemma manifest_suffix: "HasSuffix n ''.db'' \<Longrightarrow> HasSuffix (n @ ''.manifest.json'') ''.db.manifest.json'' \<and> TrimSuffix (n @ ''.manifest.json'') ''.manifest.json'' = n"
  by (auto simp: HasSuffix_iff TrimSuffix_def)

lemma resolve_present: "resolve k fs n = Some f \<Longrightarrow> map_of fs n \<noteq> None"
  by (cases k) (auto split: option.splits)

lemma cleanup_temp_removed:
  assumes "cleanup_temp E (n, isDir) w = (r, w')"
  shows "only_removed {x. x = n \<and> HasPrefix x ''lazarus-'' \<and> isBackupTempName x} w w'"
    and "r = Inr u \<Longrightarrow> \<not> isDir \<Longrightarrow> HasPrefix n ''lazarus-'' \<Longrightarrow> isBackupTempName n \<Longrightarrow> map_of (w_files w') n = None"
proof -
  show "only_removed {x. x = n \<and> HasPrefix x ''lazarus-'' \<and> isBackupTempName x} w w'"
  proof (cases "isDir \<or> \<not> HasPrefix n ''lazarus-'' \<or> \<not> isBackupTempName n")
    case True
    then show ?thesis using assms by (auto simp: cleanup_temp_def returnT_def intro: only_removed_refl)
  next
    case False
    then have "only_removed {n} w w'" using assms removeT_removed(1) by (simp add: cleanup_temp_def)
    then show ?thesis using False by (auto intro: only_removed_mono)
  qed
  show "r = Inr u \<Longrightarrow> \<not> isDir \<Longrightarrow> HasPrefix n ''lazarus-'' \<Longrightarrow> isBackupTempName n \<Longrightarrow> map_of (w_files w') n = None"
    using assms removeT_removed(2) by (simp add: cleanup_temp_def)
qed

lemma cleanup_unpaired_removed:
  assumes "cleanup_unpaired E ext companion what (n, isDir) w = (r, w')"
  shows "only_removed {x. x = n \<and> HasPrefix x ''lazarus-'' \<and> HasSuffix x ext} w w'"
    and "resolve 40 (w_files w) (companion n) \<noteq> None \<Longrightarrow> view w' = view w"
    and "r = Inr u \<Longrightarrow> \<not> isDir \<Longrightarrow> HasPrefix n ''lazarus-'' \<Longrightarrow> HasSuffix n ext \<Longrightarrow>
      map_of (w_files w') n = None \<or> map_of (w_files w') (companion n) \<noteq> None"
proof -
  obtain r1 w1 where 1: "osT E (os_Stat (companion n)) w = (r1, w1)" by (cases "osT E (os_Stat (companion n)) w")
  note v = os_Stat_view [OF 1]
  consider "w' = w" "isDir \<or> \<not> HasPrefix n ''lazarus-'' \<or> \<not> HasSuffix n ext"
    | "view w' = view w" "r = Inr () \<Longrightarrow> \<exists>info. r1 = Inr info" "HasPrefix n ''lazarus-'' \<and> HasSuffix n ext"
    | "r1 = Inl notExist" "removeT E (''remove '' @ what @ '' '' @ n) n w1 = (r, w')" "HasPrefix n ''lazarus-'' \<and> HasSuffix n ext"
    using assms 1 v by (cases "isDir \<or> \<not> HasPrefix n ''lazarus-'' \<or> \<not> HasSuffix n ext"; cases r1)
      (auto simp: cleanup_unpaired_def bindT_def attemptT_def returnT_def throwT_def split: if_splits)
  note cases = this
  show "only_removed {x. x = n \<and> HasPrefix x ''lazarus-'' \<and> HasSuffix x ext} w w'"
  proof (cases rule: cases)
    case 3
    have "only_removed {n} w w'" using only_removed_trans [OF only_removed_refl [OF v] removeT_removed(1) [OF 3(2)], of "{}"] by simp
    then show ?thesis using 3(3) by (auto intro: only_removed_mono)
  qed (auto intro: only_removed_refl)
  have found: "r1 = Inr info \<Longrightarrow> resolve 40 (w_files w) (companion n) = Some info" "r1 = Inl notExist \<Longrightarrow> resolve 40 (w_files w) (companion n) = None" for info
    using 1 by (auto simp: osT_def os_Stat_def osFailure_def notExist_def split: if_splits option.splits)
  show "resolve 40 (w_files w) (companion n) \<noteq> None \<Longrightarrow> view w' = view w"
    by (cases rule: cases) (use found in auto)
  assume a: "r = Inr u" "\<not> isDir" "HasPrefix n ''lazarus-''" "HasSuffix n ext"
  show "map_of (w_files w') n = None \<or> map_of (w_files w') (companion n) \<noteq> None"
  proof (cases rule: cases)
    case 2
    then obtain info where "resolve 40 (w_files w) (companion n) = Some info" using a(1) found(1) by auto
    with resolve_present 2(1) show ?thesis by (auto simp: view_def)
  next
    case 3
    then show ?thesis using removeT_removed(2) [OF 3(2) a(1)] by blast
  qed (use a in simp)
qed

lemma forEntries_steps:
  assumes "forEntries E f w = (r, w')"
  shows "view w' = view w \<and> r \<noteq> Inr u \<or> (\<exists>w1 entries. view w1 = view w \<and> forT f entries w1 = (r, w')
    \<and> (\<forall>n g. map_of (w_files w) n = Some g \<longrightarrow> (n, f_kind g = Directory) \<in> set entries))"
proof (cases "fault E (s_ticks (w_session w))")
  case True
  then show ?thesis using assms by (auto simp: forEntries_def bindT_def osT_def)
next
  case False
  let ?entries = "sort_key fst (map (\<lambda>p. (fst p, f_kind (snd p) = Directory)) (w_files w))"
  have "forT f ?entries (tickW w) = (r, w')"
    using False assms by (simp add: forEntries_def bindT_def osT_def os_ReadDir_def tickW_def)
  moreover have "(n, f_kind g = Directory) \<in> set ?entries" if "map_of (w_files w) n = Some g" for n g
    using map_of_SomeD [OF that] by force
  ultimately show ?thesis by (intro disjI2 exI [of _ "tickW w"] exI [of _ ?entries]) simp
qed

lemma only_removed_view: "view w1 = view w \<Longrightarrow> only_removed S w1 w' \<longleftrightarrow> only_removed S w w'"
  by (simp add: only_removed_def view_def)

lemma forEntries_removed:
  assumes "forEntries E f w = (r, w')" "\<And>x w r w'. f x w = (r, w') \<Longrightarrow> only_removed U w w'"
  shows "only_removed U w w'"
  using forEntries_steps [OF assms(1), of "()"]
proof (elim disjE exE conjE)
  fix w1 entries
  assume 1: "view w1 = view w" "forT f entries w1 = (r, w')"
  have "only_removed (\<Union>x \<in> set entries. U) w1 w'" by (rule forT_removed [OF _ 1(2)]) (rule assms(2))
  then have "only_removed U w1 w'" by (rule only_removed_mono) auto
  then show ?thesis using only_removed_view [OF 1(1)] by blast
qed (rule only_removed_refl)

lemma forEntries_invariant:
  assumes "forEntries E f w = (r, w')" "I (w_files w)"
    and "\<And>x w r w'. I (w_files w) \<Longrightarrow> f x w = (r, w') \<Longrightarrow> I (w_files w')"
  shows "I (w_files w')"
  using forEntries_steps [OF assms(1), of "()"]
proof (elim disjE exE conjE)
  fix w1 entries
  assume 1: "view w1 = view w" "forT f entries w1 = (r, w')"
  show ?thesis by (rule forT_invariant [OF _ 1(2), where I = "\<lambda>w. I (w_files w)"]) (use 1(1) assms(2,3) in \<open>auto simp: view_def\<close>)
qed (use assms(2) in \<open>simp add: view_def\<close>)

lemma forEntries_each:
  assumes "forEntries E f w = (Inr u, w')" "map_of (w_files w) n = Some g"
    and "\<And>x w r w'. f x w = (r, w') \<Longrightarrow> only_removed U w w'"
    and "\<And>w w'. f (n, f_kind g = Directory) w = (Inr (), w') \<Longrightarrow> P w'"
    and "\<And>w w'. P w \<Longrightarrow> only_removed U w w' \<Longrightarrow> P w'"
  shows "P w'"
  using forEntries_steps [OF assms(1), of u]
proof (elim disjE exE conjE)
  fix w1 entries
  assume 1: "view w1 = view w" "forT f entries w1 = (Inr u, w')"
    "\<forall>n g. map_of (w_files w) n = Some g \<longrightarrow> (n, f_kind g = Directory) \<in> set entries"
  then have "(n, f_kind g = Directory) \<in> set entries" using assms(2) by blast
  then show ?thesis by (rule forT_each [OF 1(2)]) (erule assms(3), erule assms(4), erule assms(5), assumption)
qed simp

text \<open>A published backup: the database file and its manifest.\<close>

definition published :: "string \<Rightarrow> inode \<Rightarrow> inode \<Rightarrow> files \<Rightarrow> bool" where
  "published n f g fs \<longleftrightarrow> map_of fs n = Some f \<and> f_kind f = Regular \<and> map_of fs (n @ ''.manifest.json'') = Some g \<and> f_kind g = Regular"

lemma published_only_removed:
  "only_removed S w w' \<Longrightarrow> published n f g (w_files w) \<Longrightarrow> n \<notin> S \<Longrightarrow> n @ ''.manifest.json'' \<notin> S \<Longrightarrow> published n f g (w_files w')"
  using only_removed_keeps by (simp add: published_def)

lemma cleanup_keeps_pair:
  assumes "HasSuffix n ''.db''" "published n f g (w_files w)"
  shows "cleanup_temp E x w = (r, w') \<Longrightarrow> published n f g (w_files w')"
    and "cleanup_unpaired E ''.db'' (\<lambda>n. n @ ''.manifest.json'') what x w = (r, w') \<Longrightarrow> published n f g (w_files w')"
    and "cleanup_unpaired E ''.db.manifest.json'' (\<lambda>n. TrimSuffix n ''.manifest.json'') what x w = (r, w') \<Longrightarrow> published n f g (w_files w')"
proof -
  obtain m d where x: "x = (m, d)" by (cases x)
  have res: "resolve 40 (w_files w) n \<noteq> None" "resolve 40 (w_files w) (n @ ''.manifest.json'') \<noteq> None"
    using assms(2) resolve_regular by (auto simp: published_def)
  show "cleanup_temp E x w = (r, w') \<Longrightarrow> published n f g (w_files w')"
    unfolding x by (rule published_only_removed [OF cleanup_temp_removed(1) assms(2)]) (use suffixes_apart assms(1) in auto)
  show "published n f g (w_files w')" if c: "cleanup_unpaired E ''.db'' (\<lambda>n. n @ ''.manifest.json'') what x w = (r, w')"
  proof (cases "m = n")
    case True
    have "view w' = view w" by (rule cleanup_unpaired_removed(2) [OF c [unfolded x True]]) (rule res(2))
    with assms(2) show ?thesis by (simp add: view_def)
  next
    case False
    show ?thesis by (rule published_only_removed [OF cleanup_unpaired_removed(1) [OF c [unfolded x]] assms(2)]) (use False suffixes_apart in auto)
  qed
  show "published n f g (w_files w')" if c: "cleanup_unpaired E ''.db.manifest.json'' (\<lambda>n. TrimSuffix n ''.manifest.json'') what x w = (r, w')"
  proof (cases "m = n @ ''.manifest.json''")
    case True
    have "view w' = view w" by (rule cleanup_unpaired_removed(2) [OF c [unfolded x True]]) (use res(1) manifest_suffix [OF assms(1)] in simp)
    with assms(2) show ?thesis by (simp add: view_def)
  next
    case False
    show ?thesis by (rule published_only_removed [OF cleanup_unpaired_removed(1) [OF c [unfolded x]] assms(2)])
        (use False suffixes_apart assms(1) in auto)
  qed
qed

lemma cleanup_phases_removed:
  "forEntries E (cleanup_temp E) w = (r, w') \<Longrightarrow> only_removed {n. HasPrefix n ''lazarus-'' \<and> isBackupTempName n} w w'"
  "forEntries E (cleanup_unpaired E ext companion what) w = (r, w') \<Longrightarrow> only_removed {n. HasPrefix n ''lazarus-'' \<and> HasSuffix n ext} w w'"
proof -
  have "cleanup_temp E x v = (q, v') \<Longrightarrow> only_removed {n. HasPrefix n ''lazarus-'' \<and> isBackupTempName n} v v'" for x v q v'
    by (cases x) (auto dest: cleanup_temp_removed(1) elim!: only_removed_mono)
  then show "forEntries E (cleanup_temp E) w = (r, w') \<Longrightarrow> only_removed {n. HasPrefix n ''lazarus-'' \<and> isBackupTempName n} w w'"
    by (rule forEntries_removed [rotated])
  have "cleanup_unpaired E ext companion what x v = (q, v') \<Longrightarrow> only_removed {n. HasPrefix n ''lazarus-'' \<and> HasSuffix n ext} v v'" for x v q v'
    by (cases x) (auto dest: cleanup_unpaired_removed(1) elim!: only_removed_mono)
  then show "forEntries E (cleanup_unpaired E ext companion what) w = (r, w') \<Longrightarrow> only_removed {n. HasPrefix n ''lazarus-'' \<and> HasSuffix n ext} w w'"
    by (rule forEntries_removed [rotated])
qed

lemma cleanup_temp_each:
  assumes "forEntries E (cleanup_temp E) w = (Inr u, w')" "HasPrefix n ''lazarus-''" "isBackupTempName n" "map_of (w_files w) n = Some f" "f_kind f = Regular"
  shows "map_of (w_files w') n = None"
proof (rule forEntries_each [OF assms(1,4), where U = UNIV])
  show "cleanup_temp E x v = (q, v') \<Longrightarrow> only_removed UNIV v v'" for x v q v'
    by (cases x) (auto dest: cleanup_temp_removed(1) elim!: only_removed_mono)
  show "cleanup_temp E (n, f_kind f = Directory) v = (Inr (), v') \<Longrightarrow> map_of (w_files v') n = None" for v v'
    using assms(2,3,5) by (intro cleanup_temp_removed(2) [where r = "Inr ()" and isDir = "f_kind f = Directory"]) simp_all
qed (erule only_removed_absent, assumption)

lemma cleanup_unpaired_each:
  assumes "forEntries E (cleanup_unpaired E ext companion what) w = (Inr u, w')" "HasPrefix n ''lazarus-''" "HasSuffix n ext"
    and "map_of (w_files w) n = Some f" "f_kind f = Regular" "\<not> HasSuffix (companion n) ext" "map_of (w_files w') n \<noteq> None"
  shows "map_of (w_files w') (companion n) \<noteq> None"
proof -
  have "map_of (w_files w') n = None \<or> map_of (w_files w') (companion n) \<noteq> None"
  proof (rule forEntries_each [OF assms(1,4), where U = "{n. HasPrefix n ''lazarus-'' \<and> HasSuffix n ext}"])
    show "cleanup_unpaired E ext companion what x v = (q, v') \<Longrightarrow> only_removed {n. HasPrefix n ''lazarus-'' \<and> HasSuffix n ext} v v'" for x v q v'
      by (cases x) (auto dest: cleanup_unpaired_removed(1) elim!: only_removed_mono)
    show "cleanup_unpaired E ext companion what (n, f_kind f = Directory) v = (Inr (), v') \<Longrightarrow>
        map_of (w_files v') n = None \<or> map_of (w_files v') (companion n) \<noteq> None" for v v'
      using assms(2,3,5) by (intro cleanup_unpaired_removed(3) [where r = "Inr ()" and isDir = "f_kind f = Directory"]) simp_all
    fix v v'
    assume o: "only_removed {n. HasPrefix n ''lazarus-'' \<and> HasSuffix n ext} v v'"
      and p: "map_of (w_files v) n = None \<or> map_of (w_files v) (companion n) \<noteq> None"
    have "map_of (w_files v') (companion n) = map_of (w_files v) (companion n)" using assms(6) by (intro only_removed_keeps [OF o]) simp
    with p only_removed_absent [OF o] show "map_of (w_files v') n = None \<or> map_of (w_files v') (companion n) \<noteq> None" by (elim disjE) simp_all
  qed
  with assms(7) show ?thesis by auto
qed

lemma orphan_pass_keeps:
  assumes "forEntries E (cleanup_unpaired E ''.db.manifest.json'' (\<lambda>n. TrimSuffix n ''.manifest.json'') what) w = (r, w')"
    and "HasSuffix n ''.db''" "map_of (w_files w) n = Some f" "f_kind f = Regular" "map_of (w_files w) (n @ ''.manifest.json'') = Some g"
  shows "map_of (w_files w') (n @ ''.manifest.json'') = Some g"
proof -
  have "map_of (w_files w') n = Some f \<and> map_of (w_files w') (n @ ''.manifest.json'') = Some g"
  proof (rule forEntries_invariant [OF assms(1)])
    fix x v q v'
    assume a: "map_of (w_files v) n = Some f \<and> map_of (w_files v) (n @ ''.manifest.json'') = Some g"
      "cleanup_unpaired E ''.db.manifest.json'' (\<lambda>n. TrimSuffix n ''.manifest.json'') what x v = (q, v')"
    obtain m d where x: "x = (m, d)" by (cases x)
    have res: "resolve 40 (w_files v) n \<noteq> None" using a(1) assms(4) resolve_regular by fastforce
    show "map_of (w_files v') n = Some f \<and> map_of (w_files v') (n @ ''.manifest.json'') = Some g"
    proof (cases "m = n @ ''.manifest.json''")
      case True
      have "view v' = view v" by (rule cleanup_unpaired_removed(2) [OF a(2) [unfolded x True]]) (use res manifest_suffix [OF assms(2)] in simp)
      with a(1) show ?thesis by (simp add: view_def)
    next
      case False
      have o: "only_removed {x. x = m \<and> HasPrefix x ''lazarus-'' \<and> HasSuffix x ''.db.manifest.json''} v v'"
        using cleanup_unpaired_removed(1) [OF a(2) [unfolded x]] .
      have "map_of (w_files v') n = map_of (w_files v) n" "map_of (w_files v') (n @ ''.manifest.json'') = map_of (w_files v) (n @ ''.manifest.json'')"
        using False suffixes_apart(2) [OF assms(2)] by (auto intro!: only_removed_keeps [OF o])
      with a(1) show ?thesis by simp
    qed
  qed (use assms in simp)
  then show ?thesis by blast
qed

text \<open>C37: Cleaning up a backup directory never touches a published backup, whatever fails meanwhile, and removes
  nothing but temporary files of backups, databases and manifests; after a pass that succeeds no temporary file is
  left, every database file has its manifest and every manifest its database.\<close>

theorem cleanup_keeps_published:
  assumes "cleanupBackupTemps E w = (r, w')"
  shows "only_removed {n. cleanable n} w w'
    \<and> (\<forall>n f g. HasSuffix n ''.db'' \<longrightarrow> published n f g (w_files w) \<longrightarrow> published n f g (w_files w'))
    \<and> (r = Inr () \<longrightarrow> (\<forall>n f. map_of (w_files w') n = Some f \<longrightarrow> f_kind f = Regular \<longrightarrow> HasPrefix n ''lazarus-'' \<longrightarrow>
         \<not> isBackupTempName n
       \<and> (HasSuffix n ''.db'' \<longrightarrow> map_of (w_files w') (n @ ''.manifest.json'') \<noteq> None)
       \<and> (HasSuffix n ''.db.manifest.json'' \<longrightarrow> map_of (w_files w') (TrimSuffix n ''.manifest.json'') \<noteq> None)))"
proof -
  let ?c1 = "cleanup_temp E" and ?c2 = "cleanup_unpaired E ''.db'' (\<lambda>n. n @ ''.manifest.json'') ''incomplete backup''"
    and ?c3 = "cleanup_unpaired E ''.db.manifest.json'' (\<lambda>n. TrimSuffix n ''.manifest.json'') ''orphan manifest''"
  obtain r1 w1 where 1: "forEntries E ?c1 w = (r1, w1)" by (cases "forEntries E ?c1 w")
  obtain r2 w2 where 2: "forEntries E ?c2 w1 = (r2, w2)" by (cases "forEntries E ?c2 w1")
  obtain r3 w3 where 3: "forEntries E ?c3 w2 = (r3, w3)" by (cases "forEntries E ?c3 w2")
  have steps: "w' = w1 \<or> w' = w2 \<or> w' = w3" "r = Inr () \<Longrightarrow> r1 = Inr () \<and> r2 = Inr () \<and> r3 = Inr () \<and> w' = w3"
    using assms 1 2 3 by (cases r1; cases r2; auto simp: cleanupBackupTemps_def bindT_def)+
  note o1 = cleanup_phases_removed(1) [OF 1] and o2 = cleanup_phases_removed(2) [OF 2] and o3 = cleanup_phases_removed(2) [OF 3]
  have c: "only_removed {n. cleanable n} w w1" "only_removed {n. cleanable n} w1 w2" "only_removed {n. cleanable n} w2 w3"
    using o1 o2 o3 by (auto elim!: only_removed_mono simp: cleanable_def)
  have "only_removed {n. cleanable n} w w'"
    using steps(1) c only_removed_trans [OF c(1,2)] only_removed_trans [OF only_removed_trans [OF c(1,2)] c(3)] by auto
  moreover have "published n f g (w_files w')" if n: "HasSuffix n ''.db''" and p: "published n f g (w_files w)" for n f g
  proof -
    have p1: "published n f g (w_files w1)" by (rule forEntries_invariant [OF 1, where I = "published n f g"]) (rule p, erule cleanup_keeps_pair(1) [OF n], assumption)
    have p2: "published n f g (w_files w2)" by (rule forEntries_invariant [OF 2, where I = "published n f g"]) (rule p1, erule cleanup_keeps_pair(2) [OF n], assumption)
    have "published n f g (w_files w3)" by (rule forEntries_invariant [OF 3, where I = "published n f g"]) (rule p2, erule cleanup_keeps_pair(3) [OF n], assumption)
    with p1 p2 steps(1) show ?thesis by blast
  qed
  moreover have "\<not> isBackupTempName n \<and> (HasSuffix n ''.db'' \<longrightarrow> map_of (w_files w') (n @ ''.manifest.json'') \<noteq> None)
      \<and> (HasSuffix n ''.db.manifest.json'' \<longrightarrow> map_of (w_files w') (TrimSuffix n ''.manifest.json'') \<noteq> None)"
    if ok: "r = Inr ()" and n: "map_of (w_files w') n = Some f" "f_kind f = Regular" "HasPrefix n ''lazarus-''" for n f
  proof -
    note s = steps(2) [OF ok]
    have p: "map_of (w_files w2) n = Some f" "map_of (w_files w1) n = Some f" "map_of (w_files w) n = Some f"
      using n(1) s c unfolding only_removed_def by (metis option.distinct(1))+
    have "\<not> isBackupTempName n" using cleanup_temp_each [of E w "()" w1 n f] 1 s n(2,3) p by auto
    moreover have "map_of (w_files w') (n @ ''.manifest.json'') \<noteq> None" if d: "HasSuffix n ''.db''"
    proof -
      have "map_of (w_files w2) (n @ ''.manifest.json'') \<noteq> None"
        using cleanup_unpaired_each [OF 2 [unfolded conjunct1 [OF conjunct2 [OF s]]] n(3) d p(2) n(2) suffixes_apart(5)] p(1) by simp
      then show ?thesis using orphan_pass_keeps [OF 3 d p(1) n(2)] s by auto
    qed
    moreover have "map_of (w_files w') (TrimSuffix n ''.manifest.json'') \<noteq> None" if d: "HasSuffix n ''.db.manifest.json''"
    proof -
      obtain t where t: "n = (t @ ''.db'') @ ''.manifest.json''" using d by (auto simp: HasSuffix_iff)
      then have "TrimSuffix n ''.manifest.json'' = t @ ''.db''" using manifest_suffix [of "t @ ''.db''"] by (simp add: HasSuffix_iff)
      then have "\<not> HasSuffix (TrimSuffix n ''.manifest.json'') ''.db.manifest.json''" by (auto dest: HasSuffix_last)
      then show ?thesis using cleanup_unpaired_each [OF _ n(3) d p(1) n(2)] 3 s n(1) by blast
    qed
    ultimately show ?thesis by blast
  qed
  ultimately show ?thesis by blast
qed

theorem cleanup_keeps_published_witness:
  "\<exists>r w'. cleanupBackupTemps sample_env sample_dir = (r, w') \<and> published ''lazarus-2.db'' sample_inode sample_inode (w_files w')"
proof -
  obtain r w' where r: "cleanupBackupTemps sample_env sample_dir = (r, w')" by (cases "cleanupBackupTemps sample_env sample_dir")
  have "published ''lazarus-2.db'' sample_inode sample_inode (w_files sample_dir)" by (simp add: published_def sample_dir_def sample_inode_def)
  moreover have "HasSuffix ''lazarus-2.db'' ''.db''" by (simp add: HasSuffix_def HasPrefix_def)
  ultimately show ?thesis using r cleanup_keeps_published [OF r] by blast
qed

end
