(* ===== verification/Recovery.thy ===== *)
theory Recovery
  imports Retention
begin

text \<open>
  Backups of a healthy store succeed: without faults, \<open>BackupWithRetention\<close> returns, what it
  publishes is found again by \<open>BackupArtifact\<close>, and the bytes hold the rows that the store had.
\<close>

section \<open>Databases that verification accepts\<close>

lemma db_inv_no_violation: "db_inv E db \<Longrightarrow> \<not> fk_violation db"
  by (auto simp: db_inv_def refs_ok_def fk_violation_def target_keys_def list_ex_iff split: option.splits)

text \<open>What SQLite promises of a file it wrote for the schema and the rows: it reads them back and finds
  the file intact. The laws are stated for one database, and of the version only that it is recent.\<close>

definition saves :: "sqlite \<Rightarrow> schema \<Rightarrow> database \<Rightarrow> bool" where
  "saves Q sch db \<longleftrightarrow> sq_open Q (sq_image Q sch db) = Some (sch, db) \<and> sq_image Q sch db \<noteq> ''''
     \<and> sq_integrity Q (sq_image Q sch db) = ''ok'' \<and> int (length (sq_image Q sch db)) \<le> max_int64
     \<and> 0 \<le> compareVersions (sq_version Q) minimumSQLite \<and> valid_utf8 (sq_version Q) \<and> length (sq_version Q) \<le> 200"

text \<open>A store that verification accepts, in an environment without faults.\<close>

definition healthy :: "env \<Rightarrow> schema \<Rightarrow> database \<Rightarrow> bool" where
  "healthy E sch db \<longleftrightarrow> env_ok E \<and> env_accepts E \<and> (\<forall>bytes. length (sha256_hex E bytes) \<le> 200 \<and> sha256_hex E bytes \<noteq> '''')
     \<and> (\<forall>n. clock E n \<noteq> 0) \<and> db_inv E db \<and> required_schema sch"

lemma healthy_no_fault: "healthy E sch db \<Longrightarrow> \<not> fault E n"
  by (simp add: healthy_def env_accepts_def)

lemma healthy_verifies:
  assumes "healthy E sch db"
  shows "\<exists>s'. verifyApplicationData E sch \<lparr>s_db = db, s_ticks = n\<rparr> = (Inr (), s')"
proof -
  have "fst (verifyApplicationData E sch \<lparr>s_db = db, s_ticks = n\<rparr>) = Inr ()"
    using assms healthy_no_fault [OF assms] by (intro db_inv_verifies) (simp_all add: healthy_def)
  then show ?thesis by (metis prod.collapse)
qed

text \<open>Symbolic execution: each rule reduces a call to what has to hold after it, so that the simplifier runs
  a program on a known view.\<close>

lemma wp_os_run:
  "(\<And>n. \<not> fault E n) \<Longrightarrow> (case f fs of (r, fs') \<Rightarrow> (case r of Inl e \<Rightarrow> False | Inr x \<Rightarrow> P x (fs', db, sch))) \<Longrightarrow> wp (osT E f) (fs, db, sch) P"
  by (auto split: prod.splits sum.splits intro: wp_os)

lemma wp_attempt_os_run:
  "(\<And>n. \<not> fault E n) \<Longrightarrow> (case f fs of (r, fs') \<Rightarrow> P r (fs', db, sch)) \<Longrightarrow> wp (attemptT (osT E f)) (fs, db, sch) P"
  by (auto simp: wp_def view_def osT_def tickW_def attemptT_def split: prod.splits)

lemmas wp_run = wp_bind wp_return wp_annotate wp_mapErr wp_onError wp_os_run wp_ignore_os wp_query wp_snapshot wp_onFile_query

lemma wp_VerifyPath:
  assumes "healthy E sch db" "saves Q sch db" "map_of fs path = Some f" "f_kind f = Regular" "f_bytes f = sq_image Q sch db"
    and "P \<lparr>vr_SQLiteVersion = sq_version Q, vr_IntegrityCheck = ''ok'', vr_ForeignKeys = ''ok'', vr_ApplicationData = ''ok''\<rparr> (fs, x)"
  shows "wp (VerifyPath E Q path) (fs, x) P"
proof -
  obtain db' sch' where x: "x = (db', sch')" by (cases x)
  note E = healthy_no_fault [OF assms(1)] and r = resolve_regular [OF assms(3,4)]
  have db: "\<not> fk_violation db" using assms(1) db_inv_no_violation by (auto simp: healthy_def)
  have s: "sq_open Q (f_bytes f) = Some (sch, db)" "f_bytes f \<noteq> ''''" "sq_integrity Q (f_bytes f) = ''ok''"
    "\<not> compareVersions (sq_version Q) minimumSQLite < 0" using assms(2,5) by (simp_all add: saves_def)
  have "wp (onFileT db (verifyApplicationData E sch)) v R" if "R () v" for v R
    using that healthy_verifies [OF assms(1)] by (rule wp_onFile [rotated])
  then show ?thesis
    unfolding VerifyPath_def x using E r s db assms(4,6) x
    by (simp add: wp_run os_Stat_def os_Read_def)
qed

section \<open>A published backup is found again\<close>

definition manifest_of :: "env \<Rightarrow> sqlite \<Rightarrow> time \<Rightarrow> string \<Rightarrow> BackupManifest" where
  "manifest_of E Q now bytes = \<lparr>bm_Filename = backup_name now, bm_CreatedAt = now, bm_Bytes = int (length bytes),
     bm_SHA256 = sha256_hex E bytes, bm_SQLiteVersion = sq_version Q, bm_IntegrityCheck = ''ok'', bm_ForeignKeys = ''ok'',
     bm_Application = ''ok'', bm_AuditRecorded = True\<rparr>"

definition manifest_file :: "BackupManifest \<Rightarrow> string" where
  "manifest_file m = indent_object (json_members (manifest_values m)) @ [CHR 0x0A]"

lemma manifest_of_ok:
  assumes "healthy E sch db" "saves Q sch db"
  shows "manifest_ok (manifest_of E Q (clock E n) (sq_image Q sch db))" "manifest_args (manifest_of E Q (clock E n) (sq_image Q sch db))"
    "length (manifest_file (manifest_of E Q (clock E n) (sq_image Q sch db))) < 1024 * 1024"
proof -
  have t: "time_ok (clock E n)" using assms(1) by (simp add: healthy_def env_ok_def)
  have ok: "valid_utf8 ''ok''" by (rule valid_utf8_ascii) simp
  show m: "manifest_ok (manifest_of E Q (clock E n) (sq_image Q sch db))"
    using assms t ok by (simp add: manifest_ok_def manifest_of_def saves_def healthy_def env_ok_def backup_name_utf8 in_int64_def)
  have "0 < length (sq_image Q sch db)" using assms(2) by (simp add: saves_def)
  then show "manifest_args (manifest_of E Q (clock E n) (sq_image Q sch db))"
    using m assms(1) by (simp add: manifest_args_def manifest_of_def healthy_def Suc_le_eq)
  show "length (manifest_file (manifest_of E Q (clock E n) (sq_image Q sch db))) < 1024 * 1024"
    unfolding manifest_file_def using assms length_backup_name [OF t] by (intro manifest_size m) (simp_all add: manifest_of_def saves_def healthy_def)
qed

lemma wp_BackupArtifact:
  fixes n :: nat
  assumes "healthy E sch db" "saves Q sch db"
  defines "m \<equiv> manifest_of E Q (clock E n) (sq_image Q sch db)"
  assumes "map_of fs (bm_Filename m) = Some f" "f_kind f = Regular" "f_bytes f = sq_image Q sch db"
    and "map_of fs (bm_Filename m @ ''.manifest.json'') = Some g" "f_kind g = Regular" "f_bytes g = manifest_file m"
    and "P (bm_Filename m, m) (fs, x)"
  shows "wp (BackupArtifact E Q (bm_Filename m)) (fs, x) P"
proof -
  obtain db' sch' where x: "x = (db', sch')" by (cases x)
  note E = healthy_no_fault [OF assms(1)] and ok = manifest_of_ok [OF assms(1,2), of n, folded m_def]
  have t: "time_ok (clock E n)" using assms(1) by (simp add: healthy_def env_ok_def)
  have name: "bm_Filename m = backup_name (clock E n)" by (simp add: m_def manifest_of_def)
  have a: "artifact_database (bm_Filename m) = Some (bm_Filename m)" using backup_name_artifact [OF t] by (simp add: name)
  have un: "unmarshal_BackupManifest (manifest_file m) = Some m" unfolding manifest_file_def by (rule manifest_indented [OF ok(1)])
  have len: "take (1024 * 1024) (manifest_file m) = manifest_file m" "length (manifest_file m) \<noteq> 1024 * 1024" using ok(3) by simp_all
  have d: "digest_matches E (sq_image Q sch db) m" by (simp add: digest_matches_def m_def manifest_of_def)
  have v: "wp (VerifyPath E Q (bm_Filename m)) (fs, db', sch') R" if "\<And>r. R r (fs, db', sch')" for R
    by (rule wp_VerifyPath [OF assms(1,2,4,5,6)]) (rule that)
  have r: "resolve 40 fs (bm_Filename m) = Some f" "resolve 40 fs (bm_Filename m @ ''.manifest.json'') = Some g"
    using assms(4,5,7,8) by (simp_all only: resolve_regular)
  have regular: "wp (validateRegularFile E (bm_Filename m @ ''.manifest.json'')) (fs, db', sch') R"
    "wp (validateRegularFile E (bm_Filename m)) (fs, db', sch') R" if "R () (fs, db', sch')" for R
    using that E assms(4,5,7,8) by (simp_all add: validateRegularFile_def wp_run os_Lstat_def)
  have read: "wp (readBackupManifest E (bm_Filename m @ ''.manifest.json'')) (fs, db', sch') R" if "R m (fs, db', sch')" for R
    using that E r assms(8,9) un len unfolding readBackupManifest_def by (simp add: wp_run os_Read_def Let_def)
  have digest: "wp (validateBackupDigest E (bm_Filename m) m) (fs, db', sch') R" if "R () (fs, db', sch')" for R
    using that E r assms(5,6) d unfolding validateBackupDigest_def by (simp add: wp_run os_Read_def)
  have "\<not> HasSuffix (bm_Filename m) ''.db.manifest.json''" using backup_name_shape(3) by (simp add: name)
  then show ?thesis
    unfolding BackupArtifact_def a x using assms(10) x by (simp add: Let_def wp_run regular read digest v)
qed

section \<open>Recording a backup\<close>

lemma RecordBackupCreated_succeeds:
  fixes n :: nat
  assumes "healthy E sch db" "saves Q sch db"
  defines "m \<equiv> manifest_of E Q (clock E n) (sq_image Q sch db)"
  shows "\<exists>s' ev. RecordBackupCreated E (m\<lparr>bm_AuditRecorded := False\<rparr>) audit \<lparr>s_db = db, s_ticks = k\<rparr> = (Inr (), s')
    \<and> s_db s' = log_event ev db \<and> e_Type ev = ''backup.created'' \<and> e_ResourceID ev = bm_Filename m"
proof -
  let ?p = "obj_text (json_members (manifest_values m))"
  let ?ev = "backup_event_of ''backup.created'' m ?p (clock E n) audit" and ?s = "\<lparr>s_db = db, s_ticks = k\<rparr>"
  note E = healthy_no_fault [OF assms(1)] and ok = manifest_of_ok(1) [OF assms(1,2), of n, folded m_def]
  have f: "bm_CreatedAt m = clock E n" "bm_Filename m \<noteq> ''''" "bm_AuditRecorded m"
    using backup_name_shape(4) by (simp_all add: m_def manifest_of_def)
  have p: "json_valid ?p" "?p \<noteq> ''''" using manifest_valid [OF ok] by (simp_all add: obj_text_def)
  have "clock E n \<noteq> 0" "sql_json_valid E ?p" using assms(1) p(1) by (auto simp: healthy_def env_accepts_def)
  then have log: "log_ok E ?ev db"
    using p f by (auto simp: log_ok_def event_checks_def transition_check_def event_row_of_def nullText_def nullInt_def
        same_aggregate_version_def same_observation_def filled_event_def list_ex_iff split: prod.splits)
  have r: "RecordBackupCreated E (m\<lparr>bm_AuditRecorded := False\<rparr>) audit = writeT E (appendEvent E ?ev)"
  proof -
    have "m\<lparr>bm_AuditRecorded := True\<rparr> = m" using f(3) by (cases m) simp
    then show ?thesis using manifest_text(2) [OF ok] f(1) by (simp add: RecordBackupCreated_def backup_event_of_def split: prod.split)
  qed
  have "appendEvent E ?ev (tick ?s) = (Inr (), (tick (tick ?s))\<lparr>s_db := log_event ?ev db\<rparr>)"
    using log E by (subst appendEvent_forward) (simp_all add: nullText_def)
  then have "\<exists>s'. writeT E (appendEvent E ?ev) ?s = (Inr (), s') \<and> s_db s' = log_event ?ev db"
    using E by (simp add: writeT_def)
  then show ?thesis unfolding r using backup_event_of_simps(1,4) by blast
qed

section \<open>Passes over the directory\<close>

lemma wp_forT:
  assumes "\<And>x v. x \<in> set xs \<Longrightarrow> I v \<Longrightarrow> wp (f x) v (\<lambda>_. I)" "I v"
  shows "wp (forT f xs) v (\<lambda>_. I)"
  using assms
proof (induction xs arbitrary: v)
  case Nil
  then show ?case by (simp add: wp_return)
next
  case (Cons x xs)
  have "wp (f x) v (\<lambda>_. I)" using Cons.prems by simp
  then show ?case unfolding forT.simps by (intro wp_bind) (erule wp_mono, rule Cons.IH, auto intro: Cons.prems(1))
qed

lemma wp_removeT:
  assumes "\<And>n. \<not> fault E n" "P () (del_file n fs, db, sch)"
  shows "wp (removeT E msg n) (fs, db, sch) P"
proof -
  have "map_of fs n = None \<Longrightarrow> del_file n fs = fs"
    unfolding del_file_def by (rule filter_True) (force dest: weak_map_of_SomeI)
  with assms show ?thesis by (auto simp: removeT_def os_Remove_def intro!: wp_bind wp_attempt_os_run wp_return split: option.splits)
qed

definition dir_ok :: "files \<Rightarrow> bool" where
  "dir_ok fs \<longleftrightarrow> distinct (map fst fs) \<and> (\<forall>n f. map_of fs n = Some f \<longrightarrow> f_kind f = Regular)"

lemma dir_ok_del: "dir_ok fs \<Longrightarrow> dir_ok (del_file n fs)"
  by (auto simp: dir_ok_def del_file_def distinct_map_filter simp flip: map_of_del_file split: if_splits)

lemma dir_ok_put: "dir_ok fs \<Longrightarrow> f_kind f = Regular \<Longrightarrow> dir_ok (put_file n f fs)"
  using dir_ok_del [of fs n] by (auto simp: dir_ok_def put_file_def del_file_def)

lemma dir_ok_resolve: "dir_ok fs \<Longrightarrow> resolve 40 fs n = None \<Longrightarrow> resolve_error 40 fs n = notExist"
proof -
  assume a: "dir_ok fs" "resolve 40 fs n = None"
  then have "map_of fs n = None" using resolve_regular [of fs n] by (cases "map_of fs n") (auto simp: dir_ok_def)
  then show ?thesis by (simp add: numeral_eq_Suc)
qed

text \<open>A pass keeps an invariant of the files when every single removal keeps it.\<close>

lemma wp_cleanup:
  assumes "\<And>n. \<not> fault E n" "\<And>fs n. I fs \<Longrightarrow> cleanable n \<Longrightarrow> I (del_file n fs)" "I fs" "\<And>fs. I fs \<Longrightarrow> P () (fs, db, sch)"
    and "\<And>fs. I fs \<Longrightarrow> dir_ok fs"
  shows "wp (cleanupBackupTemps E) (fs, db, sch) P"
proof -
  let ?I = "\<lambda>(fs, db', sch'). I fs \<and> db' = db \<and> sch' = sch"
  have pass: "wp (forEntries E f) v (\<lambda>_. ?I)" if step: "\<And>x v. ?I v \<Longrightarrow> wp (f x) v (\<lambda>_. ?I)" and v0: "?I v" for f v
  proof -
    obtain fs' where v: "v = (fs', db, sch)" using v0 by (cases v) auto
    show ?thesis unfolding forEntries_def v by (rule wp_bind, rule wp_os_run [OF assms(1)])
        (use step v0 v in \<open>auto simp: os_ReadDir_def intro!: wp_forT\<close>)
  qed
  have 1: "wp (cleanup_temp E x) v (\<lambda>_. ?I)" if "?I v" for x v
    using that assms(1,2) by (cases x; cases v) (auto simp: cleanup_temp_def cleanable_def intro!: wp_return wp_removeT)
  have 2: "wp (cleanup_unpaired E ext companion what x) v (\<lambda>_. ?I)" if "?I v" "ext = ''.db'' \<or> ext = ''.db.manifest.json''" for ext companion what x v
    using that assms(1,2,5) by (cases x; cases v)
      (auto simp: cleanup_unpaired_def cleanable_def os_Stat_def dir_ok_resolve intro!: wp_bind wp_attempt_os_run wp_return wp_removeT split: option.splits)
  have "wp (cleanupBackupTemps E) (fs, db, sch) (\<lambda>_. ?I)"
    unfolding cleanupBackupTemps_def
    by (rule wp_bind, rule wp_mono [OF pass [OF 1]], assumption, simp add: assms(3),
        rule wp_bind, rule wp_mono [OF pass [OF 2]], assumption, simp, assumption, rule pass [OF 2], assumption, simp, assumption)
  then show ?thesis by (rule wp_mono) (use assms(4) in auto)
qed

lemma wp_rotate:
  assumes "\<And>n. \<not> fault E n" "base \<notin> set (drop keep (dir_backups fs))" "HasSuffix base ''.db''" "published base f g fs" "dir_ok fs"
    and "\<And>fs. published base f g fs \<Longrightarrow> P () (fs, db, sch)"
  shows "wp (rotateBackupsWithAge E keep minAge now) (fs, db, sch) P"
proof -
  let ?I = "\<lambda>(fs, db', sch'). published base f g fs \<and> dir_ok fs \<and> db' = db \<and> sch' = sch"
  have keep: "published base f g (del_file x fs)" if "published base f g fs" "x \<noteq> base" "x \<noteq> base @ ''.manifest.json''" for x fs
    using that by (simp add: published_def)
  have one: "wp (rotate_one E minAge now x) v (\<lambda>_. ?I)" if x: "x \<in> set (drop keep (dir_backups fs))" and v0: "?I v" for x v
  proof -
    obtain fs' where v: "v = (fs', db, sch)" "published base f g fs'" and ok: "dir_ok fs'" using v0 by (cases v) auto
    have n: "x \<noteq> base" "x \<noteq> base @ ''.manifest.json''" "x @ ''.manifest.json'' \<noteq> base" "x @ ''.manifest.json'' \<noteq> base @ ''.manifest.json''"
      using x assms(2,3) manifest_not_db dir_backups_shape [of x fs] by (auto dest: in_set_dropD)
    have "published base f g (snd (os_Remove (x @ ''.manifest.json'') (del_file x fs')))"
      using keep [OF keep [OF v(2) n(1,2)], of "x @ ''.manifest.json''"] keep [OF v(2) n(1,2)] n(3,4) by (simp add: os_Remove_def split: option.split)
    moreover have "dir_ok (snd (os_Remove (x @ ''.manifest.json'') (del_file x fs')))"
      using ok by (simp add: os_Remove_def dir_ok_del split: option.split)
    ultimately show ?thesis
      unfolding rotate_one_def Let_def v(1) using v(2) ok dir_ok_resolve [OF ok] assms(1)
      by (auto simp: os_Stat_def intro!: wp_bind wp_attempt_os_run wp_return wp_removeT wp_ignore_os split: option.splits)
  qed
  have "wp (forT (rotate_one E minAge now) (drop keep (dir_backups fs))) (fs, db, sch) (\<lambda>_. ?I)"
    by (rule wp_forT) (erule one, assumption, simp add: assms(4,5))
  then have "wp (bindT (forT (rotate_one E minAge now) (drop keep (dir_backups fs))) (\<lambda>_. osT E (\<lambda>fs. (Inr (), fs)))) (fs, db, sch) (\<lambda>_. ?I)"
    by (intro wp_bind) (erule wp_mono, auto intro!: wp_os_run assms(1))
  moreover have "wp (returnT ()) (fs, db, sch) (\<lambda>_. ?I)" using assms(4,5) by (intro wp_return) simp
  ultimately have "wp (rotateBackupsWithAge E keep minAge now) (fs, db, sch) (\<lambda>_. ?I)"
    unfolding rotateBackupsWithAge_def syncDir_def
    by (intro wp_bind wp_os_run assms(1)) (simp add: os_ReadDir_def Let_def flip: dir_backups_def)
  then show ?thesis by (rule wp_mono) (use assms(6) in auto)
qed

text \<open>A backup with fewer than \<open>keep\<close> newer ones is not rotated away.\<close>

lemma newest_kept:
  assumes "distinct (map fst fs)" "card {x \<in> set (dir_backups fs). base < x} < keep"
  shows "base \<notin> set (drop keep (dir_backups fs))"
proof
  let ?l = "dir_backups fs"
  assume b: "base \<in> set (drop keep ?l)"
  have s: "sorted_wrt (\<ge>) ?l" unfolding dir_backups_def using sorted_sort by (simp add: sorted_wrt_rev)
  have d: "distinct ?l" by (rule distinct_dir_backups [OF assms(1)])
  have len: "keep < length ?l" using b by (metis drop_all in_set_conv_decomp_first list.distinct(1) append_is_Nil_conv not_le)
  have "base < x" if x: "x \<in> set (take keep ?l)" for x
  proof -
    have "base \<le> x" using s x b by (metis append_take_drop_id sorted_wrt_append)
    moreover have "x \<noteq> base" using x b d set_take_disj_set_drop_if_distinct [of ?l keep keep] by auto
    ultimately show ?thesis by simp
  qed
  then have "set (take keep ?l) \<subseteq> {x \<in> set ?l. base < x}" by (auto dest: in_set_takeD)
  then have "card (set (take keep ?l)) \<le> card {x \<in> set ?l. base < x}" by (intro card_mono) simp_all
  moreover have "card (set (take keep ?l)) = keep" using d len by (simp add: distinct_card distinct_take)
  ultimately show False using assms(2) by simp
qed

section \<open>Creating a backup\<close>

lemma dir_backups_iff:
  assumes "dir_ok fs"
  shows "n \<in> set (dir_backups fs) \<longleftrightarrow> map_of fs n \<noteq> None \<and> HasPrefix n ''lazarus-'' \<and> HasSuffix n ''.db''"
proof -
  have "n \<in> set (dir_backups fs) \<longleftrightarrow> (\<exists>f. (n, f) \<in> set fs \<and> f_kind f \<noteq> Directory) \<and> HasPrefix n ''lazarus-'' \<and> HasSuffix n ''.db''"
    unfolding dir_backups_def backup_names_def by (simp add: image_iff Bex_def split_def) blast
  moreover have "(n, f) \<in> set fs \<longleftrightarrow> map_of fs n = Some f" for f using assms by (simp add: dir_ok_def)
  moreover have "f_kind f \<noteq> Directory" if "map_of fs n = Some f" for f using assms that by (simp add: dir_ok_def)
  ultimately show ?thesis by (cases "map_of fs n") simp_all
qed

lemma wp_publish_database:
  fixes n :: nat
  assumes "healthy E sch db" "saves Q sch db" "map_of fs (backup_name (clock E n) @ ''.tmp'') = Some f" "f_kind f = Regular"
    and "f_bytes f = sq_image Q sch db" "dir_ok fs"
    and "P ((manifest_of E Q (clock E n) (sq_image Q sch db))\<lparr>bm_AuditRecorded := False\<rparr>)
      (put_file (backup_name (clock E n)) f (del_file (backup_name (clock E n) @ ''.tmp'') fs), db', sch')"
  shows "wp (publish_database E Q (backup_name (clock E n)) (clock E n)) (fs, db', sch') P"
proof -
  let ?tmp = "backup_name (clock E n) @ ''.tmp''"
  note E = healthy_no_fault [OF assms(1)] and r = resolve_regular [OF assms(3,4)]
  have v: "wp (VerifyPath E Q ?tmp) (fs, db', sch') R" if "R \<lparr>vr_SQLiteVersion = sq_version Q, vr_IntegrityCheck = ''ok'', vr_ForeignKeys = ''ok'', vr_ApplicationData = ''ok''\<rparr> (fs, db', sch')" for R
    by (rule wp_VerifyPath [OF assms(1,2,3,4,5)]) (rule that)
  have "map_option f_kind (map_of fs (backup_name (clock E n))) \<noteq> Some Directory" using assms(6) by (auto simp: dir_ok_def)
  then show ?thesis
    unfolding publish_database_def Let_def syncFile_def syncDir_def using E r assms(3,4,5,7)
    by (simp add: wp_run v os_Touch_def os_Read_def os_Rename_def manifest_of_def)
qed

lemma wp_publish_manifest:
  assumes "\<And>n. \<not> fault E n" "manifest_ok m" "dir_ok fs"
    and "\<And>now. P () (put_file (base @ ''.manifest.json'') \<lparr>f_kind = Regular, f_bytes = manifest_file m, f_mtime = now\<rparr>
      (del_file (base @ ''.manifest.json.tmp'') (put_file (base @ ''.manifest.json.tmp'') \<lparr>f_kind = Regular, f_bytes = manifest_file m, f_mtime = now\<rparr> fs)), db, sch)"
  shows "wp (publish_manifest E base m) (fs, db, sch) P"
proof -
  let ?tmp = "base @ ''.manifest.json.tmp''" and ?g = "\<lambda>now. \<lparr>f_kind = Regular, f_bytes = manifest_file m, f_mtime = now\<rparr>"
  have w: "os_WriteFile ?tmp (indent_object (json_members (manifest_values m)) @ [CHR 0x0A]) now fs = (Inr (), put_file ?tmp (?g now) fs)" for now
    using assms(3) by (cases "map_of fs ?tmp") (auto simp: os_WriteFile_def dir_ok_def manifest_file_def Let_def)
  have d: "map_option f_kind (map_of fs (base @ ''.manifest.json'')) \<noteq> Some Directory" using assms(3) by (auto simp: dir_ok_def)
  have r: "resolve 40 (put_file x (?g now) fs') x = Some (?g now)" for x now fs' by (simp add: resolve_regular)
  show ?thesis
    unfolding publish_manifest_def manifest_text(1) [OF assms(2)] option.case Let_def syncFile_def syncDir_def
    by (rule wp_bind, rule wp_now) (use assms(1,4) d in \<open>simp add: wp_run w os_Touch_def r os_Rename_def\<close>)
qed

lemma snd_os_Remove: "snd (os_Remove n fs) = del_file n fs"
proof (cases "map_of fs n")
  case None
  then have "del_file n fs = fs" unfolding del_file_def by (intro filter_True) (force dest: weak_map_of_SomeI)
  then show ?thesis using None by (simp add: os_Remove_def)
qed (simp add: os_Remove_def)

lemma wp_vacuumInto:
  assumes "\<And>n. \<not> fault E n" "map_of fs name = None"
    and "\<And>now. P () (put_file name \<lparr>f_kind = Regular, f_bytes = sq_image Q sch db, f_mtime = now\<rparr> fs, db, sch)"
  shows "wp (vacuumInto E Q name) (fs, db, sch) P"
  unfolding vacuumInto_def by (rule wp_bind, rule wp_now) (use assms in \<open>simp add: wp_run\<close>)

lemma wp_record:
  fixes n :: nat
  assumes "healthy E sch db" "saves Q sch db"
    and "\<And>ev. e_Type ev = ''backup.created'' \<Longrightarrow> e_ResourceID ev = backup_name (clock E n) \<Longrightarrow> P (Inr ()) (fs, log_event ev db, sch)"
  shows "wp (storeT (attemptT (RecordBackupCreated E ((manifest_of E Q (clock E n) (sq_image Q sch db))\<lparr>bm_AuditRecorded := False\<rparr>) audit))) (fs, db, sch) P"
proof (rule wp_store)
  fix k
  have name: "bm_Filename (manifest_of E Q (clock E n) (sq_image Q sch db)) = backup_name (clock E n)" by (simp add: manifest_of_def)
  obtain s' ev where r: "RecordBackupCreated E ((manifest_of E Q (clock E n) (sq_image Q sch db))\<lparr>bm_AuditRecorded := False\<rparr>) audit \<lparr>s_db = db, s_ticks = k\<rparr> = (Inr (), s')"
    "s_db s' = log_event ev db" "e_Type ev = ''backup.created''" "e_ResourceID ev = backup_name (clock E n)"
    using RecordBackupCreated_succeeds [OF assms(1,2), of n audit k] name by auto
  show "\<exists>x s'. attemptT (RecordBackupCreated E ((manifest_of E Q (clock E n) (sq_image Q sch db))\<lparr>bm_AuditRecorded := False\<rparr>) audit) \<lparr>s_db = db, s_ticks = k\<rparr> = (Inr x, s')
      \<and> P x (fs, s_db s', sch)"
    by (rule exI [of _ "Inr ()"], rule exI [of _ s']) (use r assms(3) [OF r(3,4)] in \<open>simp add: attemptT_def\<close>)
qed

lemma names_apart:
  fixes b :: string
  shows "b @ ''.tmp'' \<noteq> b" "b @ ''.manifest.json'' \<noteq> b" "b @ ''.manifest.json.tmp'' \<noteq> b" "b @ ''.tmp'' \<noteq> b @ ''.manifest.json''"
    "b @ ''.manifest.json.tmp'' \<noteq> b @ ''.manifest.json''"
  by simp_all

lemma newer_mono:
  assumes "dir_ok fs" "dir_ok fs'" "\<And>x. HasSuffix x ''.db'' \<Longrightarrow> x \<noteq> base \<Longrightarrow> map_of fs' x \<noteq> None \<Longrightarrow> map_of fs x \<noteq> None"
  shows "card {x \<in> set (dir_backups fs'). base < x} \<le> card {x \<in> set (dir_backups fs). base < x}"
proof (rule card_mono)
  show "{x \<in> set (dir_backups fs'). base < x} \<subseteq> {x \<in> set (dir_backups fs). base < x}"
    using assms(3) unfolding dir_backups_iff [OF assms(1)] dir_backups_iff [OF assms(2)] by auto
qed simp

lemma wp_createBackup:
  assumes h: "healthy E sch db" "saves Q sch db" "dir_ok fs" "\<And>n. card {x \<in> set (dir_backups fs). backup_name (clock E n) < x} < keep"
    and P: "\<And>n fs' f g ev. published (backup_name (clock E n)) f g fs' \<Longrightarrow> f_bytes f = sq_image Q sch db
      \<Longrightarrow> f_bytes g = manifest_file (manifest_of E Q (clock E n) (sq_image Q sch db))
      \<Longrightarrow> e_Type ev = ''backup.created'' \<Longrightarrow> e_ResourceID ev = backup_name (clock E n)
      \<Longrightarrow> P (manifest_of E Q (clock E n) (sq_image Q sch db)) (fs', log_event ev db, sch)"
  shows "wp (createBackup E Q keep minAge audit) (fs, db, sch) P"
  unfolding createBackup_def Let_def
proof (rule wp_bind, rule wp_now)
  fix n
  let ?now = "clock E n"
  let ?base = "backup_name ?now" and ?m = "manifest_of E Q ?now (sq_image Q sch db)"
  let ?tmp = "?base @ ''.tmp''" and ?mp = "?base @ ''.manifest.json''" and ?mt = "?base @ ''.manifest.json.tmp''"
  note E = healthy_no_fault [OF h(1)] and ok = manifest_of_ok(1) [OF h(1,2), of n]
  let ?fs1 = "del_file ?tmp fs"
  let ?f = "\<lambda>now. \<lparr>f_kind = Regular, f_bytes = sq_image Q sch db, f_mtime = now\<rparr>" and ?g = "\<lambda>now. \<lparr>f_kind = Regular, f_bytes = manifest_file ?m, f_mtime = now\<rparr>"
  let ?fs2 = "\<lambda>t. put_file ?tmp (?f t) ?fs1"
  let ?fs3 = "\<lambda>t. put_file ?base (?f t) (del_file ?tmp (?fs2 t))"
  let ?fs4 = "\<lambda>t u. put_file ?mp (?g u) (del_file ?mt (put_file ?mt (?g u) (?fs3 t)))"
  have ok1: "dir_ok (?fs2 t)" "dir_ok (?fs3 t)" "dir_ok (?fs4 t u)" for t u using h(3) by (simp_all add: dir_ok_del dir_ok_put)
  have pub: "published ?base (?f t) (?g u) (?fs4 t u)" for t u by (simp add: published_def)
  have kept: "?base \<notin> set (drop keep (dir_backups (?fs4 t u)))" for t u
  proof (rule newest_kept)
    show "distinct (map fst (?fs4 t u))" using ok1(3) by (simp add: dir_ok_def)
    have "card {x \<in> set (dir_backups (?fs4 t u)). ?base < x} \<le> card {x \<in> set (dir_backups fs). ?base < x}"
      by (rule newer_mono [OF h(3) ok1(3)]) (use suffixes_apart(5) in \<open>auto split: if_splits\<close>)
    then show "card {x \<in> set (dir_backups (?fs4 t u)). ?base < x} < keep" using h(4) [of n] by simp
  qed
  have end_ok: "P ?m (snd (os_Remove ?tmp fs'), log_event ev db, sch)"
    if "published ?base (?f t) (?g u) fs'" "e_Type ev = ''backup.created''" "e_ResourceID ev = ?base" for fs' t u ev
    unfolding snd_os_Remove by (rule P [where f = "?f t" and g = "?g u"]) (use that in \<open>simp_all add: published_def\<close>)
  have rec: "?m\<lparr>bm_AuditRecorded := False, bm_AuditRecorded := \<not> isl (Inr ())\<rparr> = ?m" by (simp add: manifest_of_def)
  show "wp (bindT (ignoreT (osT E (os_Remove ?tmp)))
    (\<lambda>_. bindT (onErrorT (osT E (os_Remove ?tmp)) (annotateT ''vacuum into'' (vacuumInto E Q ?tmp)))
    (\<lambda>_. deferT (osT E (os_Remove ?tmp))
      (bindT (publish_database E Q ?base ?now)
      (\<lambda>manifest. bindT (storeT (attemptT (RecordBackupCreated E manifest audit)))
      (\<lambda>recorded. bindT (publish_manifest E ?base (manifest\<lparr>bm_AuditRecorded := \<not> isl recorded\<rparr>))
      (\<lambda>_. bindT (rotateBackupsWithAge E keep minAge ?now)
      (\<lambda>_. returnT (manifest\<lparr>bm_AuditRecorded := \<not> isl recorded\<rparr>))))))))) (fs, db, sch) P"
  proof (rule wp_bind, rule wp_ignore_os [OF E], unfold snd_os_Remove, rule wp_bind, rule wp_onError, rule wp_annotate, rule wp_vacuumInto [OF E])
    show "map_of ?fs1 ?tmp = None" by simp
    fix t
    show "wp (deferT (osT E (os_Remove ?tmp)) (bindT (publish_database E Q ?base ?now)
      (\<lambda>manifest. bindT (storeT (attemptT (RecordBackupCreated E manifest audit)))
      (\<lambda>recorded. bindT (publish_manifest E ?base (manifest\<lparr>bm_AuditRecorded := \<not> isl recorded\<rparr>))
      (\<lambda>_. bindT (rotateBackupsWithAge E keep minAge ?now)
      (\<lambda>_. returnT (manifest\<lparr>bm_AuditRecorded := \<not> isl recorded\<rparr>))))))) (?fs2 t, db, sch) P"
    proof (rule wp_defer_os [OF E], rule wp_bind, rule wp_publish_database [OF h(1,2) _ _ _ ok1(1), where f = "?f t"])
      show "wp (bindT (storeT (attemptT (RecordBackupCreated E (?m\<lparr>bm_AuditRecorded := False\<rparr>) audit)))
        (\<lambda>recorded. bindT (publish_manifest E ?base (?m\<lparr>bm_AuditRecorded := False, bm_AuditRecorded := \<not> isl recorded\<rparr>))
        (\<lambda>_. bindT (rotateBackupsWithAge E keep minAge ?now)
        (\<lambda>_. returnT (?m\<lparr>bm_AuditRecorded := False, bm_AuditRecorded := \<not> isl recorded\<rparr>))))) (?fs3 t, db, sch)
        (\<lambda>x (fs, db, sch). P x (snd (os_Remove ?tmp fs), db, sch))"
        by (rule wp_bind, rule wp_record [OF h(1,2)], unfold rec, rule wp_bind, rule wp_publish_manifest [OF E ok ok1(2)],
            rule wp_bind, rule wp_rotate [OF E kept backup_name_shape(2) pub ok1(3)], rule wp_return) (simp add: end_ok)
    qed simp_all
  qed
qed

section \<open>Backups succeed\<close>

definition backup_keep :: "int \<Rightarrow> nat" where
  "backup_keep keep = nat (min 1000 (if keep \<le> 0 then defaultKeepBack else keep))"

lemma wp_integrityCheckDB:
  assumes "healthy E sch db" "saves Q sch db" "P () (fs, db, sch)"
  shows "wp (integrityCheckDB E Q) (fs, db, sch) P"
proof -
  have "\<not> fk_violation db" using assms(1) db_inv_no_violation by (auto simp: healthy_def)
  with assms healthy_no_fault [OF assms(1)] show ?thesis by (simp add: integrityCheckDB_def saves_def wp_run)
qed

lemma wp_BackupWithRetention:
  assumes h: "healthy E sch db" "saves Q sch db" "dir_ok fs"
    and new: "\<And>n. card {x \<in> set (dir_backups fs). backup_name (clock E n) < x} < backup_keep keep"
    and args: "TrimSpace dir \<noteq> ''''" "0 \<le> minAge" "\<not> isMemoryPath path" "backup_event (a_RequestID audit) (a_Actor audit) db = None"
    and P: "\<And>n fs' f g ev. published (backup_name (clock E n)) f g fs' \<Longrightarrow> f_bytes f = sq_image Q sch db
      \<Longrightarrow> f_bytes g = manifest_file (manifest_of E Q (clock E n) (sq_image Q sch db))
      \<Longrightarrow> e_Type ev = ''backup.created'' \<Longrightarrow> e_ResourceID ev = backup_name (clock E n)
      \<Longrightarrow> P (manifest_of E Q (clock E n) (sq_image Q sch db)) (fs', log_event ev db, sch)"
  shows "wp (BackupWithRetention E Q path dir keep minAge audit) (fs, db, sch) P"
proof -
  note E = healthy_no_fault [OF h(1)]
  let ?I = "\<lambda>fs'. dir_ok fs' \<and> (\<forall>x. map_of fs' x \<noteq> None \<longrightarrow> map_of fs x \<noteq> None)"
  have keep: "nat (if (if keep \<le> 0 then defaultKeepBack else keep) > 1000 then 1000 else if keep \<le> 0 then defaultKeepBack else keep) = backup_keep keep"
    by (simp add: backup_keep_def defaultKeepBack_def)
  have create: "wp (createBackup E Q (backup_keep keep) minAge audit) (fs', db, sch) P" if "?I fs'" for fs'
  proof (rule wp_createBackup [OF h(1,2)])
    show "dir_ok fs'" using that by blast
    have "card {x \<in> set (dir_backups fs'). backup_name (clock E n) < x} \<le> card {x \<in> set (dir_backups fs). backup_name (clock E n) < x}" for n
      using that by (intro newer_mono [OF h(3)]) blast+
    then show "card {x \<in> set (dir_backups fs'). backup_name (clock E n) < x} < backup_keep keep" for n using new le_less_trans by blast
  qed (rule P)
  have "wp (backupForRequest E Q (a_RequestID audit) (a_Actor audit)) (fs', db, sch) R" if "R None (fs', db, sch)" for fs' R
    using that args(4) E by (auto simp: backupForRequest_def wp_run)
  moreover have "wp (cleanupBackupTemps E) (fs, db, sch) R" if "\<And>fs'. ?I fs' \<Longrightarrow> R () (fs', db, sch)" for R
    by (rule wp_cleanup [OF E, where I = ?I]) (use h(3) that in \<open>auto simp: dir_ok_del split: if_splits\<close>)
  ultimately show ?thesis
    unfolding BackupWithRetention_def Let_def keep openBackupConnection_def using args E create
    by (simp add: wp_run os_MkdirAll_def wp_integrityCheckDB [OF h(1,2)])
qed

text \<open>C26: A backup of a healthy store succeeds and can be found again: without faults, for a request that made no
  backup before, in a directory of regular files with fewer than \<open>keep\<close> newer backups, \<open>BackupWithRetention\<close>
  returns a manifest that says the event was recorded, the store has that event and nothing else changed, the file
  it names holds the schema and the rows that the store had, and \<open>BackupArtifact\<close> then returns the same manifest.\<close>

theorem backup_roundtrip:
  assumes "healthy E sch db" "saves Q sch db" "dir_ok fs" "view w = (fs, db, sch)"
    and "\<forall>n. card {x \<in> set (dir_backups fs). backup_name (clock E n) < x} < backup_keep keep"
    and "TrimSpace dir \<noteq> ''''" "0 \<le> minAge" "\<not> isMemoryPath path" "backup_event (a_RequestID audit) (a_Actor audit) db = None"
  shows "\<exists>m w' w'' f ev. BackupWithRetention E Q path dir keep minAge audit w = (Inr m, w') \<and> bm_AuditRecorded m
    \<and> s_db (w_session w') = log_event ev db \<and> e_Type ev = ''backup.created'' \<and> e_ResourceID ev = bm_Filename m
    \<and> map_of (w_files w') (bm_Filename m) = Some f \<and> sq_open Q (f_bytes f) = Some (sch, db)
    \<and> BackupArtifact E Q (bm_Filename m) w' = (Inr (bm_Filename m, m), w'')"
proof -
  define P where "P m v \<longleftrightarrow> (\<exists>n fs' f g ev. m = manifest_of E Q (clock E n) (sq_image Q sch db) \<and> v = (fs', log_event ev db, sch)
    \<and> published (bm_Filename m) f g fs' \<and> f_bytes f = sq_image Q sch db \<and> f_bytes g = manifest_file m
    \<and> e_Type ev = ''backup.created'' \<and> e_ResourceID ev = bm_Filename m)" for m v
  have name: "bm_Filename (manifest_of E Q t bytes) = backup_name t" for t bytes by (simp add: manifest_of_def)
  have "wp (BackupWithRetention E Q path dir keep minAge audit) (view w) P"
    unfolding assms(4) by (rule wp_BackupWithRetention [OF assms(1-3) assms(5) [rule_format] assms(6-9)]) (auto simp: P_def name)
  then obtain m w' where m: "BackupWithRetention E Q path dir keep minAge audit w = (Inr m, w')" "P m (view w')" using wpD by blast
  then obtain n fs' f g ev where p: "m = manifest_of E Q (clock E n) (sq_image Q sch db)" "view w' = (fs', log_event ev db, sch)"
    "published (bm_Filename m) f g fs'" "f_bytes f = sq_image Q sch db" "f_bytes g = manifest_file m"
    "e_Type ev = ''backup.created''" "e_ResourceID ev = bm_Filename m" unfolding P_def by blast
  have "wp (BackupArtifact E Q (bm_Filename m)) (view w') (\<lambda>r v. r = (bm_Filename m, m))"
    unfolding p(2) p(1) by (rule wp_BackupArtifact [OF assms(1,2), where f = f and g = g]) (use p in \<open>auto simp: published_def\<close>)
  then obtain w'' where "BackupArtifact E Q (bm_Filename m) w' = (Inr (bm_Filename m, m), w'')" using wpD by blast
  moreover have "bm_AuditRecorded m" by (simp add: p(1) manifest_of_def)
  moreover have "map_of (w_files w') (bm_Filename m) = Some f" "s_db (w_session w') = log_event ev db"
    using p(2,3) by (simp_all add: view_def published_def)
  moreover have "sq_open Q (f_bytes f) = Some (sch, db)" using assms(2) p(4) by (simp add: saves_def)
  ultimately show ?thesis using m(1) p(6,7) by blast
qed

text \<open>C35: A backup artifact is handed out only when it has been checked: its name stands for a database file
  with a manifest beside it, both regular files and not links, the manifest names the file, its size and digest
  are those of the bytes, and SQLite and the application checks accept them. Nothing is changed.\<close>

theorem artifact_verified:
  assumes "BackupArtifact E Q name w = (Inr (path, m), w')"
  shows "\<exists>f g. path = name \<and> (name = bm_Filename m \<or> name = bm_Filename m @ ''.manifest.json'')
    \<and> HasPrefix name ''lazarus-'' \<and> path_Base (bm_Filename m) = bm_Filename m
    \<and> map_of (w_files w) (bm_Filename m) = Some f \<and> f_kind f = Regular
    \<and> int (length (f_bytes f)) = bm_Bytes m \<and> EqualFold (sha256_hex E (f_bytes f)) (bm_SHA256 m) \<and> verified_bytes E Q (f_bytes f)
    \<and> map_of (w_files w) (bm_Filename m @ ''.manifest.json'') = Some g \<and> f_kind g = Regular
    \<and> unmarshal_BackupManifest (f_bytes g) = Some m \<and> view w' = view w"
proof -
  obtain f g where a: "artifact_database name = Some (bm_Filename m)" "path = name" "view w' = view w"
    "map_of (w_files w) (bm_Filename m) = Some f" "f_kind f = Regular" "digest_matches E (f_bytes f) m" "verified_bytes E Q (f_bytes f)"
    "map_of (w_files w) (bm_Filename m @ ''.manifest.json'') = Some g" "f_kind g = Regular"
    "unmarshal_BackupManifest (f_bytes g) = Some m" using BackupArtifact_Inr [OF assms] .
  have "name = bm_Filename m \<or> name = bm_Filename m @ ''.manifest.json''" using artifact_name(1) [OF a(1)] by (metis (full_types))
  moreover have "HasPrefix name ''lazarus-''" using artifact_name(2) [OF a(1)] calculation by (auto simp: HasPrefix_iff)
  moreover have "int (length (f_bytes f)) = bm_Bytes m" "EqualFold (sha256_hex E (f_bytes f)) (bm_SHA256 m)" using a(6) by (simp_all add: digest_matches_def)
  ultimately show ?thesis using a artifact_name(4) [OF a(1)] by blast
qed

section \<open>A sample backup\<close>

definition sample_sqlite :: sqlite where
  "sample_sqlite = \<lparr>sq_image = (\<lambda>sch db. ''SQLite format 3''), 
     sq_open = (\<lambda>bytes. if bytes = ''SQLite format 3'' then Some (initializeSchema empty_schema, empty_db) else None),
     sq_integrity = (\<lambda>bytes. ''ok''), sq_quick = (\<lambda>bytes. ''ok''), sq_schema_version = (\<lambda>bytes. 1), sq_version = minimumSQLite,
     sq_pages = (\<lambda>main journal wal. case wal of None \<Rightarrow> main | Some l \<Rightarrow> if l = '''' then main else l),
     sq_wal_mode = (\<lambda>main journal wal. (case wal of None \<Rightarrow> main | Some l \<Rightarrow> if l = '''' then main else l, '''', '''')),
     sq_commit = (\<lambda>main wal sch db. ''SQLite format 3'')\<rparr>"

definition sample_world :: "files \<Rightarrow> world" where
  "sample_world fs = \<lparr>w_session = sample_start, w_schema = initializeSchema empty_schema, w_files = fs\<rparr>"

lemma sample_healthy: "healthy sample_env (initializeSchema empty_schema) empty_db"
proof -
  have "sha256_hex sample_env b = ''ab'' \<and> clock sample_env n \<noteq> 0" for b n by (simp add: sample_env_def)
  then show ?thesis using sample_env_ok db_inv_empty required_schema_initialized by (simp add: healthy_def)
qed

lemma sample_saves: "saves sample_sqlite (initializeSchema empty_schema) empty_db"
proof -
  have "0 \<le> compareVersions minimumSQLite minimumSQLite" "length minimumSQLite \<le> 200" by code_simp+
  moreover have "valid_utf8 minimumSQLite" by (rule valid_utf8_ascii) (simp add: minimumSQLite_def)
  ultimately show ?thesis by (simp add: saves_def sample_sqlite_def max_int64_def)
qed

theorem backup_roundtrip_witness:
  "\<exists>m w' w''. BackupWithRetention sample_env sample_sqlite ''/db'' ''/backups'' 7 0 sample_audit (sample_world []) = (Inr m, w')
    \<and> bm_AuditRecorded m \<and> BackupArtifact sample_env sample_sqlite (bm_Filename m) w' = (Inr (bm_Filename m, m), w'')"
proof -
  have "view (sample_world []) = ([], empty_db, initializeSchema empty_schema)" by (simp add: view_def sample_world_def sample_start_def)
  moreover have "dir_ok []" by (simp add: dir_ok_def)
  moreover have "TrimSpace ''/backups'' \<noteq> ''''" "\<not> isMemoryPath ''/db''" by code_simp+
  moreover have "\<forall>n. card {x \<in> set (dir_backups []). backup_name (clock sample_env n) < x} < backup_keep 7"
    by (simp add: dir_backups_def backup_names_def backup_keep_def)
  moreover have "backup_event (a_RequestID sample_audit) (a_Actor sample_audit) empty_db = None" by (simp add: backup_event_def empty_db_def)
  ultimately show ?thesis using backup_roundtrip [OF sample_healthy sample_saves, of "[]" "sample_world []" 7 "''/backups''" 0 "''/db''" sample_audit] by auto
qed

theorem artifact_verified_witness:
  "\<exists>w w' m f. BackupArtifact sample_env sample_sqlite (bm_Filename m) w = (Inr (bm_Filename m, m), w')
    \<and> map_of (w_files w) (bm_Filename m) = Some f \<and> int (length (f_bytes f)) = bm_Bytes m \<and> view w' = view w"
proof -
  let ?image = "sq_image sample_sqlite (initializeSchema empty_schema) empty_db"
  define m where "m = manifest_of sample_env sample_sqlite (clock sample_env 0) ?image"
  let ?file = "\<lambda>bytes. \<lparr>f_kind = Regular, f_bytes = bytes, f_mtime = 0\<rparr>"
  let ?w = "sample_world [(bm_Filename m, ?file ?image), (bm_Filename m @ ''.manifest.json'', ?file (manifest_file m))]"
  have v: "view ?w = ([(bm_Filename m, ?file ?image), (bm_Filename m @ ''.manifest.json'', ?file (manifest_file m))], empty_db, initializeSchema empty_schema)"
    by (simp add: view_def sample_world_def sample_start_def)
  have "wp (BackupArtifact sample_env sample_sqlite (bm_Filename m)) (view ?w) (\<lambda>r v. r = (bm_Filename m, m))"
    unfolding v by (rule wp_BackupArtifact [OF sample_healthy sample_saves, where n = 0 and f = "?file ?image" and g = "?file (manifest_file m)", folded m_def]) simp_all
  then obtain w' where w: "BackupArtifact sample_env sample_sqlite (bm_Filename m) ?w = (Inr (bm_Filename m, m), w')" using wpD by blast
  from artifact_verified [OF w] w show ?thesis by blast
qed

end
