(* ===== verification/Api.thy ===== *)
theory Api
  imports Routes Encode Recovery "HOL-Library.Word"
begin

text \<open>
  The server (\<open>server.go\<close>) and its handlers (\<open>handlers.go\<close>): a request is given its id,
  authenticated, routed, checked for its role, and handled on the store and the backup directory. A
  handler always returns a response; an error of the store is one. Logging is left out, and of a
  response to a HEAD request the body that \<open>net/http\<close> then drops.
\<close>

section \<open>Servers and responses\<close>

text \<open>\<open>sv_store\<close> is the path of the store, whose state is in the world. The counters are 64 bits wide.\<close>

record Server =
  sv_store :: "string option"
  sv_auth :: "auth_token list option"
  sv_version :: string
  sv_backupDir :: string
  sv_backupKeep :: int
  sv_backupMinAge :: int
  sv_requests :: "64 word"
  sv_errors :: "64 word"
  sv_ready :: bool

definition api_New :: "string option \<Rightarrow> auth_token list option \<Rightarrow> string \<Rightarrow> string \<Rightarrow> int \<Rightarrow> int \<Rightarrow> Server" where
  "api_New st a version backupDir backupKeep backupMinAge =
    \<lparr>sv_store = st, sv_auth = a, sv_version = version, sv_backupDir = backupDir, sv_backupKeep = backupKeep,
     sv_backupMinAge = backupMinAge, sv_requests = 0, sv_errors = 0, sv_ready = (st \<noteq> None \<and> a \<noteq> None)\<rparr>"

definition SetReady :: "bool \<Rightarrow> Server \<Rightarrow> Server" where
  "SetReady value s = s\<lparr>sv_ready := value\<rparr>"

record response =
  rs_status :: nat
  rs_header :: "(string \<times> string) list"
  rs_body :: string

text \<open>The encoder writes nothing when it fails; its error is dropped.\<close>

definition writeJSON :: "nat \<Rightarrow> (string \<times> string) list \<Rightarrow> string option \<Rightarrow> response" where
  "writeJSON status header value =
    \<lparr>rs_status = status, rs_header = header @ [(''Content-Type'', ''application/json'')],
     rs_body = (case value of None \<Rightarrow> '''' | Some t \<Rightarrow> t @ [CHR 0x0A])\<rparr>"

definition map_text :: "(string \<times> string) list \<Rightarrow> string" where
  "map_text ms = obj_text (sort_key fst ms)"

definition writeError :: "nat \<Rightarrow> string \<Rightarrow> response" where
  "writeError status code = writeJSON status [] (Some (map_text [(''error'', quote code)]))"

definition writeIfMatchError :: "string \<Rightarrow> response" where
  "writeIfMatchError code =
    (let (status, detail) = (if code = ''if_match_required''
         then (428, ''send If-Match with a strong ETag, a tag list, or *'')
         else (400, ''If-Match must use RFC entity-tag syntax or *''))
     in writeJSON status [] (Some (map_text [(''error'', quote code), (''detail'', quote detail)])))"

definition writeStoreError :: "env \<Rightarrow> go_error \<Rightarrow> response" where
  "writeStoreError E err = \<lparr>rs_status = snd (store_error_code err), rs_header = [(''Content-Type'', ''application/json'')],
     rs_body = store_error_body E err\<rparr>"

text \<open>A call of the store, and the response to its result.\<close>

definition answerT :: "env \<Rightarrow> 'a io \<Rightarrow> ('a \<Rightarrow> response) \<Rightarrow> response io" where
  "answerT E call ok = bindT (attemptT call) (\<lambda>r. returnT (case r of Inl e \<Rightarrow> writeStoreError E e | Inr x \<Rightarrow> ok x))"

section \<open>Handlers\<close>

definition handleHealth :: "Server \<Rightarrow> response io" where
  "handleHealth s = returnT (writeJSON 200 [] (Some (map_text [(''status'', quote ''ok''), (''version'', quote (sv_version s))])))"

definition handleReady :: "env \<Rightarrow> sqlite \<Rightarrow> Server \<Rightarrow> response io" where
  "handleReady E Q s =
    (case sv_store s of
       None \<Rightarrow> returnT (writeError 503 ''not_ready'')
     | Some path \<Rightarrow>
       if \<not> sv_ready s then returnT (writeError 503 ''not_ready'')
       else bindT (attemptT (Ready E Q path))
       (\<lambda>r. returnT (case r of Inl e \<Rightarrow> writeError 503 ''not_ready''
         | Inr _ \<Rightarrow> writeJSON 200 [] (Some (map_text [(''status'', quote ''ready''), (''version'', quote (sv_version s))])))))"

definition handleVersion :: "Server \<Rightarrow> response io" where
  "handleVersion s = returnT (writeJSON 200 [] (Some (map_text [(''version'', quote (sv_version s))])))"

definition handleListMaintenances :: "env \<Rightarrow> request \<Rightarrow> response io" where
  "handleListMaintenances E r =
    (case maintenanceListOptions r of
       Inl e \<Rightarrow> returnT (writeStoreError E e)
     | Inr opts \<Rightarrow> answerT E (storeT (ListMaintenances E opts)) (\<lambda>page. writeJSON 200 [] (marshal_MaintenancePage page)))"

definition etag_header :: "int \<Rightarrow> (string \<times> string) list" where
  "etag_header version = [(''ETag'', VersionETag version)]"

definition created_run :: "maintenanceRequest \<Rightarrow> Maintenance" where
  "created_run q = zero_Maintenance\<lparr>m_ID := mrq_MaintenanceID q, m_State := ''new'', m_ChangeTicket := mrq_ChangeTicket q,
     m_WorkflowVersion := mrq_WorkflowVersion q, m_Metadata := mrq_Metadata q\<rparr>"

definition handleCreateMaintenance :: "env \<Rightarrow> AuditContext \<Rightarrow> request \<Rightarrow> response io" where
  "handleCreateMaintenance E audit r =
    (case decodeJSON_maintenance r of
       None \<Rightarrow> returnT (writeError 400 ''invalid_json'')
     | Some q \<Rightarrow>
       if TrimSpace (mrq_MaintenanceID q) = '''' then returnT (writeError 400 ''maintenance_id_required'')
       else if length (mrq_Metadata q) > 0 \<and> \<not> isJSONObject (mrq_Metadata q) then returnT (writeError 400 ''metadata_must_be_object'')
       else answerT E (storeT (CreateMaintenance E (created_run q) audit))
         (\<lambda>m. writeJSON 201 (etag_header (m_Version m)) (marshal_MaintenanceAggregate \<lparr>ma_Maintenance = m, ma_Targets = []\<rparr>)))"

definition handleGetMaintenance :: "env \<Rightarrow> string \<Rightarrow> response io" where
  "handleGetMaintenance E maintenanceID =
    answerT E (storeT (GetMaintenanceAggregate E maintenanceID))
      (\<lambda>a. writeJSON 200 (etag_header (m_Version (ma_Maintenance a))) (marshal_MaintenanceAggregate a))"

text \<open>The body and the precondition of a state change, the same lines in both of its handlers.\<close>

definition change_request :: "request \<Rightarrow> response + (StateChange \<times> VersionPrecondition)" where
  "change_request r =
    (case decodeJSON_change r of
       None \<Rightarrow> Inl (writeError 400 ''invalid_json'')
     | Some q \<Rightarrow>
       if length (scr_Detail q) > 0 \<and> \<not> isJSONObject (scr_Detail q) then Inl (writeError 400 ''detail_must_be_object'')
       else (case versionPrecondition r of
           Inl code \<Rightarrow> Inl (writeIfMatchError code)
         | Inr precondition \<Rightarrow> Inr (storeValue q, precondition)))"

definition handleTransitionMaintenance :: "env \<Rightarrow> AuditContext \<Rightarrow> request \<Rightarrow> string \<Rightarrow> response io" where
  "handleTransitionMaintenance E audit r maintenanceID =
    (case change_request r of
       Inl resp \<Rightarrow> returnT resp
     | Inr (change, precondition) \<Rightarrow>
       answerT E (storeT (TransitionMaintenance E maintenanceID change precondition audit))
         (\<lambda>a. writeJSON 200 (etag_header (m_Version (ma_Maintenance a))) (marshal_MaintenanceAggregate a)))"

definition handleGetCapture :: "env \<Rightarrow> string \<Rightarrow> response io" where
  "handleGetCapture E maintenanceID =
    answerT E (storeT (GetCapture E maintenanceID)) (\<lambda>c. writeJSON 200 [] (marshal_Capture c))"

definition capture_of_payload :: "string \<Rightarrow> Capture" where
  "capture_of_payload payload = \<lparr>c_MaintenanceID = '''', c_CapturedAt = 0, c_Payload = payload, c_SHA256 = ''''\<rparr>"

definition handleCaptureMaintenance :: "env \<Rightarrow> AuditContext \<Rightarrow> request \<Rightarrow> string \<Rightarrow> response io" where
  "handleCaptureMaintenance E audit r maintenanceID =
    (case decodeJSONObject r (2 * 1024 * 1024) of
       None \<Rightarrow> returnT (writeError 400 ''invalid_json'')
     | Some payload \<Rightarrow>
       answerT E (storeT (CaptureMaintenance E maintenanceID (capture_of_payload payload) audit))
         (\<lambda>result. writeJSON (if cres_Created result then 201 else 200) [] (marshal_Capture (cres_Capture result))))"

definition handleGetTarget :: "env \<Rightarrow> string \<Rightarrow> string \<Rightarrow> response io" where
  "handleGetTarget E maintenanceID targetID =
    answerT E (storeT (GetTarget E maintenanceID targetID)) (\<lambda>t. writeJSON 200 (etag_header (t_Version t)) (marshal_Target t))"

definition handleTransitionTarget :: "env \<Rightarrow> AuditContext \<Rightarrow> request \<Rightarrow> string \<Rightarrow> string \<Rightarrow> response io" where
  "handleTransitionTarget E audit r maintenanceID targetID =
    (case change_request r of
       Inl resp \<Rightarrow> returnT resp
     | Inr (change, precondition) \<Rightarrow>
       answerT E (storeT (TransitionTarget E maintenanceID targetID change precondition audit))
         (\<lambda>result. writeJSON 200 (etag_header (t_Version (ttr_Target result))
             @ [(''X-Maintenance-ETag'', VersionETag (ttr_MaintenanceVersion result))]) (marshal_Target (ttr_Target result))))"

definition handleAddTargetObservation :: "env \<Rightarrow> AuditContext \<Rightarrow> request \<Rightarrow> string \<Rightarrow> string \<Rightarrow> response io" where
  "handleAddTargetObservation E audit r maintenanceID targetID =
    (case decodeJSONObject r (64 * 1024) of
       None \<Rightarrow> returnT (writeError 400 ''invalid_json'')
     | Some payload \<Rightarrow>
       (case versionPrecondition r of
          Inl code \<Rightarrow> returnT (writeIfMatchError code)
        | Inr precondition \<Rightarrow>
          answerT E (storeT (AddObservation E maintenanceID targetID payload precondition audit))
            (\<lambda>_. \<lparr>rs_status = 204, rs_header = [], rs_body = ''''\<rparr>)))"

definition handleListEvents :: "env \<Rightarrow> request \<Rightarrow> response io" where
  "handleListEvents E r =
    (case eventListOptions r of
       Inl e \<Rightarrow> returnT (writeStoreError E e)
     | Inr opts \<Rightarrow> answerT E (storeT (ListEvents E opts)) (\<lambda>page. writeJSON 200 [] (marshal_EventPage page)))"

definition handleCreateBackup :: "env \<Rightarrow> sqlite \<Rightarrow> Server \<Rightarrow> string \<Rightarrow> AuditContext \<Rightarrow> response io" where
  "handleCreateBackup E Q s path audit =
    (if TrimSpace (sv_backupDir s) = '''' then returnT (writeError 503 ''backup_unavailable'')
     else answerT E (BackupWithRetention E Q path (sv_backupDir s) (sv_backupKeep s) (sv_backupMinAge s) audit)
       (\<lambda>manifest. writeJSON 201 [] (marshal_BackupManifest manifest)))"

text \<open>
  Of \<open>net/http\<close> two things are parameters: what \<open>http.ServeContent\<close> makes of a complete response for the
  conditions and ranges of the request (with the file's time), and the random bytes of a request id.
\<close>

record net =
  net_content :: "request \<Rightarrow> time \<Rightarrow> response \<Rightarrow> response"
  net_random :: "nat \<Rightarrow> string option"

fun hex_DecodeString :: "string \<Rightarrow> string option" where
  "hex_DecodeString [] = Some []"
| "hex_DecodeString [c] = None"
| "hex_DecodeString (a # b # s) =
    (case (hex_val a, hex_val b) of
       (Some x, Some y) \<Rightarrow> map_option (Cons (char_of (16 * x + y))) (hex_DecodeString s)
     | _ \<Rightarrow> None)"

text \<open>\<open>base64.StdEncoding\<close>: the alphabet of the URL encoding with two characters replaced, and padding.\<close>

definition base64_Std :: "string \<Rightarrow> string" where
  "base64_Std s = map (\<lambda>c. if c = CHR ''-'' then CHR ''+'' else if c = CHR ''_'' then CHR ''/'' else c) (EncodeToString s)
     @ replicate ((3 - length s mod 3) mod 3) CHR ''=''"

text \<open>The name has been checked: quoted, it is itself between quotes.\<close>

definition artifact_headers :: "string \<Rightarrow> BackupManifest \<Rightarrow> string \<Rightarrow> (string \<times> string) list" where
  "artifact_headers filename manifest bytes =
    (if HasSuffix filename ''.json'' then [(''Content-Type'', ''application/json'')]
     else [(''Content-Type'', ''application/vnd.sqlite3''), (''ETag'', dquote # bm_SHA256 manifest @ [dquote])]
       @ (case hex_DecodeString (bm_SHA256 manifest) of None \<Rightarrow> []
          | Some digest \<Rightarrow> [(''Digest'', ''sha-256='' @ base64_Std digest)]))
    @ [(''Cache-Control'', ''no-store''), (''Content-Length'', FormatInt (int (length bytes))),
       (''Content-Disposition'', ''attachment; filename='' @ dquote # filename @ [dquote])]"

definition handleBackupArtifact :: "env \<Rightarrow> sqlite \<Rightarrow> net \<Rightarrow> Server \<Rightarrow> AuditContext \<Rightarrow> request \<Rightarrow> string \<Rightarrow> response io" where
  "handleBackupArtifact E Q N s audit r filename =
    (if TrimSpace (sv_backupDir s) = '''' then returnT (writeError 503 ''backup_unavailable'')
     else bindT (attemptT (BackupArtifact E Q filename))
     (\<lambda>found. case found of
         Inl e \<Rightarrow> returnT (writeStoreError E e)
       | Inr (path, manifest) \<Rightarrow>
         bindT (attemptT (osT E (\<lambda>fs. (Inr (), fs))))
         (\<lambda>root. case root of
             Inl e \<Rightarrow> returnT (writeError 500 ''internal_error'')
           | Inr _ \<Rightarrow>
             bindT (attemptT (osT E (os_Stat filename)))
             (\<lambda>opened. case opened of
                 Inl e \<Rightarrow> returnT (writeError 500 ''internal_error'')
               | Inr handle \<Rightarrow>
                 bindT (attemptT (bindT (ValidateOpenedBackupArtifact E (Some handle) filename manifest)
                   (\<lambda>_. storeT (RecordBackupDownload E manifest filename audit))))
                 (\<lambda>recorded. case recorded of
                     Inl e \<Rightarrow> returnT (writeStoreError E e)
                   | Inr _ \<Rightarrow>
                     bindT (attemptT (osT E (\<lambda>fs. (Inr (), fs))))
                     (\<lambda>info. returnT (case info of
                         Inl e \<Rightarrow> writeError 500 ''internal_error''
                       | Inr _ \<Rightarrow> net_content N r (f_mtime handle)
                           \<lparr>rs_status = 200, rs_header = artifact_headers filename manifest (f_bytes handle), rs_body = f_bytes handle\<rparr>)))))))"

text \<open>The metrics; the version is a build constant of printable ASCII characters, which \<open>%q\<close> leaves as they are.\<close>

definition metric :: "string \<Rightarrow> string \<Rightarrow> int \<Rightarrow> string" where
  "metric name kind value = ''# TYPE '' @ name @ '' '' @ kind @ [CHR 0x0A] @ name @ '' '' @ FormatInt value @ [CHR 0x0A]"

definition handleMetrics :: "env \<Rightarrow> Server \<Rightarrow> response io" where
  "handleMetrics E s =
    (let head = metric ''lazarus_http_requests_total'' ''counter'' (uint (sv_requests s))
           @ metric ''lazarus_http_errors_total'' ''counter'' (uint (sv_errors s))
           @ metric ''lazarus_ready'' ''gauge'' (if sv_ready s then 1 else 0);
         tail = ''lazarus_info{version='' @ dquote # sv_version s @ dquote # ''} 1'' @ [CHR 0x0A];
         reply = (\<lambda>body. \<lparr>rs_status = 200, rs_header = [(''Content-Type'', ''text/plain; version=0.0.4'')], rs_body = body\<rparr>)
     in case sv_store s of
       None \<Rightarrow> returnT (reply (head @ tail))
     | Some path \<Rightarrow>
       bindT (attemptT (osT E (os_Stat path)))
       (\<lambda>info. bindT (attemptT (storeT (queryT E (\<lambda>db. length (events_t db)))))
       (\<lambda>events. returnT (reply (head
         @ (case info of Inl _ \<Rightarrow> '''' | Inr f \<Rightarrow> metric ''lazarus_database_bytes'' ''gauge'' (int (length (f_bytes f))))
         @ (case events of Inl _ \<Rightarrow> '''' | Inr n \<Rightarrow> metric ''lazarus_journal_events'' ''gauge'' (int n))
         @ tail)))))"

section \<open>Serving a request\<close>

text \<open>What the context of a request carries.\<close>

record context_values =
  cx_principal :: "Principal option"
  cx_requestID :: string

definition auditContext :: "context_values \<Rightarrow> AuditContext" where
  "auditContext cx =
    (case cx_principal cx of
       None \<Rightarrow> \<lparr>a_Actor = '''', a_Role = '''', a_RequestID = cx_requestID cx\<rparr>
     | Some p \<Rightarrow> \<lparr>a_Actor = p_Name p, a_Role = p_Role p, a_RequestID = cx_requestID cx\<rparr>)"

definition handle :: "env \<Rightarrow> sqlite \<Rightarrow> net \<Rightarrow> Server \<Rightarrow> context_values \<Rightarrow> request \<Rightarrow> endpoint \<Rightarrow> string list \<Rightarrow> response io" where
  "handle E Q N s cx r e vs =
    (let audit = auditContext cx; value = (\<lambda>i. if i < length vs then vs ! i else '''');
         path = (case sv_store s of None \<Rightarrow> '''' | Some p \<Rightarrow> p) in
     case e of
       Health \<Rightarrow> handleHealth s
     | Readiness \<Rightarrow> handleReady E Q s
     | Version \<Rightarrow> handleVersion s
     | Metrics \<Rightarrow> handleMetrics E s
     | ListMaintenance \<Rightarrow> handleListMaintenances E r
     | CreateMaintenanceRun \<Rightarrow> handleCreateMaintenance E audit r
     | GetMaintenance \<Rightarrow> handleGetMaintenance E (value 0)
     | TransitionRun \<Rightarrow> handleTransitionMaintenance E audit r (value 0)
     | GetRunCapture \<Rightarrow> handleGetCapture E (value 0)
     | CaptureRun \<Rightarrow> handleCaptureMaintenance E audit r (value 0)
     | GetRunTarget \<Rightarrow> handleGetTarget E (value 0) (value 1)
     | TransitionRunTarget \<Rightarrow> handleTransitionTarget E audit r (value 0) (value 1)
     | ObserveTarget \<Rightarrow> handleAddTargetObservation E audit r (value 0) (value 1)
     | ListJournal \<Rightarrow> handleListEvents E r
     | CreateBackupFile \<Rightarrow> handleCreateBackup E Q s path audit
     | DownloadBackup \<Rightarrow> handleBackupArtifact E Q N s audit r (value 0))"

definition api_require :: "string \<Rightarrow> context_values \<Rightarrow> response io \<Rightarrow> response io" where
  "api_require role cx next =
    (case cx_principal cx of
       None \<Rightarrow> returnT (writeError 503 ''authentication_unavailable'')
     | Some p \<Rightarrow> (case Require p role of Inl _ \<Rightarrow> returnT (writeError 403 ''forbidden'') | Inr _ \<Rightarrow> next))"

text \<open>The responses of the multiplexer itself.\<close>

definition mux_reply :: "nat \<Rightarrow> response" where
  "mux_reply status = \<lparr>rs_status = status, rs_header = [], rs_body = ''''\<rparr>"

definition mux_ServeHTTP :: "env \<Rightarrow> sqlite \<Rightarrow> net \<Rightarrow> Server \<Rightarrow> context_values \<Rightarrow> request \<Rightarrow> response io" where
  "mux_ServeHTTP E Q N s cx r =
    (case mux_route r of
       Found rt vs \<Rightarrow>
         (case rt_role rt of
            None \<Rightarrow> handle E Q N s cx r (rt_endpoint rt) vs
          | Some role \<Rightarrow> api_require role cx (handle E Q N s cx r (rt_endpoint rt) vs))
     | Redirected \<Rightarrow> returnT (mux_reply 301)
     | NotAllowed \<Rightarrow> returnT (mux_reply 405)
     | NoRoute \<Rightarrow> returnT (mux_reply 404))"

definition with_header :: "string \<times> string \<Rightarrow> response \<Rightarrow> response" where
  "with_header h resp = resp\<lparr>rs_header := h # rs_header resp\<rparr>"

text \<open>A header that is set before the handler runs is replaced by one that the handler sets.\<close>

definition set_before :: "string \<times> string \<Rightarrow> response \<Rightarrow> response" where
  "set_before h resp = (if map_of (rs_header resp) (fst h) = None then with_header h resp else resp)"

definition serve :: "env \<Rightarrow> sqlite \<Rightarrow> net \<Rightarrow> Server \<Rightarrow> string \<Rightarrow> request \<Rightarrow> response io" where
  "serve E Q N s rid r =
    (let cx = \<lparr>cx_principal = None, cx_requestID = rid\<rparr>; private = set_before (''Cache-Control'', ''no-store'') in
     if \<not> isAPIPath (url_Path r) then mux_ServeHTTP E Q N s cx r
     else if sv_auth s = None then returnT (private (writeError 503 ''authentication_unavailable''))
     else (case Authenticate (sha256_hex E) (sv_auth s) (header_Get r ''Authorization'') of
         Inl _ \<Rightarrow> returnT (private (with_header (''WWW-Authenticate'', ''Bearer realm='' @ dquote # ''lazarus'' @ [dquote]) (writeError 401 ''unauthorized'')))
       | Inr p \<Rightarrow>
         if sv_store s = None then returnT (private (writeError 503 ''store_unavailable''))
         else if \<not> sv_ready s \<and> rq_method r \<noteq> ''GET'' \<and> rq_method r \<noteq> ''HEAD''
           then returnT (private (writeError 503 ''service_draining''))
         else bindT (mux_ServeHTTP E Q N s (cx\<lparr>cx_principal := Some p\<rparr>) r) (\<lambda>resp. returnT (private resp))))"

text \<open>One request, in the world of the store and the backup directory; logging is left out.\<close>

definition ServeHTTP :: "env \<Rightarrow> sqlite \<Rightarrow> net \<Rightarrow> request \<Rightarrow> Server \<times> world \<Rightarrow> response \<times> Server \<times> world" where
  "ServeHTTP E Q N r sw =
    (let (s, w) = sw;
         s = s\<lparr>sv_requests := sv_requests s + 1\<rparr>;
         rid = requestID (net_random N (s_ticks (w_session w))) (UnixNano (clock E (s_ticks (w_session w)))) r
     in case serve E Q N s rid r w of
       (Inl e, w') \<Rightarrow> (mux_reply 500, s, w')
     | (Inr resp, w') \<Rightarrow>
       (with_header (''X-Request-ID'', rid) resp,
        (if rs_status resp \<ge> 400 then s\<lparr>sv_errors := sv_errors s + 1\<rparr> else s), w'))"

end
