(* ===== verification/Outcome.thy ===== *)
theory Outcome
  imports Recovery History
begin

text \<open>
  What programs leave behind, whatever they return: a program keeps a part of its state (\<open>same\<close>), or
  relates that part before and after (\<open>evolves\<close>). The rules follow the way programs are composed, so
  that reads and checks are shown to change nothing, and an operation with one write to change what
  that write changes.
\<close>

section \<open>Rules\<close>

definition evolves :: "('s \<Rightarrow> 'v) \<Rightarrow> ('v \<Rightarrow> 'v \<Rightarrow> bool) \<Rightarrow> ('s, 'a) st \<Rightarrow> bool" where
  "evolves f R m \<longleftrightarrow> (\<forall>s r s'. m s = (r, s') \<longrightarrow> R (f s) (f s'))"

abbreviation same :: "('s \<Rightarrow> 'v) \<Rightarrow> ('s, 'a) st \<Rightarrow> bool" where
  "same f m \<equiv> evolves f (=) m"

definition yields :: "('s, 'a) st \<Rightarrow> 'a \<Rightarrow> bool" where
  "yields m x \<longleftrightarrow> (\<exists>s s'. m s = (Inr x, s'))"

lemma evolvesD: "evolves f R m \<Longrightarrow> m s = (r, s') \<Longrightarrow> R (f s) (f s')"
  by (simp add: evolves_def)

lemma evolves_iff: "evolves f R m \<longleftrightarrow> (\<forall>s. R (f s) (f (snd (m s))))"
  unfolding evolves_def by (metis prod.collapse snd_conv)

lemma same_evolves: "same f m \<Longrightarrow> (\<And>x. R x x) \<Longrightarrow> evolves f R m"
  by (auto simp: evolves_def)

lemma same_bind: "same f m \<Longrightarrow> (\<And>x. same f (g x)) \<Longrightarrow> same f (bindT m g)"
  unfolding evolves_def bindT_def by (fastforce split: prod.splits sum.splits)

lemma evolves_after: "same f m \<Longrightarrow> (\<And>x. R x x) \<Longrightarrow> (\<And>x. yields m x \<Longrightarrow> evolves f R (g x)) \<Longrightarrow> evolves f R (bindT m g)"
  unfolding evolves_def bindT_def yields_def by (fastforce split: prod.splits sum.splits)

lemma evolves_before: "evolves f R m \<Longrightarrow> (\<And>x. same f (g x)) \<Longrightarrow> evolves f R (bindT m g)"
  unfolding evolves_def bindT_def by (fastforce split: prod.splits sum.splits)

lemma same_basic: "same f (returnT x)" "same f (throwT e)" "same f (liftT r)"
  by (simp_all add: evolves_def returnT_def throwT_def liftT_def)

lemma evolves_mapErr: "evolves f R m \<Longrightarrow> evolves f R (mapErrT h m)"
  unfolding evolves_def mapErrT_def by (fastforce split: prod.splits sum.splits)

lemma evolves_annotate: "evolves f R m \<Longrightarrow> evolves f R (annotateT msg m)"
  by (simp add: annotateT_def evolves_mapErr)

lemma evolves_attempt: "evolves f R m \<Longrightarrow> evolves f R (attemptT m)"
  unfolding evolves_def attemptT_def by (fastforce split: prod.splits)

lemma same_ignore: "same f m \<Longrightarrow> same f (ignoreT m)"
  unfolding evolves_def ignoreT_def by (metis prod.collapse prod.inject)

lemma same_onError:
  assumes "same f m" "same f h"
  shows "same f (onErrorT h m)"
proof -
  have "f s = f (snd (onErrorT h m s))" for s
    using evolvesD [OF assms(1), of s] assms(2) unfolding evolves_iff onErrorT_def
    by (cases "m s"; cases "fst (m s)") simp_all
  then show ?thesis by (simp add: evolves_iff)
qed

lemma evolves_defer:
  assumes "evolves f R m" "same f c"
  shows "evolves f R (deferT c m)"
proof -
  have "R (f s) (f (snd (deferT c m s)))" for s
    using assms unfolding evolves_iff deferT_def by (cases "m s") (metis snd_conv case_prod_conv)
  then show ?thesis by (simp add: evolves_iff)
qed

lemma same_forT: "(\<And>x. same f (g x)) \<Longrightarrow> same f (forT g xs)"
  by (induction xs) (simp_all add: same_basic same_bind)

lemma same_query: "same s_db (queryT E q)" "same s_db (nowT E)"
  by (auto simp: evolves_def queryT_def nowT_def)

lemma evolves_store: "evolves s_db R t \<Longrightarrow> evolves (\<lambda>w. s_db (w_session w)) R (storeT t)"
  unfolding evolves_def storeT_def by (fastforce split: prod.splits)

lemma same_store_files: "same w_files (storeT t)" "same w_schema (storeT t)"
  by (auto simp: evolves_def storeT_def split: prod.splits)

lemma same_store: "same s_db t \<Longrightarrow> same view (storeT t)"
  by (auto simp: evolves_def storeT_def view_def split: prod.splits)

lemma same_os: "(\<And>fs. snd (f fs) = fs) \<Longrightarrow> same view (osT E f)"
  unfolding evolves_iff by (auto simp: osT_def view_def tickW_def split: prod.split) (metis snd_conv)+

lemma same_os_db: "same (\<lambda>w. s_db (w_session w)) (osT E f)" "same w_schema (osT E f)"
  by (auto simp: evolves_def osT_def tickW_def split: prod.splits if_splits)

lemma same_onFile: "same view (onFileT db t)"
  by (auto simp: evolves_def onFileT_def view_def split: prod.splits)

lemma same_snapshot: "same view snapshotT"
  by (simp add: evolves_def snapshotT_def)

lemma same_view_parts: "same view m \<Longrightarrow> same (\<lambda>w. s_db (w_session w)) m" "same view m \<Longrightarrow> same w_schema m" "same view m \<Longrightarrow> same w_files m"
  by (auto simp: evolves_def view_def)

lemma os_reads [simp]: "snd (os_Stat n fs) = fs" "snd (os_Lstat n fs) = fs" "snd (os_Read n fs) = fs" "snd (os_Touch n fs) = fs"
  "snd (os_ReadDir fs) = fs" "snd (os_MkdirAll fs) = fs"
  by (simp_all add: os_Stat_def os_Lstat_def os_Read_def os_Touch_def os_ReadDir_def os_MkdirAll_def)

lemmas same_rules = same_bind same_basic evolves_mapErr evolves_annotate evolves_attempt same_ignore same_onError evolves_defer same_query
  same_store same_os same_onFile same_snapshot same_forT

section \<open>Reads and checks\<close>

lemma same_load: "same s_db (loadMaintenance E i)" "same s_db (loadTarget E i t)" "same s_db (rowT r)" "same s_db (listTargets E i)"
  by (auto simp: loadMaintenance_def loadTarget_def rowT_def listTargets_def intro!: same_rules split: option.splits)

lemma same_reads: "same s_db (GetMaintenanceAggregate E i)" "same s_db (GetCapture E i)" "same s_db (GetTarget E i t)"
  "same s_db (ListMaintenances E opts)" "same s_db (ListEvents E opts')"
  by (auto simp: GetMaintenanceAggregate_def GetCapture_def GetTarget_def ListMaintenances_def ListEvents_def Let_def
      intro!: same_rules same_load split: sum.splits)

lemma same_VerifyPath: "same view (VerifyPath E Q path)"
  by (auto simp: VerifyPath_def intro!: same_rules split: option.splits)

lemma same_Ready: "same view (Ready E Q path)"
  by (auto simp: Ready_def sq_Read_def intro!: same_rules split: option.splits)

lemma same_artifact: "same view (validateRegularFile E n)" "same view (readBackupManifest E n)" "same view (validateBackupDigest E n m)"
  by (auto simp: validateRegularFile_def readBackupManifest_def validateBackupDigest_def Let_def intro!: same_rules split: option.splits)

lemma same_BackupArtifact: "same view (BackupArtifact E Q name)"
  by (auto simp: BackupArtifact_def Let_def intro!: same_rules same_artifact same_VerifyPath split: option.splits)

lemma same_ValidateOpened: "same view (ValidateOpenedBackupArtifact E h n m)"
  by (auto simp: ValidateOpenedBackupArtifact_def intro!: same_rules split: option.splits)

lemma same_backupForRequest: "same view (backupForRequest E Q rid actor)"
  by (auto simp: backupForRequest_def intro!: same_rules same_BackupArtifact split: option.splits sum.splits)

end
