(* ===== verification/Service.thy ===== *)
theory Service
  imports Api Outcome
begin

text \<open>
  The laws of the service: who may change the store, what a request that changes it leaves in the
  journal, that a refused request changes nothing, and that the store stays one that verification
  accepts, whatever requests are served.
\<close>

section \<open>Events carry the identity of their request\<close>

definition attributed :: "AuditContext \<Rightarrow> database \<Rightarrow> database \<Rightarrow> bool" where
  "attributed audit db db' \<longleftrightarrow> (\<exists>rows. events_t db' = events_t db @ rows
     \<and> (\<forall>row \<in> set rows. (er_actor row, er_role row, er_request_id row) = auditValues audit))"

lemma attributed_refl: "events_t db' = events_t db \<Longrightarrow> attributed audit db db'"
  by (simp add: attributed_def)

lemma auditValues_idem:
  "auditValues audit = (a, r, q) \<Longrightarrow> auditValues \<lparr>a_Actor = a, a_Role = r, a_RequestID = q\<rparr> = (a, r, q)"
  by (auto simp: auditValues_def split: if_splits)

lemma attributed_log:
  assumes "events_t db1 = events_t db" "(e_Actor ev, e_Role ev, e_RequestID ev) = auditValues audit"
  shows "attributed audit db (log_event ev db1)"
proof -
  have "auditValues \<lparr>a_Actor = e_Actor ev, a_Role = e_Role ev, a_RequestID = e_RequestID ev\<rparr> = auditValues audit"
    using auditValues_idem [OF assms(2) [symmetric]] assms(2) by simp
  then have "(er_actor (logged_row ev db1), er_role (logged_row ev db1), er_request_id (logged_row ev db1)) = auditValues audit"
    by (simp add: logged_row_def event_row_of_def filled_event_def Let_def split: prod.splits)
  then show ?thesis using assms(1) by (simp add: attributed_def)
qed

lemma events_audit:
  "(e_Actor (created_event m audit), e_Role (created_event m audit), e_RequestID (created_event m audit)) = auditValues audit"
  "(e_Actor (captured_event E m c n audit t), e_Role (captured_event E m c n audit t), e_RequestID (captured_event E m c n audit t)) = auditValues audit"
  "(e_Actor (transition_event m st p audit t), e_Role (transition_event m st p audit t), e_RequestID (transition_event m st p audit t)) = auditValues audit"
  "(e_Actor (target_event m tg st p audit t), e_Role (target_event m tg st p audit t), e_RequestID (target_event m tg st p audit t)) = auditValues audit"
  "(e_Actor (observed_event i ti p audit t), e_Role (observed_event i ti p audit t), e_RequestID (observed_event i ti p audit t)) = auditValues audit"
  "(e_Actor (backup_event_of k b p t audit), e_Role (backup_event_of k b p t audit), e_RequestID (backup_event_of k b p t audit)) = auditValues audit"
  by (simp_all add: created_event_def captured_event_def transition_event_def target_event_def observed_event_def backup_event_of_def
      split: prod.split)

text \<open>What one request may do to a sound database: append at most one event, its own, change rows only as
  history allows, and leave a sound database.\<close>

definition recorded :: "env \<Rightarrow> AuditContext \<Rightarrow> database \<Rightarrow> database \<Rightarrow> bool" where
  "recorded E audit db db' \<longleftrightarrow> (db_inv E db \<longrightarrow> history_kept db db' \<and> one_event db db' \<and> attributed audit db db' \<and> db_inv E db')"

lemma recorded_refl: "recorded E audit db db"
  by (simp add: recorded_def history_refl attributed_refl)

section \<open>The operations that handlers call\<close>

abbreviation db_of :: "world \<Rightarrow> database" where
  "db_of w \<equiv> s_db (w_session w)"

text \<open>What a handler may rely on: a refused call changes nothing, and a call that is performed has its effect.\<close>

locale mutation =
  fixes call :: "'a tx" and pre :: bool and effect :: "database \<Rightarrow> database \<Rightarrow> bool"
  assumes refused: "call s = (Inl e, s') \<Longrightarrow> s_db s' = s_db s"
    and performed: "call s = (Inr x, s') \<Longrightarrow> pre \<Longrightarrow> effect (s_db s) (s_db s')"
    and unchanged: "effect db db"
begin

lemma evolves_call: "pre \<Longrightarrow> evolves s_db effect call"
  unfolding evolves_def using refused performed unchanged by (metis sum.exhaust)

text \<open>A response with an error status means that the store has not changed.\<close>

lemma refused_call:
  assumes "answerT E (storeT call) ok w = (Inr resp, w')" "\<And>x. rs_status (ok x) < 400" "400 \<le> rs_status resp"
  shows "db_of w' = db_of w"
proof -
  obtain r s' where c: "call (w_session w) = (r, s')" by (cases "call (w_session w)")
  have w': "w' = w\<lparr>w_session := s'\<rparr>" and resp: "resp = (case r of Inl e \<Rightarrow> writeStoreError E e | Inr x \<Rightarrow> ok x)"
    using assms(1) c by (simp_all add: answerT_def storeT_def attemptT_def bindT_def returnT_def)
  with assms(2,3) obtain e where "r = Inl e" by (cases r) (auto dest: leD)
  with c w' refused show ?thesis by simp
qed

end

interpretation create: mutation "CreateMaintenance E m audit" "env_ok E \<and> create_args m" "recorded E audit" for E m audit
proof unfold_locales
  fix s x s' e db
  show "recorded E audit db db" by (rule recorded_refl)
  show "CreateMaintenance E m audit s = (Inl e, s') \<Longrightarrow> s_db s' = s_db s" by (rule op_errors(1))
  assume c: "CreateMaintenance E m audit s = (Inr x, s')" and a: "env_ok E \<and> create_args m"
  have "attributed audit (s_db s) (s_db s')"
    unfolding CreateMaintenance_Inr(7) [OF c] by (rule attributed_log) (simp_all add: add_maintenance_def events_audit)
  then show "recorded E audit (s_db s) (s_db s')"
    using history_ops(1) [OF c] keep_create [OF c] a by (simp add: recorded_def)
qed

interpretation capture: mutation "CaptureMaintenance E i c audit" "env_ok E \<and> capture_args c" "recorded E audit" for E i c audit
proof unfold_locales
  fix s x s' e db
  show "recorded E audit db db" by (rule recorded_refl)
  show "CaptureMaintenance E i c audit s = (Inl e, s') \<Longrightarrow> s_db s' = s_db s" by (rule op_errors(2))
  assume c: "CaptureMaintenance E i c audit s = (Inr x, s')" and a: "env_ok E \<and> capture_args c"
  have "attributed audit (s_db s) (s_db s')" if "db_inv E (s_db s)"
    using c db_inv_unique(1) [OF that]
  proof (cases rule: CaptureMaintenance_Inr)
    case (saved payload targets at m now n k)
    then show ?thesis unfolding saved(7) saved_capture_def by (intro attributed_log) (simp_all add: add_capture_def events_audit Let_def)
  qed (simp add: attributed_refl)
  then show "recorded E audit (s_db s) (s_db s')"
    using history_ops(2) [OF c] keep_capture [OF c] a by (simp add: recorded_def)
qed

interpretation transition: mutation "TransitionMaintenance E i change vp audit" "env_ok E \<and> change_args change" "recorded E audit" for E i change vp audit
proof unfold_locales
  fix s x s' e db
  show "recorded E audit db db" by (rule recorded_refl)
  show "TransitionMaintenance E i change vp audit s = (Inl e, s') \<Longrightarrow> s_db s' = s_db s" by (rule op_errors(3))
  assume c: "TransitionMaintenance E i change vp audit s = (Inr x, s')" and a: "env_ok E \<and> change_args change"
  have "attributed audit (s_db s) (s_db s')" if "db_inv E (s_db s)"
    using c db_inv_unique(1) [OF that]
  proof (cases rule: TransitionMaintenance_Inr)
    case (1 r payload now n)
    show ?thesis unfolding 1(8) by (rule attributed_log) (simp_all add: moved_run_def bump_targets_views events_audit)
  qed
  then show "recorded E audit (s_db s) (s_db s')"
    using history_ops(3) [OF c] keep_transition [OF c] a by (simp add: recorded_def)
qed

interpretation target: mutation "TransitionTarget E i ti change vp audit" "env_ok E \<and> change_args change" "recorded E audit" for E i ti change vp audit
proof unfold_locales
  fix s x s' e db
  show "recorded E audit db db" by (rule recorded_refl)
  show "TransitionTarget E i ti change vp audit s = (Inl e, s') \<Longrightarrow> s_db s' = s_db s" by (rule op_errors(4))
  assume c: "TransitionTarget E i ti change vp audit s = (Inr x, s')" and a: "env_ok E \<and> change_args change"
  have "attributed audit (s_db s) (s_db s')" if "db_inv E (s_db s)"
    using c db_inv_unique [OF that]
  proof (cases rule: TransitionTarget_Inr)
    case (1 r tr payload now n)
    show ?thesis unfolding 1(11) by (rule attributed_log) (simp_all add: moved_target_def set_target_def events_audit)
  qed
  then show "recorded E audit (s_db s) (s_db s')"
    using history_ops(4) [OF c] keep_target [OF c] a by (simp add: recorded_def)
qed

interpretation observe: mutation "AddObservation E i ti payload vp audit" "env_ok E" "recorded E audit" for E i ti payload vp audit
proof unfold_locales
  fix s x s' e db
  show "recorded E audit db db" by (rule recorded_refl)
  show "AddObservation E i ti payload vp audit s = (Inl e, s') \<Longrightarrow> s_db s' = s_db s" by (rule op_errors(5))
  assume c: "AddObservation E i ti payload vp audit s = (Inr x, s')" and a: "env_ok E"
  have "attributed audit (s_db s) (s_db s')"
    by (rule AddObservation_Inr [OF c]) (simp_all add: attributed_refl attributed_log events_audit)
  then show "recorded E audit (s_db s) (s_db s')"
    using history_ops(5) [OF c] keep_observe [OF c] a by (simp add: recorded_def)
qed

section \<open>Backups\<close>

text \<open>The rows and the schema of the store, which work on files leaves alone.\<close>

definition core :: "world \<Rightarrow> database \<times> schema" where
  "core w = (db_of w, w_schema w)"

definition recorded_core :: "env \<Rightarrow> AuditContext \<Rightarrow> database \<times> schema \<Rightarrow> database \<times> schema \<Rightarrow> bool" where
  "recorded_core E audit c c' \<longleftrightarrow> recorded E audit (fst c) (fst c') \<and> snd c' = snd c"

lemma recorded_core_refl: "recorded_core E audit c c"
  by (simp add: recorded_core_def recorded_refl)

lemma same_core_os: "same core (osT E f)"
  using same_os_db [of E f] by (simp add: evolves_iff core_def)

lemma same_core_view: "same view m \<Longrightarrow> same core m"
  by (auto simp: evolves_def core_def view_def)

lemma same_core_store: "same s_db t \<Longrightarrow> same core (storeT t)"
  by (rule same_core_view [OF same_store])

lemmas same_core = same_bind same_basic evolves_mapErr evolves_annotate evolves_attempt same_ignore same_onError evolves_defer same_forT
  same_core_os same_core_store same_query

lemmas same_core_checks = same_core_view [OF same_VerifyPath] same_core_view [OF same_BackupArtifact] same_core_view [OF same_snapshot]
  same_core_view [OF same_backupForRequest] same_core_view [OF same_ValidateOpened]

lemma same_core_files:
  "same core (removeT E msg n)" "same core (cleanupBackupTemps E)" "same core (rotateBackupsWithAge E keep minAge now)"
  "same core (vacuumInto E Q n)" "same core (publish_manifest E base m)" "same core (publish_database E Q base t)"
  "same core (integrityCheckDB E Q)" "same core (openBackupConnection E path)"
proof -
  show r: "same core (removeT E msg n)" for msg n
    unfolding removeT_def by (auto intro!: same_core split: sum.splits)
  have "same core (cleanup_temp E x)" "same core (cleanup_unpaired E ext c what x)" for ext c what x
    by (auto simp: cleanup_temp_def cleanup_unpaired_def intro!: same_core r split: prod.splits sum.splits)
  then show "same core (cleanupBackupTemps E)"
    unfolding cleanupBackupTemps_def forEntries_def by (intro same_core)
  have "same core (rotate_one E minAge now n)" for n
    unfolding rotate_one_def Let_def by (auto intro!: same_core r split: sum.splits)
  then show "same core (rotateBackupsWithAge E keep minAge now)"
    unfolding rotateBackupsWithAge_def syncDir_def Let_def by (auto intro!: same_core)
  show "same core (vacuumInto E Q n)" "same core (publish_manifest E base m)" "same core (publish_database E Q base t)"
    "same core (integrityCheckDB E Q)" "same core (openBackupConnection E path)"
    by (auto simp: vacuumInto_def publish_manifest_def publish_database_def integrityCheckDB_def openBackupConnection_def syncFile_def syncDir_def Let_def
        intro!: same_core same_core_checks split: option.splits prod.splits)
qed

text \<open>What is assumed of SQLite and the digest: their texts are UTF-8, a database file has at most as many
  bytes as a 64-bit integer counts, and a digest is not empty.\<close>

definition texts_ok :: "env \<Rightarrow> sqlite \<Rightarrow> bool" where
  "texts_ok E Q \<longleftrightarrow> valid_utf8 (sq_version Q) \<and> (\<forall>b. valid_utf8 (sq_integrity Q b))
     \<and> (\<forall>b. sq_open Q b \<noteq> None \<longrightarrow> int (length b) \<le> max_int64) \<and> (\<forall>b. sha256_hex E b \<noteq> '''')"

lemma publish_database_manifest:
  assumes "yields (publish_database E Q (backup_name (clock E n)) (clock E n)) m" "texts_ok E Q" "env_ok E"
  shows "manifest_args m"
proof -
  let ?tmp = "backup_name (clock E n) @ ''.tmp''"
  obtain w1 w2 w3 w4 r bytes where 1: "VerifyPath E Q ?tmp w1 = (Inr r, w2)" "osT E (os_Touch ?tmp) w2 = (Inr (), w3)" "osT E (os_Read ?tmp) w3 = (Inr bytes, w4)"
    "m = \<lparr>bm_Filename = backup_name (clock E n), bm_CreatedAt = clock E n, bm_Bytes = int (length bytes), bm_SHA256 = sha256_hex E bytes,
         bm_SQLiteVersion = sq_version Q, bm_IntegrityCheck = vr_IntegrityCheck r, bm_ForeignKeys = vr_ForeignKeys r,
         bm_Application = vr_ApplicationData r, bm_AuditRecorded = False\<rparr>"
    using assms(1) unfolding publish_database_def yields_def Let_def
    by (auto simp: bindT_Inr annotateT_Inr returnT_Inr throwT_Inr split: if_splits)
  obtain f where f: "resolve 40 (w_files w1) ?tmp = Some f" "verified_bytes E Q (f_bytes f)" "view w2 = view w1"
    "r = \<lparr>vr_SQLiteVersion = sq_version Q, vr_IntegrityCheck = sq_integrity Q (f_bytes f), vr_ForeignKeys = ''ok'', vr_ApplicationData = ''ok''\<rparr>"
    using VerifyPath_Inr [OF 1(1)] by metis
  have "bytes = f_bytes f" using 1(2,3) f(1,3) by (auto simp: osT_Inr os_Touch_def os_Read_def view_def split: if_splits option.splits)
  moreover have "f_bytes f \<noteq> ''''" "int (length (f_bytes f)) \<le> max_int64" using f(2) assms(2) by (auto simp: verified_bytes_def texts_ok_def)
  moreover have "valid_utf8 ''ok''" by (rule valid_utf8_ascii) simp
  ultimately show ?thesis
    using 1(4) f(4) assms(2,3) backup_name_utf8
    by (cases "f_bytes f") (auto simp: manifest_args_def manifest_ok_def texts_ok_def env_ok_def in_int64_def)
qed

lemma evolves_record:
  assumes "manifest_args m"
  shows "evolves s_db (recorded E audit) (RecordBackupCreated E m audit)"
  unfolding evolves_def
proof (intro allI impI)
  fix s r s'
  assume c: "RecordBackupCreated E m audit s = (r, s')"
  show "recorded E audit (s_db s) (s_db s')"
  proof (cases r)
    case (Inl e)
    then show ?thesis using RecordBackupCreated_Inl c recorded_refl by metis
  next
    case (Inr u)
    have "manifest_ok m" using assms by (simp add: manifest_args_def)
    note log = RecordBackupCreated_Inr(1) [OF c [unfolded Inr] this]
    have "attributed audit (s_db s) (s_db s')" unfolding log by (rule attributed_log) (simp_all add: events_audit)
    moreover have "history_kept (s_db s) (s_db s') \<and> one_event (s_db s) (s_db s')" unfolding log using history_refl history_log one_event_log by blast
    ultimately show ?thesis using keep_backup_created [OF c _ assms] by (simp add: recorded_def)
  qed
qed

lemma evolves_core: "evolves s_db (recorded E audit) t \<Longrightarrow> evolves core (recorded_core E audit) (storeT t)"
  unfolding evolves_iff by (auto simp: core_def recorded_core_def storeT_def split: prod.splits) (metis snd_conv)

lemma evolves_BackupWithRetention:
  assumes "texts_ok E Q" "env_ok E"
  shows "evolves core (recorded_core E audit) (BackupWithRetention E Q path dir keep minAge audit)"
proof -
  let ?R = "recorded_core E audit"
  note refl = recorded_core_refl
  have create: "evolves core ?R (createBackup E Q k minAge audit)" for k
    unfolding createBackup_def Let_def
  proof (rule evolves_after [OF _ refl], rule same_core_store, rule same_query)
    fix now
    assume "yields (storeT (nowT E)) now"
    then obtain n where now: "now = clock E n" by (auto simp: yields_def storeT_Inr nowT_Inr)
    have body: "evolves core ?R (bindT (publish_database E Q (backup_name now) now)
      (\<lambda>manifest. bindT (storeT (attemptT (RecordBackupCreated E manifest audit)))
      (\<lambda>recorded. bindT (publish_manifest E (backup_name now) (manifest\<lparr>bm_AuditRecorded := \<not> isl recorded\<rparr>))
      (\<lambda>_. bindT (rotateBackupsWithAge E k minAge now) (\<lambda>_. returnT (manifest\<lparr>bm_AuditRecorded := \<not> isl recorded\<rparr>))))))"
    proof (rule evolves_after [OF same_core_files(6) refl], rule evolves_before)
      fix m
      assume "yields (publish_database E Q (backup_name now) now) m"
      then have "manifest_args m" using publish_database_manifest assms now by blast
      then show "evolves core ?R (storeT (attemptT (RecordBackupCreated E m audit)))" by (intro evolves_core evolves_attempt evolves_record)
    qed (intro same_core same_core_files)
    show "evolves core ?R (bindT (ignoreT (osT E (os_Remove (backup_name now @ ''.tmp''))))
      (\<lambda>_. bindT (onErrorT (osT E (os_Remove (backup_name now @ ''.tmp''))) (annotateT ''vacuum into'' (vacuumInto E Q (backup_name now @ ''.tmp''))))
      (\<lambda>_. deferT (osT E (os_Remove (backup_name now @ ''.tmp''))) (bindT (publish_database E Q (backup_name now) now)
      (\<lambda>manifest. bindT (storeT (attemptT (RecordBackupCreated E manifest audit)))
      (\<lambda>recorded. bindT (publish_manifest E (backup_name now) (manifest\<lparr>bm_AuditRecorded := \<not> isl recorded\<rparr>))
      (\<lambda>_. bindT (rotateBackupsWithAge E k minAge now) (\<lambda>_. returnT (manifest\<lparr>bm_AuditRecorded := \<not> isl recorded\<rparr>)))))))))"
      by (rule evolves_after [OF _ refl], intro same_core, rule evolves_after [OF _ refl], intro same_core same_core_files,
          rule evolves_defer [OF body], rule same_core_os)
  qed
  have keep: "evolves core ?R (case existing of Some manifest \<Rightarrow> returnT manifest | None \<Rightarrow>
      bindT (openBackupConnection E path) (\<lambda>_. bindT (integrityCheckDB E Q) (\<lambda>_. bindT (storeT (queryT E (\<lambda>db. ()))) (\<lambda>_. createBackup E Q k minAge audit))))" for existing k
  proof (cases existing)
    case None
    show ?thesis unfolding None option.case
      by (rule evolves_after [OF same_core_files(8) refl], rule evolves_after [OF same_core_files(7) refl],
          rule evolves_after [OF same_core_store [OF same_query(1)] refl], rule create)
  qed (simp add: same_evolves [OF same_basic(1) refl])
  have throw: "evolves core ?R (throwT e)" for e by (rule same_evolves [OF same_basic(2) refl])
  show ?thesis
    unfolding BackupWithRetention_def Let_def
    by (auto intro!: throw keep evolves_after [OF evolves_annotate [OF same_core_os] refl] evolves_after [OF same_core_files(2) refl]
        evolves_after [OF same_core_checks(4) refl])
qed

section \<open>What decoding gives\<close>

lemma set_members_keeps:
  assumes "set_members upd ms x = Some y" "P x" "\<And>k raw a b. upd k raw a = Some b \<Longrightarrow> P a \<Longrightarrow> P b"
  shows "P y"
  using assms(1,2)
proof (induction ms arbitrary: x)
  case (Cons m ms)
  obtain k raw where m: "m = (k, raw)" by (cases m)
  with Cons.prems obtain x1 where "upd k raw x = Some x1" "set_members upd ms x1 = Some y" by (auto split: option.splits)
  then show ?case using Cons assms(3) by blast
qed simp

lemma unmarshal_struct_keeps:
  assumes "unmarshal_struct names upd x s = Some y" "P x" "\<And>f raw a b. upd f raw a = Some b \<Longrightarrow> P a \<Longrightarrow> P b"
  shows "P y"
  using assms(1,2) unfolding unmarshal_struct_def
  by (auto split: option.splits json.splits elim!: set_members_keeps [where P = P] dest: assms(3))

lemma decode_strict_keeps:
  assumes "decode_strict names upd x s = Some y" "P x" "\<And>f raw a b. upd f raw a = Some b \<Longrightarrow> P a \<Longrightarrow> P b"
  shows "P y"
  using assms(1,2) unfolding decode_strict_def
  by (auto split: option.splits json.splits elim!: set_members_keeps [where P = P] dest: assms(3))

lemma dec_string_utf8: "dec_string raw old = Some s \<Longrightarrow> valid_utf8 old \<Longrightarrow> valid_utf8 s"
  by (auto simp: dec_string_def dest!: json_parse_wf split: option.splits json.splits)

lemma decoded_run: "decodeJSON_maintenance r = Some q \<Longrightarrow> create_args (created_run q)"
proof -
  assume "decodeJSON_maintenance r = Some q"
  then have "valid_utf8 (mrq_ChangeTicket q) \<and> valid_utf8 (mrq_WorkflowVersion q)"
    unfolding decodeJSON_maintenance_def
    by (auto split: option.splits if_splits simp: set_maintenanceRequest_def
        elim!: decode_strict_keeps [where P = "\<lambda>q. valid_utf8 (mrq_ChangeTicket q) \<and> valid_utf8 (mrq_WorkflowVersion q)"])
      (metis dec_string_utf8)+
  then show ?thesis by (simp add: create_args_def created_run_def)
qed

lemma decoded_change: "change_request r = Inr (change, pre) \<Longrightarrow> change_args change"
proof -
  assume "change_request r = Inr (change, pre)"
  then obtain q where q: "decodeJSON_change r = Some q" "change = storeValue q"
    by (auto simp: change_request_def split: option.splits if_splits sum.splits)
  then have "valid_utf8 (scr_Justification q)"
    unfolding decodeJSON_change_def
    by (auto split: option.splits if_splits simp: set_stateChangeRequest_def
        elim!: decode_strict_keeps [where P = "\<lambda>q. valid_utf8 (scr_Justification q)"])
      (metis dec_string_utf8)
  with q show ?thesis by (simp add: change_args_def storeValue_def)
qed

lemma decoded_object: "decodeJSONObject r limit = Some payload \<Longrightarrow> payload = rq_body r"
  by (auto simp: decodeJSONObject_def readBody_def Let_def split: if_splits option.splits)

lemma fold_empty: "fold_name s = '''' \<longleftrightarrow> s = ''''"
  by (cases s) simp_all

lemma artifact_args:
  assumes "yields (BackupArtifact E Q name) (path, m)" "texts_ok E Q"
  shows "download_args m" "valid_utf8 name" "name \<noteq> ''''"
proof -
  obtain w w' where "BackupArtifact E Q name w = (Inr (path, m), w')" using assms(1) by (auto simp: yields_def)
  then obtain f g :: inode where a: "artifact_database name = Some (bm_Filename m)" "digest_matches E (f_bytes f) m" "verified_bytes E Q (f_bytes f)"
    "unmarshal_BackupManifest (f_bytes g) = Some m" by (rule BackupArtifact_Inr) blast
  have n: "list_all artifact_char name" "name \<noteq> ''''" using a(1) by (auto simp: artifact_database_def split: if_splits)
  have "byte_val c < 0x80" if "artifact_char c" for c using that by (auto simp: artifact_char_def less_eq_char_def)
  then show "valid_utf8 name" "name \<noteq> ''''" using n by (auto intro!: valid_utf8_ascii simp: list_all_iff)
  have "valid_utf8 (bm_Filename m) \<and> valid_utf8 (bm_SHA256 m)"
    using a(4) unfolding unmarshal_BackupManifest_def
    by (auto elim!: unmarshal_struct_keeps [where P = "\<lambda>m. valid_utf8 (bm_Filename m) \<and> valid_utf8 (bm_SHA256 m)"]
        simp: zero_BackupManifest_def set_BackupManifest_def split: if_splits)
      (metis dec_string_utf8)+
  moreover have f: "f_bytes f \<noteq> ''''" "int (length (f_bytes f)) \<le> max_int64" "sha256_hex E (f_bytes f) \<noteq> ''''"
    using a(3) assms(2) by (auto simp: verified_bytes_def texts_ok_def)
  moreover have d: "int (length (f_bytes f)) = bm_Bytes m" "EqualFold (sha256_hex E (f_bytes f)) (bm_SHA256 m)"
    using a(2) by (simp_all add: digest_matches_def)
  moreover have "bm_SHA256 m \<noteq> ''''" using f(3) d(2) fold_empty unfolding EqualFold_def by metis
  ultimately show "download_args m"
    by (cases "f_bytes f") (simp_all add: download_args_def in_int64_def)
qed

section \<open>Handlers\<close>

lemma evolves_answer: "evolves f R call \<Longrightarrow> evolves f R (answerT E call ok)"
  unfolding answerT_def by (rule evolves_before [OF evolves_attempt same_basic(1)])

lemma evolves_attempted:
  assumes "same f m" "\<And>x. R x x" "\<And>e. evolves f R (g (Inl e))" "\<And>x. yields m x \<Longrightarrow> evolves f R (g (Inr x))"
  shows "evolves f R (bindT (attemptT m) g)"
proof (rule evolves_after [OF evolves_attempt [OF assms(1)] assms(2)])
  fix x
  assume "yields (attemptT m) x"
  then obtain s where s: "fst (m s) = x" by (auto simp: yields_def attemptT_def split_beta)
  show "evolves f R (g x)"
  proof (cases x)
    case (Inr y)
    then have "m s = (Inr y, snd (m s))" using s by (metis prod.collapse)
    then have "yields m y" unfolding yields_def by blast
    then show ?thesis using assms(4) Inr by simp
  qed (simp add: assms(3))
qed

lemma evolves_return: "(\<And>x. R x x) \<Longrightarrow> evolves f R (returnT y)"
  by (rule same_evolves [OF same_basic(1)])

text \<open>A handler always has a response.\<close>

definition responds :: "response io \<Rightarrow> bool" where
  "responds m \<longleftrightarrow> (\<forall>w. \<exists>resp w'. m w = (Inr resp, w'))"

lemma responds_basic: "responds (returnT resp)" "responds (answerT E call ok)"
  "(\<And>x. responds (g x)) \<Longrightarrow> responds (bindT (attemptT m) g)"
  by (auto simp: responds_def returnT_def answerT_def bindT_def attemptT_def split: prod.splits)

lemma handle_responds: "responds (handle E Q N s cx r e vs)"
  by (cases e) (auto simp: handle_def handleHealth_def handleReady_def handleVersion_def handleMetrics_def handleListMaintenances_def
      handleCreateMaintenance_def handleGetMaintenance_def handleTransitionMaintenance_def handleGetCapture_def handleCaptureMaintenance_def
      handleGetTarget_def handleTransitionTarget_def handleAddTargetObservation_def handleListEvents_def handleCreateBackup_def
      handleBackupArtifact_def Let_def intro!: responds_basic split: option.splits sum.splits)

text \<open>Reads leave the store and the files as they are.\<close>

lemma handle_reads: "\<not> changes e \<Longrightarrow> same view (handle E Q N s cx r e vs)"
  by (cases e) (auto simp: changes_def handle_def handleHealth_def handleReady_def handleVersion_def handleMetrics_def handleListMaintenances_def
      handleGetMaintenance_def handleGetCapture_def handleGetTarget_def handleListEvents_def Let_def
      intro!: same_rules evolves_answer same_reads same_Ready split: option.splits sum.splits)

lemma handle_files: "e \<noteq> CreateBackupFile \<Longrightarrow> same w_files (handle E Q N s cx r e vs)"
proof (cases "changes e")
  case False
  then show ?thesis by (rule same_view_parts(3) [OF handle_reads])
next
  case True
  assume "e \<noteq> CreateBackupFile"
  with True show ?thesis
    by (cases e) (auto simp: changes_def handle_def handleCreateMaintenance_def handleTransitionMaintenance_def handleCaptureMaintenance_def
      handleTransitionTarget_def handleAddTargetObservation_def handleBackupArtifact_def Let_def
      intro!: same_bind same_basic evolves_attempt evolves_answer same_store_files same_view_parts(3) [OF same_BackupArtifact]
        same_view_parts(3) [OF same_ValidateOpened] same_view_parts(3) [OF same_os] split: option.splits sum.splits)
qed

lemma ok_statuses [simp]: "rs_status (writeJSON n h v) = n"
  by (simp add: writeJSON_def)

text \<open>Outside of the backup routes, an error status means that the store is as it was.\<close>

lemma handle_refused:
  assumes "handle E Q N s cx r e vs w = (Inr resp, w')" "\<not> backups e" "400 \<le> rs_status resp"
  shows "db_of w' = db_of w"
proof (cases "changes e")
  case False
  have "view w = view w'" by (rule evolvesD [OF handle_reads [OF False] assms(1)])
  then show ?thesis by (simp add: view_def)
next
  case True
  note ok = returnT_def etag_header_def
  consider "e = CreateMaintenanceRun" | "e = TransitionRun" | "e = CaptureRun" | "e = TransitionRunTarget" | "e = ObserveTarget"
    using True assms(2) unfolding changes_def backups_def by blast
  then show ?thesis
  proof cases
    case 1
    then show ?thesis using assms(1,3)
      by (auto simp: handle_def Let_def handleCreateMaintenance_def ok split: option.splits if_splits dest: create.refused_call)
  next
    case 2
    then show ?thesis using assms(1,3)
      by (auto simp: handle_def Let_def handleTransitionMaintenance_def ok split: sum.splits if_splits dest: transition.refused_call)
  next
    case 3
    then show ?thesis using assms(1,3)
      by (auto simp: handle_def Let_def handleCaptureMaintenance_def ok split: option.splits if_splits dest: capture.refused_call)
  next
    case 4
    then show ?thesis using assms(1,3)
      by (auto simp: handle_def Let_def handleTransitionTarget_def ok split: sum.splits if_splits dest: target.refused_call)
  next
    case 5
    then show ?thesis using assms(1,3)
      by (auto simp: handle_def Let_def handleAddTargetObservation_def ok split: option.splits sum.splits if_splits dest: observe.refused_call)
  qed
qed

text \<open>Whatever the request, the database evolves as recorded, with the audit context of the request.\<close>

definition request_ok :: "request \<Rightarrow> bool" where
  "request_ok r \<longleftrightarrow> capture_args (capture_of_payload (rq_body r))"

lemma evolves_download:
  assumes "yields (BackupArtifact E Q name) (path, m)" "texts_ok E Q" "env_ok E"
  shows "evolves s_db (recorded E audit) (RecordBackupDownload E m name audit)"
  unfolding evolves_def
proof (intro allI impI)
  fix s r s'
  assume c: "RecordBackupDownload E m name audit s = (r, s')"
  show "recorded E audit (s_db s) (s_db s')"
  proof (cases r)
    case (Inl e)
    then show ?thesis using RecordBackupDownload_Inl c recorded_refl by metis
  next
    case (Inr u)
    obtain n where log: "s_db s' = log_event (backup_event_of ''backup.downloaded'' m (download_payload m name) (clock E n) audit) (s_db s)"
      using RecordBackupDownload_Inr [OF c [unfolded Inr]] by blast
    have "attributed audit (s_db s) (s_db s')" unfolding log by (rule attributed_log) (simp_all add: events_audit)
    moreover have "history_kept (s_db s) (s_db s') \<and> one_event (s_db s) (s_db s')" unfolding log using history_refl history_log one_event_log by blast
    ultimately show ?thesis using keep_backup_download [OF c _ assms(3) artifact_args [OF assms(1,2)]] by (simp add: recorded_def)
  qed
qed

lemma handle_recorded:
  assumes "env_ok E" "texts_ok E Q" "request_ok r"
  shows "evolves core (recorded_core E (auditContext cx)) (handle E Q N s cx r e vs)"
proof (cases "changes e")
  case False
  then show ?thesis by (rule same_evolves [OF same_core_view [OF handle_reads] recorded_core_refl])
next
  case True
  let ?R = "recorded_core E (auditContext cx)"
  note refl = recorded_core_refl
  note intros = evolves_answer evolves_core evolves_return refl
  have download: "evolves core ?R (handleBackupArtifact E Q N s (auditContext cx) r f)" for f
  proof -
    have rec: "evolves core ?R (bindT (ValidateOpenedBackupArtifact E (Some h) f m) (\<lambda>_. storeT (RecordBackupDownload E m f (auditContext cx))))"
      if "yields (BackupArtifact E Q f) (path, m)" for path m h
      by (rule evolves_after [OF same_core_checks(5) refl], rule evolves_core, rule evolves_download [OF that assms(2,1)])
    show ?thesis
      unfolding handleBackupArtifact_def
      by (auto intro!: intros evolves_attempted [OF same_core_checks(2) refl] evolves_attempted [OF same_core_os refl]
          evolves_before [OF evolves_attempt [OF rec]] same_core split: sum.splits)
  qed
  have backup: "evolves core ?R (handleCreateBackup E Q s path (auditContext cx))" for path
    unfolding handleCreateBackup_def by (auto intro!: intros evolves_BackupWithRetention assms)
  have capture: "capture_args (capture_of_payload payload)" if "decodeJSONObject r limit = Some payload" for payload limit
    using assms(3) decoded_object [OF that] by (simp add: request_ok_def)
  have writes: "evolves core ?R (handleCreateMaintenance E (auditContext cx) r)" "evolves core ?R (handleTransitionMaintenance E (auditContext cx) r i)"
    "evolves core ?R (handleCaptureMaintenance E (auditContext cx) r i)" "evolves core ?R (handleTransitionTarget E (auditContext cx) r i t)"
    "evolves core ?R (handleAddTargetObservation E (auditContext cx) r i t)" for i t
    unfolding handleCreateMaintenance_def handleTransitionMaintenance_def handleCaptureMaintenance_def handleTransitionTarget_def handleAddTargetObservation_def
    by (auto intro!: intros create.evolves_call transition.evolves_call capture.evolves_call target.evolves_call observe.evolves_call assms
        dest: decoded_run decoded_change capture split: option.splits sum.splits)
  from True show ?thesis
    by (cases e) (simp_all add: handle_def Let_def changes_def download backup writes)
qed

section \<open>Requests\<close>

lemma Require_Inr: "Require p role = Inr u \<longleftrightarrow> role_rank role \<le> role_rank (p_Role p)"
  by (auto simp: Require_def)

lemma handle_unchanged:
  assumes "handle E Q N s cx r e vs w = (res, w')" "\<not> changes e"
  shows "\<exists>resp. res = Inr resp \<and> view w' = view w"
  using evolvesD [OF handle_reads [OF assms(2)] assms(1)] handle_responds [unfolded responds_def, rule_format, of E Q N s cx r e vs w] assms(1)
  by auto

lemma mux_effect:
  assumes "mux_ServeHTTP E Q N s cx r w = (res, w')"
  shows "\<exists>resp. res = Inr resp \<and> (view w' = view w
    \<or> (\<exists>p rt vs. cx_principal cx = Some p \<and> mux_route r = Found rt vs \<and> changes (rt_endpoint rt)
        \<and> needs rt \<le> nat (role_rank (p_Role p)) \<and> handle E Q N s cx r (rt_endpoint rt) vs w = (Inr resp, w')))"
proof (cases "mux_route r")
  case (Found rt vs)
  note rt = mux_route_listed [OF Found]
  show ?thesis
  proof (cases "rt_role rt")
    case None
    then have "\<not> changes (rt_endpoint rt)" using routes_open [OF rt] by (auto simp: changes_def)
    moreover have "handle E Q N s cx r (rt_endpoint rt) vs w = (res, w')" using assms Found None by (simp add: mux_ServeHTTP_def)
    ultimately show ?thesis using handle_unchanged by blast
  next
    case (Some role)
    show ?thesis
    proof (cases "cx_principal cx = None \<or> (\<exists>p e. cx_principal cx = Some p \<and> Require p role = Inl e)")
      case True
      then show ?thesis using assms Found Some by (auto simp: mux_ServeHTTP_def api_require_def returnT_def)
    next
      case False
      then obtain p where p0: "cx_principal cx = Some p" "\<forall>e. Require p role \<noteq> Inl e" by auto
      then have p: "cx_principal cx = Some p" "Require p role = Inr ()" by (auto simp: Require_def split: if_splits)
      then have h: "handle E Q N s cx r (rt_endpoint rt) vs w = (res, w')" using assms Found Some by (simp add: mux_ServeHTTP_def api_require_def)
      have "needs rt \<le> nat (role_rank (p_Role p))" using p(2) Some by (simp add: needs_def Require_Inr nat_mono)
      moreover obtain resp where "res = Inr resp" using handle_responds [unfolded responds_def] h by (metis prod.inject)
      ultimately show ?thesis using handle_unchanged [OF h] p h Found by (cases "changes (rt_endpoint rt)") auto
    qed
  qed
qed (use assms in \<open>auto simp: mux_ServeHTTP_def returnT_def\<close>)

text \<open>What is served either leaves everything as it was, or is the handling of an authenticated request on a
  route that its principal may use.\<close>

definition uncached :: "response \<Rightarrow> response" where
  "uncached = set_before (''Cache-Control'', ''no-store'')"

lemma serve_effect:
  assumes "serve E Q N s rid r w = (res, w')"
  shows "\<exists>resp. res = Inr resp \<and> (view w' = view w
    \<or> (\<exists>p rt vs resp'. Authenticate (sha256_hex E) (sv_auth s) (header_Get r ''Authorization'') = Inr p
        \<and> (sv_ready s \<or> rq_method r = ''GET'' \<or> rq_method r = ''HEAD'') \<and> mux_route r = Found rt vs \<and> changes (rt_endpoint rt)
        \<and> needs rt \<le> nat (role_rank (p_Role p)) \<and> resp = uncached resp'
        \<and> handle E Q N s \<lparr>cx_principal = Some p, cx_requestID = rid\<rparr> r (rt_endpoint rt) vs w = (Inr resp', w')))"
proof (cases "isAPIPath (url_Path r)")
  case False
  then show ?thesis using assms mux_effect [of E Q N s "\<lparr>cx_principal = None, cx_requestID = rid\<rparr>" r w res w'] by (auto simp: serve_def Let_def)
next
  case True
  show ?thesis
  proof (cases "Authenticate (sha256_hex E) (sv_auth s) (header_Get r ''Authorization'')")
    case (Inl e)
    then show ?thesis using assms True by (auto simp: serve_def Let_def returnT_def split: if_splits)
  next
    case (Inr p)
    let ?cx = "\<lparr>cx_principal = Some p, cx_requestID = rid\<rparr>"
    obtain m w1 where m: "mux_ServeHTTP E Q N s ?cx r w = (m, w1)" by (cases "mux_ServeHTTP E Q N s ?cx r w")
    obtain resp where resp: "m = Inr resp" using mux_effect [OF m] by blast
    show ?thesis
    proof (cases "sv_auth s = None \<or> sv_store s = None \<or> (\<not> sv_ready s \<and> rq_method r \<noteq> ''GET'' \<and> rq_method r \<noteq> ''HEAD'')")
      case True
      then show ?thesis using assms \<open>isAPIPath (url_Path r)\<close> Inr by (auto simp: serve_def Let_def returnT_def split: if_splits)
    next
      case False
      then have "res = Inr (uncached resp)" "w' = w1"
        using assms True Inr m resp by (auto simp: serve_def Let_def bindT_def returnT_def uncached_def split: if_splits)
      then show ?thesis using mux_effect [OF m] resp Inr False by auto
    qed
  qed
qed

lemma ServeHTTP_effect:
  assumes "ServeHTTP E Q N r (s, w) = (resp, s', w')"
  shows "\<exists>rid rest. rs_header resp = (''X-Request-ID'', rid) # rest \<and> (view w' = view w
    \<or> (\<exists>p rt vs resp'. Authenticate (sha256_hex E) (sv_auth s) (header_Get r ''Authorization'') = Inr p
        \<and> (sv_ready s \<or> rq_method r = ''GET'' \<or> rq_method r = ''HEAD'') \<and> mux_route r = Found rt vs \<and> changes (rt_endpoint rt)
        \<and> needs rt \<le> nat (role_rank (p_Role p)) \<and> rs_status resp = rs_status resp'
        \<and> handle E Q N (s\<lparr>sv_requests := sv_requests s + 1\<rparr>) \<lparr>cx_principal = Some p, cx_requestID = rid\<rparr> r (rt_endpoint rt) vs w = (Inr resp', w')))"
proof -
  let ?s = "s\<lparr>sv_requests := sv_requests s + 1\<rparr>"
  let ?rid = "requestID (net_random N (s_ticks (w_session w))) (UnixNano (clock E (s_ticks (w_session w)))) r"
  obtain res w1 where served: "serve E Q N ?s ?rid r w = (res, w1)" by (cases "serve E Q N ?s ?rid r w")
  note effect = serve_effect [OF served]
  then obtain resp1 where res: "res = Inr resp1" by blast
  have "w' = w1" "resp = with_header (''X-Request-ID'', ?rid) resp1" using assms served res by (simp_all add: ServeHTTP_def Let_def)
  with effect res show ?thesis by (intro exI [of _ ?rid] exI [of _ "rs_header resp1"]) (auto simp: with_header_def set_before_def uncached_def)
qed

lemma needs_Require: "2 \<le> nat (role_rank (p_Role p)) \<Longrightarrow> Require p ''operator'' = Inr ()" "3 \<le> nat (role_rank (p_Role p)) \<Longrightarrow> Require p ''admin'' = Inr ()"
  by (auto simp: Require_Inr role_rank_def split: if_splits)

text \<open>C4: Only an authenticated principal with the role of an operator changes the store, and only one with
  the role of an admin the backup directory; while the service is draining, nothing is changed but by a GET or HEAD
  request on the route that downloads a backup, and that changes no file.\<close>

theorem api_changes_authorized:
  assumes "ServeHTTP E Q N r (s, w) = (resp, s', w')" "view w' \<noteq> view w"
  shows "\<exists>p. Authenticate (sha256_hex E) (sv_auth s) (header_Get r ''Authorization'') = Inr p \<and> Require p ''operator'' = Inr ()
    \<and> (w_files w' \<noteq> w_files w \<longrightarrow> Require p ''admin'' = Inr ())
    \<and> (sv_ready s \<or> (rq_method r = ''GET'' \<or> rq_method r = ''HEAD'') \<and> w_files w' = w_files w
        \<and> (\<exists>rt vs. mux_route r = Found rt vs \<and> rt_endpoint rt = DownloadBackup))"
proof -
  obtain rid p rt vs resp' where a: "Authenticate (sha256_hex E) (sv_auth s) (header_Get r ''Authorization'') = Inr p"
    "sv_ready s \<or> rq_method r = ''GET'' \<or> rq_method r = ''HEAD''" "mux_route r = Found rt vs" "changes (rt_endpoint rt)"
    "needs rt \<le> nat (role_rank (p_Role p))"
    "handle E Q N (s\<lparr>sv_requests := sv_requests s + 1\<rparr>) \<lparr>cx_principal = Some p, cx_requestID = rid\<rparr> r (rt_endpoint rt) vs w = (Inr resp', w')"
    using ServeHTTP_effect [OF assms(1)] assms(2) by blast
  note roles = routes_roles [OF mux_route_listed [OF a(3)]]
  have "w_files w' = w_files w" if "rt_endpoint rt \<noteq> CreateBackupFile" using evolvesD [OF handle_files [OF that] a(6)] by simp
  moreover have "Require p ''operator'' = Inr ()" using roles(1) [OF a(4)] a(5) by (intro needs_Require) simp
  moreover have "Require p ''admin'' = Inr ()" if "rt_endpoint rt = CreateBackupFile"
    using roles(2) a(5) that by (intro needs_Require) (simp add: backups_def)
  moreover have "rt_endpoint rt = DownloadBackup" if "rq_method r = ''GET'' \<or> rq_method r = ''HEAD''"
    by (rule routes_reads [OF mux_route_listed [OF a(3)] a(4)]) (use mux_route_method [OF a(3)] that in auto)
  ultimately show ?thesis using a(1-3) by (metis endpoint.distinct(1) endpoint.simps)
qed

text \<open>C5: On a store with the invariant every request leaves at most one event in the journal, which carries the name and role of the
  principal that was authenticated and the request id that the response reports; earlier events, and
  the rows of the store, change only as history allows. The hypothesis on the request concerns the instants of a capture.\<close>

theorem api_attributed:
  assumes "ServeHTTP E Q N r (s, w) = (resp, s', w')" "env_ok E" "texts_ok E Q" "request_ok r" "db_inv E (db_of w)"
  shows "history_kept (db_of w) (db_of w') \<and> (db_of w' = db_of w
    \<or> (\<exists>p rid row. Authenticate (sha256_hex E) (sv_auth s) (header_Get r ''Authorization'') = Inr p
        \<and> hd (rs_header resp) = (''X-Request-ID'', rid) \<and> events_t (db_of w') = events_t (db_of w) @ [row]
        \<and> (er_actor row, er_role row, er_request_id row) = auditValues \<lparr>a_Actor = p_Name p, a_Role = p_Role p, a_RequestID = rid\<rparr>))"
proof -
  obtain rid rest where h: "rs_header resp = (''X-Request-ID'', rid) # rest" and e: "view w' = view w
    \<or> (\<exists>p rt vs resp'. Authenticate (sha256_hex E) (sv_auth s) (header_Get r ''Authorization'') = Inr p
        \<and> handle E Q N (s\<lparr>sv_requests := sv_requests s + 1\<rparr>) \<lparr>cx_principal = Some p, cx_requestID = rid\<rparr> r (rt_endpoint (rt :: route)) vs w = (Inr resp', w'))"
    using ServeHTTP_effect [OF assms(1)] by blast
  from e show ?thesis
  proof (elim disjE exE conjE)
    assume "view w' = view w"
    then show ?thesis by (simp add: view_def history_refl)
  next
    fix p rt vs resp'
    assume a: "Authenticate (sha256_hex E) (sv_auth s) (header_Get r ''Authorization'') = Inr p"
      "handle E Q N (s\<lparr>sv_requests := sv_requests s + 1\<rparr>) \<lparr>cx_principal = Some p, cx_requestID = rid\<rparr> r (rt_endpoint rt) vs w = (Inr resp', w')"
    let ?audit = "\<lparr>a_Actor = p_Name p, a_Role = p_Role p, a_RequestID = rid\<rparr>"
    have "history_kept (db_of w) (db_of w') \<and> one_event (db_of w) (db_of w') \<and> attributed ?audit (db_of w) (db_of w')"
      using evolvesD [OF handle_recorded [OF assms(2,3,4)] a(2)] assms(5) by (simp add: recorded_core_def recorded_def core_def auditContext_def)
    then show ?thesis using a(1) h by (auto simp: one_event_def attributed_def)
  qed
qed

text \<open>C6: A response with an error status, on every route but those of backups, means that nothing was
  changed.\<close>

theorem api_errors_change_nothing:
  assumes "ServeHTTP E Q N r (s, w) = (resp, s', w')" "400 \<le> rs_status resp"
    "\<forall>rt vs. mux_route r = Found rt vs \<longrightarrow> rt_endpoint rt \<noteq> CreateBackupFile \<and> rt_endpoint rt \<noteq> DownloadBackup"
  shows "db_of w' = db_of w \<and> w_files w' = w_files w"
proof -
  consider "view w' = view w" | rid p rt vs resp' where "mux_route r = Found rt vs" "rs_status resp = rs_status resp'"
    "handle E Q N (s\<lparr>sv_requests := sv_requests s + 1\<rparr>) \<lparr>cx_principal = Some p, cx_requestID = rid\<rparr> r (rt_endpoint rt) vs w = (Inr resp', w')"
    using ServeHTTP_effect [OF assms(1)] by blast
  then show ?thesis
  proof cases
    case (2 rid p rt vs resp')
    have "\<not> backups (rt_endpoint rt)" "rt_endpoint rt \<noteq> CreateBackupFile" using assms(3) 2(1) by (auto simp: backups_def)
    then show ?thesis using handle_refused [OF 2(3)] evolvesD [OF handle_files 2(3)] assms(2) 2(2) by simp
  qed (simp add: view_def)
qed

section \<open>Sequences of requests\<close>

fun serve_all :: "env \<Rightarrow> sqlite \<Rightarrow> net \<Rightarrow> request list \<Rightarrow> Server \<times> world \<Rightarrow> Server \<times> world" where
  "serve_all E Q N [] sw = sw"
| "serve_all E Q N (r # rs) sw = serve_all E Q N rs (snd (ServeHTTP E Q N r sw))"

lemma ServeHTTP_core:
  assumes "ServeHTTP E Q N r (s, w) = (resp, s', w')" "env_ok E" "texts_ok E Q" "request_ok r"
  shows "db_inv E (db_of w) \<longrightarrow> db_inv E (db_of w')" "w_schema w' = w_schema w"
proof -
  have "view w' = view w \<or> (\<exists>audit. recorded_core E audit (core w) (core w'))"
    using ServeHTTP_effect [OF assms(1)] evolvesD [OF handle_recorded [OF assms(2,3,4)]] by blast
  then show "db_inv E (db_of w) \<longrightarrow> db_inv E (db_of w')" "w_schema w' = w_schema w"
    by (auto simp: view_def recorded_core_def recorded_def core_def)
qed

lemma serve_all_inv:
  assumes "env_ok E" "texts_ok E Q" "\<forall>r \<in> set rs. request_ok r"
  shows "db_inv E (db_of w) \<Longrightarrow> db_inv E (db_of (snd (serve_all E Q N rs (s, w))))
    \<and> w_schema (snd (serve_all E Q N rs (s, w))) = w_schema w"
  using assms(3)
proof (induction rs arbitrary: s w)
  case (Cons r rs)
  obtain resp s' w' where a: "ServeHTTP E Q N r (s, w) = (resp, s', w')" by (cases "ServeHTTP E Q N r (s, w)") auto
  note step = ServeHTTP_core [OF a assms(1,2)]
  then show ?case using Cons a by simp
qed simp

text \<open>C3: Verification accepts the store after any sequence of requests to a new one, by whomever and whatever failed
  meanwhile, provided that no request brings a capture of a target observed outside the years 1 to 9999 in UTC
  (\<open>request_ok\<close>): the code stores such an instant unchecked, and its text cannot be read back.\<close>

theorem served_store_verifies:
  assumes "env_ok E" "texts_ok E Q" "\<forall>r \<in> set rs. request_ok r"
    and "db_of w = empty_db" "w_schema w = initializeSchema empty_schema" "serve_all E Q N rs (s, w) = (s', w')"
  shows "fst (verifyApplicationData (E\<lparr>fault := (\<lambda>n. False)\<rparr>) (w_schema w') (w_session w')) = Inr ()"
proof -
  have "db_inv E (db_of w') \<and> w_schema w' = w_schema w"
    using serve_all_inv [OF assms(1,2,3), where w = w and s = s and N = N] assms(4,6) db_inv_empty by simp
  then show ?thesis
    using db_inv_verifies [of "E\<lparr>fault := (\<lambda>n. False)\<rparr>" "w_session w'" "w_schema w'"] required_schema_initialized assms(5)
    by (simp add: db_inv_fault)
qed

section \<open>A sample request\<close>

definition ops_token :: auth_token where
  "ops_token = \<lparr>tk_name = ''ops'', tk_role = ''operator'', tk_value = ''secret''\<rparr>"

definition sample_server :: Server where
  "sample_server = api_New (Some ''/db'') (Some [ops_token]) ''1.0'' ''/backups'' 7 0"

definition sample_net :: net where
  "sample_net = \<lparr>net_content = (\<lambda>r t resp. resp), net_random = (\<lambda>n. None)\<rparr>"

definition sample_post :: request where
  "sample_post = \<lparr>rq_method = ''POST'', rq_escaped = ''/api/v1/maintenance'', rq_query = '''',
     rq_header = (\<lambda>name. if name = ''Authorization'' then [''Bearer secret''] else if name = ''X-Request-ID'' then [''q1''] else []),
     rq_body = obj_text [(''maintenance_id'', quote ''r1'')], rq_body_error = False\<rparr>"

definition sample_principal :: Principal where
  "sample_principal = \<lparr>p_Name = ''ops'', p_Role = ''operator''\<rparr>"

lemma sample_parts:
  "mux_route sample_post = Found (api_route ''POST'' [Lit ''maintenance''] ''operator'' CreateMaintenanceRun) []"
  "isAPIPath (url_Path sample_post)" "Require sample_principal ''operator'' = Inr ()"
  "TrimSpace (header_Get sample_post ''X-Request-ID'') = ''q1''" "ContainsAny ''q1'' [CHR 0x0D, CHR 0x0A] = False" "TrimSpace ''r1'' = ''r1''"
  "sv_auth sample_server = Some [ops_token]" "sv_store sample_server = Some ''/db''" "sv_ready sample_server = True"
  "rq_method sample_post = ''POST''"
  by code_simp+

lemma sample_authenticated:
  "Authenticate (sha256_hex sample_env) (sv_auth sample_server) (header_Get sample_post ''Authorization'') = Inr sample_principal"
proof -
  have "TrimSpace ''Bearer secret'' = ''Bearer secret''" "TrimSpace ''secret'' = ''secret''" "EqualFold ''Bearer '' ''Bearer ''"
    "ContainsAny ''secret'' [CHR '' '', CHR 0x09, CHR 0x0D, CHR 0x0A] = False" by code_simp+
  then show ?thesis
    by (simp add: Authenticate_def sample_server_def api_New_def sample_post_def header_Get_def sample_env_def ops_token_def
        sample_principal_def maxTokenLen_def Let_def)
qed

lemma sample_decoded:
  "decodeJSON_maintenance sample_post
    = Some \<lparr>mrq_MaintenanceID = ''r1'', mrq_ChangeTicket = '''', mrq_WorkflowVersion = '''', mrq_Metadata = ''''\<rparr>"
proof -
  have "length (rq_body sample_post) = 23" "rq_body_error sample_post = False" by code_simp+
  then have "readBody sample_post (2 * 1024 * 1024) = Some (rq_body sample_post)" by (auto simp: readBody_def Let_def)
  moreover have "decode_strict [''maintenance_id'', ''change_ticket'', ''workflow_version'', ''metadata'']
      set_maintenanceRequest \<lparr>mrq_MaintenanceID = '''', mrq_ChangeTicket = '''', mrq_WorkflowVersion = '''', mrq_Metadata = ''''\<rparr> (rq_body sample_post)
    = Some \<lparr>mrq_MaintenanceID = ''r1'', mrq_ChangeTicket = '''', mrq_WorkflowVersion = '''', mrq_Metadata = ''''\<rparr>" by code_simp
  ultimately show ?thesis by (simp add: decodeJSON_maintenance_def)
qed

lemma sample_served:
  "\<exists>resp s' w'. ServeHTTP sample_env sample_sqlite sample_net sample_post (sample_server, sample_world []) = (resp, s', w')
    \<and> rs_status resp = 201 \<and> db_of w' \<noteq> empty_db \<and> view w' \<noteq> view (sample_world [])"
proof -
  let ?q = "\<lparr>mrq_MaintenanceID = ''r1'', mrq_ChangeTicket = '''', mrq_WorkflowVersion = '''', mrq_Metadata = ''''\<rparr> :: maintenanceRequest"
  let ?audit = "\<lparr>a_Actor = ''ops'', a_Role = ''operator'', a_RequestID = ''q1''\<rparr>"
  have run: "created_run ?q = sample_run\<lparr>m_State := ''new''\<rparr>" by (simp add: created_run_def sample_run_def zero_Maintenance_def)
  have "\<exists>s'. CreateMaintenance sample_env (sample_run\<lparr>m_State := ''new''\<rparr>) ?audit sample_start = (Inr ((sample_run\<lparr>m_State := ''new''\<rparr>)\<lparr>m_State := ''new'',
     m_Metadata := render (JObj []), m_Version := 1, m_CreatedAt := clock sample_env (s_ticks sample_start),
     m_UpdatedAt := clock sample_env (s_ticks sample_start)\<rparr>), s')"
    by (rule create_succeeds)
      (use sample_env_ok in \<open>simp_all add: sample_run_def zero_Maintenance_def canonicalJSONDefault_Nil sample_start_def
        empty_db_def maintenance_by_id_def create_args_def maxNestingDepth_def clock_sample\<close>)
  then obtain m s' where c: "CreateMaintenance sample_env (created_run ?q) ?audit sample_start = (Inr m, s')" unfolding run by blast
  have "events_t (s_db s') \<noteq> []" using CreateMaintenance_Inr(7) [OF c] by simp
  then have "s_db s' \<noteq> empty_db" by (auto simp: empty_db_def)
  moreover have "requestID x n sample_post = ''q1''" for x n using sample_parts by (simp add: requestID_def)
  ultimately show ?thesis
    using sample_parts sample_authenticated c
    by (simp add: ServeHTTP_def Let_def serve_def mux_ServeHTTP_def bindT_def returnT_def api_require_def api_route_def handle_def
        handleCreateMaintenance_def sample_decoded answerT_def attemptT_def storeT_def auditContext_def sample_principal_def with_header_def set_before_def
        sample_world_def view_def sample_start_def)
qed

lemma sample_texts: "texts_ok sample_env sample_sqlite"
proof -
  have "valid_utf8 minimumSQLite" "valid_utf8 ''ok''" by (rule valid_utf8_ascii; simp add: minimumSQLite_def)+
  then show ?thesis by (simp add: texts_ok_def sample_sqlite_def sample_env_def max_int64_def)
qed

lemma sample_request_ok: "request_ok sample_post"
proof -
  have "canonicalJSONObject (rq_body sample_post) = Inr (rq_body sample_post)" by code_simp
  moreover have "isl (parseCaptureTargets (rq_body sample_post)) \<or> parseCaptureTargets (rq_body sample_post) = Inr []" by code_simp
  ultimately show ?thesis by (auto simp: request_ok_def capture_args_def capture_of_payload_def max_int64_def split: sum.splits)
qed

theorem api_changes_authorized_witness:
  "\<exists>resp s' w' p. ServeHTTP sample_env sample_sqlite sample_net sample_post (sample_server, sample_world []) = (resp, s', w')
    \<and> view w' \<noteq> view (sample_world []) \<and> Require p ''operator'' = Inr ()"
proof -
  obtain resp s' w' where s: "ServeHTTP sample_env sample_sqlite sample_net sample_post (sample_server, sample_world []) = (resp, s', w')"
    "view w' \<noteq> view (sample_world [])" using sample_served by blast
  from api_changes_authorized [OF s] s show ?thesis by blast
qed

theorem api_attributed_witness:
  "\<exists>resp s' w' (p :: Principal) rid row. ServeHTTP sample_env sample_sqlite sample_net sample_post (sample_server, sample_world []) = (resp, s', w')
    \<and> hd (rs_header resp) = (''X-Request-ID'', rid) \<and> events_t (db_of w') = [row]
    \<and> (er_actor row, er_role row, er_request_id row) = auditValues \<lparr>a_Actor = p_Name p, a_Role = p_Role p, a_RequestID = rid\<rparr>"
proof -
  obtain resp s' w' where s: "ServeHTTP sample_env sample_sqlite sample_net sample_post (sample_server, sample_world []) = (resp, s', w')"
    "db_of w' \<noteq> empty_db" using sample_served by blast
  have start: "db_of (sample_world []) = empty_db" by (simp add: sample_world_def sample_start_def)
  have "events_t empty_db = []" by (simp add: empty_db_def)
  with api_attributed [OF s(1) sample_env_ok(1) sample_texts sample_request_ok, unfolded start, OF db_inv_empty] s(2)
  obtain p :: Principal and rid row where "hd (rs_header resp) = (''X-Request-ID'', rid)" "events_t (db_of w') = [row]"
    "(er_actor row, er_role row, er_request_id row) = auditValues \<lparr>a_Actor = p_Name p, a_Role = p_Role p, a_RequestID = rid\<rparr>" by auto
  with s(1) show ?thesis by blast
qed

theorem api_errors_change_nothing_witness:
  "\<exists>resp s' w'. ServeHTTP sample_env sample_sqlite sample_net (sample_post\<lparr>rq_header := (\<lambda>name. [])\<rparr>) (sample_server, sample_world []) = (resp, s', w')
    \<and> 400 \<le> rs_status resp \<and> db_of w' = empty_db"
proof -
  let ?r = "sample_post\<lparr>rq_header := (\<lambda>name. [])\<rparr>"
  obtain resp s' w' where s: "ServeHTTP sample_env sample_sqlite sample_net ?r (sample_server, sample_world []) = (resp, s', w')"
    by (cases "ServeHTTP sample_env sample_sqlite sample_net ?r (sample_server, sample_world [])") auto
  have r: "mux_route ?r = Found (api_route ''POST'' [Lit ''maintenance''] ''operator'' CreateMaintenanceRun) []" "isAPIPath (url_Path ?r)" by code_simp+
  have "Authenticate (sha256_hex sample_env) (sv_auth sample_server) (header_Get ?r ''Authorization'') = Inl Unauthorized"
    by (simp add: Authenticate_def header_Get_def split: option.split)
  then have "rs_status resp = 401"
    using s r sample_parts by (auto simp: ServeHTTP_def Let_def serve_def returnT_def with_header_def set_before_def writeError_def split: if_splits)
  then have "400 \<le> rs_status resp" by simp
  with api_errors_change_nothing [OF s this] s r show ?thesis by (simp add: api_route_def sample_world_def sample_start_def)
qed

theorem served_store_verifies_witness:
  "\<exists>s' w'. serve_all sample_env sample_sqlite sample_net [sample_post] (sample_server, sample_world []) = (s', w') \<and> db_of w' \<noteq> empty_db
    \<and> fst (verifyApplicationData (sample_env\<lparr>fault := (\<lambda>n. False)\<rparr>) (w_schema w') (w_session w')) = Inr ()"
proof -
  obtain resp s' w' where s: "ServeHTTP sample_env sample_sqlite sample_net sample_post (sample_server, sample_world []) = (resp, s', w')"
    "db_of w' \<noteq> empty_db" using sample_served by blast
  then have all: "serve_all sample_env sample_sqlite sample_net [sample_post] (sample_server, sample_world []) = (s', w')" by simp
  have "db_of (sample_world []) = empty_db" "w_schema (sample_world []) = initializeSchema empty_schema"
    by (simp_all add: sample_world_def sample_start_def)
  from served_store_verifies [OF sample_env_ok(1) sample_texts _ this all] sample_request_ok s all show ?thesis by auto
qed

end
