(* ===== verification/Restore.thy ===== *)
theory Restore
  imports Outcome
begin

text \<open>
  Restoring a backup (\<open>restoreDatabase\<close> of \<open>cmd/lazarus/main.go\<close>): the backup is checked against its
  manifest, copied beside the destination, verified, and renamed into place after the files of the
  old database have been renamed away. Paths are given in full. A copy that fails leaves the temporary
  file as it was; it is removed on every way out.
\<close>

section \<open>Paths and temporary files\<close>

text \<open>\<open>filepath.Clean\<close>, \<open>filepath.Dir\<close> and \<open>filepath.Join\<close> on Unix.\<close>

fun clean_elements :: "bool \<Rightarrow> string list \<Rightarrow> string list \<Rightarrow> string list" where
  "clean_elements rooted acc [] = rev acc"
| "clean_elements rooted acc (s # ss) =
    (if s = '''' \<or> s = ''.'' then clean_elements rooted acc ss
     else if s = ''..'' then
       (if acc \<noteq> [] \<and> hd acc \<noteq> ''..'' then clean_elements rooted (tl acc) ss
        else if rooted then clean_elements rooted acc ss
        else clean_elements rooted (s # acc) ss)
     else clean_elements rooted (s # acc) ss)"

definition path_Clean :: "string \<Rightarrow> string" where
  "path_Clean p =
    (if p = '''' then ''.''
     else let rooted = hd p = CHR ''/''; body = Join (clean_elements rooted [] (Split p CHR ''/'')) ''/'' in
       if rooted then CHR ''/'' # body else if body = '''' then ''.'' else body)"

definition path_Dir :: "string \<Rightarrow> string" where
  "path_Dir p = path_Clean (rev (dropWhile (\<lambda>c. c \<noteq> CHR ''/'') (rev p)))"

definition path_Join :: "string list \<Rightarrow> string" where
  "path_Join es = (let es = filter (\<lambda>e. e \<noteq> '''') es in if es = [] then '''' else path_Clean (Join es ''/''))"

text \<open>\<open>os.CreateTemp\<close> tries random names until one is new; the random texts are a parameter.\<close>

definition temp_path :: "string \<Rightarrow> string \<Rightarrow> string" where
  "temp_path dir random = dir @ (if last dir = CHR ''/'' then '''' else ''/'') @ ''.lazarus-restore-'' @ random"

fun os_CreateTemp :: "nat \<Rightarrow> (nat \<Rightarrow> string) \<Rightarrow> string \<Rightarrow> time \<Rightarrow> files \<Rightarrow> (go_error + string) \<times> files" where
  "os_CreateTemp 0 random dir now fs = (Inl (PlainError ''file already exists''), fs)"
| "os_CreateTemp (Suc k) random dir now fs =
    (let name = temp_path dir (random k) in
     if map_of fs name \<noteq> None then os_CreateTemp k random dir now fs
     else (Inr name, put_file name \<lparr>f_kind = Regular, f_bytes = '''', f_mtime = now\<rparr> fs))"

section \<open>Restoring\<close>

text \<open>A backup with files beside it is not complete in itself.\<close>

fun standalone :: "env \<Rightarrow> string \<Rightarrow> string list \<Rightarrow> unit io" where
  "standalone E backup [] = returnT ()"
| "standalone E backup (ext # exts) =
    bindT (attemptT (osT E (os_Stat (backup @ ext))))
    (\<lambda>r. case r of
        Inr _ \<Rightarrow> throwT (PlainError (''backup must be a standalone SQLite file; found '' @ path_Base (backup @ ext)))
      | Inl e \<Rightarrow> if e \<noteq> notExist then throwT e else standalone E backup exts)"

fun destination_exists :: "env \<Rightarrow> string \<Rightarrow> bool \<Rightarrow> string list \<Rightarrow> bool io" where
  "destination_exists E database found [] = returnT found"
| "destination_exists E database found (ext # exts) =
    bindT (attemptT (osT E (os_Stat (database @ ext))))
    (\<lambda>r. case r of
        Inr info \<Rightarrow>
          if f_kind info \<noteq> Regular
            then throwT (PlainError (''destination SQLite path '' @ path_Base (database @ ext) @ '' is not a regular file''))
          else destination_exists E database True exts
      | Inl e \<Rightarrow> if e \<noteq> notExist then throwT e else destination_exists E database found exts)"

definition undo :: "env \<Rightarrow> (string \<times> string) list \<Rightarrow> unit io" where
  "undo E preserved = forT (\<lambda>(from, to). ignoreT (osT E (os_Rename to from))) (rev preserved)"

fun preserve :: "env \<Rightarrow> string \<Rightarrow> string \<Rightarrow> (string \<times> string) list \<Rightarrow> string list \<Rightarrow> (string \<times> string) list io" where
  "preserve E database rollbackBase preserved [] = returnT preserved"
| "preserve E database rollbackBase preserved (ext # exts) =
    (let from = database @ ext; to = rollbackBase @ ext in
     bindT (attemptT (osT E (os_Stat from)))
     (\<lambda>r. case r of
         Inr _ \<Rightarrow>
           bindT (attemptT (osT E (os_Rename from to)))
           (\<lambda>renamed. case renamed of
               Inl e \<Rightarrow> bindT (undo E preserved)
                 (\<lambda>_. throwT (Annotated (''preserve current SQLite file '' @ path_Base from) e))
             | Inr _ \<Rightarrow> preserve E database rollbackBase (preserved @ [(from, to)]) exts)
       | Inl e \<Rightarrow> if e \<noteq> notExist then throwT e else preserve E database rollbackBase preserved exts))"

definition syncDirectory :: "env \<Rightarrow> unit io" where
  "syncDirectory E = bindT (osT E (\<lambda>fs. (Inr (), fs))) (\<lambda>_. osT E (\<lambda>fs. (Inr (), fs)))"

definition sidecars :: "string list" where
  "sidecars = [''-wal'', ''-shm'', ''-journal'']"

definition rollback_base :: "string \<Rightarrow> time \<Rightarrow> string" where
  "rollback_base database now = database @ ''.rollback-'' @ backup_stamp now"

text \<open>From the open temporary file to a verified copy of the backup in it.\<close>

definition copy_backup :: "env \<Rightarrow> sqlite \<Rightarrow> string \<Rightarrow> BackupManifest \<Rightarrow> string \<Rightarrow> unit io" where
  "copy_backup E Q backup manifest tmpPath =
    bindT (osT E (os_Touch tmpPath))
    (\<lambda>_. bindT (osT E (os_Stat backup))
    (\<lambda>source. bindT (osT E (\<lambda>fs. (Inr (), fs)))
    (\<lambda>_. if f_kind source \<noteq> Regular then throwT (PlainError ''backup must be a regular file'')
      else bindT (storeT (nowT E))
    (\<lambda>now. bindT (osT E (os_WriteFile tmpPath (f_bytes source) now))
    (\<lambda>_. bindT (osT E (\<lambda>fs. (Inr (), fs)))
    (\<lambda>_. if int (length (f_bytes source)) \<noteq> bm_Bytes manifest \<or> \<not> EqualFold (bm_SHA256 manifest) (sha256_hex E (f_bytes source))
      then throwT (PlainError ''backup does not match a valid manifest'')
      else bindT (osT E (os_Touch tmpPath))
    (\<lambda>_. bindT (osT E (\<lambda>fs. (Inr (), fs)))
    (\<lambda>_. bindT (annotateT ''backup sqlite validation failed'' (VerifyPath E Q tmpPath))
    (\<lambda>verified. if vr_IntegrityCheck verified \<noteq> ''ok'' \<or> vr_ForeignKeys verified \<noteq> ''ok'' \<or> vr_ApplicationData verified \<noteq> ''ok''
      then throwT (PlainError ''backup sqlite validation failed'') else returnT ())))))))))"

text \<open>From the verified copy to the restored database.\<close>

definition install :: "env \<Rightarrow> string \<Rightarrow> string \<Rightarrow> bool \<Rightarrow> unit io" where
  "install E database tmpPath destinationExists =
    bindT (if destinationExists
        then bindT (storeT (nowT E)) (\<lambda>now. preserve E database (rollback_base database now) [] ('''' # sidecars))
        else returnT [])
    (\<lambda>preserved. bindT (attemptT (osT E (os_Rename tmpPath database)))
    (\<lambda>renamed. case renamed of
        Inl e \<Rightarrow> bindT (undo E preserved) (\<lambda>_. throwT e)
      | Inr _ \<Rightarrow> annotateT ''sync restore directory'' (syncDirectory E)))"

text \<open>From a manifest that fits to the restored database.\<close>

definition restore_checked :: "env \<Rightarrow> sqlite \<Rightarrow> (nat \<Rightarrow> string) \<Rightarrow> string \<Rightarrow> string \<Rightarrow> BackupManifest \<Rightarrow> bool \<Rightarrow> unit io" where
  "restore_checked E Q random database backup manifest replace =
    bindT (standalone E backup sidecars)
    (\<lambda>_. bindT (destination_exists E database False ('''' # sidecars))
    (\<lambda>destinationExists. if destinationExists \<and> \<not> replace
        then throwT (PlainError ''destination SQLite files exist; pass --replace explicitly'')
      else bindT (osT E os_MkdirAll)
    (\<lambda>_. bindT (storeT (nowT E))
    (\<lambda>now. bindT (osT E (os_CreateTemp 10000 random (path_Dir database) now))
    (\<lambda>tmpPath. deferT (osT E (os_Remove tmpPath))
      (bindT (copy_backup E Q backup manifest tmpPath) (\<lambda>_. install E database tmpPath destinationExists)))))))"

definition restoreDatabase :: "env \<Rightarrow> sqlite \<Rightarrow> (nat \<Rightarrow> string) \<Rightarrow> string \<Rightarrow> string \<Rightarrow> string \<Rightarrow> bool \<Rightarrow> unit io" where
  "restoreDatabase E Q random database backup manifestPath replace =
    bindT (osT E (os_Read manifestPath))
    (\<lambda>manifestBytes. case unmarshal_BackupManifest manifestBytes of
        None \<Rightarrow> throwT (PlainError ''invalid manifest'')
      | Some manifest \<Rightarrow>
        if path_Base backup \<noteq> bm_Filename manifest \<or> bm_IntegrityCheck manifest \<noteq> ''ok'' \<or> bm_ForeignKeys manifest \<noteq> ''ok''
            \<or> bm_Application manifest \<noteq> ''ok''
          then throwT (PlainError ''backup does not match a valid manifest'')
        else restore_checked E Q random database backup manifest replace)"

section \<open>What a restore does to the files of the database\<close>

text \<open>The files whose path starts with that of the database.\<close>

definition beside :: "string \<Rightarrow> world \<Rightarrow> string \<Rightarrow> inode option" where
  "beside database w x = map_of (w_files w) (database @ x)"

definition regular :: "inode option \<Rightarrow> bool" where
  "regular f \<longleftrightarrow> map_option f_kind f = Some Regular"

definition moved :: "(string \<Rightarrow> inode option) \<Rightarrow> string \<Rightarrow> (string \<Rightarrow> inode option) \<Rightarrow> string \<Rightarrow> bool" where
  "moved A r B x \<longleftrightarrow> B x = None \<and> B (r @ x) = A x"

text \<open>Endings that do not run into each other.\<close>

definition apart :: "string \<Rightarrow> string list \<Rightarrow> bool" where
  "apart r xs \<longleftrightarrow> distinct xs \<and> r \<noteq> [] \<and> (\<forall>x \<in> set xs. \<forall>y \<in> set xs. r @ x \<noteq> y)"

lemma apart_left: "apart r (xs @ ys) \<Longrightarrow> apart r xs"
  by (simp add: apart_def)

lemma stat_effect:
  assumes "attemptT (osT E (os_Stat (database @ x))) w = (Inr r, w')"
  shows "beside database w' = beside database w" "r = Inl notExist \<Longrightarrow> \<not> regular (beside database w x)"
  using assms resolve_regular [of "w_files w" "database @ x"]
  by (auto simp: attemptT_def osT_def os_Stat_def beside_def regular_def fun_eq_iff notExist_def osFailure_def split: if_splits option.splits)

lemma rename_effect:
  assumes "attemptT (osT E (os_Rename (database @ x) (database @ y))) w = (Inr r, w')" "x \<noteq> y"
  shows "isl r \<Longrightarrow> beside database w' = beside database w"
    "\<not> isl r \<Longrightarrow> beside database w' = (beside database w)(y := beside database w x, x := None) \<and> beside database w x \<noteq> None"
  using assms by (auto simp: attemptT_def osT_def os_Rename_def beside_def fun_eq_iff split: if_splits option.splits)

lemma attempt_total: "attemptT t w = (Inr (fst (t w)), snd (t w))"
  by (simp add: attemptT_def split: prod.split)

text \<open>Moving files back: each of them ends under one of its two names.\<close>

lemma undo_step:
  assumes "ignoreT (osT E (os_Rename (database @ r @ x) (database @ x))) w = (res, w')" "r \<noteq> []"
  shows "res = Inr ()" "beside database w' = beside database w \<or> beside database w' = (beside database w)(x := beside database w (r @ x), r @ x := None)"
proof -
  obtain q w1 where q: "attemptT (osT E (os_Rename (database @ r @ x) (database @ x))) w = (Inr q, w1)" by (rule that) (rule attempt_total)
  then have "w' = w1" "res = Inr ()" using assms(1) by (auto simp: attemptT_def ignoreT_def split: prod.splits)
  then show "res = Inr ()" "beside database w' = beside database w \<or> beside database w' = (beside database w)(x := beside database w (r @ x), r @ x := None)"
    using rename_effect [OF q] assms(2) by (cases "isl q"; simp)+
qed

lemma undo_effect:
  assumes "apart r (xs @ ys)" "forT (\<lambda>(from, to). ignoreT (osT E (os_Rename to from))) (map (\<lambda>x. (database @ x, database @ r @ x)) xs) w = (res, w')"
    and "\<forall>x \<in> set xs. moved A r (beside database w) x"
  shows "res = Inr () \<and> (\<forall>x \<in> set xs. beside database w' x = A x \<or> moved A r (beside database w') x)
    \<and> (\<forall>y \<in> set ys. beside database w' y = beside database w y \<and> beside database w' (r @ y) = beside database w (r @ y))"
  using assms
proof (induction xs arbitrary: ys w)
  case Nil
  then show ?case by (simp add: returnT_def)
next
  case (Cons x xs)
  obtain q w1 where q: "ignoreT (osT E (os_Rename (database @ r @ x) (database @ x))) w = (q, w1)" by force
  have r: "r \<noteq> []" using Cons.prems(1) by (simp add: apart_def)
  note step = undo_step [OF q r]
  have rest: "forT (\<lambda>(from, to). ignoreT (osT E (os_Rename to from))) (map (\<lambda>x. (database @ x, database @ r @ x)) xs) w1 = (res, w')"
    using Cons.prems(2) q step(1) by (simp add: bindT_def)
  have other: "beside database w1 y = beside database w y" "beside database w1 (r @ y) = beside database w (r @ y)" if "y \<in> set (xs @ ys)" for y
    using step(2) that Cons.prems(1) by (auto simp: apart_def)
  have "apart r (xs @ x # ys)" using Cons.prems(1) by (auto simp: apart_def)
  moreover have "\<forall>x \<in> set xs. moved A r (beside database w1) x" using Cons.prems(3) other by (simp add: moved_def)
  ultimately have IH: "res = Inr () \<and> (\<forall>x \<in> set xs. beside database w' x = A x \<or> moved A r (beside database w') x)
    \<and> (\<forall>y \<in> set (x # ys). beside database w' y = beside database w1 y \<and> beside database w' (r @ y) = beside database w1 (r @ y))"
    by (rule Cons.IH [OF _ rest])
  have "beside database w1 x = A x \<or> moved A r (beside database w1) x"
    using step(2) Cons.prems(3) r by (auto simp: moved_def)
  with IH other show ?case by (auto simp: moved_def)
qed

text \<open>Moving files away: after an error each file is under one of its two names; after success those that
  could be found have been moved, and are listed.\<close>

lemma preserve_effect:
  assumes "preserve E database (database @ r) (map (\<lambda>x. (database @ x, database @ r @ x)) D) xs w = (res, w')"
    and "apart r (D @ xs @ ys)" "\<forall>x \<in> set D. moved A r (beside database w) x" "\<forall>x \<in> set xs. beside database w x = A x"
    and "\<forall>y \<in> set ys. beside database w y = A y \<and> \<not> regular (A y)"
  shows "case res of Inl e \<Rightarrow> \<forall>x \<in> set (D @ xs @ ys). beside database w' x = A x \<or> moved A r (beside database w') x
    | Inr preserved \<Rightarrow> \<exists>D'. preserved = map (\<lambda>x. (database @ x, database @ r @ x)) D' \<and> apart r D' \<and> set D' \<subseteq> set (D @ xs @ ys)
        \<and> (\<forall>x \<in> set D'. moved A r (beside database w') x)
        \<and> (\<forall>x \<in> set (D @ xs @ ys) - set D'. beside database w' x = A x \<and> \<not> regular (A x))"
  using assms
proof (induction xs arbitrary: D ys w)
  case Nil
  then show ?case using apart_left [of r D ys] by (auto simp: returnT_def intro!: exI [of _ D])
next
  case (Cons x xs)
  let ?old = "\<lambda>x. (database @ x, database @ r @ x)"
  obtain q w1 where q: "attemptT (osT E (os_Stat (database @ x))) w = (Inr q, w1)" by (rule that) (rule attempt_total)
  note stat = stat_effect [OF q]
  show ?case
  proof (cases q)
    case (Inl e)
    have kept: "\<forall>y \<in> set (D @ (x # xs) @ ys). beside database w1 y = A y \<or> moved A r (beside database w1) y"
      using Cons.prems(3-5) stat(1) by auto
    show ?thesis
    proof (cases "e = notExist")
      case False
      then show ?thesis using Cons.prems(1) q Inl kept by (auto simp: bindT_def throwT_def Let_def)
    next
      case True
      have p: "preserve E database (database @ r) (map ?old D) xs w1 = (res, w')"
        using Cons.prems(1) q Inl True by (simp add: bindT_def Let_def)
      have "apart r (D @ xs @ x # ys)" using Cons.prems(2) by (auto simp: apart_def)
      moreover have "\<forall>y \<in> set (x # ys). beside database w1 y = A y \<and> \<not> regular (A y)"
        using Cons.prems(4,5) stat Inl True by auto
      moreover have eq: "set (D @ (x # xs) @ ys) = set (D @ xs @ x # ys)" by auto
      ultimately show ?thesis unfolding eq by (intro Cons.IH [OF p]) (use Cons.prems(3,4) stat(1) in simp_all)
    qed
  next
    case (Inr info)
    obtain p w2 where p: "attemptT (osT E (os_Rename (database @ x) (database @ r @ x))) w1 = (Inr p, w2)" by (rule that) (rule attempt_total)
    have r: "r \<noteq> []" using Cons.prems(2) by (simp add: apart_def)
    note ren = rename_effect [OF p] 
    show ?thesis
    proof (cases p)
      case (Inl e)
      obtain u w3 where u: "undo E (map ?old D) w2 = (u, w3)" by force
      have same: "beside database w2 = beside database w" using ren(1) Inl r stat(1) by simp
      have "forT (\<lambda>(from, to). ignoreT (osT E (os_Rename to from))) (map ?old (rev D)) w2 = (u, w3)" using u by (simp add: undo_def rev_map)
      from undo_effect [OF _ this, where ys = "x # xs @ ys" and A = A]
      have und: "u = Inr () \<and> (\<forall>x \<in> set D. beside database w3 x = A x \<or> moved A r (beside database w3) x)
        \<and> (\<forall>y \<in> set (x # xs @ ys). beside database w3 y = beside database w2 y)"
        using Cons.prems(2,3) same by (auto simp: apart_def)
      then have "isl res" "w' = w3" using Cons.prems(1) q Inr p Inl u by (auto simp: bindT_def throwT_def Let_def)
      then show ?thesis using und same Cons.prems(4,5) by (cases res) auto
    next
      case (Inr v)
      have w2: "beside database w2 = (beside database w)(r @ x := beside database w x, x := None)" using ren(2) Inr r stat(1) by simp
      have p2: "preserve E database (database @ r) (map ?old (D @ [x])) xs w2 = (res, w')"
        using Cons.prems(1) q \<open>q = Inr info\<close> p Inr by (simp add: bindT_def Let_def)
      have eq: "set (D @ (x # xs) @ ys) = set ((D @ [x]) @ xs @ ys)" by auto
      have "apart r ((D @ [x]) @ xs @ ys)" using Cons.prems(2) by simp
      moreover have "\<forall>y \<in> set (D @ [x]). moved A r (beside database w2) y"
        using Cons.prems(2,3,4) w2 r by (auto simp: moved_def apart_def)
      moreover have "\<forall>y \<in> set xs. beside database w2 y = A y" using Cons.prems(2,4) w2 by (auto simp: apart_def)
      moreover have "\<forall>y \<in> set ys. beside database w2 y = A y \<and> \<not> regular (A y)" using Cons.prems(2,5) w2 by (auto simp: apart_def)
      ultimately show ?thesis unfolding eq by (rule Cons.IH [OF p2])
    qed
  qed
qed

lemma same_elsewhere:
  assumes "\<And>x. tmp \<noteq> database @ x"
  shows "same (\<lambda>w. map_of (w_files w) tmp) (preserve E database (database @ r) (map (\<lambda>x. (database @ x, database @ r @ x)) D) xs)"
    and "same (\<lambda>w. map_of (w_files w) tmp) (undo E (map (\<lambda>x. (database @ x, database @ r @ x)) D))"
proof -
  have os: "same (\<lambda>w. map_of (w_files w) tmp) (osT E (os_Rename (database @ x) (database @ y)))" for x y
    using assms by (auto simp: evolves_def osT_def os_Rename_def split: option.splits if_splits)
  have st: "same (\<lambda>w. map_of (w_files w) tmp) (osT E (os_Stat n))" for n
    by (auto simp: evolves_def osT_def os_Stat_def split: if_splits)
  have un: "same (\<lambda>w. map_of (w_files w) tmp) (undo E (map (\<lambda>x. (database @ x, database @ r @ x)) D))" for D
  proof -
    have "same (\<lambda>w. map_of (w_files w) tmp) (forT (\<lambda>(from, to). ignoreT (osT E (os_Rename to from))) (map (\<lambda>x. (database @ x, database @ r @ x)) xs))" for xs
      by (induction xs) (auto intro!: same_basic same_bind same_ignore os)
    then show ?thesis by (simp add: undo_def rev_map)
  qed
  then show "same (\<lambda>w. map_of (w_files w) tmp) (undo E (map (\<lambda>x. (database @ x, database @ r @ x)) D))" .
  show "same (\<lambda>w. map_of (w_files w) tmp) (preserve E database (database @ r) (map (\<lambda>x. (database @ x, database @ r @ x)) D) xs)"
  proof (induction xs arbitrary: D)
    case (Cons x xs)
    have "same (\<lambda>w. map_of (w_files w) tmp)
      (preserve E database (database @ r) (map (\<lambda>x. (database @ x, database @ r @ x)) D @ [(database @ x, database @ r @ x)]) xs)"
      using Cons [of "D @ [x]"] by simp
    then show ?case using Cons [of D] un [of D]
      by (auto simp: Let_def intro!: same_basic same_bind evolves_attempt os st split: sum.splits)
  qed (simp add: same_basic)
qed

definition rollback_end :: "time \<Rightarrow> string" where
  "rollback_end now = ''.rollback-'' @ backup_stamp now"

lemma rollback_apart: "apart (rollback_end now) ('''' # sidecars)"
  by (simp add: apart_def rollback_end_def sidecars_def)

definition kept_safe :: "string \<Rightarrow> world \<Rightarrow> world \<Rightarrow> bool" where
  "kept_safe database w w' \<longleftrightarrow> (\<exists>now. \<forall>x \<in> set ('''' # sidecars). regular (beside database w x) \<longrightarrow>
     beside database w' x = beside database w x \<or> beside database w' (rollback_end now @ x) = beside database w x)"

definition replaced :: "string \<Rightarrow> inode option \<Rightarrow> world \<Rightarrow> world \<Rightarrow> bool" where
  "replaced database new w w' \<longleftrightarrow> beside database w' '''' = new \<and> (\<exists>now. \<forall>x \<in> set ('''' # sidecars).
     (regular (beside database w x) \<longrightarrow> beside database w' (rollback_end now @ x) = beside database w x)
   \<and> (x \<noteq> '''' \<longrightarrow> \<not> regular (beside database w' x)))"

lemma rename_into:
  assumes "attemptT (osT E (os_Rename tmp database)) w = (Inr r, w')" "\<And>x. tmp \<noteq> database @ x"
  shows "isl r \<Longrightarrow> beside database w' = beside database w"
    "\<not> isl r \<Longrightarrow> beside database w' = (beside database w)('''' := map_of (w_files w) tmp)"
proof -
  have "database @ x \<noteq> tmp" for x using assms(2) by metis
  then show "isl r \<Longrightarrow> beside database w' = beside database w"
    "\<not> isl r \<Longrightarrow> beside database w' = (beside database w)('''' := map_of (w_files w) tmp)"
    using assms(1) by (auto simp: attemptT_def osT_def os_Rename_def beside_def fun_eq_iff split: if_splits option.splits)
qed

lemma sync_effect: "same (beside database) (annotateT msg (syncDirectory E))"
  unfolding syncDirectory_def by (intro evolves_annotate same_bind) (auto simp: evolves_def beside_def osT_def fun_eq_iff split: if_splits)

lemma apart_subset: "apart r xs \<Longrightarrow> distinct ys \<Longrightarrow> set ys \<subseteq> set xs \<Longrightarrow> apart r ys"
  unfolding apart_def by blast

lemma install_effect:
  assumes i: "install E database tmp found w = (res, w')" and tmp: "\<And>x. tmp \<noteq> database @ x"
    and found: "\<not> found \<Longrightarrow> \<forall>x \<in> set ('''' # sidecars). \<not> regular (beside database w x)"
  shows "kept_safe database w w'" "res = Inr u \<Longrightarrow> replaced database (map_of (w_files w) tmp) w w'"
proof -
  let ?A = "beside database w" and ?xs = "'''' # sidecars"
  let ?first = "if found then bindT (storeT (nowT E)) (\<lambda>now. preserve E database (rollback_base database now) [] ?xs) else returnT []"
  obtain p w1 where p: "?first w = (p, w1)" by force
  obtain now where now: "case p of Inl e \<Rightarrow> \<forall>x \<in> set ?xs. beside database w1 x = ?A x \<or> moved ?A (rollback_end now) (beside database w1) x
    | Inr preserved \<Rightarrow> \<exists>D. preserved = map (\<lambda>x. (database @ x, database @ rollback_end now @ x)) D \<and> apart (rollback_end now) D \<and> set D \<subseteq> set ?xs
        \<and> (\<forall>x \<in> set D. moved ?A (rollback_end now) (beside database w1) x)
        \<and> (\<forall>x \<in> set ?xs - set D. beside database w1 x = ?A x \<and> \<not> regular (?A x))"
    and w1: "map_of (w_files w1) tmp = map_of (w_files w) tmp"
  proof (cases found)
    case True
    obtain n where n: "preserve E database (database @ rollback_end (clock E n)) (map (\<lambda>x. (database @ x, database @ rollback_end (clock E n) @ x)) []) ?xs
        (w\<lparr>w_session := tick (w_session w)\<rparr>) = (p, w1)"
      using p True by (auto simp: bindT_def storeT_def nowT_def rollback_base_def rollback_end_def)
    have "beside database (w\<lparr>w_session := tick (w_session w)\<rparr>) = ?A" by (simp add: beside_def fun_eq_iff)
    then have "case p of Inl e \<Rightarrow> \<forall>x \<in> set ([] @ ?xs @ []). beside database w1 x = ?A x \<or> moved ?A (rollback_end (clock E n)) (beside database w1) x
      | Inr preserved \<Rightarrow> \<exists>D. preserved = map (\<lambda>x. (database @ x, database @ rollback_end (clock E n) @ x)) D \<and> apart (rollback_end (clock E n)) D
          \<and> set D \<subseteq> set ([] @ ?xs @ []) \<and> (\<forall>x \<in> set D. moved ?A (rollback_end (clock E n)) (beside database w1) x)
          \<and> (\<forall>x \<in> set ([] @ ?xs @ []) - set D. beside database w1 x = ?A x \<and> \<not> regular (?A x))"
      by (intro preserve_effect [OF n]) (simp_all add: rollback_apart)
    moreover have "map_of (w_files w1) tmp = map_of (w_files w) tmp" using evolvesD [OF same_elsewhere(1) n, where tmp1 = tmp] tmp by simp
    ultimately show ?thesis unfolding append_Nil append_Nil2 by (rule that)
  next
    case False
    then show ?thesis using p found by (intro that [of 0]) (auto simp: returnT_def apart_def rollback_end_def)
  qed
  have "kept_safe database w w' \<and> (res = Inr u \<longrightarrow> replaced database (map_of (w_files w) tmp) w w')"
  proof (cases p)
    case (Inl e)
    then have "res = Inl e" "w' = w1" using i p by (auto simp: install_def bindT_def)
    then show ?thesis using now Inl unfolding kept_safe_def moved_def by auto
  next
    case (Inr preserved)
    let ?r = "rollback_end now"
    obtain D where D: "preserved = map (\<lambda>x. (database @ x, database @ ?r @ x)) D" "apart ?r D" "set D \<subseteq> set ?xs"
      "\<And>x. x \<in> set D \<Longrightarrow> moved ?A ?r (beside database w1) x" "\<And>x. x \<in> set ?xs - set D \<Longrightarrow> beside database w1 x = ?A x \<and> \<not> regular (?A x)"
      using now Inr by auto
    obtain q w2 where q: "attemptT (osT E (os_Rename tmp database)) w1 = (Inr q, w2)" by (rule that) (rule attempt_total)
    note ren = rename_into [OF q tmp]
    show ?thesis
    proof (cases q)
      case (Inl e)
      obtain v w3 where v: "undo E preserved w2 = (v, w3)" by force
      have "forT (\<lambda>(from, to). ignoreT (osT E (os_Rename to from))) (map (\<lambda>x. (database @ x, database @ ?r @ x)) (rev D)) w2 = (v, w3)"
        using v D(1) by (simp add: undo_def rev_map)
      moreover have "apart ?r (rev D @ filter (\<lambda>x. x \<notin> set D) ?xs)"
        using rollback_apart D(2,3) by (intro apart_subset [OF rollback_apart [of now]]) (auto simp: apart_def)
      ultimately have un: "v = Inr () \<and> (\<forall>x \<in> set (rev D). beside database w3 x = ?A x \<or> moved ?A ?r (beside database w3) x)
        \<and> (\<forall>y \<in> set (filter (\<lambda>x. x \<notin> set D) ?xs). beside database w3 y = beside database w2 y \<and> beside database w3 (?r @ y) = beside database w2 (?r @ y))"
        using D(4) ren(1) Inl by (intro undo_effect) simp_all
      have "res = Inl e" "w' = w3" using i p Inr q Inl v un by (auto simp: install_def bindT_def throwT_def)
      moreover have "kept_safe database w w3" unfolding kept_safe_def
      proof (intro exI [of _ now] ballI impI)
        fix x assume "x \<in> set ?xs"
        then show "beside database w3 x = ?A x \<or> beside database w3 (?r @ x) = ?A x"
          using un D(5) ren(1) Inl by (cases "x \<in> set D") (auto simp: moved_def)
      qed
      ultimately show ?thesis by simp
    next
      case (Inr t)
      have w2: "beside database w2 = (beside database w1)('''' := map_of (w_files w) tmp)" using ren(2) Inr w1 by simp
      have "annotateT ''sync restore directory'' (syncDirectory E) w2 = (res, w')"
        using i p \<open>p = Inr preserved\<close> q Inr by (simp add: install_def bindT_def)
      then have w': "beside database w' = beside database w2" by (rule evolvesD [OF sync_effect, symmetric])
      have D': "x \<in> set D" if "x \<in> set ?xs" "regular (?A x)" for x using D(5) that by blast
      have r: "?r \<noteq> []" by (simp add: rollback_end_def)
      have old: "beside database w' (?r @ x) = ?A x" if "x \<in> set ?xs" "regular (?A x)" for x
        using D(4) [OF D' [OF that]] r by (simp add: w' w2 moved_def)
      have gone: "\<not> regular (beside database w' x)" if "x \<in> set ?xs" "x \<noteq> ''''" for x
        using D(4) [of x] D(5) [of x] that by (cases "x \<in> set D") (auto simp: w' w2 moved_def regular_def)
      have new: "beside database w' '''' = map_of (w_files w) tmp" by (simp add: w' w2)
      show ?thesis unfolding kept_safe_def replaced_def using old gone new by blast
    qed
  qed
  then show "kept_safe database w w'" "res = Inr u \<Longrightarrow> replaced database (map_of (w_files w) tmp) w w'" by blast+
qed

section \<open>Before anything is renamed\<close>

lemma same_stat: "same w_files (osT E (os_Stat n))" "same w_files (osT E (os_Read n))" "same w_files (osT E os_MkdirAll)" "same w_files (osT E (\<lambda>fs. (r, fs)))"
  "same w_files (osT E (os_Touch n))"
  by (auto simp: evolves_def osT_def os_Stat_def os_Read_def os_MkdirAll_def os_Touch_def split: if_splits)

lemma same_standalone: "same w_files (standalone E backup exts)"
  by (induction exts) (auto intro!: same_basic same_bind evolves_attempt same_stat split: sum.splits)

lemma same_destination: "same w_files (destination_exists E database found exts)"
  by (induction exts arbitrary: found) (auto intro!: same_basic same_bind evolves_attempt same_stat split: sum.splits)

lemma same_beside: "same w_files m \<Longrightarrow> same (beside database) m"
  by (auto simp: evolves_def beside_def fun_eq_iff)

lemma destination_found:
  assumes "destination_exists E database found exts w = (Inr b, w')"
  shows "found \<Longrightarrow> b" "x \<in> set exts \<Longrightarrow> regular (beside database w x) \<Longrightarrow> b"
proof -
  have "(found \<longrightarrow> b) \<and> (\<forall>x \<in> set exts. regular (beside database w x) \<longrightarrow> b)"
    using assms
  proof (induction exts arbitrary: found w)
    case (Cons x exts)
    obtain q w1 where q: "attemptT (osT E (os_Stat (database @ x))) w = (Inr q, w1)" by (rule that) (rule attempt_total)
    note stat = stat_effect [OF q]
    show ?case
    proof (cases q)
      case (Inl e)
      then show ?thesis using Cons.prems Cons.IH [of found w1] q stat by (auto simp: bindT_def throwT_def split: if_splits)
    next
      case (Inr info)
      then show ?thesis using Cons.prems Cons.IH [of True w1] q by (auto simp: bindT_def throwT_def split: if_splits)
    qed
  qed (simp add: returnT_def)
  then show "found \<Longrightarrow> b" "x \<in> set exts \<Longrightarrow> regular (beside database w x) \<Longrightarrow> b" by blast+
qed

lemma CreateTemp_effect:
  assumes "os_CreateTemp k random dir now fs = (Inr name, fs')"
  shows "\<exists>n. name = temp_path dir (random n)" "map_of fs name = None" "fs' = put_file name \<lparr>f_kind = Regular, f_bytes = '''', f_mtime = now\<rparr> fs"
  using assms by (induction k) (auto simp: Let_def split: if_splits)

lemma resolve_put:
  assumes "map_of fs name = None" "f_kind f = Regular" "resolve k (put_file name f fs) n = Some b"
  shows "b = f \<or> resolve k fs n = Some b"
  using assms(3)
proof (induction k arbitrary: n)
  case (Suc k)
  then show ?case using assms(1,2) by (cases "n = name") (auto split: option.splits file_kind.splits dest: Suc.IH)
qed simp

text \<open>A copy that succeeds is the backup, checked against its manifest and verified.\<close>

lemma copy_backup_Inr:
  assumes "copy_backup E Q backup manifest tmp w = (Inr u, w')" "map_of (w_files w) tmp = Some f" "f_kind f = Regular"
  obtains b now where "resolve 40 (w_files w) backup = Some b" "f_kind b = Regular" "digest_matches E (f_bytes b) manifest" "verified_bytes E Q (f_bytes b)"
    "w_files w' = put_file tmp \<lparr>f_kind = Regular, f_bytes = f_bytes b, f_mtime = now\<rparr> (w_files w)"
proof -
  obtain w1 w2 w3 w4 w5 w6 w7 w8 b now v where s: "osT E (os_Touch tmp) w = (Inr (), w1)" "osT E (os_Stat backup) w1 = (Inr b, w2)"
    "osT E (\<lambda>fs. (Inr (), fs)) w2 = (Inr (), w3)" "f_kind b = Regular" "storeT (nowT E) w3 = (Inr now, w4)"
    "osT E (os_WriteFile tmp (f_bytes b) now) w4 = (Inr (), w5)" "osT E (\<lambda>fs. (Inr (), fs)) w5 = (Inr (), w6)"
    "int (length (f_bytes b)) = bm_Bytes manifest" "EqualFold (bm_SHA256 manifest) (sha256_hex E (f_bytes b))"
    "osT E (os_Touch tmp) w6 = (Inr (), w7)" "osT E (\<lambda>fs. (Inr (), fs)) w7 = (Inr (), w8)" "VerifyPath E Q tmp w8 = (Inr v, w')"
    using assms(1) unfolding copy_backup_def by (auto simp: bindT_Inr annotateT_Inr returnT_Inr throwT_Inr split: if_splits)
  have fs: "w_files w4 = w_files w"
    using s(1,2,3,5) by (auto simp: osT_Inr storeT_Inr os_Touch_def os_Stat_def split: option.splits)
  have b: "resolve 40 (w_files w) backup = Some b" using s(1,2) by (auto simp: osT_Inr os_Touch_def os_Stat_def split: option.splits)
  have w5: "w_files w5 = put_file tmp \<lparr>f_kind = Regular, f_bytes = f_bytes b, f_mtime = now\<rparr> (w_files w)"
    using s(6) assms(2,3) fs by (auto simp: osT_Inr os_WriteFile_def Let_def)
  have w8: "w_files w8 = w_files w5" using s(7,10,11) by (auto simp: osT_Inr os_Touch_def split: option.splits)
  obtain g where g: "resolve 40 (w_files w8) tmp = Some g" "verified_bytes E Q (f_bytes g)" "view w' = view w8"
    using VerifyPath_Inr [OF s(12)] by metis
  have "g = \<lparr>f_kind = Regular, f_bytes = f_bytes b, f_mtime = now\<rparr>" using g(1) w5 w8 resolve_regular [of "w_files w8" tmp] by simp
  then show ?thesis using b g s(4,8,9) w5 w8 by (intro that [of b now]) (auto simp: digest_matches_def EqualFold_def view_def)
qed

text \<open>A copy, whether or not it succeeds, changes only the temporary file.\<close>

definition rewritten :: "string \<Rightarrow> files \<Rightarrow> files \<Rightarrow> bool" where
  "rewritten tmp fs fs' \<longleftrightarrow> (regular (map_of fs tmp) \<longrightarrow>
     fs' = fs \<or> (\<exists>bytes now. fs' = put_file tmp \<lparr>f_kind = Regular, f_bytes = bytes, f_mtime = now\<rparr> fs))"

lemma copy_rewrites: "evolves w_files (rewritten tmp) (copy_backup E Q backup manifest tmp)"
proof -
  have refl: "rewritten tmp fs fs" for fs by (simp add: rewritten_def)
  have wr: "evolves w_files (rewritten tmp) (osT E (os_WriteFile tmp bytes now))" for bytes now
    by (auto simp: evolves_def osT_def os_WriteFile_def rewritten_def regular_def Let_def split: if_splits) blast
  have verify: "same w_files (VerifyPath E Q tmp)" by (rule same_view_parts(3) [OF same_VerifyPath])
  show ?thesis
    unfolding copy_backup_def
    by (rule evolves_after [OF same_stat(5) refl], rule evolves_after [OF same_stat(1) refl], rule evolves_after [OF same_stat(4) refl])
      (auto intro!: same_evolves [OF same_basic(2) refl] evolves_after [OF same_store_files(1) refl] evolves_before [OF wr]
        same_bind same_stat same_basic evolves_annotate verify)
qed

lemma rewritten_beside:
  assumes "rewritten tmp (w_files w) (w_files w')" "regular (map_of (w_files w) tmp)" "\<And>x. tmp \<noteq> database @ x"
  shows "beside database w' = beside database w" "regular (map_of (w_files w') tmp)"
proof -
  have "database @ x \<noteq> tmp" for x using assms(3) by metis
  then show "beside database w' = beside database w" using assms(1,2) by (auto simp: rewritten_def beside_def fun_eq_iff)
  show "regular (map_of (w_files w') tmp)" using assms(1,2) by (auto simp: rewritten_def regular_def)
qed

lemma remove_beside:
  assumes "\<And>x. tmp \<noteq> database @ x"
  shows "beside database (snd (osT E (os_Remove tmp) w)) = beside database w"
proof -
  have "database @ x \<noteq> tmp" for x using assms by metis
  then show ?thesis by (auto simp: osT_def os_Remove_def beside_def fun_eq_iff split: option.split)
qed

section \<open>Restores\<close>

text \<open>A restore changes no file, or reaches the point where the backup is copied.\<close>

lemma bind_same:
  assumes "bindT m f w = (res, w')" "same w_files m"
  obtains "isl res" "w_files w' = w_files w" | x w1 where "m w = (Inr x, w1)" "w_files w1 = w_files w" "f x w1 = (res, w')"
proof -
  obtain r w1 where m: "m w = (r, w1)" by force
  then have "w_files w1 = w_files w" using evolvesD [OF assms(2) m] by simp
  with m assms(1) that show thesis by (cases r) (auto simp: bindT_def)
qed

lemma CreateTemp_Inl: "os_CreateTemp k random dir now fs = (Inl e, fs') \<Longrightarrow> fs' = fs"
  by (induction k) (auto simp: Let_def split: if_splits)

definition copies :: "env \<Rightarrow> sqlite \<Rightarrow> (nat \<Rightarrow> string) \<Rightarrow> string \<Rightarrow> string \<Rightarrow> BackupManifest \<Rightarrow> bool \<Rightarrow> world \<Rightarrow> go_error + unit \<Rightarrow> world \<Rightarrow> bool" where
  "copies E Q random database backup m found w res w' \<longleftrightarrow> (\<exists>now n w1. let tmp = temp_path (path_Dir database) (random n) in
      map_of (w_files w) tmp = None \<and> w_files w1 = put_file tmp \<lparr>f_kind = Regular, f_bytes = '''', f_mtime = now\<rparr> (w_files w)
    \<and> deferT (osT E (os_Remove tmp)) (bindT (copy_backup E Q backup m tmp) (\<lambda>_. install E database tmp found)) w1 = (res, w'))"

lemma copies_files: "w_files v = w_files w \<Longrightarrow> copies E Q random database backup m found v res w' = copies E Q random database backup m found w res w'"
  by (simp add: copies_def)

lemma temp_copies:
  assumes "bindT (osT E os_MkdirAll) (\<lambda>_. bindT (storeT (nowT E)) (\<lambda>now. bindT (osT E (os_CreateTemp 10000 random (path_Dir database) now))
    (\<lambda>tmpPath. deferT (osT E (os_Remove tmpPath)) (bindT (copy_backup E Q backup m tmpPath) (\<lambda>_. install E database tmpPath found))))) w = (res, w')"
  shows "w_files w' = w_files w \<and> isl res \<or> copies E Q random database backup m found w res w'"
  using assms
proof (rule bind_same [OF _ same_stat(3)], goal_cases)
  case (2 u w1)
  from 2(3) show ?case
  proof (rule bind_same [OF _ same_store_files(1)], goal_cases)
    case (2 now w2)
    have w2: "w_files w2 = w_files w" using 2 \<open>w_files w1 = w_files w\<close> by simp
    obtain r w3 where t: "osT E (os_CreateTemp 10000 random (path_Dir database) now) w2 = (r, w3)" by force
    show ?case
    proof (cases r)
      case (Inl e)
      have "w_files w3 = w_files w" using t Inl w2 by (auto simp: osT_def split: if_splits prod.splits dest: CreateTemp_Inl)
      then show ?thesis using 2(3) t Inl by (auto simp: bindT_def)
    next
      case (Inr tmp)
      then obtain fs where "os_CreateTemp 10000 random (path_Dir database) now (w_files w) = (Inr tmp, fs)" "w_files w3 = fs"
        using t w2 by (auto simp: osT_Inr)
      note c = CreateTemp_effect [OF this(1)] this(2)
      have "deferT (osT E (os_Remove tmp)) (bindT (copy_backup E Q backup m tmp) (\<lambda>_. install E database tmp found)) w3 = (res, w')"
        using 2(3) t Inr by (simp add: bindT_def)
      then show ?thesis using c unfolding copies_def Let_def by blast
    qed
  qed (use 2 in simp)
qed simp

lemma checked_copies:
  assumes "restore_checked E Q random database backup m replace w = (res, w')"
  shows "w_files w' = w_files w \<and> isl res \<or> (\<exists>found. (found \<longrightarrow> replace)
    \<and> (\<not> found \<longrightarrow> (\<forall>x \<in> set ('''' # sidecars). \<not> regular (beside database w x))) \<and> copies E Q random database backup m found w res w')"
  using assms unfolding restore_checked_def
proof (rule bind_same [OF _ same_standalone], goal_cases)
  case (2 u w1)
  from 2(3) show ?case
  proof (rule bind_same [OF _ same_destination], goal_cases)
    case (2 found w2)
    have w2: "w_files w2 = w_files w" using 2 \<open>w_files w1 = w_files w\<close> by simp
    have b: "beside database w1 = beside database w" using \<open>w_files w1 = w_files w\<close> by (simp add: beside_def fun_eq_iff)
    have nf: "\<not> found \<longrightarrow> (\<forall>x \<in> set ('''' # sidecars). \<not> regular (beside database w x))" using destination_found(2) [OF 2(1)] b by auto
    show ?case
    proof (cases "found \<and> \<not> replace")
      case True
      then have "throwT (PlainError ''destination SQLite files exist; pass --replace explicitly'') w2 = (res, w')" using 2(3) by simp
      then have "w' = w2" "isl res" unfolding throwT_def by auto
      then show ?thesis using w2 by simp
    next
      case False
      then have "bindT (osT E os_MkdirAll) (\<lambda>_. bindT (storeT (nowT E)) (\<lambda>now. bindT (osT E (os_CreateTemp 10000 random (path_Dir database) now))
        (\<lambda>tmpPath. deferT (osT E (os_Remove tmpPath)) (bindT (copy_backup E Q backup m tmpPath) (\<lambda>_. install E database tmpPath found))))) w2 = (res, w')"
        using 2(3) by (simp only: False if_False)
      from temp_copies [OF this] have "w_files w' = w_files w \<and> isl res \<or> copies E Q random database backup m found w res w'"
        by (simp only: w2 copies_files [OF w2])
      then show ?thesis using False nf by blast
    qed
  qed (use 2 in simp)
qed simp

lemma restore_reaches:
  assumes "restoreDatabase E Q random database backup manifestPath replace w = (res, w')"
  shows "w_files w' = w_files w \<and> isl res \<or> (\<exists>g m found. resolve 40 (w_files w) manifestPath = Some g
    \<and> unmarshal_BackupManifest (f_bytes g) = Some m \<and> path_Base backup = bm_Filename m \<and> (found \<longrightarrow> replace)
    \<and> (\<not> found \<longrightarrow> (\<forall>x \<in> set ('''' # sidecars). \<not> regular (beside database w x))) \<and> copies E Q random database backup m found w res w')"
  using assms unfolding restoreDatabase_def
proof (rule bind_same [OF _ same_stat(2)], goal_cases)
  case (2 bytes w1)
  obtain g where g: "resolve 40 (w_files w) manifestPath = Some g" "bytes = f_bytes g"
    using 2(1) by (auto simp: osT_Inr os_Read_def split: option.splits if_splits)
  have b: "beside database w1 = beside database w" using 2(2) by (simp add: beside_def fun_eq_iff)
  consider "w_files w' = w_files w \<and> isl res" | m where "unmarshal_BackupManifest bytes = Some m" "path_Base backup = bm_Filename m"
    "restore_checked E Q random database backup m replace w1 = (res, w')"
    using 2(2,3) by (auto simp: throwT_def split: option.splits if_splits)
  then show ?case
  proof cases
    case (2 m)
    from checked_copies [OF 2(3)] show ?thesis using g 2(1,2) copies_files [OF \<open>w_files w1 = w_files w\<close>] \<open>w_files w1 = w_files w\<close> b by auto
  qed blast
qed simp

text \<open>What a copy that is then installed leaves, whatever fails.\<close>

lemma copies_effect:
  assumes "copies E Q random database backup m found w res w'" and tmp: "\<And>n x. temp_path (path_Dir database) (random n) \<noteq> database @ x"
    and found: "\<not> found \<Longrightarrow> \<forall>x \<in> set ('''' # sidecars). \<not> regular (beside database w x)"
  shows "kept_safe database w w'"
    and "res = Inr u \<Longrightarrow> \<exists>b f. resolve 40 (w_files w) backup = Some b \<and> digest_matches E (f_bytes b) m \<and> verified_bytes E Q (f_bytes b)
      \<and> f_kind f = Regular \<and> f_bytes f = f_bytes b \<and> replaced database (Some f) w w'"
proof -
  obtain now n w1 where c: "map_of (w_files w) (temp_path (path_Dir database) (random n)) = None"
    "w_files w1 = put_file (temp_path (path_Dir database) (random n)) \<lparr>f_kind = Regular, f_bytes = '''', f_mtime = now\<rparr> (w_files w)"
    "deferT (osT E (os_Remove (temp_path (path_Dir database) (random n))))
      (bindT (copy_backup E Q backup m (temp_path (path_Dir database) (random n))) (\<lambda>_. install E database (temp_path (path_Dir database) (random n)) found)) w1 = (res, w')"
    using assms(1) unfolding copies_def Let_def by blast
  define t where "t = temp_path (path_Dir database) (random n)"
  have t: "t \<noteq> database @ x" "database @ x \<noteq> t" for x using tmp [of n x] by (simp_all add: t_def)
  note c = c [folded t_def]
  have b1: "beside database w1 = beside database w" using c(2) t(2) by (simp add: beside_def fun_eq_iff)
  obtain w4 where w4: "bindT (copy_backup E Q backup m t) (\<lambda>_. install E database t found) w1 = (res, w4)" "w' = snd (osT E (os_Remove t) w4)"
    using c(3) by (auto simp: deferT_def split: prod.splits)
  have b': "beside database w' = beside database w4" unfolding w4(2) by (rule remove_beside [OF t(1)])
  obtain q w2 where q: "copy_backup E Q backup m t w1 = (q, w2)" by force
  have tf: "map_of (w_files w1) t = Some \<lparr>f_kind = Regular, f_bytes = '''', f_mtime = now\<rparr>" using c(2) by simp
  have b2: "beside database w2 = beside database w"
    using rewritten_beside(1) [OF evolvesD [OF copy_rewrites q] _ t(1)] tf b1 by (simp add: regular_def)
  have cong: "kept_safe database w2 w4 = kept_safe database w w'" "replaced database f w2 w4 = replaced database f w w'" for f
    by (simp_all add: kept_safe_def replaced_def b' b2)
  have "kept_safe database w w' \<and> (res = Inr u \<longrightarrow> (\<exists>b f. resolve 40 (w_files w) backup = Some b \<and> digest_matches E (f_bytes b) m
      \<and> verified_bytes E Q (f_bytes b) \<and> f_kind f = Regular \<and> f_bytes f = f_bytes b \<and> replaced database (Some f) w w'))"
  proof (cases q)
    case (Inl e)
    then have "w4 = w2" "isl res" using w4(1) q by (auto simp: bindT_def)
    then show ?thesis using b' b2 by (auto simp: kept_safe_def)
  next
    case (Inr v)
    then have i: "install E database t found w2 = (res, w4)" using w4(1) q by (simp add: bindT_def)
    note inst = install_effect [OF i t(1), unfolded b2 cong, OF found]
    obtain b now' where b: "resolve 40 (w_files w1) backup = Some b" "digest_matches E (f_bytes b) m" "verified_bytes E Q (f_bytes b)"
      "w_files w2 = put_file t \<lparr>f_kind = Regular, f_bytes = f_bytes b, f_mtime = now'\<rparr> (w_files w1)"
      by (rule copy_backup_Inr [OF q [unfolded Inr] tf]) (simp, rule that)
    have "f_bytes b \<noteq> ''''" using b(3) by (simp add: verified_bytes_def)
    then have src: "resolve 40 (w_files w) backup = Some b" using resolve_put [OF c(1) _ b(1) [unfolded c(2)]] by auto
    let ?f = "\<lparr>f_kind = Regular, f_bytes = f_bytes b, f_mtime = now'\<rparr>"
    have "kept_safe database w w'" using inst(1) by simp
    moreover have "replaced database (Some ?f) w w'" if "res = Inr u" using inst(2) [OF _ that] b(4) by simp
    moreover have "f_kind ?f = Regular" "f_bytes ?f = f_bytes b" by simp_all
    ultimately show ?thesis using src b(2,3) by blast
  qed
  then show "kept_safe database w w'"
    and "res = Inr u \<Longrightarrow> \<exists>b f. resolve 40 (w_files w) backup = Some b \<and> digest_matches E (f_bytes b) m \<and> verified_bytes E Q (f_bytes b)
      \<and> f_kind f = Regular \<and> f_bytes f = f_bytes b \<and> replaced database (Some f) w w'" by blast+
qed

end
