(* ===== verification/Reopen.thy ===== *)
theory Reopen
  imports Restore
begin

text \<open>
  Opening a store, and the way back from a backup: what \<open>Open\<close> gives, and that a backup of a healthy
  store can be restored and opened again with the rows that the store had.
\<close>

section \<open>Opening\<close>

lemma same_quick: "same w_files (startupQuickCheck E Q bytes)"
  unfolding startupQuickCheck_def by (auto intro!: same_basic same_bind evolves_annotate same_store_files)

text \<open>What setting the journal mode does: it reaches a file, or a free name, behind the links of the path, and
  leaves there a file, a log and an index.\<close>

lemma SetWAL_Inr:
  assumes "sq_SetWAL Q path now fs = (Inr u, fs')"
  obtains n main wal index where "real_name 40 fs path = Some n"
    "\<And>x. x \<in> set ('''' # sidecars) \<Longrightarrow> map_option f_kind (map_of fs (n @ x)) \<in> {None, Some Regular}"
    "sq_wal_mode Q (case log_of fs n of None \<Rightarrow> '''' | Some b \<Rightarrow> b) (log_of fs (n @ ''-journal'')) (log_of fs (n @ ''-wal'')) = (main, wal, index)"
    "fs' = put_file n \<lparr>f_kind = Regular, f_bytes = main, f_mtime = now\<rparr> (put_file (n @ ''-wal'') \<lparr>f_kind = Regular, f_bytes = wal, f_mtime = now\<rparr>
      (put_file (n @ ''-shm'') \<lparr>f_kind = Regular, f_bytes = index, f_mtime = now\<rparr> (del_file (n @ ''-journal'') fs)))"
proof -
  obtain n where n: "real_name 40 fs path = Some n" using assms by (auto simp: sq_SetWAL_def split: option.splits)
  obtain main wal index where m: "sq_wal_mode Q (case log_of fs n of None \<Rightarrow> '''' | Some b \<Rightarrow> b) (log_of fs (n @ ''-journal'')) (log_of fs (n @ ''-wal'')) = (main, wal, index)"
    by (rule prod_cases3)
  show ?thesis
  proof (rule that [OF n _ m])
    show "map_option f_kind (map_of fs (n @ x)) \<in> {None, Some Regular}" if "x \<in> set ('''' # sidecars)" for x
      using assms that by (auto simp: sq_SetWAL_def n sidecars_def split: if_splits)
  qed (use assms m in \<open>simp add: sq_SetWAL_def n Let_def split: if_splits\<close>)
qed

lemma SetWAL_names:
  assumes "sq_SetWAL Q path now fs = (Inr u, fs')" "real_name 40 fs path = Some n"
  shows "real_name 40 fs' path = Some n" "\<forall>m. m \<notin> (\<lambda>x. n @ x) ` set ('''' # sidecars) \<longrightarrow> map_of fs' m = map_of fs m"
    "regular (map_of fs' n)" "log_of fs' (n @ ''-journal'') = None" "log_of fs' (n @ ''-wal'') \<noteq> None"
proof -
  obtain main wal index where k: "\<And>x. x \<in> set ('''' # sidecars) \<Longrightarrow> map_option f_kind (map_of fs (n @ x)) \<in> {None, Some Regular}"
    and fs': "fs' = put_file n \<lparr>f_kind = Regular, f_bytes = main, f_mtime = now\<rparr> (put_file (n @ ''-wal'') \<lparr>f_kind = Regular, f_bytes = wal, f_mtime = now\<rparr>
      (put_file (n @ ''-shm'') \<lparr>f_kind = Regular, f_bytes = index, f_mtime = now\<rparr> (del_file (n @ ''-journal'') fs)))"
    by (rule SetWAL_Inr [OF assms(1)]) (use assms(2) in auto)
  show out: "\<forall>m. m \<notin> (\<lambda>x. n @ x) ` set ('''' # sidecars) \<longrightarrow> map_of fs' m = map_of fs m" by (auto simp: fs' sidecars_def)
  show "regular (map_of fs' n)" "log_of fs' (n @ ''-journal'') = None" "log_of fs' (n @ ''-wal'') \<noteq> None"
    by (simp_all add: fs' regular_def log_of_put log_of_del)
  show "real_name 40 fs' path = Some n"
  proof (rule real_name_end [OF assms(2)])
    fix x
    assume "\<exists>f t. map_of fs x = Some f \<and> f_kind f = Symlink t"
    then have "x \<notin> (\<lambda>x. n @ x) ` set ('''' # sidecars)" using k by fastforce
    then show "map_of fs' x = map_of fs x" using out by blast
  qed (auto simp: fs')
qed

text \<open>The data of a file that was there stays the same.\<close>

lemma SetWAL_data:
  assumes "sq_SetWAL Q path now fs = (Inr u, fs')" "real_name 40 fs path = Some n" "map_of fs n = Some f" "f_bytes f \<noteq> ''''" "wal_ok Q"
  shows "sq_open Q (database_pages Q fs' n) = sq_open Q (database_pages Q fs n)" "sq_quick Q (database_pages Q fs' n) = sq_quick Q (database_pages Q fs n)"
proof -
  obtain main wal index where k: "\<And>x. x \<in> set ('''' # sidecars) \<Longrightarrow> map_option f_kind (map_of fs (n @ x)) \<in> {None, Some Regular}"
    and w: "sq_wal_mode Q (case log_of fs n of None \<Rightarrow> '''' | Some b \<Rightarrow> b) (log_of fs (n @ ''-journal'')) (log_of fs (n @ ''-wal'')) = (main, wal, index)"
    and fs': "fs' = put_file n \<lparr>f_kind = Regular, f_bytes = main, f_mtime = now\<rparr> (put_file (n @ ''-wal'') \<lparr>f_kind = Regular, f_bytes = wal, f_mtime = now\<rparr>
      (put_file (n @ ''-shm'') \<lparr>f_kind = Regular, f_bytes = index, f_mtime = now\<rparr> (del_file (n @ ''-journal'') fs)))"
    by (rule SetWAL_Inr [OF assms(1)]) (use assms(2) in auto)
  have "log_of fs n = Some (f_bytes f)" using k [of "''''"] assms(3) by (simp add: log_of_def)
  then have "sq_wal_mode Q (f_bytes f) (log_of fs (n @ ''-journal'')) (log_of fs (n @ ''-wal'')) = (main, wal, index)" using w by simp
  moreover have "database_pages Q fs n = db_pages Q (f_bytes f) (log_of fs (n @ ''-journal'')) (log_of fs (n @ ''-wal''))"
    by (simp add: database_pages_def assms(3))
  moreover have "database_pages Q fs' n = db_pages Q main None (Some wal)" by (simp add: database_pages_def fs' log_of_put log_of_del)
  ultimately show "sq_open Q (database_pages Q fs' n) = sq_open Q (database_pages Q fs n)" "sq_quick Q (database_pages Q fs' n) = sq_quick Q (database_pages Q fs n)"
    using assms(4,5) unfolding wal_ok_def by metis+
qed

lemma pragmas_Inr:
  assumes "run_pragmas E Q path [''PRAGMA busy_timeout=5000'', ''PRAGMA foreign_keys=ON'', ''PRAGMA synchronous=FULL'', pragma_wal] w = (Inr u, w')"
    and "\<not> isMemoryPath path"
  obtains now where "sq_SetWAL Q path now (w_files w) = (Inr (), w_files w')" "s_db (w_session w') = s_db (w_session w)" "w_schema w' = w_schema w"
  using assms
  by (auto simp: pragma_wal_def bindT_Inr annotateT_Inr storeT_Inr queryT_Inr nowT_Inr osT_Inr returnT_Inr tickW_def)

lemma refuse_Inr: "refuse_sidecars E path exts w = (Inr u, w') \<Longrightarrow> view w' = view w \<and> (\<forall>x \<in> set exts. resolve 40 (w_files w) (path @ x) = None)"
proof (induction exts arbitrary: w)
  case (Cons x exts)
  obtain q w1 where q: "attemptT (osT E (os_Stat (path @ x))) w = (Inr q, w1)" by (rule that) (rule attempt_total)
  with Cons.prems have r: "q = Inl notExist" "refuse_sidecars E path exts w1 = (Inr u, w')"
    by (auto simp: bindT_def throwT_def split: sum.splits if_splits)
  have "view w1 = view w" "resolve 40 (w_files w) (path @ x) = None"
    using q r(1) by (auto simp: attemptT_def osT_def os_Stat_def view_def notExist_def osFailure_def split: if_splits option.splits)
  with Cons.IH [OF r(2)] show ?case by (simp add: view_def)
qed (simp add: returnT_Inr)

lemma inspect_Inr:
  assumes "inspectDatabasePath E path w = (Inr existed, w')" "\<not> isMemoryPath path"
  shows "view w' = view w" "existed \<longleftrightarrow> resolve 40 (w_files w) path \<noteq> None"
    "\<not> existed \<Longrightarrow> x \<in> set sidecars \<Longrightarrow> resolve 40 (w_files w) (path @ x) = None"
proof -
  let ?found = "\<lambda>r. case r of Inr info \<Rightarrow> if f_kind info \<noteq> Regular \<or> f_bytes info = ''''
          then throwT (PlainError ''refusing to initialize invalid existing database file'') else returnT True
       | Inl e \<Rightarrow> if e \<noteq> notExist then throwT e
           else bindT (refuse_sidecars E path [''-wal'', ''-shm'', ''-journal'']) (\<lambda>_. returnT False)"
  obtain u w1 where 1: "osT E os_MkdirAll w = (Inr u, w1)" "bindT (attemptT (osT E (os_Stat path))) ?found w1 = (Inr existed, w')"
    using assms unfolding inspectDatabasePath_def by (auto simp: bindT_Inr [of "annotateT msg m" for msg m] annotateT_Inr simp del: refuse_sidecars.simps)
  obtain q w2 where q: "attemptT (osT E (os_Stat path)) w1 = (Inr q, w2)" by (rule that) (rule attempt_total)
  have "?found q w2 = (Inr existed, w')" using 1(2) unfolding bindT_def q by (simp only: prod.case sum.case)
  then have 2: "q = Inl notExist \<and> \<not> existed \<and> refuse_sidecars E path sidecars w2 = (Inr (), w') \<or> \<not> isl q \<and> existed \<and> w' = w2"
    by (cases q) (auto simp: bindT_Inr returnT_Inr throwT_Inr sidecars_def split: if_splits simp del: refuse_sidecars.simps)
  note s = 1(1) q 2
  have w1: "view w1 = view w" using s(1) by (auto simp: osT_Inr os_MkdirAll_def view_def)
  have w2: "view w2 = view w1" "q = Inl notExist \<Longrightarrow> resolve 40 (w_files w1) path = None" "\<not> isl q \<Longrightarrow> resolve 40 (w_files w1) path \<noteq> None"
    using s(2) by (auto simp: attemptT_def osT_def os_Stat_def view_def notExist_def osFailure_def split: if_splits option.splits)
  show "view w' = view w" "existed \<longleftrightarrow> resolve 40 (w_files w) path \<noteq> None"
    "\<not> existed \<Longrightarrow> x \<in> set sidecars \<Longrightarrow> resolve 40 (w_files w) (path @ x) = None"
    using s(3) w1 w2 by (auto simp: view_def dest!: refuse_Inr)
qed

lemma Open_checked:
  assumes "Open E Q path w = (Inr u, w')"
  shows "TrimSpace path \<noteq> ''''" "required_schema (w_schema w')"
  using assms unfolding Open_def
  by (auto simp: bindT_Inr annotateT_Inr storeT_Inr snapshotT_Inr throwT_Inr split: if_splits dest: verifyRequiredSchema_Inr)

text \<open>The schema transaction of a new database.\<close>

lemma Commit_Inr:
  assumes "sq_Commit Q path (initializeSchema empty_schema) empty_db now fs = (Inr u, fs')" "real_name 40 fs path = Some n"
    and "log_of fs (n @ ''-journal'') = None" "wal_ok Q"
  shows "\<forall>m. m \<notin> (\<lambda>x. n @ x) ` set ('''' # sidecars) \<longrightarrow> map_of fs' m = map_of fs m"
    "sq_open Q (database_pages Q fs' n) = Some (initializeSchema empty_schema, empty_db)"
proof -
  obtain main wal where m: "log_of fs n = Some main" "log_of fs (n @ ''-wal'') = Some wal"
    and fs': "fs' = put_file (n @ ''-wal'') \<lparr>f_kind = Regular, f_bytes = sq_commit Q main wal (initializeSchema empty_schema) empty_db, f_mtime = now\<rparr> fs"
    using assms(1,2) by (auto simp: sq_Commit_def split: option.splits)
  show "\<forall>m. m \<notin> (\<lambda>x. n @ x) ` set ('''' # sidecars) \<longrightarrow> map_of fs' m = map_of fs m" by (auto simp: fs' sidecars_def)
  obtain f where "map_of fs n = Some f" "f_bytes f = main" using m(1) by (auto simp: log_of_def split: option.splits if_splits)
  then have "database_pages Q fs' n = db_pages Q main None (Some (sq_commit Q main wal (initializeSchema empty_schema) empty_db))"
    using assms(3) by (simp add: database_pages_def fs' log_of_put)
  then show "sq_open Q (database_pages Q fs' n) = Some (initializeSchema empty_schema, empty_db)" using assms(4) by (simp add: wal_ok_def)
qed

lemma inspect_regular:
  assumes "inspectDatabasePath E path w = (Inr True, w')" "\<not> isMemoryPath path" "resolve 40 (w_files w) path = Some f"
  shows "f_kind f = Regular \<and> f_bytes f \<noteq> ''''"
  using assms unfolding inspectDatabasePath_def
  by (auto simp: bindT_def annotateT_def mapErrT_def attemptT_def osT_def os_MkdirAll_def os_Stat_def tickW_def throwT_def returnT_def
      split: if_splits option.splits prod.splits sum.splits simp del: refuse_sidecars.simps)

text \<open>C33: \<open>Open\<close> is faithful to the files. Of a database that exists it gives exactly the schema and the rows that
  the file holds together with the journal and the log beside it; of one that does not it gives an empty
  database with a new schema, only where no file of an older one is left beside the path. The files it
  leaves hold the schema and rows it gives, so that opening again would give the same; no file but the
  database's own (behind the links of the path) and its journal, log and index is touched; and the schema has passed the checks.\<close>

theorem open_faithful:
  assumes "Open E Q path w = (Inr u, w')" "\<not> isMemoryPath path" "wal_ok Q"
  shows "required_schema (w_schema w') \<and> (\<exists>n. real_name 40 (w_files w) path = Some n
    \<and> (\<forall>m. m \<notin> (\<lambda>x. n @ x) ` set ('''' # sidecars) \<longrightarrow> map_of (w_files w') m = map_of (w_files w) m)
    \<and> sq_open Q (database_pages Q (w_files w') n) = Some (w_schema w', s_db (w_session w'))
    \<and> (case map_of (w_files w) n of
         Some f \<Rightarrow> f_kind f = Regular \<and> sq_open Q (database_pages Q (w_files w) n) = Some (w_schema w', s_db (w_session w'))
       | None \<Rightarrow> s_db (w_session w') = empty_db \<and> w_schema w' = initializeSchema empty_schema
           \<and> (\<forall>x \<in> set sidecars. resolve 40 (w_files w) (path @ x) = None)))"
proof -
  obtain existed w1 v w2 v2 w3 w4 where s: "inspectDatabasePath E path w = (Inr existed, w1)"
    "run_pragmas E Q path [''PRAGMA busy_timeout=5000'', ''PRAGMA foreign_keys=ON'', ''PRAGMA synchronous=FULL'', pragma_wal] w1 = (Inr v, w2)"
    "storeT (queryT E (\<lambda>db. ())) w2 = (Inr v2, w3)" "(if existed then open_existing E Q path else open_new E Q path) w3 = (Inr (), w4)"
    "view w' = view w4"
    using assms(1) unfolding Open_def
    by (auto simp: bindT_Inr annotateT_Inr storeT_Inr snapshotT_Inr throwT_Inr view_def simp del: run_pragmas.simps split: if_splits dest!: verifyRequiredSchema_Inr(2))
  have ok: "required_schema (w_schema w')" by (rule Open_checked(2) [OF assms(1)])
  note i = inspect_Inr [OF s(1) assms(2)]
  obtain now where p: "sq_SetWAL Q path now (w_files w) = (Inr (), w_files w3)"
    by (rule pragmas_Inr [OF s(2) assms(2)]) (use i(1) s(3) in \<open>auto simp: storeT_Inr queryT_Inr view_def\<close>)
  obtain n where n: "real_name 40 (w_files w) path = Some n" using SetWAL_Inr [OF p] by metis
  note names = SetWAL_names [OF p n]
  have at: "resolve 40 (w_files w) path = map_of (w_files w) n" by (rule real_name_resolve [OF n])
  show ?thesis
  proof (cases "map_of (w_files w) n")
    case None
    then have "open_new E Q path w3 = (Inr (), w4)" using s(4) i(2) at by simp
    then obtain now' where c: "sq_Commit Q path (initializeSchema empty_schema) empty_db now' (w_files w3) = (Inr (), w_files w4)"
      "s_db (w_session w4) = empty_db" "w_schema w4 = initializeSchema empty_schema"
      using assms(2) unfolding open_new_def
      by (auto simp: bindT_Inr annotateT_Inr storeT_Inr openedT_Inr nowT_Inr osT_Inr os_Touch_def tickW_def)
    note commit = Commit_Inr [OF c(1) names(1,4) assms(3)]
    then show ?thesis using None s(5) ok i(2,3) c(2,3) at n names(2) by (intro conjI exI [of _ n]) (auto simp: view_def)
  next
    case (Some f)
    then have o: "open_existing E Q path w3 = (Inr (), w4)" and ex: "existed" using s(4) i(2) at by simp_all
    have f: "f_kind f = Regular" "f_bytes f \<noteq> ''''" using inspect_regular [of E path w w1 f] s(1) ex assms(2) at Some by simp_all
    note data = SetWAL_data [OF p n Some f(2) assms(3)]
    obtain bytes w5 w6 sch db w7 where e: "osT E (sq_Read Q path) w3 = (Inr bytes, w5)" "startupQuickCheck E Q bytes w5 = (Inr (), w6)"
      "sq_open Q bytes = Some (sch, db)" "openedT sch db w7 = (Inr (), w4)" "onFileT db (requireSchemaIdentity E sch) w6 = (Inr (), w7)"
      using o unfolding open_existing_def by (auto simp: bindT_Inr throwT_Inr split: option.splits)
    have "bytes = database_pages Q (w_files w3) n" "w_files w5 = w_files w3"
      using e(1) names(1) by (auto simp: osT_Inr sq_Read_def split: if_splits)
    moreover have "w_files w6 = w_files w5" using evolvesD [OF same_quick e(2)] by simp
    moreover have "w_files w4 = w_files w6" "w_schema w4 = sch" "s_db (w_session w4) = db" using e(4,5) by (auto simp: openedT_Inr onFileT_Inr)
    ultimately have "w_files w' = w_files w3" "sq_open Q (database_pages Q (w_files w3) n) = Some (w_schema w', s_db (w_session w'))"
      using s(5) e(3) by (simp_all add: view_def)
    then show ?thesis using Some ok n names(2) f(1) data(1) by (intro conjI exI [of _ n]) simp_all
  qed
qed

section \<open>The way back from a backup\<close>

lemma wp_stat:
  assumes "\<And>n. \<not> fault E n"
  shows "map_of fs n = None \<Longrightarrow> P (Inl notExist) (fs, x) \<Longrightarrow> wp (attemptT (osT E (os_Stat n))) (fs, x) P"
    "map_of fs n = Some f \<Longrightarrow> f_kind f = Regular \<Longrightarrow> P (Inr f) (fs, x) \<Longrightarrow> wp (attemptT (osT E (os_Stat n))) (fs, x) P"
  by (cases x; auto intro!: wp_attempt_os_run assms simp: os_Stat_def resolve_regular; simp add: numeral_eq_Suc)+

lemma wp_standalone:
  assumes "\<And>n. \<not> fault E n" "\<forall>y \<in> set exts. map_of fs (backup @ y) = None" "P () (fs, x)"
  shows "wp (standalone E backup exts) (fs, x) P"
  using assms(2) by (induction exts) (auto intro!: wp_return wp_bind wp_stat(1) assms)

lemma wp_destination:
  assumes "\<And>n. \<not> fault E n" "\<forall>y \<in> set exts. map_of fs (database @ y) = None \<or> regular (map_of fs (database @ y))"
    and "P (found \<or> (\<exists>y \<in> set exts. map_of fs (database @ y) \<noteq> None)) (fs, x)"
  shows "wp (destination_exists E database found exts) (fs, x) P"
  using assms(2,3)
proof (induction exts arbitrary: found)
  case (Cons y exts)
  show ?case
  proof (cases "map_of fs (database @ y)")
    case None
    then show ?thesis using Cons by (auto intro!: wp_bind wp_stat(1) assms(1))
  next
    case (Some f)
    then have "f_kind f = Regular" using Cons.prems(1) by (auto simp: regular_def)
    then show ?thesis using Cons Some by (auto intro!: wp_bind wp_stat(2) assms(1))
  qed
qed (simp add: wp_return)

text \<open>Every file that is there is renamed; none of the old names is left.\<close>

lemma wp_preserve:
  assumes E: "\<And>n. \<not> fault E n" and tmp: "\<And>y. t \<noteq> database @ y"
    and "apart r (ys @ xs)" "\<forall>y \<in> set ys. map_of fs (database @ y) = None"
    and "\<forall>y \<in> set xs. (map_of fs (database @ y) = None \<or> regular (map_of fs (database @ y))) \<and> map_of fs (database @ r @ y) = None"
    and P: "\<And>l fs'. map_of fs' t = map_of fs t \<Longrightarrow> \<forall>y \<in> set (ys @ xs). map_of fs' (database @ y) = None \<Longrightarrow> P l (fs', x)"
  shows "wp (preserve E database (database @ r) l xs) (fs, x) P"
  using assms(3-6)
proof (induction xs arbitrary: fs l ys)
  case (Cons y xs)
  have eq: "set (ys @ y # xs) = set ((ys @ [y]) @ xs)" by simp
  have r: "r \<noteq> []" "apart r ((ys @ [y]) @ xs)" using Cons.prems(1) by (simp_all add: apart_def)
  show ?case
  proof (cases "map_of fs (database @ y)")
    case None
    have "wp (preserve E database (database @ r) l xs) (fs, x) P"
      by (rule Cons.IH [OF r(2)]) (use Cons.prems(2-4) None in \<open>auto simp: eq\<close>)
    then show ?thesis using None by (auto simp: Let_def intro!: wp_bind wp_stat(1) E)
  next
    case (Some f)
    let ?fs = "put_file (database @ r @ y) f (del_file (database @ y) fs)"
    have k: "f_kind f = Regular" using Some Cons.prems(3) by (auto simp: regular_def)
    have t: "t \<noteq> database @ y" "t \<noteq> database @ r @ y" using tmp by blast+
    have other: "map_of ?fs (database @ z) = map_of fs (database @ z)" "map_of ?fs (database @ r @ z) = map_of fs (database @ r @ z)"
      if "z \<in> set (ys @ xs)" for z using that Cons.prems(1) by (auto simp: apart_def)
    have "map_of ?fs (database @ y) = None" using r(1) by simp
    then have "wp (preserve E database (database @ r) (l @ [(database @ y, database @ r @ y)]) xs) (?fs, x) P"
      using Cons.prems(2,3) other t by (intro Cons.IH [OF r(2)] Cons.prems(4)) (auto simp: eq)
    moreover have "os_Rename (database @ y) (database @ r @ y) fs = (Inr (), ?fs)" using Some Cons.prems(3) by (simp add: os_Rename_def)
    moreover obtain a b where "x = (a, b)" by (cases x)
    ultimately have ren: "wp (bindT (attemptT (osT E (os_Rename (database @ y) (database @ r @ y)))) (\<lambda>renamed. case renamed of
        Inl e \<Rightarrow> bindT (undo E l) (\<lambda>_. throwT (Annotated (''preserve current SQLite file '' @ path_Base (database @ y)) e))
      | Inr _ \<Rightarrow> preserve E database (database @ r) (l @ [(database @ y, database @ r @ y)]) xs)) (fs, x) P"
      by (auto intro!: wp_bind wp_attempt_os_run E)
    show ?thesis
      unfolding preserve.simps Let_def append_assoc by (rule wp_bind, rule wp_stat(2) [OF E Some k], simp only: sum.case, rule ren)
  qed
qed (simp add: wp_return)

text \<open>A destination to which a backup can be restored: each of its files is missing or regular, the names to
  keep old files under and the temporary names are free, and the backup stands alone.\<close>

definition restorable :: "files \<Rightarrow> (nat \<Rightarrow> string) \<Rightarrow> string \<Rightarrow> string \<Rightarrow> bool" where
  "restorable fs random database backup \<longleftrightarrow> (\<forall>x \<in> set sidecars. map_of fs (backup @ x) = None)
     \<and> (\<forall>x \<in> set ('''' # sidecars). (map_of fs (database @ x) = None \<or> regular (map_of fs (database @ x)))
          \<and> (\<forall>now. map_of fs (database @ rollback_end now @ x) = None))
     \<and> (\<forall>n. map_of fs (temp_path (path_Dir database) (random n)) = None \<and> (\<forall>x. temp_path (path_Dir database) (random n) \<noteq> database @ x))"

lemma wp_install:
  assumes E: "\<And>n. \<not> fault E n" and t: "\<And>y. t \<noteq> database @ y" and f: "map_of fs t = Some f"
    and free: "\<forall>x \<in> set ('''' # sidecars). (map_of fs (database @ x) = None \<or> regular (map_of fs (database @ x)))
      \<and> (\<forall>now. map_of fs (database @ rollback_end now @ x) = None)"
    and found: "found \<longleftrightarrow> (\<exists>y \<in> set ('''' # sidecars). map_of fs (database @ y) \<noteq> None)"
    and P: "\<And>fs'. map_of fs' database = Some f \<Longrightarrow> \<forall>x \<in> set sidecars. map_of fs' (database @ x) = None \<Longrightarrow> P () (fs', db, sch)"
  shows "wp (install E database t found) (fs, db, sch) P"
proof -
  let ?go = "\<lambda>preserved. bindT (attemptT (osT E (os_Rename t database))) (\<lambda>renamed. case renamed of
        Inl e \<Rightarrow> bindT (undo E preserved) (\<lambda>_. throwT e) | Inr _ \<Rightarrow> annotateT ''sync restore directory'' (syncDirectory E))"
  have go: "wp (?go l) (fs', db, sch) P" if "map_of fs' t = map_of fs t" "\<forall>y \<in> set ('''' # sidecars). map_of fs' (database @ y) = None" for l fs'
  proof -
    have "os_Rename t database fs' = (Inr (), put_file database f (del_file t fs'))" using that f by (simp add: os_Rename_def)
    moreover have "\<forall>x \<in> set sidecars. map_of (put_file database f (del_file t fs')) (database @ x) = None" using that(2) by (auto simp: sidecars_def)
    ultimately show ?thesis using E by (auto simp: syncDirectory_def intro!: wp_bind wp_attempt_os_run wp_annotate wp_os_run P)
  qed
  show ?thesis
  proof (cases found)
    case True
    have "wp (preserve E database (rollback_base database now) [] ('''' # sidecars)) (fs, db, sch) (\<lambda>l v. wp (?go l) v P)" for now
    proof -
      have base: "rollback_base database now = database @ rollback_end now" by (simp add: rollback_base_def rollback_end_def)
      show ?thesis
        unfolding base by (rule wp_preserve [OF E t, where ys = "[]"]) (use free go rollback_apart [of now] in auto)
    qed
    then show ?thesis unfolding install_def using True by (auto intro!: wp_bind wp_now)
  next
    case False
    then have "\<forall>y \<in> set ('''' # sidecars). map_of fs (database @ y) = None" using found by blast
    then show ?thesis unfolding install_def using False go [of fs] by (auto intro!: wp_bind [OF wp_return])
  qed
qed

lemma wp_copy:
  assumes h: "healthy E sch db" "saves Q sch db" and b: "map_of fs backup = Some b" "f_kind b = Regular" "f_bytes b = sq_image Q sch db"
    and m: "bm_Bytes m = int (length (sq_image Q sch db))" "bm_SHA256 m = sha256_hex E (sq_image Q sch db)"
    and t: "map_of fs t = Some f" "f_kind f = Regular" "t \<noteq> backup"
    and P: "\<And>now. P () (put_file t \<lparr>f_kind = Regular, f_bytes = sq_image Q sch db, f_mtime = now\<rparr> fs, db', sch')"
  shows "wp (copy_backup E Q backup m t) (fs, db', sch') P"
proof -
  note E = healthy_no_fault [OF h(1)] and rb = resolve_regular [OF b(1,2)] and rt = resolve_regular [OF t(1,2)]
  let ?fs = "\<lambda>now. put_file t \<lparr>f_kind = Regular, f_bytes = sq_image Q sch db, f_mtime = now\<rparr> fs"
  have rt': "resolve 40 (?fs now) t = Some \<lparr>f_kind = Regular, f_bytes = sq_image Q sch db, f_mtime = now\<rparr>" for now by (rule resolve_regular) simp_all
  have v: "wp (VerifyPath E Q t) (?fs now, db', sch') R"
    if "R \<lparr>vr_SQLiteVersion = sq_version Q, vr_IntegrityCheck = ''ok'', vr_ForeignKeys = ''ok'', vr_ApplicationData = ''ok''\<rparr> (?fs now, db', sch')" for R now
    by (rule wp_VerifyPath [OF h]) (use that in auto)
  show ?thesis
    unfolding copy_backup_def using E b m t rb rt rt'
    by (auto simp: os_Touch_def os_Stat_def os_WriteFile_def Let_def EqualFold_def
        intro!: wp_bind wp_os_run wp_now wp_annotate v wp_return P)
qed

lemma wp_restore:
  assumes h: "healthy E sch db" "saves Q sch db" "restorable fs random database backup"
    and b: "map_of fs backup = Some b" "f_kind b = Regular" "f_bytes b = sq_image Q sch db"
    and g: "map_of fs manifestPath = Some g" "f_kind g = Regular" "f_bytes g = manifest_file (manifest_of E Q (clock E n) (sq_image Q sch db))"
    and base: "path_Base backup = backup_name (clock E n)"
    and replace: "replace \<or> (\<forall>x \<in> set ('''' # sidecars). map_of fs (database @ x) = None)"
    and P: "\<And>fs' f. map_of fs' database = Some f \<Longrightarrow> f_kind f = Regular \<Longrightarrow> f_bytes f = sq_image Q sch db \<Longrightarrow> \<forall>x \<in> set sidecars. map_of fs' (database @ x) = None
      \<Longrightarrow> P () (fs', db', sch')"
  shows "wp (restoreDatabase E Q random database backup manifestPath replace) (fs, db', sch') P"
proof -
  note E = healthy_no_fault [OF h(1)]
  define m where "m = manifest_of E Q (clock E n) (sq_image Q sch db)"
  define t where "t = temp_path (path_Dir database) (random 9999)"
  have t: "map_of fs t = None" "\<And>x. t \<noteq> database @ x" "t \<noteq> backup" using h(3) b(1) by (auto simp: restorable_def t_def)
  have tf: "os_CreateTemp 10000 random (path_Dir database) now fs = (Inr t, put_file t \<lparr>f_kind = Regular, f_bytes = '''', f_mtime = now\<rparr> fs)" for now
    using t(1) os_CreateTemp.simps(2) [of 9999 random "path_Dir database" now fs] by (simp add: t_def Let_def)
  have un: "unmarshal_BackupManifest (f_bytes g) = Some m"
    unfolding g(3) m_def manifest_file_def by (rule manifest_indented [OF manifest_of_ok(1) [OF h(1,2)]])
  have mf: "bm_Bytes m = int (length (sq_image Q sch db))" "bm_SHA256 m = sha256_hex E (sq_image Q sch db)" "bm_Filename m = path_Base backup"
    "bm_IntegrityCheck m = ''ok''" "bm_ForeignKeys m = ''ok''" "bm_Application m = ''ok''" by (simp_all add: m_def manifest_of_def base)
  let ?found = "\<exists>y \<in> set ('''' # sidecars). map_of fs (database @ y) \<noteq> None"
  let ?fs = "\<lambda>now now'. put_file t \<lparr>f_kind = Regular, f_bytes = sq_image Q sch db, f_mtime = now'\<rparr> (put_file t \<lparr>f_kind = Regular, f_bytes = '''', f_mtime = now\<rparr> fs)"
  have away: "map_of (?fs now now') (database @ x) = map_of fs (database @ x)" for now now' x using t(2) [of x] by auto
  have inst: "wp (install E database t ?found) (?fs now now', db', sch') (\<lambda>x (fs, db, sch). P x (snd (os_Remove t fs), db, sch))" for now now'
  proof (rule wp_install [OF E t(2)])
    show "map_of (?fs now now') t = Some \<lparr>f_kind = Regular, f_bytes = sq_image Q sch db, f_mtime = now'\<rparr>" by simp
    show "\<forall>x \<in> set ('''' # sidecars). (map_of (?fs now now') (database @ x) = None \<or> regular (map_of (?fs now now') (database @ x)))
      \<and> (\<forall>now''. map_of (?fs now now') (database @ rollback_end now'' @ x) = None)"
      using h(3) unfolding away by (simp add: restorable_def)
    show "?found \<longleftrightarrow> (\<exists>y \<in> set ('''' # sidecars). map_of (?fs now now') (database @ y) \<noteq> None)" unfolding away ..
    fix fs'
    assume "map_of fs' database = Some \<lparr>f_kind = Regular, f_bytes = sq_image Q sch db, f_mtime = now'\<rparr>"
      "\<forall>x \<in> set sidecars. map_of fs' (database @ x) = None"
    then have "map_of (snd (os_Remove t fs')) database = Some \<lparr>f_kind = Regular, f_bytes = sq_image Q sch db, f_mtime = now'\<rparr>"
      "\<forall>x \<in> set sidecars. map_of (snd (os_Remove t fs')) (database @ x) = None"
      using t(2) [of "''''"] by (simp_all add: os_Remove_def split: option.split)
    then show "case (fs', db', sch') of (fs, db, sch) \<Rightarrow> P () (snd (os_Remove t fs), db, sch)" using P by simp
  qed
  have copy: "wp (bindT (copy_backup E Q backup m t) (\<lambda>_. install E database t ?found)) (put_file t \<lparr>f_kind = Regular, f_bytes = '''', f_mtime = now\<rparr> fs, db', sch')
      (\<lambda>x (fs, db, sch). P x (snd (os_Remove t fs), db, sch))" for now
    by (rule wp_bind, rule wp_copy [OF h(1,2) _ b(2,3) mf(1,2)]) (use b(1) t(3) inst in auto)
  have temp: "wp (bindT (osT E os_MkdirAll) (\<lambda>_. bindT (storeT (nowT E)) (\<lambda>now. bindT (osT E (os_CreateTemp 10000 random (path_Dir database) now))
    (\<lambda>tmpPath. deferT (osT E (os_Remove tmpPath)) (bindT (copy_backup E Q backup m tmpPath) (\<lambda>_. install E database tmpPath ?found)))))) (fs, db', sch') P"
    by (rule wp_bind, rule wp_os [OF E], simp add: os_MkdirAll_def, rule wp_bind, rule wp_now, rule wp_bind, rule wp_os [OF E], rule tf, rule wp_defer_os [OF E copy])
  have allowed: "\<not> (?found \<and> \<not> replace)" using replace by auto
  have "wp (restore_checked E Q random database backup m replace) (fs, db', sch') P"
    unfolding restore_checked_def
    by (rule wp_bind, rule wp_standalone [OF E], use h(3) in \<open>simp add: restorable_def\<close>,
        rule wp_bind, rule wp_destination [OF E], use h(3) in \<open>simp add: restorable_def\<close>, simp only: simp_thms allowed if_False temp)
  then show ?thesis
    unfolding restoreDatabase_def using E un mf resolve_regular [OF g(1,2)] g(2) by (auto simp: os_Read_def intro!: wp_bind wp_os_run)
qed

lemma wp_Open:
  assumes h: "healthy E sch db" "saves Q sch db" "sq_quick Q (sq_image Q sch db) = ''ok''" "wal_ok Q"
    and f: "map_of fs path = Some f" "f_kind f = Regular" "f_bytes f = sq_image Q sch db" "\<forall>x \<in> set sidecars. map_of fs (path @ x) = None"
    and path: "TrimSpace path \<noteq> ''''" "\<not> isMemoryPath path"
    and P: "\<And>fs'. P () (fs', db, sch)"
  shows "wp (Open E Q path) (fs, db', sch') P"
proof -
  note E = healthy_no_fault [OF h(1)] and r = resolve_regular [OF f(1,2)] and n = real_name_regular [OF f(1,2)]
  have alone: "database_pages Q fs path = sq_image Q sch db" using f by (simp add: database_pages_def db_pages_def log_of_def sidecars_def)
  have image: "sq_open Q (sq_image Q sch db) = Some (sch, db)" "sq_image Q sch db \<noteq> ''''" using h(2) by (simp_all add: saves_def)
  obtain fs' where set: "sq_SetWAL Q path now fs = (Inr (), fs' now)" for now
  proof -
    have "\<exists>fs'. sq_SetWAL Q path now fs = (Inr (), fs')" for now
      using f alone image(1) by (simp add: sq_SetWAL_def n sidecars_def Let_def split: prod.split)
    then show ?thesis using that by metis
  qed
  have names: "real_name 40 (fs' now) path = Some path" "regular (map_of (fs' now) path)" for now using SetWAL_names(1,3) [OF set n] by blast+
  have data: "sq_open Q (database_pages Q (fs' now) path) = Some (sch, db)" "sq_quick Q (database_pages Q (fs' now) path) = ''ok''" for now
    using SetWAL_data [OF set n f(1) _ h(4)] alone image h(3) f(3) by simp_all
  have inspect: "wp (inspectDatabasePath E path) (fs, db', sch') R" if "R True (fs, db', sch')" for R
    using that E f h(2) path(2) unfolding inspectDatabasePath_def saves_def
    by (auto simp: os_MkdirAll_def simp del: refuse_sidecars.simps intro!: wp_bind wp_annotate wp_os_run wp_stat(2) [OF E f(1,2)] wp_return)
  have pragmas: "wp (run_pragmas E Q path [''PRAGMA busy_timeout=5000'', ''PRAGMA foreign_keys=ON'', ''PRAGMA synchronous=FULL'', pragma_wal]) (fs, db', sch') R"
    if "\<And>now. R () (fs' now, db', sch')" for R
  proof -
    have "wp (osT E (sq_SetWAL Q path now)) (fs, db', sch') (\<lambda>u v. wp (returnT ()) v R)" for now
      by (rule wp_os [OF E], rule set, rule wp_return, rule that)
    then show ?thesis using path(2) by (auto simp: pragma_wal_def intro!: wp_bind wp_annotate wp_query wp_now E)
  qed
  have opened: "wp (openedT sch db) (fs', db', sch') R" if "R () (fs', db, sch)" for R fs'
    using that by (auto simp: wp_def openedT_def view_def)
  have sch: "required_schema sch" "schema_identity sch" using h(1) by (simp_all add: healthy_def required_schema_def)
  have identity: "wp (onFileT db (requireSchemaIdentity E sch)) v R" if "R () v" for R v
    by (rule wp_file_ok [where x = "()"]) (rule requireSchemaIdentity_ok [OF sch(2) E], rule that)
  have schema: "wp (storeT (verifyRequiredSchema E sch)) v R" if "R () v" for R v
    by (rule wp_store_ok [where x = "()"]) (rule verifyRequiredSchema_ok [OF sch(1) E], rule that)
  have read: "wp (osT E (sq_Read Q path)) (fs' now, db', sch') R" if "R (database_pages Q (fs' now) path) (fs' now, db', sch')" for R now
    by (rule wp_os) (use E names that in \<open>simp_all add: sq_Read_def regular_def\<close>)
  have existing: "wp (open_existing E Q path) (fs' now, db', sch') R" if "R () (fs' now, db, sch)" for R now
    using that data unfolding open_existing_def startupQuickCheck_def
    by (auto simp: EqualFold_def intro!: wp_bind read E wp_annotate wp_query wp_return identity opened)
  have "0 \<le> compareVersions (sq_version Q) minimumSQLite" using h(2) by (simp add: saves_def)
  then show ?thesis
    unfolding Open_def using path(1) P
    by (auto simp del: run_pragmas.simps intro!: wp_bind inspect pragmas wp_query E existing wp_snapshot wp_annotate schema)
qed

text \<open>C28: A backup brings the store back: without faults, a backup of a healthy store and its manifest can be
  restored to a path that is free, or whose files may be replaced, and opening that path, which changes it to the
  WAL mode, gives the schema and the rows the store had.\<close>

theorem restore_recovers:
  assumes "healthy E sch db" "saves Q sch db" "sq_quick Q (sq_image Q sch db) = ''ok''" "wal_ok Q" "restorable (w_files w) random database backup"
    and "map_of (w_files w) backup = Some b" "f_kind b = Regular" "f_bytes b = sq_image Q sch db"
    and "map_of (w_files w) manifestPath = Some g" "f_kind g = Regular"
      "f_bytes g = manifest_file (manifest_of E Q (clock E n) (sq_image Q sch db))" "path_Base backup = backup_name (clock E n)"
    and "replace \<or> (\<forall>x \<in> set ('''' # sidecars). map_of (w_files w) (database @ x) = None)"
    and "TrimSpace database \<noteq> ''''" "\<not> isMemoryPath database"
  shows "\<exists>w' w''. restoreDatabase E Q random database backup manifestPath replace w = (Inr (), w')
    \<and> Open E Q database w' = (Inr (), w'') \<and> s_db (w_session w'') = db \<and> w_schema w'' = sch"
proof -
  let ?ok = "\<lambda>u (fs, x). \<exists>f. map_of fs database = Some f \<and> f_kind f = Regular \<and> f_bytes f = sq_image Q sch db \<and> (\<forall>x \<in> set sidecars. map_of fs (database @ x) = None)"
  have "wp (restoreDatabase E Q random database backup manifestPath replace) (view w) ?ok"
    unfolding view_def by (rule wp_restore [OF assms(1,2,5-13)]) auto
  from wpD [OF this] obtain w' where r: "restoreDatabase E Q random database backup manifestPath replace w = (Inr (), w')" "?ok () (view w')" by auto
  then obtain f where f: "map_of (w_files w') database = Some f" "f_kind f = Regular" "f_bytes f = sq_image Q sch db"
    "\<forall>x \<in> set sidecars. map_of (w_files w') (database @ x) = None" by (auto simp: view_def)
  have "wp (Open E Q database) (view w') (\<lambda>u (fs, db', sch'). db' = db \<and> sch' = sch)"
    unfolding view_def by (rule wp_Open [OF assms(1-4) f assms(14,15)]) simp
  from wpD [OF this] obtain w'' where "Open E Q database w' = (Inr (), w'')" "s_db (w_session w'') = db \<and> w_schema w'' = sch" by (auto simp: view_def)
  with r(1) show ?thesis by blast
qed

section \<open>Restores keep what they replace\<close>

text \<open>C30: A restore that succeeds has installed the backup: the manifest names it and gives its size and digest,
  the database is now a regular file with the bytes of the backup, which pass the SQLite and application
  checks; files of the old database were there only if replacing them was asked for, all of them are kept
  under one new name, and none is left beside the new database.\<close>

theorem restore_installs:
  assumes "restoreDatabase E Q random database backup manifestPath replace w = (Inr u, w')"
    and "\<forall>n x. temp_path (path_Dir database) (random n) \<noteq> database @ x"
  shows "\<exists>g m b f. resolve 40 (w_files w) manifestPath = Some g \<and> unmarshal_BackupManifest (f_bytes g) = Some m
    \<and> path_Base backup = bm_Filename m \<and> resolve 40 (w_files w) backup = Some b \<and> digest_matches E (f_bytes b) m
    \<and> verified_bytes E Q (f_bytes b) \<and> f_kind f = Regular \<and> f_bytes f = f_bytes b \<and> replaced database (Some f) w w'
    \<and> (replace \<or> (\<forall>x \<in> set ('''' # sidecars). \<not> regular (beside database w x)))"
proof -
  obtain g m found where r: "resolve 40 (w_files w) manifestPath = Some g" "unmarshal_BackupManifest (f_bytes g) = Some m"
    "path_Base backup = bm_Filename m" "found \<longrightarrow> replace" "\<not> found \<longrightarrow> (\<forall>x \<in> set ('''' # sidecars). \<not> regular (beside database w x))"
    "copies E Q random database backup m found w (Inr u) w'"
    using restore_reaches [OF assms(1)] by auto
  from copies_effect(2) [OF r(6) assms(2) [rule_format] _ refl] r show ?thesis by blast
qed

text \<open>C29: Whatever a restore returns and whatever fails during it, each file of the old database still exists,
  under its own name or under the name it was to be kept under.\<close>

theorem restore_never_loses:
  assumes "restoreDatabase E Q random database backup manifestPath replace w = (res, w')"
    and "\<forall>n x. temp_path (path_Dir database) (random n) \<noteq> database @ x"
  shows "kept_safe database w w'"
  using restore_reaches [OF assms(1)]
proof (elim disjE exE conjE)
  assume "w_files w' = w_files w"
  then show ?thesis by (simp add: kept_safe_def beside_def)
next
  fix g m found
  assume c: "\<not> found \<longrightarrow> (\<forall>x \<in> set ('''' # sidecars). \<not> regular (beside database w x))" "copies E Q random database backup m found w res w'"
  show ?thesis using copies_effect(1) [OF c(2) assms(2) [rule_format]] c(1) by blast
qed

text \<open>C31: Without the option to replace it, a database that exists is not touched: the restore is refused and no
  file is changed.\<close>

theorem restore_needs_replace:
  assumes "restoreDatabase E Q random database backup manifestPath False w = (res, w')"
    and "regular (beside database w x)" "x \<in> set ('''' # sidecars)"
  shows "isl res \<and> w_files w' = w_files w"
  using restore_reaches [OF assms(1)] assms(2,3) by auto

section \<open>A sample restore\<close>

definition sample_manifest :: BackupManifest where
  "sample_manifest = manifest_of sample_env sample_sqlite (clock sample_env 0) (sq_image sample_sqlite (initializeSchema empty_schema) empty_db)"

definition sample_file :: "string \<Rightarrow> inode" where
  "sample_file bytes = \<lparr>f_kind = Regular, f_bytes = bytes, f_mtime = 0\<rparr>"

definition sample_backup :: string where
  "sample_backup = ''/b/'' @ backup_name (clock sample_env 0)"

definition sample_disk :: world where
  "sample_disk = sample_world [(''/data/lazarus.db'', sample_file ''old''), (sample_backup, sample_file ''SQLite format 3''),
     (sample_backup @ ''.manifest.json'', sample_file (manifest_file sample_manifest))]"

lemma path_Base_dir:
  assumes "CHR ''/'' \<notin> set name" "name \<noteq> ''''"
  shows "path_Base (dir @ CHR ''/'' # name) = name"
proof -
  have r: "rev (dir @ CHR ''/'' # name) = rev name @ CHR ''/'' # rev dir" by simp
  have "dropWhile (\<lambda>c. c = CHR ''/'') (rev (dir @ CHR ''/'' # name)) = rev name @ CHR ''/'' # rev dir"
    unfolding r using assms by (cases "rev name") (auto simp: rev_eq_Cons_iff)
  moreover have "takeWhile (\<lambda>c. c \<noteq> CHR ''/'') (rev name @ CHR ''/'' # rev dir) = rev name"
    using assms(1) by (subst takeWhile_append2) auto
  ultimately show ?thesis by (simp add: path_Base_def Let_def)
qed

lemma sample_base: "path_Base sample_backup = backup_name (clock sample_env 0)"
proof -
  have "artifact_database (backup_name (clock sample_env 0)) = Some (backup_name (clock sample_env 0))"
    using backup_name_artifact time_ok_sample by (simp add: clock_sample)
  then have "CHR ''/'' \<notin> set (backup_name (clock sample_env 0))" by (auto simp: artifact_database_def ContainsAny_def list_ex_iff split: if_splits)
  moreover have "backup_name (clock sample_env 0) \<noteq> ''''" by (simp add: backup_name_def)
  ultimately show ?thesis using path_Base_dir [of "backup_name (clock sample_env 0)" "''/b''"] by (simp add: sample_backup_def)
qed

lemma sample_paths: "path_Dir ''/data/lazarus.db'' = ''/data''"
  "temp_path ''/data'' ''0'' = ''/data/.lazarus-restore-0''" "TrimSpace ''/data/lazarus.db'' \<noteq> ''''" "\<not> isMemoryPath ''/data/lazarus.db''"
  by code_simp+

lemma sample_restorable: "restorable (w_files sample_disk) (\<lambda>n. ''0'') ''/data/lazarus.db'' sample_backup"
  using sample_paths(1,2)
  by (simp add: restorable_def sample_disk_def sample_world_def sample_backup_def sidecars_def rollback_end_def regular_def sample_file_def)

lemma sample_disk_files: "map_of (w_files sample_disk) sample_backup = Some (sample_file ''SQLite format 3'')"
  "map_of (w_files sample_disk) (sample_backup @ ''.manifest.json'') = Some (sample_file (manifest_file sample_manifest))"
  "beside ''/data/lazarus.db'' sample_disk '''' = Some (sample_file ''old'')"
  by (simp_all add: sample_disk_def sample_world_def sample_backup_def beside_def)

lemma sample_alone: "\<forall>x \<in> set sidecars. map_of (w_files sample_disk) (sample_backup @ x) = None"
  by (simp add: sample_disk_def sample_world_def sample_backup_def sidecars_def)

lemma sample_image: "sq_image sample_sqlite sch db = ''SQLite format 3''" "sq_quick sample_sqlite b = ''ok''"
  by (simp_all add: sample_sqlite_def)

lemma sample_wal: "wal_ok sample_sqlite"
  by (auto simp: wal_ok_def sample_sqlite_def db_pages_def split: option.splits if_splits)

lemma sample_file_simps: "f_kind (sample_file x) = Regular" "f_bytes (sample_file x) = x"
  by (simp_all add: sample_file_def)

theorem restore_recovers_witness:
  "\<exists>w' w''. restoreDatabase sample_env sample_sqlite (\<lambda>n. ''0'') ''/data/lazarus.db'' sample_backup (sample_backup @ ''.manifest.json'') True sample_disk = (Inr (), w')
    \<and> Open sample_env sample_sqlite ''/data/lazarus.db'' w' = (Inr (), w'') \<and> s_db (w_session w'') = empty_db"
  using restore_recovers [where replace = True, OF sample_healthy sample_saves _ sample_wal sample_restorable sample_disk_files(1) _ _ sample_disk_files(2) _ _ sample_base _ sample_paths(3,4)]
  by (auto simp: sample_image sample_manifest_def sample_file_simps)

lemma sample_temp: "\<forall>n x. temp_path (path_Dir ''/data/lazarus.db'') ((\<lambda>n. ''0'') n) \<noteq> ''/data/lazarus.db'' @ x"
  using sample_paths(1,2) by simp

lemma sample_restored:
  "\<exists>w'. restoreDatabase sample_env sample_sqlite (\<lambda>n. ''0'') ''/data/lazarus.db'' sample_backup (sample_backup @ ''.manifest.json'') True sample_disk = (Inr (), w')"
proof -
  have "wp (restoreDatabase sample_env sample_sqlite (\<lambda>n. ''0'') ''/data/lazarus.db'' sample_backup (sample_backup @ ''.manifest.json'') True) (view sample_disk) (\<lambda>u v. True)"
    unfolding view_def by (rule wp_restore [OF sample_healthy sample_saves sample_restorable sample_disk_files(1) _ _ sample_disk_files(2) _ _ sample_base])
      (simp_all add: sample_image sample_file_simps sample_manifest_def)
  from wpD [OF this] show ?thesis by auto
qed

lemma sample_opens: "TrimSpace sample_backup \<noteq> ''''" "\<not> isMemoryPath sample_backup" "TrimSpace sample_backup = sample_backup"
proof -
  have "HasPrefix sample_backup ''/b/''" by (simp add: sample_backup_def HasPrefix_def)
  then show "\<not> isMemoryPath sample_backup" by (auto simp: isMemoryPath_def HasPrefix_def sample_backup_def)
  show "TrimSpace sample_backup = sample_backup" by (rule TrimSpace_ends) (simp_all add: sample_backup_def backup_name_def space_runes_def)
  then show "TrimSpace sample_backup \<noteq> ''''" by (simp add: sample_backup_def)
qed

theorem restore_installs_witness:
  "\<exists>w' f. restoreDatabase sample_env sample_sqlite (\<lambda>n. ''0'') ''/data/lazarus.db'' sample_backup (sample_backup @ ''.manifest.json'') True sample_disk = (Inr (), w')
    \<and> f_bytes f = ''SQLite format 3'' \<and> replaced ''/data/lazarus.db'' (Some f) sample_disk w'"
proof -
  obtain w' where w: "restoreDatabase sample_env sample_sqlite (\<lambda>n. ''0'') ''/data/lazarus.db'' sample_backup (sample_backup @ ''.manifest.json'') True sample_disk = (Inr (), w')"
    using sample_restored by blast
  from restore_installs [OF w sample_temp] resolve_regular [OF sample_disk_files(1)] w show ?thesis by (auto simp: sample_file_simps)
qed

theorem restore_never_loses_witness:
  "\<exists>w'. restoreDatabase sample_env sample_sqlite (\<lambda>n. ''0'') ''/data/lazarus.db'' sample_backup (sample_backup @ ''.manifest.json'') True sample_disk = (Inr (), w')
    \<and> beside ''/data/lazarus.db'' sample_disk '''' = Some (sample_file ''old'') \<and> kept_safe ''/data/lazarus.db'' sample_disk w'"
proof -
  obtain w' where w: "restoreDatabase sample_env sample_sqlite (\<lambda>n. ''0'') ''/data/lazarus.db'' sample_backup (sample_backup @ ''.manifest.json'') True sample_disk = (Inr (), w')"
    using sample_restored by blast
  from restore_never_loses [OF w sample_temp] sample_disk_files(3) w show ?thesis by blast
qed

theorem restore_needs_replace_witness:
  "\<exists>res w'. restoreDatabase sample_env sample_sqlite (\<lambda>n. ''0'') ''/data/lazarus.db'' sample_backup (sample_backup @ ''.manifest.json'') False sample_disk = (res, w')
    \<and> isl res \<and> w_files w' = w_files sample_disk"
proof -
  obtain res w' where w: "restoreDatabase sample_env sample_sqlite (\<lambda>n. ''0'') ''/data/lazarus.db'' sample_backup (sample_backup @ ''.manifest.json'') False sample_disk = (res, w')"
    by (cases "restoreDatabase sample_env sample_sqlite (\<lambda>n. ''0'') ''/data/lazarus.db'' sample_backup (sample_backup @ ''.manifest.json'') False sample_disk")
  have "regular (beside ''/data/lazarus.db'' sample_disk '''')" by (simp add: sample_disk_files(3) regular_def sample_file_simps)
  from restore_needs_replace [OF w this] w show ?thesis by auto
qed

lemma sample_opened: "\<exists>w'. Open sample_env sample_sqlite sample_backup sample_disk = (Inr (), w') \<and> s_db (w_session w') = empty_db"
proof -
  have "wp (Open sample_env sample_sqlite sample_backup) (view sample_disk) (\<lambda>u v. fst (snd v) = empty_db)"
    unfolding view_def by (rule wp_Open [OF sample_healthy sample_saves _ sample_wal sample_disk_files(1)])
      (simp_all add: sample_image sample_file_simps sample_opens(1,2) sample_alone)
  from wpD [OF this] show ?thesis by (auto simp: view_def)
qed

theorem open_faithful_witness:
  "\<exists>w'. Open sample_env sample_sqlite sample_backup sample_disk = (Inr (), w')
    \<and> map_of (w_files w') ''/data/lazarus.db'' = map_of (w_files sample_disk) ''/data/lazarus.db''
    \<and> sq_open sample_sqlite ''SQLite format 3'' = Some (w_schema w', s_db (w_session w'))
    \<and> sq_open sample_sqlite (database_pages sample_sqlite (w_files w') sample_backup) = Some (w_schema w', s_db (w_session w'))"
proof -
  obtain w' where w: "Open sample_env sample_sqlite sample_backup sample_disk = (Inr (), w')" using sample_opened by blast
  have n: "real_name 40 (w_files sample_disk) sample_backup = Some sample_backup"
    by (rule real_name_regular [OF sample_disk_files(1)]) (simp add: sample_file_simps)
  have p: "database_pages sample_sqlite (w_files sample_disk) sample_backup = ''SQLite format 3''"
    using sample_disk_files(1) sample_alone by (simp add: database_pages_def db_pages_def log_of_def sidecars_def sample_file_simps)
  have "''/data/lazarus.db'' \<notin> (\<lambda>x. sample_backup @ x) ` set ('''' # sidecars)" by (auto simp: sample_backup_def)
  with open_faithful [OF w sample_opens(2) sample_wal] w n p sample_disk_files(1) show ?thesis by auto
qed

section \<open>A restore that is abandoned\<close>

text \<open>One round of the loop that moves the old files away, when the loop ends with an error that is not that of a
  rename: the look at the file failed, the file is not there, or it was renamed; and the loop went on.\<close>

lemma undo_total: "fst (undo E l w) = Inr ()"
proof -
  have "fst (forT (\<lambda>(from, to). ignoreT (osT E (os_Rename to from))) xs w) = Inr ()" for xs w
    by (induction xs arbitrary: w) (auto simp: returnT_def bindT_def ignoreT_def split: prod.splits)
  then show ?thesis by (simp add: undo_def)
qed

lemma preserve_round:
  assumes "preserve E database base l (x # xs) w = (Inl e, w')" "\<And>msg e'. e \<noteq> Annotated msg e'"
  obtains "w_files w' = w_files w"
  | w1 where "preserve E database base l xs w1 = (Inl e, w')" "w_files w1 = w_files w" "resolve 40 (w_files w) (database @ x) = None"
  | w1 f l' where "preserve E database base l' xs w1 = (Inl e, w')" "map_of (w_files w) (database @ x) = Some f"
      "w_files w1 = put_file (base @ x) f (del_file (database @ x) (w_files w))"
proof -
  obtain q w1 where q: "attemptT (osT E (os_Stat (database @ x))) w = (Inr q, w1)" by (rule that) (rule attempt_total)
  have w1: "w_files w1 = w_files w" "q = Inl notExist \<Longrightarrow> resolve 40 (w_files w) (database @ x) = None"
    using q by (auto simp: attemptT_def osT_def os_Stat_def notExist_def osFailure_def split: if_splits option.splits)
  show ?thesis
  proof (cases q)
    case (Inl e')
    then show ?thesis
      using assms(1) q w1 that(1,2) unfolding preserve.simps Let_def bindT_def by (auto simp: throwT_def split: if_splits)
  next
    case (Inr f)
    obtain z w2 where z: "attemptT (osT E (os_Rename (database @ x) (base @ x))) w1 = (Inr z, w2)" by (rule that) (rule attempt_total)
    have "preserve E database base (l @ [(database @ x, base @ x)]) xs w2 = (Inl e, w')" "\<not> isl z"
      using assms q z Inr undo_total [of E l w2] unfolding preserve.simps Let_def bindT_def
      by (auto simp: throwT_def split: sum.splits prod.splits)
    moreover have "\<exists>f. map_of (w_files w) (database @ x) = Some f \<and> w_files w2 = put_file (base @ x) f (del_file (database @ x) (w_files w))"
      using z calculation(2) w1(1) by (auto simp: attemptT_def osT_def os_Rename_def split: if_splits option.splits)
    ultimately show ?thesis using that(3) by blast
  qed
qed

lemma preserve_error:
  assumes "preserve E database base l xs w = (Inl e, w')" "\<And>msg e'. e \<noteq> Annotated msg e'" "\<forall>x \<in> set xs. n \<noteq> database @ x \<and> n \<noteq> base @ x"
  shows "map_of (w_files w') n = map_of (w_files w) n"
  using assms(1,3)
proof (induction xs arbitrary: l w)
  case (Cons x xs)
  from Cons.prems(1) assms(2) show ?case
  proof (cases rule: preserve_round)
    case (3 w1 f l')
    then show ?thesis using Cons.IH [OF 3(1)] Cons.prems(2) by simp
  qed (use Cons.IH Cons.prems(2) in auto)
qed (simp add: returnT_def)

text \<open>C32: The loop of a restore that moves the files of the old database away does not undo its renames when it ends
  with the error of a look at a file (those of a rename are annotated): whatever failed, either no file was
  moved, or the old database is gone from its path and stays under the rollback name. The restore then ends
  with that error, and installs nothing in its place.\<close>

theorem preserve_abandons:
  assumes "storeT (nowT E) w = (Inr now, w1)" "preserve E database (rollback_base database now) [] ('''' # sidecars) w1 = (Inl e, w2)"
    and "\<forall>msg e'. e \<noteq> Annotated msg e'" "regular (beside database w '''')"
  shows "install E database tmp True w = (Inl e, w2)
    \<and> (w_files w2 = w_files w
      \<or> beside database w2 '''' = None \<and> map_of (w_files w2) (rollback_base database now) = beside database w '''')"
proof
  have base: "rollback_base database now = database @ rollback_end now" by (simp add: rollback_base_def rollback_end_def)
  have w1: "w_files w1 = w_files w" using assms(1) by (auto simp: storeT_Inr nowT_Inr)
  show "install E database tmp True w = (Inl e, w2)" using assms(1,2) by (simp add: install_def bindT_def)
  have ne: "\<And>msg e'. e \<noteq> Annotated msg e'" using assms(3) by blast
  obtain f where f: "map_of (w_files w) database = Some f" "f_kind f = Regular" using assms(4) by (auto simp: beside_def regular_def)
  show "w_files w2 = w_files w \<or> beside database w2 '''' = None \<and> map_of (w_files w2) (rollback_base database now) = beside database w ''''"
    using assms(2) ne
  proof (cases rule: preserve_round)
    case (2 w3)
    then show ?thesis using resolve_regular [OF f] w1 by simp
  next
    case (3 w3 g l')
    have "map_of (w_files w2) n = map_of (w_files w3) n" if "\<forall>x \<in> set sidecars. n \<noteq> database @ x \<and> n \<noteq> rollback_base database now @ x" for n
      by (rule preserve_error [OF 3(1) ne that])
    moreover have "\<forall>x \<in> set sidecars. n \<noteq> database @ x \<and> n \<noteq> rollback_base database now @ x" if "n = database \<or> n = rollback_base database now" for n
      using that by (auto simp: base rollback_end_def sidecars_def)
    ultimately have "map_of (w_files w2) database = map_of (w_files w3) database"
      "map_of (w_files w2) (rollback_base database now) = map_of (w_files w3) (rollback_base database now)" by blast+
    then show ?thesis using 3(2,3) w1 by (simp add: beside_def base rollback_end_def)
  qed (simp add: w1)
qed

theorem preserve_abandons_witness:
  "\<exists>w2. install (sample_env\<lparr>fault := (\<lambda>n. n = 3)\<rparr>) ''/data/lazarus.db'' ''tmp'' True sample_disk = (Inl osFailure, w2)
    \<and> beside ''/data/lazarus.db'' sample_disk '''' = Some (sample_file ''old'') \<and> beside ''/data/lazarus.db'' w2 '''' = None
    \<and> map_of (w_files w2) (rollback_base ''/data/lazarus.db'' (clock sample_env 0)) = Some (sample_file ''old'')"
proof -
  let ?E = "sample_env\<lparr>fault := (\<lambda>n. n = 3)\<rparr>" and ?db = "''/data/lazarus.db''"
  have t: "s_ticks (w_session sample_disk) = 0" by (simp add: sample_disk_def sample_world_def sample_start_def)
  obtain now w1 where now: "storeT (nowT ?E) sample_disk = (Inr now, w1)" "now = clock sample_env 0" "w_files w1 = w_files sample_disk" "s_ticks (w_session w1) = 1"
    using t by (auto simp: storeT_def nowT_def tick_def)
  have old: "map_of (w_files sample_disk) ?db = Some (sample_file ''old'')" using sample_disk_files(3) by (simp add: beside_def)
  moreover have "resolve 40 (w_files sample_disk) ?db = Some (sample_file ''old'')" using old by (rule resolve_regular) (simp add: sample_file_simps)
  moreover have "map_of (w_files sample_disk) (rollback_base ?db now) = None"
    by (simp add: sample_disk_def sample_world_def sample_backup_def rollback_base_def)
  ultimately obtain w2 where p: "preserve ?E ?db (rollback_base ?db now) [] ('''' # sidecars) w1 = (Inl osFailure, w2)" "w_files w2 \<noteq> w_files sample_disk"
    using now(3,4)
    by (simp add: sidecars_def Let_def bindT_def attemptT_def osT_def os_Stat_def os_Rename_def throwT_def tickW_def tick_def
        osFailure_def notExist_def put_file_def sample_disk_def sample_world_def sample_backup_def rollback_base_def)
  have "regular (beside ?db sample_disk '''')" using sample_disk_files(3) by (simp add: regular_def sample_file_simps)
  with preserve_abandons [OF now(1) p(1), of "''tmp''"] p(2) now(2) sample_disk_files(3) show ?thesis by (auto simp: osFailure_def)
qed

end
