(* ===== verification/Command.thy ===== *)
theory Command
  imports Reopen Api
begin

text \<open>
  The command (\<open>cmd/lazarus/main.go\<close>): its settings from the environment, its subcommands with their
  flags and exit codes, and the start and the end of the server. What runs between them is the
  theory of the life of the process; requests are served by \<open>ServeHTTP\<close>. Messages on the standard error stream are left out.
\<close>

section \<open>Durations\<close>

text \<open>\<open>time.ParseDuration\<close>: numbers with units, in nanoseconds, with the checks for overflow of 64 bits.\<close>

fun leadingInt :: "nat \<Rightarrow> string \<Rightarrow> (nat \<times> string) option" where
  "leadingInt x [] = Some (x, [])"
| "leadingInt x (c # s) =
    (if \<not> isDigit c then Some (x, c # s)
     else if x > 2 ^ 63 div 10 then None
     else let y = 10 * x + digit_val c in if y > 2 ^ 63 then None else leadingInt y s)"

fun leadingFraction :: "nat \<Rightarrow> nat \<Rightarrow> bool \<Rightarrow> string \<Rightarrow> nat \<times> nat \<times> string" where
  "leadingFraction x scale overflow [] = (x, scale, [])"
| "leadingFraction x scale overflow (c # s) =
    (if \<not> isDigit c then (x, scale, c # s)
     else if overflow \<or> x > (2 ^ 63 - 1) div 10 then leadingFraction x scale True s
     else let y = 10 * x + digit_val c in
       if y > 2 ^ 63 then leadingFraction x scale True s else leadingFraction y (10 * scale) False s)"

definition duration_unit :: "string \<Rightarrow> nat option" where
  "duration_unit = map_of [(''ns'', 1), (''us'', 10 ^ 3), ([CHR 0xC2, CHR 0xB5, CHR ''s''], 10 ^ 3), ([CHR 0xCE, CHR 0xBC, CHR ''s''], 10 ^ 3),
     (''ms'', 10 ^ 6), (''s'', 10 ^ 9), (''m'', 60 * 10 ^ 9), (''h'', 3600 * 10 ^ 9)]"

text \<open>One number with its unit, in nanoseconds, and the rest. The product of a fraction with its unit is
  floating-point arithmetic and a parameter: \<open>frac f unit scale\<close>.\<close>

definition duration_part :: "(nat \<Rightarrow> nat \<Rightarrow> nat \<Rightarrow> nat) \<Rightarrow> string \<Rightarrow> (nat \<times> string) option" where
  "duration_part frac s =
    (if s = [] \<or> \<not> (hd s = CHR ''.'' \<or> isDigit (hd s)) then None
     else (case leadingInt 0 s of
         None \<Rightarrow> None
       | Some (v, t) \<Rightarrow>
         (let pre = length t \<noteq> length s;
              (f, scale, r) = (case t of c # t' \<Rightarrow> if c = CHR ''.'' then leadingFraction 0 1 False t' else (0, 1, t) | [] \<Rightarrow> (0, 1, t));
              post = (t \<noteq> [] \<and> hd t = CHR ''.'' \<and> length r \<noteq> length (tl t));
              u = takeWhile (\<lambda>c. \<not> (c = CHR ''.'' \<or> isDigit c)) r;
              rest = dropWhile (\<lambda>c. \<not> (c = CHR ''.'' \<or> isDigit c)) r
          in if \<not> pre \<and> \<not> post then None
             else if u = [] then None
             else (case duration_unit u of
                 None \<Rightarrow> None
               | Some unit \<Rightarrow>
                 if v > 2 ^ 63 div unit then None
                 else let v = v * unit + (if f > 0 then frac f unit scale else 0) in
                   if v > 2 ^ 63 then None else Some (v, rest)))))"

lemma leadingInt_shorter: "leadingInt x s = Some (y, t) \<Longrightarrow> length t \<le> length s"
  by (induction x s rule: leadingInt.induct) (auto simp: Let_def split: if_splits)

lemma leadingFraction_shorter: "leadingFraction x sc ov s = (y, sc', t) \<Longrightarrow> length t \<le> length s"
  by (induction x sc ov s rule: leadingFraction.induct) (auto simp: Let_def split: if_splits)

lemma duration_part_shorter: "duration_part frac s = Some (v, rest) \<Longrightarrow> length rest < length s"
proof -
  assume a: "duration_part frac s = Some (v, rest)"
  obtain x t where t: "leadingInt 0 s = Some (x, t)" using a by (auto simp: duration_part_def split: option.splits if_splits)
  define p where "p = (case t of c # t' \<Rightarrow> if c = CHR ''.'' then leadingFraction 0 1 False t' else (0, 1, t) | [] \<Rightarrow> (0, 1, t))"
  obtain f sc r where p: "p = (f, sc, r)" by (cases p)
  have "rest = dropWhile (\<lambda>c. \<not> (c = CHR ''.'' \<or> isDigit c)) r" "takeWhile (\<lambda>c. \<not> (c = CHR ''.'' \<or> isDigit c)) r \<noteq> []"
    using a t p unfolding duration_part_def p_def by (auto simp: Let_def split: option.splits if_splits)
  then have "length rest < length r" by (cases r) (auto simp: le_imp_less_Suc length_dropWhile_le split: if_splits)
  also have "length r \<le> length t" using p by (auto simp: p_def split: list.splits if_splits dest!: leadingFraction_shorter)
  also have "length t \<le> length s" by (rule leadingInt_shorter [OF t])
  finally show ?thesis .
qed

function duration_sum :: "(nat \<Rightarrow> nat \<Rightarrow> nat \<Rightarrow> nat) \<Rightarrow> nat \<Rightarrow> string \<Rightarrow> nat option" where
  "duration_sum frac d s =
    (if s = [] then Some d
     else (case duration_part frac s of
         None \<Rightarrow> None
       | Some (v, rest) \<Rightarrow> if d + v > 2 ^ 63 then None else duration_sum frac (d + v) rest))"
  by pat_completeness auto

termination duration_sum
  by (relation "measure (\<lambda>(frac, d, s). length s)") (auto dest: duration_part_shorter)

declare duration_sum.simps [simp del]

definition ParseDuration :: "(nat \<Rightarrow> nat \<Rightarrow> nat \<Rightarrow> nat) \<Rightarrow> string \<Rightarrow> int option" where
  "ParseDuration frac s =
    (let neg = (s \<noteq> [] \<and> hd s = CHR ''-''); t = (if s \<noteq> [] \<and> (hd s = CHR ''-'' \<or> hd s = CHR ''+'') then tl s else s) in
     if t = ''0'' then Some 0
     else if t = [] then None
     else (case duration_sum frac 0 t of
         None \<Rightarrow> None
       | Some d \<Rightarrow> if neg then Some (- int d) else if d > 2 ^ 63 - 1 then None else Some (int d)))"

section \<open>Settings\<close>

text \<open>The environment is a function from names to values, empty for a name that is not set.\<close>

definition env_value :: "(string \<Rightarrow> string) \<Rightarrow> string \<Rightarrow> string \<Rightarrow> string" where
  "env_value getenv key fallback = (let value = TrimSpace (getenv key) in if value \<noteq> '''' then value else fallback)"

definition durationEnv :: "(nat \<Rightarrow> nat \<Rightarrow> nat \<Rightarrow> nat) \<Rightarrow> (string \<Rightarrow> string) \<Rightarrow> string \<Rightarrow> int \<Rightarrow> go_error + int" where
  "durationEnv frac getenv key fallback =
    (let value = TrimSpace (getenv key) in
     if value = '''' then Inr fallback
     else (case ParseDuration frac value of
         None \<Rightarrow> Inl (PlainError (key @ '' must be a positive Go duration''))
       | Some parsed \<Rightarrow> if parsed \<le> 0 then Inl (PlainError (key @ '' must be a positive Go duration'')) else Inr parsed))"

definition backupKeepEnv :: "(string \<Rightarrow> string) \<Rightarrow> go_error + int" where
  "backupKeepEnv getenv =
    (let value = TrimSpace (getenv ''LAZARUS_BACKUP_KEEP'') in
     if value = '''' then Inr 7
     else (case Atoi value of
         None \<Rightarrow> Inl (PlainError ''LAZARUS_BACKUP_KEEP must be an integer from 1 through 1000'')
       | Some parsed \<Rightarrow>
         if parsed < 1 \<or> parsed > 1000 then Inl (PlainError ''LAZARUS_BACKUP_KEEP must be an integer from 1 through 1000'')
         else Inr parsed))"

section \<open>Flags\<close>

text \<open>Package \<open>flag\<close> with errors returned: the arguments are read up to the first that is not a flag. The
  flags of a set are given with whether they are boolean; the values found are listed, the last one first.\<close>

definition ParseBool :: "string \<Rightarrow> bool option" where
  "ParseBool s =
    (if s \<in> set [''1'', ''t'', ''T'', ''TRUE'', ''true'', ''True''] then Some True
     else if s \<in> set [''0'', ''f'', ''F'', ''FALSE'', ''false'', ''False''] then Some False else None)"

text \<open>The name of a flag and the value after an equals sign, for an argument that is one.\<close>

definition split_flag :: "string \<Rightarrow> (string \<times> string option) option" where
  "split_flag a =
    (let name = (if HasPrefix a ''--'' then drop 2 a else drop 1 a) in
     if name = [] \<or> hd name = CHR ''-'' \<or> hd name = CHR ''='' then None
     else let n = hd name # takeWhile (\<lambda>c. c \<noteq> CHR ''='') (tl name); r = dropWhile (\<lambda>c. c \<noteq> CHR ''='') (tl name) in
       Some (n, if r = [] then None else Some (tl r)))"

fun flag_Parse :: "(string \<times> bool) list \<Rightarrow> (string \<times> string) list \<Rightarrow> string list \<Rightarrow> (string \<times> string) list option" where
  "flag_Parse formal found [] = Some found"
| "flag_Parse formal found (a # args) =
    (if length a < 2 \<or> hd a \<noteq> CHR ''-'' then Some found
     else if a = ''--'' then Some found
     else (case split_flag a of
         None \<Rightarrow> None
       | Some (name, value) \<Rightarrow>
         (case map_of formal name of
            None \<Rightarrow> None
          | Some True \<Rightarrow>
            (case value of
               None \<Rightarrow> flag_Parse formal ((name, ''true'') # found) args
             | Some v \<Rightarrow> if ParseBool v = None then None else flag_Parse formal ((name, v) # found) args)
          | Some False \<Rightarrow>
            (case value of
               Some v \<Rightarrow> flag_Parse formal ((name, v) # found) args
             | None \<Rightarrow> (case args of [] \<Rightarrow> None | v # args' \<Rightarrow> flag_Parse formal ((name, v) # found) args')))))"

definition flag_string :: "(string \<times> string) list \<Rightarrow> string \<Rightarrow> string \<Rightarrow> string" where
  "flag_string found name fallback = (case map_of found name of None \<Rightarrow> fallback | Some v \<Rightarrow> v)"

definition flag_bool :: "(string \<times> string) list \<Rightarrow> string \<Rightarrow> bool" where
  "flag_bool found name = (case map_of found name of None \<Rightarrow> False | Some v \<Rightarrow> ParseBool v = Some True)"

section \<open>Subcommands\<close>

text \<open>Each gives its exit code and what it writes to the standard output. The response of a health check is a
  parameter: the status for a URL and whether certificates are checked, or nothing when the request fails.\<close>

definition runHealthcheck :: "(string \<Rightarrow> bool \<Rightarrow> nat option) \<Rightarrow> string list \<Rightarrow> nat" where
  "runHealthcheck get args =
    (case flag_Parse [(''url'', False), (''insecure'', True)] [] args of
       None \<Rightarrow> 2
     | Some found \<Rightarrow>
       (case get (flag_string found ''url'' ''http://127.0.0.1:8080/healthz'') (\<not> flag_bool found ''insecure'') of
          None \<Rightarrow> 1
        | Some status \<Rightarrow> if status < 200 \<or> status \<ge> 300 then 1 else 0))"

definition marshal_VerifyResult :: "VerifyResult \<Rightarrow> string" where
  "marshal_VerifyResult r = obj_text [(''sqlite_version'', quote (vr_SQLiteVersion r)), (''integrity_check'', quote (vr_IntegrityCheck r)),
     (''foreign_key_check'', quote (vr_ForeignKeys r)), (''application_check'', quote (vr_ApplicationData r))]"

definition runVerify :: "env \<Rightarrow> sqlite \<Rightarrow> string list \<Rightarrow> (nat \<times> string) io" where
  "runVerify E Q args =
    (case flag_Parse [(''database'', False)] [] args of
       None \<Rightarrow> returnT (2, '''')
     | Some found \<Rightarrow>
       if flag_string found ''database'' '''' = '''' then returnT (2, '''')
       else bindT (attemptT (VerifyPath E Q (flag_string found ''database'' '''')))
         (\<lambda>r. returnT (case r of Inl e \<Rightarrow> (1, '''') | Inr result \<Rightarrow> (0, marshal_VerifyResult result @ [CHR 0x0A]))))"

definition runRestore :: "env \<Rightarrow> sqlite \<Rightarrow> (nat \<Rightarrow> string) \<Rightarrow> string list \<Rightarrow> nat io" where
  "runRestore E Q random args =
    (case flag_Parse [(''database'', False), (''backup'', False), (''manifest'', False), (''replace'', True)] [] args of
       None \<Rightarrow> returnT 2
     | Some found \<Rightarrow>
       (let database = flag_string found ''database'' ''''; backup = flag_string found ''backup'' ''''; manifest = flag_string found ''manifest'' '''' in
        if database = '''' \<or> backup = '''' \<or> manifest = '''' then returnT 2
        else bindT (attemptT (restoreDatabase E Q random database backup manifest (flag_bool found ''replace'')))
          (\<lambda>r. returnT (case r of Inl e \<Rightarrow> 1 | Inr _ \<Rightarrow> 0))))"

datatype subcommand = Healthcheck "string list" | Verify "string list" | Restoring "string list" | PrintVersion | Serving

definition main :: "string list \<Rightarrow> subcommand" where
  "main args =
    (case args of
       [] \<Rightarrow> Serving
     | a # rest \<Rightarrow>
       if a = ''healthcheck'' then Healthcheck rest
       else if a = ''verify'' then Verify rest
       else if a = ''restore'' then Restoring rest
       else if a \<in> set [''version'', ''--version'', ''-version''] then PrintVersion
       else Serving)"

section \<open>The server\<close>

text \<open>Why the server does not start.\<close>

datatype startup_error = Refused go_error | BadTokens auth_error

record running =
  rn_server :: Server
  rn_writeTimeout :: int
  rn_shutdownTimeout :: int
  rn_addr :: string
  rn_tls :: bool

text \<open>What the operating system reports of the token file is a parameter, by its path.\<close>

definition startServer ::
    "env \<Rightarrow> sqlite \<Rightarrow> (nat \<Rightarrow> nat \<Rightarrow> nat \<Rightarrow> nat) \<Rightarrow> (string \<Rightarrow> string) \<Rightarrow> (string \<Rightarrow> token_file option) \<Rightarrow> string \<Rightarrow> (startup_error + running) io" where
  "startServer E Q frac getenv token_file version =
    (let dbPath = env_value getenv ''LAZARUS_DB_PATH'' ''/var/lib/lazarus/lazarus.db'';
         tokenPath = env_value getenv ''LAZARUS_TOKEN_FILE'' ''/etc/lazarus/tokens'';
         backupDir = env_value getenv ''LAZARUS_BACKUP_DIR'' (path_Join [path_Dir dbPath, ''backups'']);
         cert = getenv ''LAZARUS_TLS_CERT_FILE''; key = getenv ''LAZARUS_TLS_KEY_FILE'';
         refuse = (\<lambda>e. returnT (Inl e)) in
     case backupKeepEnv getenv of
       Inl e \<Rightarrow> refuse (Refused e)
     | Inr keep \<Rightarrow>
       (case durationEnv frac getenv ''LAZARUS_BACKUP_MIN_AGE'' (24 * 3600 * nanos_per_sec) of
          Inl e \<Rightarrow> refuse (Refused e)
        | Inr backupMinAge \<Rightarrow>
          bindT (attemptT (Open E Q dbPath))
          (\<lambda>opened. case opened of
              Inl e \<Rightarrow> refuse (Refused e)
            | Inr _ \<Rightarrow>
              (case LoadFile (sha256_hex E) (token_file tokenPath) of
                 Inl e \<Rightarrow> refuse (BadTokens e)
               | Inr tokens \<Rightarrow>
                 (case durationEnv frac getenv ''LAZARUS_WRITE_TIMEOUT'' (120 * nanos_per_sec) of
                    Inl e \<Rightarrow> refuse (Refused e)
                  | Inr writeTimeout \<Rightarrow>
                    (case durationEnv frac getenv ''LAZARUS_SHUTDOWN_TIMEOUT'' (30 * nanos_per_sec) of
                       Inl e \<Rightarrow> refuse (Refused e)
                     | Inr shutdownTimeout \<Rightarrow>
                       if (cert = '''') \<noteq> (key = '''')
                         then refuse (Refused (PlainError ''LAZARUS_TLS_CERT_FILE and LAZARUS_TLS_KEY_FILE must be set together''))
                       else returnT (Inr \<lparr>rn_server = api_New (Some dbPath) (Some tokens) version backupDir keep backupMinAge,
                         rn_writeTimeout = writeTimeout, rn_shutdownTimeout = shutdownTimeout,
                         rn_addr = env_value getenv ''LAZARUS_ADDR'' '':8080'', rn_tls = (cert \<noteq> '''')\<rparr>)))))))"

text \<open>How serving ends: the listener stops by itself, or a signal arrives, and then the shutdown of the HTTP server
  meets its deadline or not and the handlers return in time or not.\<close>

datatype serving_end = ListenerClosed | ListenerFailed | Signalled bool bool

datatype stop_error = ListenerError | HandlersRunning | ShutdownError

text \<open>The server, whether the store is closed, and the error returned.\<close>

definition stopServer :: "Server \<Rightarrow> serving_end \<Rightarrow> Server \<times> bool \<times> stop_error option" where
  "stopServer s ending =
    (case ending of
       ListenerClosed \<Rightarrow> (s, True, None)
     | ListenerFailed \<Rightarrow> (s, True, Some ListenerError)
     | Signalled shutdownInTime handlersDone \<Rightarrow>
       (let s = SetReady False s in
        if \<not> handlersDone then (s, False, Some HandlersRunning)
        else if \<not> shutdownInTime then (s, True, Some ShutdownError)
        else (s, True, None)))"

section \<open>What the server starts with\<close>

lemma durationEnv_Inr: "durationEnv frac getenv key fallback = Inr d \<Longrightarrow> d = fallback \<or> (0 < d \<and> d \<le> max_int64)"
  by (auto simp: durationEnv_def ParseDuration_def Let_def max_int64_def split: if_splits option.splits)

lemma backupKeepEnv_Inr: "backupKeepEnv getenv = Inr k \<Longrightarrow> 1 \<le> k \<and> k \<le> 1000"
  by (auto simp: backupKeepEnv_def Let_def split: if_splits option.splits)

text \<open>A start that succeeds went through each of its steps.\<close>

lemma startServer_Inr:
  assumes "startServer E Q frac getenv token_file version w = (Inr (Inr rn), w')"
  obtains path keep age wt st tokens where "path = env_value getenv ''LAZARUS_DB_PATH'' ''/var/lib/lazarus/lazarus.db''"
    "backupKeepEnv getenv = Inr keep" "durationEnv frac getenv ''LAZARUS_BACKUP_MIN_AGE'' (24 * 3600 * nanos_per_sec) = Inr age"
    "Open E Q path w = (Inr (), w')" "LoadFile (sha256_hex E) (token_file (env_value getenv ''LAZARUS_TOKEN_FILE'' ''/etc/lazarus/tokens'')) = Inr tokens"
    "durationEnv frac getenv ''LAZARUS_WRITE_TIMEOUT'' (120 * nanos_per_sec) = Inr wt" "durationEnv frac getenv ''LAZARUS_SHUTDOWN_TIMEOUT'' (30 * nanos_per_sec) = Inr st"
    "rn_server rn = api_New (Some path) (Some tokens) version (env_value getenv ''LAZARUS_BACKUP_DIR'' (path_Join [path_Dir path, ''backups''])) keep age"
    "rn_writeTimeout rn = wt" "rn_shutdownTimeout rn = st"
proof -
  define path where "path = env_value getenv ''LAZARUS_DB_PATH'' ''/var/lib/lazarus/lazarus.db''"
  obtain q w1 where q: "Open E Q path w = (q, w1)" by force
  show ?thesis
    using assms q unfolding startServer_def path_def [symmetric]
    by (cases q) (auto simp: Let_def bindT_def attemptT_def returnT_def intro: that [OF path_def] split: sum.splits if_splits)
qed

text \<open>C34: A server that has started is well configured: it keeps between 1 and 1000 backups, its durations are
  positive and fit their type, its tokens are well formed and not empty, the schema of its store has passed the
  checks, and it is ready.\<close>

theorem started_well_configured:
  assumes "startServer E Q frac getenv token_file version w = (Inr (Inr rn), w')"
  shows "1 \<le> sv_backupKeep (rn_server rn) \<and> sv_backupKeep (rn_server rn) \<le> 1000
    \<and> (\<forall>d \<in> {sv_backupMinAge (rn_server rn), rn_writeTimeout rn, rn_shutdownTimeout rn}. 0 < d \<and> d \<le> max_int64)
    \<and> (\<exists>tokens. sv_auth (rn_server rn) = Some tokens \<and> tokens \<noteq> [] \<and> tokens_ok (sha256_hex E) tokens)
    \<and> (\<exists>path. sv_store (rn_server rn) = Some path \<and> TrimSpace path \<noteq> '''') \<and> sv_ready (rn_server rn)
    \<and> required_schema (w_schema w')"
proof -
  obtain path keep age wt st tokens where s: "backupKeepEnv getenv = Inr keep" "durationEnv frac getenv ''LAZARUS_BACKUP_MIN_AGE'' (24 * 3600 * nanos_per_sec) = Inr age"
    "Open E Q path w = (Inr (), w')" "LoadFile (sha256_hex E) (token_file (env_value getenv ''LAZARUS_TOKEN_FILE'' ''/etc/lazarus/tokens'')) = Inr tokens"
    "durationEnv frac getenv ''LAZARUS_WRITE_TIMEOUT'' (120 * nanos_per_sec) = Inr wt" "durationEnv frac getenv ''LAZARUS_SHUTDOWN_TIMEOUT'' (30 * nanos_per_sec) = Inr st"
    "rn_server rn = api_New (Some path) (Some tokens) version (env_value getenv ''LAZARUS_BACKUP_DIR'' (path_Join [path_Dir path, ''backups''])) keep age"
    "rn_writeTimeout rn = wt" "rn_shutdownTimeout rn = st"
    by (rule startServer_Inr [OF assms])
  have d: "0 < age \<and> age \<le> max_int64" "0 < wt \<and> wt \<le> max_int64" "0 < st \<and> st \<le> max_int64"
    using durationEnv_Inr [OF s(2)] durationEnv_Inr [OF s(5)] durationEnv_Inr [OF s(6)] by (auto simp: nanos_per_sec_def max_int64_def)
  obtain f :: token_file where "load_lines (sha256_hex E) 0 [] (split_lines [] (tf_bytes f)) = Inr tokens" "tokens \<noteq> []"
    using s(4) by (auto simp: LoadFile_def split: if_splits sum.splits option.splits)
  then have t: "tokens_ok (sha256_hex E) tokens" "tokens \<noteq> []" using load_lines_ok tokens_ok_Nil by blast+
  show ?thesis
    using backupKeepEnv_Inr [OF s(1)] d t Open_checked [OF s(3)] s(7,8,9) by (simp add: api_New_def)
qed

definition sample_getenv :: "string \<Rightarrow> string" where
  "sample_getenv key = (if key = ''LAZARUS_DB_PATH'' then sample_backup else '''')"

definition sample_token_file :: "string \<Rightarrow> token_file option" where
  "sample_token_file path = Some (file_of (obj_text (token_members sample_token)))"

lemma sample_startup:
  obtains rn w where "startServer sample_env sample_sqlite (\<lambda>f u s. 0) sample_getenv sample_token_file ''1.0'' sample_disk = (Inr (Inr rn), w)"
    "s_db (w_session w) = empty_db"
proof -
  obtain w where w: "Open sample_env sample_sqlite sample_backup sample_disk = (Inr (), w)" "s_db (w_session w) = empty_db"
    using sample_opened by blast
  have "env_value sample_getenv ''LAZARUS_DB_PATH'' d = sample_backup" for d
    using sample_opens(1,3) by (simp add: env_value_def sample_getenv_def)
  moreover have "key \<noteq> ''LAZARUS_DB_PATH'' \<Longrightarrow> sample_getenv key = ''''" for key by (simp add: sample_getenv_def)
  ultimately have "\<exists>rn. startServer sample_env sample_sqlite (\<lambda>f u s. 0) sample_getenv sample_token_file ''1.0'' sample_disk = (Inr (Inr rn), w)"
    using w(1) Auth.sample_file [of "sha256_hex sample_env"]
    by (simp add: startServer_def Let_def backupKeepEnv_def durationEnv_def bindT_def attemptT_def returnT_def sample_token_file_def)
  then show ?thesis using that w(2) by (elim exE)
qed

theorem started_well_configured_witness:
  "\<exists>rn w'. startServer sample_env sample_sqlite (\<lambda>f u s. 0) sample_getenv sample_token_file ''1.0'' sample_disk = (Inr (Inr rn), w')
    \<and> sv_backupKeep (rn_server rn) \<le> 1000 \<and> sv_ready (rn_server rn)"
proof -
  obtain rn w where s: "startServer sample_env sample_sqlite (\<lambda>f u s. 0) sample_getenv sample_token_file ''1.0'' sample_disk = (Inr (Inr rn), w)"
    by (rule sample_startup)
  from started_well_configured [OF s] s show ?thesis by blast
qed

end
