(* ===== verification/Lifetime.thy ===== *)
theory Lifetime
  imports Service Command
begin

text \<open>
  The life of the server process (\<open>runServer\<close> and \<open>signalContext\<close> of \<open>cmd/lazarus/main.go\<close>), from the start of the
  listener to the return of \<open>runServer\<close>: the main goroutine, the goroutine that turns a signal into a
  cancelled context, and the handlers that \<open>net/http\<close> starts and that \<open>activeHandlers\<close> counts, in any
  interleaving. A handler takes effect in one step, at some time between its start and its return.
\<close>

section \<open>The process\<close>

text \<open>Where the main goroutine is: in the first \<open>select\<close>, in \<open>Shutdown\<close>, in the second \<open>select\<close> (with whether the
  shutdown met its deadline), or returned.\<close>

datatype main_at = AtSelect | InShutdown | AwaitHandlers bool | Returned serving_end

record process =
  pc_server :: Server
  pc_world :: world
  pc_active :: "request list"
  pc_signalled :: bool
  pc_main :: main_at
  pc_closed :: bool

definition started :: "running \<Rightarrow> world \<Rightarrow> process" where
  "started rn w = \<lparr>pc_server = rn_server rn, pc_world = w, pc_active = [], pc_signalled = False, pc_main = AtSelect, pc_closed = False\<rparr>"

text \<open>\<open>Store.Close\<close> releases the database; no row changes.\<close>

definition store_Close :: "process \<Rightarrow> process" where
  "store_Close p = p\<lparr>pc_closed := True\<rparr>"

text \<open>The deferred function of \<open>runServer\<close>: the store is closed unless handlers are still running.\<close>

definition returns :: "serving_end \<Rightarrow> process \<Rightarrow> process" where
  "returns ending p =
    (let (s, closeStore, err) = stopServer (pc_server p) ending; p = p\<lparr>pc_server := s, pc_main := Returned ending\<rparr> in
     if closeStore then store_Close p else p)"

text \<open>The first signal cancels the context that the main goroutine waits on.\<close>

definition signalContext :: "process \<Rightarrow> process" where
  "signalContext p = p\<lparr>pc_signalled := True\<rparr>"

text \<open>The steps of the main goroutine. \<open>Shutdown\<close> returns without an error only when no handler is active; it
  gives up at its deadline at any time. The wait for the handlers ends when none is active, or after five
  seconds whatever they do.\<close>

inductive main_step :: "process \<Rightarrow> process \<Rightarrow> bool" where
  listener: "pc_main p = AtSelect \<Longrightarrow> ending = ListenerClosed \<or> ending = ListenerFailed \<Longrightarrow> main_step p (returns ending p)"
| drain: "pc_main p = AtSelect \<Longrightarrow> pc_signalled p
    \<Longrightarrow> main_step p (p\<lparr>pc_server := SetReady False (pc_server p), pc_main := InShutdown\<rparr>)"
| shut_down: "pc_main p = InShutdown \<Longrightarrow> pc_active p = [] \<Longrightarrow> main_step p (p\<lparr>pc_main := AwaitHandlers True\<rparr>)"
| deadline: "pc_main p = InShutdown \<Longrightarrow> main_step p (p\<lparr>pc_main := AwaitHandlers False\<rparr>)"
| handlers_done: "pc_main p = AwaitHandlers inTime \<Longrightarrow> pc_active p = [] \<Longrightarrow> main_step p (returns (Signalled inTime True) p)"
| handlers_late: "pc_main p = AwaitHandlers inTime \<Longrightarrow> main_step p (returns (Signalled inTime False) p)"

text \<open>The other steps: a signal arrives, \<open>net/http\<close> starts a handler, a handler returns. Which requests come, and when
  \<open>net/http\<close> starts a handler for one, is a parameter. A handler that finds the store closed changes no row of it.\<close>

type_synonym arrivals = "main_at \<Rightarrow> request \<Rightarrow> bool"

inductive other_step :: "env \<Rightarrow> sqlite \<Rightarrow> net \<Rightarrow> arrivals \<Rightarrow> process \<Rightarrow> process \<Rightarrow> bool" for E Q N arrives where
  signal: "other_step E Q N arrives p (signalContext p)"
| accept: "arrives (pc_main p) r \<Longrightarrow> other_step E Q N arrives p (p\<lparr>pc_active := r # pc_active p\<rparr>)"
| respond: "r \<in> set (pc_active p) \<Longrightarrow> \<not> pc_closed p \<Longrightarrow> ServeHTTP E Q N r (pc_server p, pc_world p) = (resp, s, w)
    \<Longrightarrow> other_step E Q N arrives p (p\<lparr>pc_server := s, pc_world := w, pc_active := remove1 r (pc_active p)\<rparr>)"
| fail: "r \<in> set (pc_active p) \<Longrightarrow> pc_closed p \<Longrightarrow> db_of w = db_of (pc_world p) \<Longrightarrow> w_schema w = w_schema (pc_world p)
    \<Longrightarrow> other_step E Q N arrives p (p\<lparr>pc_world := w, pc_active := remove1 r (pc_active p)\<rparr>)"

definition process_step :: "env \<Rightarrow> sqlite \<Rightarrow> net \<Rightarrow> arrivals \<Rightarrow> process \<Rightarrow> process \<Rightarrow> bool" where
  "process_step E Q N arrives p p' \<longleftrightarrow> main_step p p' \<or> other_step E Q N arrives p p'"

text \<open>What the documentation of \<open>net/http\<close> promises of \<open>Shutdown\<close>: when it returns without an error, the listeners
  are closed and every connection has become idle and was closed, so no handler starts any more. After a
  \<open>Shutdown\<close> that ran into its deadline, and the \<open>Close\<close> that follows it, handlers may still start.\<close>

definition stops_serving :: "arrivals \<Rightarrow> bool" where
  "stops_serving arrives \<longleftrightarrow> (\<forall>r d. \<not> arrives (AwaitHandlers True) r \<and> \<not> arrives (Returned (Signalled True d)) r)"

text \<open>The requests that come bring no capture of a target observed outside the years 1 to 9999 in UTC.\<close>

definition arrivals_ok :: "arrivals \<Rightarrow> bool" where
  "arrivals_ok arrives \<longleftrightarrow> (\<forall>m r. arrives m r \<longrightarrow> request_ok r)"

inductive_cases main_stepE: "main_step p p'"
inductive_cases other_stepE: "other_step E Q N arrives p p'"

lemma returns_simps [simp]:
  "pc_main (returns e p) = Returned e" "pc_active (returns e p) = pc_active p" "pc_world (returns e p) = pc_world p"
  "pc_signalled (returns e p) = pc_signalled p"
  "pc_closed (returns e p) = ((case e of Signalled t d \<Rightarrow> d | _ \<Rightarrow> True) \<or> pc_closed p)"
  "sv_ready (pc_server (returns e p)) = (case e of Signalled t d \<Rightarrow> False | _ \<Rightarrow> sv_ready (pc_server p))"
  by (cases e; simp add: returns_def stopServer_def SetReady_def store_Close_def Let_def)+

lemma signalContext_simps [simp]:
  "pc_main (signalContext p) = pc_main p" "pc_active (signalContext p) = pc_active p" "pc_world (signalContext p) = pc_world p"
  "pc_signalled (signalContext p)" "pc_closed (signalContext p) = pc_closed p" "pc_server (signalContext p) = pc_server p"
  by (simp_all add: signalContext_def)

lemma ServeHTTP_ready: "ServeHTTP E Q N r (s, w) = (resp, s', w') \<Longrightarrow> sv_ready s' = sv_ready s"
  by (auto simp: ServeHTTP_def Let_def split: prod.splits sum.splits if_splits)

section \<open>The invariant of the process\<close>

definition quiet :: "process \<Rightarrow> bool" where
  "quiet p \<longleftrightarrow> (case pc_main p of
      AtSelect \<Rightarrow> \<not> pc_closed p
    | InShutdown \<Rightarrow> \<not> pc_closed p \<and> \<not> sv_ready (pc_server p)
    | AwaitHandlers t \<Rightarrow> \<not> pc_closed p \<and> \<not> sv_ready (pc_server p) \<and> (t \<longrightarrow> pc_active p = [])
    | Returned (Signalled t d) \<Rightarrow> pc_closed p = d \<and> \<not> sv_ready (pc_server p) \<and> (t \<longrightarrow> pc_active p = [])
    | Returned _ \<Rightarrow> pc_closed p)"

definition process_inv :: "env \<Rightarrow> schema \<Rightarrow> process \<Rightarrow> bool" where
  "process_inv E sch p \<longleftrightarrow> quiet p \<and> list_all request_ok (pc_active p) \<and> db_inv E (db_of (pc_world p)) \<and> w_schema (pc_world p) = sch"

lemma quiet_main: "main_step p p' \<Longrightarrow> quiet p \<Longrightarrow> quiet p'"
  by (erule main_stepE) (auto simp: quiet_def SetReady_def split: serving_end.splits)

lemma quiet_other:
  assumes "other_step E Q N arrives p p'" "stops_serving arrives" "quiet p"
  shows "quiet p'"
  using assms
  by (elim other_stepE) (auto simp: quiet_def stops_serving_def dest: ServeHTTP_ready split: main_at.splits serving_end.splits)

lemma list_all_remove1: "list_all P xs \<Longrightarrow> list_all P (remove1 x xs)"
  by (auto simp: list_all_iff dest: notin_set_remove1)

lemma process_inv_step:
  assumes "process_step E Q N arrives p p'" "stops_serving arrives" "arrivals_ok arrives" "env_ok E" "texts_ok E Q" "process_inv E sch p"
  shows "process_inv E sch p'"
  using assms(1) unfolding process_step_def
proof
  assume m: "main_step p p'"
  then have "pc_active p' = pc_active p \<and> pc_world p' = pc_world p" by (elim main_stepE) auto
  then show ?thesis using quiet_main [OF m] assms(6) by (simp add: process_inv_def)
next
  assume o: "other_step E Q N arrives p p'"
  have q: "quiet p'" using quiet_other [OF o assms(2)] assms(6) by (simp add: process_inv_def)
  show ?thesis
    using o
  proof (cases rule: other_step.cases)
    case (respond r resp s w)
    have "request_ok r" using respond(2) assms(6) by (auto simp: process_inv_def list_all_iff)
    from ServeHTTP_core [OF respond(4) assms(4,5) this] show ?thesis
      using respond(1) q assms(6) by (simp add: process_inv_def list_all_remove1)
  qed (use q assms(3,6) in \<open>simp_all add: process_inv_def arrivals_ok_def list_all_remove1\<close>)
qed

lemma process_inv_started: "db_inv E (db_of w) \<Longrightarrow> process_inv E (w_schema w) (started rn w)"
  by (simp add: process_inv_def quiet_def started_def)

interpretation process: invariant_system
    "\<lambda>p. stops_serving arrives \<and> arrivals_ok arrives \<and> env_ok E \<and> texts_ok E Q \<and> (\<exists>rn w. p = started rn w \<and> db_inv E (db_of w) \<and> w_schema w = sch)"
    "process_step E Q N arrives" "\<lambda>p. stops_serving arrives \<and> arrivals_ok arrives \<and> env_ok E \<and> texts_ok E Q \<and> process_inv E sch p"
    for E Q N arrives sch
  by unfold_locales (use process_inv_started process_inv_step in blast)+

text \<open>The store is closed after a signal only in a step of the main goroutine that finds no handler active.\<close>

lemma closing_quiet:
  assumes "process_step E Q N arrives p p'" "\<not> pc_closed p" "pc_closed p'" "pc_main p' = Returned (Signalled t d)"
  shows "d \<and> pc_active p' = []"
  using assms by (auto simp: process_step_def elim!: main_stepE other_stepE)

text \<open>C7: A server that started on a store with the invariant keeps it, whatever signals and requests arrive in whatever
  order and whatever fails, if no request brings a capture observed outside the years 1 to 9999 in UTC: at any time, and so
  for the next start, verification accepts the store. Once the main goroutine has turned to its shutdown, the server
  is not ready. The store is open until \<open>runServer\<close> returns; when it returns after a signal, the store is closed
  exactly if the handlers were done, in a step that finds no handler active; and after a shutdown in time none is active.\<close>

theorem shutdown_safe:
  assumes "startServer E Q frac getenv token_file version w0 = (Inr (Inr rn), w)" "db_inv E (db_of w)"
    and "env_ok E" "texts_ok E Q" "stops_serving arrives" "arrivals_ok arrives" "(process_step E Q N arrives)\<^sup>*\<^sup>* (started rn w) p"
  shows "fst (verifyApplicationData (E\<lparr>fault := (\<lambda>n. False)\<rparr>) (w_schema (pc_world p)) (w_session (pc_world p))) = Inr ()
    \<and> db_inv E (db_of (pc_world p))
    \<and> (pc_main p = InShutdown \<or> pc_main p = AwaitHandlers t \<or> pc_main p = Returned (Signalled t d) \<longrightarrow> \<not> sv_ready (pc_server p))
    \<and> (pc_closed p \<longrightarrow> (\<exists>ending. pc_main p = Returned ending))
    \<and> (pc_main p = Returned (Signalled t d) \<longrightarrow> (pc_closed p \<longleftrightarrow> d) \<and> (t \<longrightarrow> pc_active p = []))
    \<and> (\<forall>p'. process_step E Q N arrives p p' \<and> \<not> pc_closed p \<and> pc_closed p' \<and> pc_main p' = Returned (Signalled t d) \<longrightarrow> pc_active p' = [])"
proof -
  have i: "process_inv E (w_schema w) p"
    using process.inv_reachable [of arrives E Q "started rn w" "w_schema w" N p] assms(2-7) by blast
  have "required_schema (w_schema w)" by (rule startServer_Inr [OF assms(1)]) (rule Open_checked(2))
  with i have "fst (verifyApplicationData (E\<lparr>fault := (\<lambda>n. False)\<rparr>) (w_schema (pc_world p)) (w_session (pc_world p))) = Inr ()"
    using db_inv_verifies [of "E\<lparr>fault := (\<lambda>n. False)\<rparr>" "w_session (pc_world p)" "w_schema w"] by (simp add: process_inv_def db_inv_fault)
  moreover have q: "quiet p" "db_inv E (db_of (pc_world p))" using i by (simp_all add: process_inv_def)
  moreover have "\<forall>p'. process_step E Q N arrives p p' \<and> \<not> pc_closed p \<and> pc_closed p' \<and> pc_main p' = Returned (Signalled t d) \<longrightarrow> pc_active p' = []"
    using closing_quiet by blast
  moreover have "pc_closed p \<longrightarrow> (\<exists>ending. pc_main p = Returned ending)" using q(1) by (cases "pc_main p") (auto simp: quiet_def)
  ultimately show ?thesis by (auto simp: quiet_def)
qed

section \<open>Shutting down ends\<close>

text \<open>A run of the process with the number of steps of the main goroutine in it.\<close>

inductive process_runs :: "env \<Rightarrow> sqlite \<Rightarrow> net \<Rightarrow> arrivals \<Rightarrow> nat \<Rightarrow> process \<Rightarrow> process \<Rightarrow> bool" for E Q N arrives where
  none: "process_runs E Q N arrives 0 p p"
| main: "process_runs E Q N arrives n p q \<Longrightarrow> main_step q q' \<Longrightarrow> process_runs E Q N arrives (Suc n) p q'"
| other: "process_runs E Q N arrives n p q \<Longrightarrow> other_step E Q N arrives q q' \<Longrightarrow> process_runs E Q N arrives n p q'"

fun steps_left :: "main_at \<Rightarrow> nat" where
  "steps_left AtSelect = 3"
| "steps_left InShutdown = 2"
| "steps_left (AwaitHandlers t) = 1"
| "steps_left (Returned e) = 0"

lemma main_step_left: "main_step p p' \<Longrightarrow> steps_left (pc_main p') < steps_left (pc_main p) \<and> pc_signalled p' = pc_signalled p"
  by (elim main_stepE) auto

lemma other_step_left: "other_step E Q N arrives p p' \<Longrightarrow> pc_main p' = pc_main p \<and> (pc_signalled p \<longrightarrow> pc_signalled p')"
  by (elim other_stepE) auto

lemma process_runs_left:
  "process_runs E Q N arrives n p q \<Longrightarrow> n + steps_left (pc_main q) \<le> steps_left (pc_main p) \<and> (pc_signalled p \<longrightarrow> pc_signalled q)"
  by (induction rule: process_runs.induct) (auto dest!: main_step_left other_step_left)

lemma steps_left_bound: "steps_left m \<le> 3"
  by (cases m) simp_all

text \<open>No handler can block the main goroutine after a signal: the deadline and the timer are always there.\<close>

lemma main_ends:
  assumes "pc_signalled p"
  shows "pc_main p = AwaitHandlers t \<Longrightarrow> \<exists>q. main_step\<^sup>*\<^sup>* p q \<and> pc_main q = Returned (Signalled t False)"
    and "pc_main p = InShutdown \<Longrightarrow> \<exists>q. main_step\<^sup>*\<^sup>* p q \<and> pc_main q = Returned (Signalled False False)"
    and "pc_main p = AtSelect \<Longrightarrow> \<exists>q. main_step\<^sup>*\<^sup>* p q \<and> pc_main q = Returned (Signalled False False)"
proof -
  have late: "\<exists>q. main_step\<^sup>*\<^sup>* p q \<and> pc_main q = Returned (Signalled t False)" if "pc_main p = AwaitHandlers t" for p t
    using handlers_late [OF that] by (intro exI [of _ "returns (Signalled t False) p"]) auto
  have down: "\<exists>q. main_step\<^sup>*\<^sup>* p q \<and> pc_main q = Returned (Signalled False False)" if "pc_main p = InShutdown" for p
    using deadline [OF that] late [of "p\<lparr>pc_main := AwaitHandlers False\<rparr>" False] by (auto intro: converse_rtranclp_into_rtranclp)
  show "pc_main p = AwaitHandlers t \<Longrightarrow> \<exists>q. main_step\<^sup>*\<^sup>* p q \<and> pc_main q = Returned (Signalled t False)" by (rule late)
  show "pc_main p = InShutdown \<Longrightarrow> \<exists>q. main_step\<^sup>*\<^sup>* p q \<and> pc_main q = Returned (Signalled False False)" by (rule down)
  assume "pc_main p = AtSelect"
  from drain [OF this assms] down [of "p\<lparr>pc_server := SetReady False (pc_server p), pc_main := InShutdown\<rparr>"]
  show "\<exists>q. main_step\<^sup>*\<^sup>* p q \<and> pc_main q = Returned (Signalled False False)" by (auto intro: converse_rtranclp_into_rtranclp)
qed

text \<open>C27: After a signal the server stops: from then on \<open>runServer\<close> takes at most three steps of its own before it has
  returned, and at any time until then it can return by its own steps alone, with whatever requests are
  active and even if no handler ever returns.\<close>

theorem shutdown_terminates:
  assumes "pc_signalled p" "process_runs E Q N arrives n p q"
  shows "n \<le> 3 \<and> ((\<exists>ending. pc_main q = Returned ending) \<or> (\<exists>q' t. main_step\<^sup>*\<^sup>* q q' \<and> pc_main q' = Returned (Signalled t False)))"
proof -
  have "n \<le> 3" "pc_signalled q"
    using process_runs_left [OF assms(2)] steps_left_bound [of "pc_main p"] assms(1) by auto
  moreover note main_ends [OF this(2)]
  ultimately show ?thesis by (cases "pc_main q") blast+
qed

section \<open>A sample life\<close>

definition sample_ending :: "process \<Rightarrow> process" where
  "sample_ending p = returns (Signalled True True) ((signalContext p)\<lparr>pc_server := SetReady False (pc_server p), pc_main := AwaitHandlers True\<rparr>)"

lemma sample_life:
  assumes "pc_main p = AtSelect" "pc_active p = []"
  shows "process_runs E Q N arrives 3 (signalContext p) (sample_ending p)" "(process_step E Q N arrives)\<^sup>*\<^sup>* p (sample_ending p)"
proof -
  let ?p1 = "signalContext p"
  let ?p2 = "?p1\<lparr>pc_server := SetReady False (pc_server ?p1), pc_main := InShutdown\<rparr>"
  let ?p3 = "?p2\<lparr>pc_main := AwaitHandlers True\<rparr>"
  have s: "main_step ?p1 ?p2" "main_step ?p2 ?p3" by (rule drain shut_down; simp add: assms)+
  have "main_step ?p3 (returns (Signalled True True) ?p3)" by (rule handlers_done) (simp_all add: assms(2))
  then have s4: "main_step ?p3 (sample_ending p)" by (simp add: sample_ending_def)
  have "process_runs E Q N arrives (Suc (Suc (Suc 0))) ?p1 (sample_ending p)"
    by (rule process_runs.main [OF process_runs.main [OF process_runs.main [OF process_runs.none s(1)] s(2)] s4])
  then show "process_runs E Q N arrives 3 ?p1 (sample_ending p)" by (simp add: numeral_3_eq_3)
  have "process_step E Q N arrives p ?p1" "process_step E Q N arrives ?p1 ?p2" "process_step E Q N arrives ?p2 ?p3"
    "process_step E Q N arrives ?p3 (sample_ending p)"
    using s s4 other_step.signal unfolding process_step_def by blast+
  then show "(process_step E Q N arrives)\<^sup>*\<^sup>* p (sample_ending p)" by (meson converse_rtranclp_into_rtranclp rtranclp.rtrancl_refl)
qed

theorem shutdown_safe_witness:
  "\<exists>rn w p. startServer sample_env sample_sqlite (\<lambda>f u s. 0) sample_getenv sample_token_file ''1.0'' sample_disk = (Inr (Inr rn), w)
    \<and> (process_step sample_env sample_sqlite sample_net (\<lambda>m r. m = AtSelect \<and> r = sample_post))\<^sup>*\<^sup>* (started rn w) p
    \<and> pc_main p = Returned (Signalled True True) \<and> pc_closed p \<and> pc_active p = [] \<and> \<not> sv_ready (pc_server p)"
proof -
  obtain rn w where s: "startServer sample_env sample_sqlite (\<lambda>f u s. 0) sample_getenv sample_token_file ''1.0'' sample_disk = (Inr (Inr rn), w)"
    "s_db (w_session w) = empty_db" by (rule sample_startup)
  have m: "pc_main (started rn w) = AtSelect" "pc_active (started rn w) = []" by (simp_all add: started_def)
  have p: "pc_main (sample_ending (started rn w)) = Returned (Signalled True True)" by (simp add: sample_ending_def)
  have "db_inv sample_env (db_of w)" using s(2) db_inv_empty by simp
  moreover have "stops_serving (\<lambda>m r. m = AtSelect \<and> r = sample_post)" "arrivals_ok (\<lambda>m r. m = AtSelect \<and> r = sample_post)"
    using sample_request_ok by (simp_all add: stops_serving_def arrivals_ok_def)
  moreover note l = sample_life(2) [OF m, of sample_env sample_sqlite sample_net "\<lambda>m r. m = AtSelect \<and> r = sample_post"]
  ultimately show ?thesis
    using shutdown_safe [OF s(1) _ sample_env_ok(1) sample_texts _ _ l, of True True] s(1) l p by blast
qed

theorem shutdown_terminates_witness:
  "\<exists>q. process_runs sample_env sample_sqlite sample_net (\<lambda>m r. m = AtSelect \<and> r = sample_post) 3
      (signalContext (started \<lparr>rn_server = sample_server, rn_writeTimeout = 1, rn_shutdownTimeout = 1, rn_addr = '':8080'', rn_tls = False\<rparr> (sample_world []))) q
    \<and> ((\<exists>ending. pc_main q = Returned ending) \<or> (\<exists>q' t. main_step\<^sup>*\<^sup>* q q' \<and> pc_main q' = Returned (Signalled t False)))"
proof -
  let ?p = "started \<lparr>rn_server = sample_server, rn_writeTimeout = 1, rn_shutdownTimeout = 1, rn_addr = '':8080'', rn_tls = False\<rparr> (sample_world [])"
  have "pc_main ?p = AtSelect" "pc_active ?p = []" by (simp_all add: started_def)
  note l = sample_life(1) [OF this, of sample_env sample_sqlite sample_net "\<lambda>m r. m = AtSelect \<and> r = sample_post"]
  from shutdown_terminates [OF _ l] l show ?thesis by auto
qed

end
