(* ===== verification/Spec2Isabelle.thy ===== *)
theory Spec2Isabelle
  imports Board Lifetime
begin

text \<open>
  Verification of Lazarus, a service that keeps the record of maintenance runs: which targets were captured
  before a maintenance, how they were stopped and started again, and the journal of every change. The
  program is written in Go, keeps its data in one SQLite file and serves it over HTTP.

  \<^bold>\<open>Parts and theories\<close> (sources under \<open>src/internal\<close> and \<open>src/cmd\<close>)

  \<^item> The Go library the sources use: \<open>Prelude\<close> (strings, 64-bit integers with wrap-around, the locales \<open>codec\<close>
    and \<open>invariant_system\<close>), \<open>Strconv\<close>, \<open>Utf8\<close>, \<open>Json\<close> (\<open>encoding/json\<close>: decoder, strings, values), \<open>Compact\<close>,
    \<open>Marshal\<close> (structs), \<open>Indent\<close>, \<open>GoTime\<close> (instants and RFC 3339).
  \<^item> \<open>store/lifecycle.go\<close>: \<open>Lifecycle\<close>, the two tables and their predicates; the locale \<open>lifecycle\<close> bounds the
    number of transitions of a run or target that does not fail.
  \<^item> \<open>store/store.go\<close>: \<open>Errors\<close> (sentinels, \<open>ConflictError\<close>, version preconditions), \<open>Cursor\<close>, \<open>Records\<close> (the structs),
    \<open>Schema\<close> (schema objects, identity and version checks), \<open>Files\<close> (\<open>Open\<close>, \<open>startup.go\<close>, \<open>VerifyPath\<close>).
  \<^item> \<open>store/schema.sql\<close>: \<open>Database\<close>. A table is a list of rows in insertion order; the CHECKs, unique indexes,
    references and triggers that the executed statements can meet are conditions of the insert and update
    functions. \<open>session\<close> is the database with a counter of the calls made so far.
  \<^item> \<open>store/events.go\<close>, \<open>mutations.go\<close>: \<open>Mutations\<close>, one definition per operation and one per transaction, in a
    state monad with errors; \<open>writeT\<close> is the transaction that rolls back. \<open>Effects\<close> states what a success
    does to the tables, and all later proofs use only that.
  \<^item> \<open>store/reads.go\<close>: \<open>Reads\<close>, with the locale \<open>paging\<close> for the two lists.
  \<^item> \<open>store/verify.go\<close>: \<open>Verify\<close>, the replay of the journal and every check around it.
  \<^item> \<open>store/backup.go\<close>, \<open>artifacts.go\<close>: \<open>Backup\<close>, on a directory of named files (\<open>Files\<close>); \<open>Stamps\<close> on their names.
  \<^item> \<open>auth/auth.go\<close>: \<open>Auth\<close>.
  \<^item> \<open>api/routes.go\<close>, \<open>handlers.go\<close>, \<open>server.go\<close>: \<open>Routes\<close> (the mux and the table), \<open>Http\<close> (requests, preconditions,
    bodies, errors), \<open>Encode\<close> (response bodies), \<open>Api\<close> (each handler and \<open>ServeHTTP\<close>).
  \<^item> \<open>cmd/lazarus/main.go\<close>: \<open>Restore\<close> (\<open>restoreDatabase\<close>), \<open>Command\<close> (settings, subcommands, start and stop), \<open>Lifetime\<close>
    (the goroutines of \<open>runServer\<close> as a step relation).

  How they interact: \<open>main\<close> opens the store, loads the tokens and serves; \<open>ServeHTTP\<close> authenticates, routes, checks
  the role and calls a handler; a handler decodes the request, calls one store operation and encodes the
  result or the error; each operation runs one transaction and appends one event; backups verify the store
  before they publish a file, and \<open>restore\<close> verifies the file before it installs it.

  \<^bold>\<open>What is shown\<close>

  \<^item> \<open>Invariant\<close>, \<open>Preserve\<close>, \<open>Payloads\<close>, \<open>Accepts\<close>: a database invariant, kept by every operation, that implies that
    verification accepts: every store that operations can produce passes it. \<open>History\<close>: nothing is rewritten.
  \<^item> \<open>Board\<close>: an abstract specification (runs and targets with state and version) that the operations refine;
    from it, finished runs never change.
  \<^item> \<open>Contracts\<close>, \<open>Progress\<close>: the functional contract of each operation, refusals included, and that creating
    succeeds; idempotence; the barriers of the states stopped and completed.
  \<^item> \<open>Retention\<close>, \<open>Recovery\<close>, \<open>Outcome\<close>: rules for programs with faults (\<open>wp\<close> for success, \<open>evolves\<close> for every way
    out), backups that succeed and read back, artifacts that were verified, rotation and cleaning that
    remove nothing else.
  \<^item> \<open>Reopen\<close>: opening is faithful to the files and leaves files that hold what it gives, a backup restores the
    store, a restore never loses the old files.
  \<^item> \<open>Service\<close>: authorization, attribution and atomicity of requests, with the locale \<open>mutation\<close> as the
    contract that a handler uses, interpreted for each operation.
  \<^item> \<open>Lifetime\<close>: in every interleaving of requests, signal and shutdown the store stays one that verification
    accepts; after a signal the server stops, and the store is closed only in a step that finds no handler active.
  \<^item> This theory: the store as a transition system, its reachable states, and the properties that span parts.

  \<^bold>\<open>Modelling decisions\<close>

  \<^item> Strings are byte lists. Integers of type \<open>int64\<close> are integers with \<open>wrap64\<close> where the code adds; the SQL
    increment of target versions is not wrapped, and the bound on versions shows that it need not be.
  \<^item> \<open>env\<close> gives what the store does not compute: the clock, which calls fail, SHA-256, and SQLite's
    \<open>json_valid\<close>, \<open>length\<close> and error texts. The clock and the faults are indexed by the number of calls so far,
    so any schedule of faults is covered. \<open>sqlite\<close> gives the file format and the checks of SQLite, and \<open>net\<close>
    what \<open>http.ServeContent\<close> and the source of random bytes give; the random suffixes of temporary files, the product of
    a fraction with its unit in a duration and the response to a health check are arguments too. Hypotheses on them (\<open>env_ok\<close>, \<open>env_accepts\<close>,
    \<open>texts_ok\<close>, \<open>wal_ok\<close>, \<open>healthy\<close>) state documented behaviour, and a witness satisfies each.
  \<^item> An operating system call either fails and changes nothing or does its work; names in the backup directory
    are relative to it, and the paths of a restore are given in full. A path is followed through at most 40 links.
  \<^item> The store serialises writers with a mutex and one connection, so an operation is one step. A verification or
    a read sees one database; each of its queries may fail. In the life of the process a handler takes effect
    in one step, at any time between its start and its return. Which requests arrive when is a parameter;
    \<open>net/http\<close> is assumed to start no handler once \<open>Shutdown\<close> has returned without an error (\<open>stops_serving\<close>), and
    nothing is assumed of \<open>Close\<close>.
  \<^item> Opening a database reads its file with the rollback journal and the write-ahead log beside it, and
    \<open>PRAGMA journal_mode=WAL\<close> rewrites these files; what SQLite makes of them is a parameter, with \<open>wal_ok\<close> as its
    documented behaviour. Once a store is open its rows are those of the session, and the model does not write
    them to the log again. \<open>VerifyPath\<close> is given files that stand alone (backups and staged copies), and takes
    no account of a log. Paths are plain names of files, not the URIs that SQLite also accepts.
  \<^item> Row ids grow without bound and are the same in the image of a backup. SQLite would look for a free id after
    \<open>2 ^ 63 - 1\<close> and may renumber the runs of a backup; the runs keep their order, since no row is ever deleted.
  \<^item> Errors carry the sentinel and the text of the source, without the text of a driver or system error.
    Where Go iterates over a map to report one of several errors, the model reports the first.
  \<^item> \<open>create_args\<close>, \<open>capture_args\<close>, \<open>change_args\<close>, \<open>request_ok\<close>: texts given to the store by its callers are UTF-8,
    which the decoder of the API guarantees, and an observation time stays in the years 1 to 9999 in UTC,
    which the code does not check (see the findings of the manifest).
  \<^item> Fuel: the JSON parser gets \<open>2 * length + 1\<close>, shown to be enough; \<open>os.CreateTemp\<close> makes its 10000 tries. All
    other functions are total by their own recursion.

  \<^bold>\<open>Not modelled\<close>: logging, TLS, sockets and the length of time-outs, permission bits
  other than those of the token file, bodies of responses that \<open>net/http\<close> itself gives, and cancellation of a
  request in the middle of an operation other than as a failing call. They belong to the Go runtime and the
  operating system. Deployment files and tests are no part of the program.
\<close>

section \<open>The store as a transition system\<close>

text \<open>
  One step is one call of an operation that may change the database, with any result, or a call
  that only reads (\<open>other\<close>). The arguments are those that the callers in this program give, except for the time of an
  observation: texts are UTF-8 (\<open>create_args\<close>, \<open>change_args\<close>), the manifests of the operations on backups describe
  a file (\<open>manifest_args\<close>, \<open>download_args\<close>), and the targets of a capture, of which there are less than \<open>2 ^ 63\<close>, are observed in the years
  1 to 9999 in UTC (\<open>capture_args\<close>).
\<close>

inductive op_step :: "env \<Rightarrow> session \<Rightarrow> session \<Rightarrow> bool" for E where
  create: "CreateMaintenance E m audit s = (res, s') \<Longrightarrow> create_args m \<Longrightarrow> op_step E s s'"
| capture: "CaptureMaintenance E i c audit s = (res, s') \<Longrightarrow> capture_args c \<Longrightarrow> op_step E s s'"
| transition: "TransitionMaintenance E i change pre audit s = (res, s') \<Longrightarrow> change_args change \<Longrightarrow> op_step E s s'"
| target: "TransitionTarget E i ti change pre audit s = (res, s') \<Longrightarrow> change_args change \<Longrightarrow> op_step E s s'"
| observe: "AddObservation E i ti payload pre audit s = (res, s') \<Longrightarrow> op_step E s s'"
| backup_created: "RecordBackupCreated E b audit s = (res, s') \<Longrightarrow> manifest_args b \<Longrightarrow> op_step E s s'"
| backup_downloaded: "RecordBackupDownload E b name audit s = (res, s') \<Longrightarrow> download_args b \<Longrightarrow> valid_utf8 name
    \<Longrightarrow> name \<noteq> '''' \<Longrightarrow> op_step E s s'"
| other: "s_db s' = s_db s \<Longrightarrow> op_step E s s'"

text \<open>What the two operations on backups do: nothing, or one event that belongs to no run.\<close>

lemma backup_logs:
  assumes "RecordBackupCreated E b audit s = (res, s') \<and> manifest_args b \<or> RecordBackupDownload E b name audit s = (res, s')"
  obtains "s_db s' = s_db s" | kind payload now where "s_db s' = log_event (backup_event_of kind b payload now audit) (s_db s)"
proof (cases res)
  case (Inl e)
  then show ?thesis using assms RecordBackupCreated_Inl RecordBackupDownload_Inl that(1) by blast
next
  case (Inr u)
  show ?thesis
    using assms
  proof (elim disjE conjE)
    assume "RecordBackupCreated E b audit s = (res, s')" "manifest_args b"
    then show ?thesis using RecordBackupCreated_Inr(1) [of E b audit s u s'] that(2) by (simp add: Inr manifest_args_def)
  next
    assume "RecordBackupDownload E b name audit s = (res, s')"
    then show ?thesis using RecordBackupDownload_Inr [of E b name audit s u s'] that(2) by (metis Inr)
  qed
qed

lemma backup_board: "board_of (log_event (backup_event_of kind b payload now audit) db) = board_of db"
  by (rule board_eqI) (simp_all add: board_parts exercised_log)

definition store_start :: "session \<Rightarrow> bool" where
  "store_start s \<longleftrightarrow> s_db s = empty_db"

lemma op_step_inv:
  assumes "op_step E s t" "env_ok E" "db_inv E (s_db s)"
  shows "db_inv E (s_db t)"
  using assms by (auto elim!: op_step.cases dest: keep_create keep_capture keep_transition keep_target keep_observe keep_backup_created keep_backup_download)

text \<open>An operation that returns an error does not move the board.\<close>

lemma op_step_board:
  assumes "op_step E s t" "db_inv E (s_db s)"
  shows "board_step (board_of (s_db s)) (board_of (s_db t))"
  using assms(1)
proof cases
  case (create m audit res)
  then show ?thesis using op_errors(1) [of E m audit s] board_create [of E m audit s] board_step.idle by (cases res) auto
next
  case (capture i c audit res)
  then show ?thesis using op_errors(2) [of E i c audit s] board_capture [of E i c audit s] assms(2) board_step.idle by (cases res) auto
next
  case (transition i change pre audit res)
  then show ?thesis using op_errors(3) [of E i change pre audit s] board_transition [of E i change pre audit s] assms(2) board_step.idle by (cases res) auto
next
  case (target i ti change pre audit res)
  then show ?thesis using op_errors(4) [of E i ti change pre audit s] board_target [of E i ti change pre audit s] assms(2) board_step.idle by (cases res) auto
next
  case (observe i ti payload pre audit res)
  then show ?thesis using op_errors(5) [of E i ti payload pre audit s] board_observe [of E i ti payload pre audit s] board_step.idle by (cases res) auto
next
  case (backup_created b audit res)
  show ?thesis by (rule backup_logs [of E b audit s res t "''''"]) (use backup_created in \<open>simp_all add: backup_board board_step.idle\<close>)
next
  case (backup_downloaded b name audit res)
  show ?thesis by (rule backup_logs [of E b audit s res t name]) (use backup_downloaded in \<open>simp_all add: backup_board board_step.idle\<close>)
qed (simp add: board_step.idle)

interpretation store: refinement "\<lambda>s. env_ok E \<and> store_start s" "op_step E" "\<lambda>s. env_ok E \<and> db_inv E (s_db s)"
    "\<lambda>s. board_of (s_db s)" board_step for E
  by unfold_locales (auto simp: store_start_def db_inv_empty op_step_inv op_step_board)

definition reachable :: "env \<Rightarrow> session \<Rightarrow> bool" where
  "reachable E s \<longleftrightarrow> (\<exists>s0. store_start s0 \<and> (op_step E)\<^sup>*\<^sup>* s0 s)"

lemma reachable_inv: "reachable E s \<Longrightarrow> env_ok E \<Longrightarrow> db_inv E (s_db s)"
  using store.inv_reachable by (auto simp: reachable_def)

lemma op_step_history:
  assumes "op_step E s s'" "db_inv E (s_db s)"
  shows "history_kept (s_db s) (s_db s') \<and> one_event (s_db s) (s_db s')"
  using assms(1)
proof cases
  case (create m audit res)
  show ?thesis by (rule history_result [of res]) (use create op_errors(1) history_ops(1) in blast)+
next
  case (capture i c audit res)
  show ?thesis by (rule history_result [of res]) (use capture assms(2) op_errors(2) history_ops(2) in blast)+
next
  case (transition i change pre audit res)
  show ?thesis by (rule history_result [of res]) (use transition assms(2) op_errors(3) history_ops(3) in blast)+
next
  case (target i ti change pre audit res)
  show ?thesis by (rule history_result [of res]) (use target assms(2) op_errors(4) history_ops(4) in blast)+
next
  case (observe i ti payload pre audit res)
  show ?thesis by (rule history_result [of res]) (use observe op_errors(5) history_ops(5) in blast)+
next
  case (backup_created b audit res)
  show ?thesis by (rule backup_logs [of E b audit s res s' "''''"]) (use backup_created in \<open>simp_all add: history_refl history_log one_event_log\<close>)
next
  case (backup_downloaded b name audit res)
  show ?thesis by (rule backup_logs [of E b audit s res s' name]) (use backup_downloaded in \<open>simp_all add: history_refl history_log one_event_log\<close>)
next
  case other
  then show ?thesis by (simp add: history_refl)
qed

section \<open>Properties of reachable stores\<close>

text \<open>C1: Verification accepts every database that any sequence of operations produces from an
  empty store, whatever the operations returned and whatever faults the database had meanwhile, provided that the
  arguments are as \<open>op_step\<close> says: texts are UTF-8, manifests describe a file, and no capture has a target observed
  outside the years 1 to 9999 in UTC. The code does not check the last and accepts such a capture, whose instant has a text
  that cannot be read back.\<close>

theorem reachable_verifies:
  assumes "reachable E s" "env_ok E"
  shows "fst (verifyApplicationData (E\<lparr>fault := (\<lambda>n. False)\<rparr>) (initializeSchema empty_schema) s) = Inr ()"
  using db_inv_verifies [of "E\<lparr>fault := (\<lambda>n. False)\<rparr>" s] reachable_inv [OF assms] required_schema_initialized
  by (simp add: db_inv_fault)

lemma sample_step: "op_step sample_env sample_start sample_created"
  by (rule op_step.create [OF sample_create]) (simp add: create_args_def sample_run_def zero_Maintenance_def)

lemma sample_reachable: "reachable sample_env sample_created"
proof -
  have "store_start sample_start" by (simp add: store_start_def sample_start_def)
  with sample_step show ?thesis unfolding reachable_def by blast
qed

theorem reachable_verifies_witness:
  "reachable sample_env sample_created \<and> env_ok sample_env
    \<and> fst (verifyApplicationData (sample_env\<lparr>fault := (\<lambda>n. False)\<rparr>) (initializeSchema empty_schema) sample_created) = Inr ()"
  using reachable_verifies [OF sample_reachable sample_env_ok(1)] sample_reachable sample_env_ok(1) by blast

text \<open>C25: Verification is sound: in a database it accepts, no lock key is held by two active runs, and every
  run and each of its targets is in the state and at the version that replaying the run's journal from
  nothing, with the targets and the digest of the saved capture, gives.\<close>

theorem verification_sound:
  assumes "verifyApplicationData E sch s = (Inr u, s')"
  shows "card (tr_maintenance_id ` set (lock_holders (s_db s) key)) \<le> 1
    \<and> (\<forall>i r. maintenance_by_id i (s_db s) = Some r \<longrightarrow>
        (\<exists>ct h c rp. loadCaptureForVerify E i (capture_by_id i (s_db s)) = Inr (ct, h, c)
          \<and> replay_events ct h c (map scanEvent (run_events i (s_db s))) zero_replay = Inr rp
          \<and> rm_state rp = mr_state r \<and> rm_revision rp = mr_version r \<and> rm_captured rp = c
          \<and> (\<forall>t \<in> set (target_rows i (s_db s)). \<exists>rt. map_of (rm_targets rp) (tr_id t) = Some rt
               \<and> rt_state rt = tr_state t \<and> rt_version rt = tr_version t)))"
proof -
  note v = verifyApplicationData_Inr [OF assms]
  have "\<forall>x \<in> tr_maintenance_id ` set (lock_holders (s_db s) key). \<forall>y \<in> tr_maintenance_id ` set (lock_holders (s_db s) key). x = y"
    using lock_holders_agree [OF v(2)] by blast
  then have "card (tr_maintenance_id ` set (lock_holders (s_db s) key)) \<le> 1"
    unfolding One_nat_def by (rule iffD2 [OF card_le_Suc0_iff_eq [OF finite_imageI [OF finite_set]]])
  moreover have "\<exists>ct h c rp. loadCaptureForVerify E i (capture_by_id i (s_db s)) = Inr (ct, h, c)
          \<and> replay_events ct h c (map scanEvent (run_events i (s_db s))) zero_replay = Inr rp
          \<and> rm_state rp = mr_state r \<and> rm_revision rp = mr_version r \<and> rm_captured rp = c
          \<and> (\<forall>t \<in> set (target_rows i (s_db s)). \<exists>rt. map_of (rm_targets rp) (tr_id t) = Some rt
               \<and> rt_state rt = tr_state t \<and> rt_version rt = tr_version t)"
    if r: "maintenance_by_id i (s_db s) = Some r" for i r
  proof -
    have "i \<in> mr_id ` set (maintenance_t (s_db s))" using r by (auto simp: maintenance_by_id_def find_Some_iff)
    then obtain s1 s2 where "s_db s1 = s_db s" "verifyMaintenanceReplay E i s1 = (Inr (), s2)" using v(4) by blast
    then show ?thesis
    proof (elim verifyMaintenanceReplay_Inr)
      fix r' ct h c rp
      assume a: "s_db s1 = s_db s" "maintenance_by_id i (s_db s1) = Some r'" "loadCaptureForVerify E i (capture_by_id i (s_db s1)) = Inr (ct, h, c)"
        "replay_events ct h c (map scanEvent (run_events i (s_db s1))) zero_replay = Inr rp"
        "replay_matches (length (run_events i (s_db s1))) rp (scanMaintenance r') c"
        "\<forall>t \<in> set (target_rows i (s_db s1)). target_matches ct rp (scanTarget t)"
      have "\<exists>rt. map_of (rm_targets rp) (tr_id t) = Some rt \<and> rt_state rt = tr_state t \<and> rt_version rt = tr_version t"
        if "target_matches ct rp (scanTarget t)" for t
        using that by (auto simp: target_matches_def scanTarget_def split: option.splits)
      with a r show ?thesis by (intro exI [of _ ct] exI [of _ h] exI [of _ c] exI [of _ rp]) (auto simp: replay_matches_def scanMaintenance_def)
    qed
  qed
  ultimately show ?thesis by blast
qed

theorem verification_sound_witness:
  "verifyApplicationData (sample_env\<lparr>fault := (\<lambda>n. False)\<rparr>) (initializeSchema empty_schema) sample_created
      = (Inr (), snd (verifyApplicationData (sample_env\<lparr>fault := (\<lambda>n. False)\<rparr>) (initializeSchema empty_schema) sample_created))
    \<and> card (tr_maintenance_id ` set (lock_holders (s_db sample_created) ''k'')) \<le> 1"
proof -
  let ?v = "verifyApplicationData (sample_env\<lparr>fault := (\<lambda>n. False)\<rparr>) (initializeSchema empty_schema) sample_created"
  have "fst ?v = Inr ()"
    using db_inv_verifies [of "sample_env\<lparr>fault := (\<lambda>n. False)\<rparr>" sample_created] reachable_inv [OF sample_reachable sample_env_ok(1)]
      required_schema_initialized by (simp add: db_inv_fault)
  then have v: "?v = (Inr (), snd ?v)" by (cases ?v) simp
  show ?thesis using v verification_sound [OF v, of "''k''"] by blast
qed

text \<open>C8: In every reachable store a lock key is held by at most one maintenance run that has not
  released it.\<close>

theorem reachable_locks_exclusive:
  assumes "reachable E s" "env_ok E"
  shows "card (tr_maintenance_id ` set (lock_holders (s_db s) key)) \<le> 1"
proof -
  have locks: "locks_ok (s_db s)" using reachable_inv [OF assms] by (simp add: db_inv_def)
  have "\<forall>x \<in> tr_maintenance_id ` set (lock_holders (s_db s) key). \<forall>y \<in> tr_maintenance_id ` set (lock_holders (s_db s) key). x = y"
    using lock_holders_agree [OF locks] by blast
  then show ?thesis unfolding One_nat_def by (rule iffD2 [OF card_le_Suc0_iff_eq [OF finite_imageI [OF finite_set]]])
qed

theorem reachable_locks_exclusive_witness:
  "reachable sample_env sample_created \<and> env_ok sample_env
    \<and> card (tr_maintenance_id ` set (lock_holders (s_db sample_created) ''k'')) \<le> 1"
  using reachable_locks_exclusive [OF sample_reachable sample_env_ok(1)] sample_reachable sample_env_ok(1) by blast

text \<open>C21: In every reachable store the versions of runs lie between 1 and the largest 64-bit integer,
  so that no increment has wrapped around, and a target's version is below that of its run.\<close>

theorem reachable_versions_bounded:
  assumes "reachable E s" "env_ok E"
  shows "\<forall>r \<in> set (maintenance_t (s_db s)). 1 \<le> mr_version r \<and> mr_version r \<le> max_int64
    \<and> (\<forall>t \<in> set (targets_t (s_db s)). tr_maintenance_id t = mr_id r \<longrightarrow> 1 \<le> tr_version t \<and> tr_version t < mr_version r)"
proof -
  have runs: "runs_ok E (s_db s)" using reachable_inv [OF assms] by (simp add: db_inv_def)
  have v: "versions_ok r (rows_of (mr_id r) (s_db s))" if "r \<in> set (maintenance_t (s_db s))" for r
    using runs that by (simp add: runs_ok_def run_ok_def)
  show ?thesis using v by (fastforce simp: versions_ok_def rows_of_def)
qed

theorem reachable_versions_bounded_witness:
  "\<exists>r. r \<in> set (maintenance_t (s_db sample_created)) \<and> 1 \<le> mr_version r \<and> mr_version r \<le> max_int64"
proof -
  have "\<exists>r. r \<in> set (maintenance_t (s_db sample_created))"
    using CreateMaintenance_Inr(7) [OF sample_create] by (auto simp: add_maintenance_def)
  with reachable_versions_bounded [OF sample_reachable sample_env_ok(1)] show ?thesis by blast
qed

text \<open>C9: No operation rewrites history. Rows of runs and targets stay in place with their identity,
  their versions never go down and they change only together with their version; captures are only
  added; and the operation either changes nothing or appends exactly one event to the journal.\<close>

theorem operations_keep_history:
  assumes "reachable E s" "env_ok E" "op_step E s s'"
  shows "history_kept (s_db s) (s_db s') \<and> one_event (s_db s) (s_db s')"
  using op_step_history [OF assms(3) reachable_inv [OF assms(1,2)]] .

theorem operations_keep_history_witness:
  "history_kept (s_db sample_start) (s_db sample_created) \<and> one_event (s_db sample_start) (s_db sample_created)"
proof -
  have "reachable sample_env sample_start" unfolding reachable_def store_start_def
    by (intro exI [of _ sample_start]) (simp add: sample_start_def)
  from operations_keep_history [OF this sample_env_ok(1) sample_step] show ?thesis .
qed

text \<open>C11: Every mutation is atomic: when it returns an error, the database is what it was before.\<close>

theorem errors_change_nothing:
  "(CreateMaintenance E m audit s = (Inl e, s') \<longrightarrow> s_db s' = s_db s)
    \<and> (CaptureMaintenance E i c audit s = (Inl e, s') \<longrightarrow> s_db s' = s_db s)
    \<and> (TransitionMaintenance E i change pre audit s = (Inl e, s') \<longrightarrow> s_db s' = s_db s)
    \<and> (TransitionTarget E i ti change pre audit s = (Inl e, s') \<longrightarrow> s_db s' = s_db s)
    \<and> (AddObservation E i ti payload pre audit s = (Inl e, s') \<longrightarrow> s_db s' = s_db s)
    \<and> (RecordBackupCreated E b audit s = (Inl e, s') \<longrightarrow> s_db s' = s_db s)
    \<and> (RecordBackupDownload E b name audit s = (Inl e, s') \<longrightarrow> s_db s' = s_db s)"
  by (intro conjI impI; erule op_errors RecordBackupCreated_Inl RecordBackupDownload_Inl)

theorem errors_change_nothing_witness:
  "\<exists>e s'. TransitionMaintenance sample_env ''r1'' (sample_change ''completed'') sample_any sample_audit sample_live = (Inl e, s')
    \<and> s_db s' = s_db sample_live"
proof -
  have "\<exists>e s'. TransitionMaintenance sample_env ''r1'' (sample_change ''completed'') sample_any sample_audit sample_live = (Inl e, s')"
    by (simp add: TransitionMaintenance_def op_defs sample_defs tx_defs sample_payload)
  with errors_change_nothing [of sample_env] show ?thesis by blast
qed

section \<open>The store and its specification\<close>

text \<open>C2: The store refines the board: whatever an operation does to the tables of a reachable store, with any
  result and any fault, is one move of the abstract board of runs and targets or none, so every reachable
  store shows a board that moves of the specification reach from the empty one.\<close>

theorem store_refines_board:
  assumes "reachable E s" "env_ok E" "op_step E s s'"
  shows "board_step (board_of (s_db s)) (board_of (s_db s')) \<and> board_step\<^sup>*\<^sup>* no_board (board_of (s_db s))"
proof -
  obtain s0 where "store_start s0" "(op_step E)\<^sup>*\<^sup>* s0 s" using assms(1) by (auto simp: reachable_def)
  then have "board_step\<^sup>*\<^sup>* no_board (board_of (s_db s))"
    using store.sim_reachable [of E s0 s] assms(2) by (simp add: store_start_def board_of_empty)
  then show ?thesis using op_step_board [OF assms(3) reachable_inv [OF assms(1,2)]] by blast
qed

theorem store_refines_board_witness:
  "board_step (board_of (s_db sample_start)) (board_of (s_db sample_created)) \<and> b_runs (board_of (s_db sample_created)) ''r1'' = Some (''new'', 1)"
proof -
  have "reachable sample_env sample_start" unfolding reachable_def store_start_def
    by (intro exI [of _ sample_start]) (simp add: sample_start_def)
  moreover have "b_runs (board_of (s_db sample_created)) ''r1'' = Some (''new'', 1)"
    using CreateMaintenance_Inr(7) [OF sample_create]
    by (simp add: board_of_simps add_maintenance_def maintenance_by_id_def maintenance_row_of_def sample_run_def zero_Maintenance_def sample_start_def empty_db_def)
  ultimately show ?thesis using store_refines_board [OF _ sample_env_ok(1) sample_step] by blast
qed

text \<open>C10: A run that is completed or cancelled is final: whatever operations follow, its row, with state, version and
  time stamps, and the rows of its targets stay exactly as they are, and no target is added to it.\<close>

theorem finished_runs_frozen:
  assumes "reachable E s" "env_ok E" "(op_step E)\<^sup>*\<^sup>* s s'"
    and "maintenance_by_id i (s_db s) = Some r" "mr_state r = ''completed'' \<or> mr_state r = ''cancelled''"
  shows "maintenance_by_id i (s_db s') = Some r \<and> (\<forall>t. target_by_id i t (s_db s') = target_by_id i t (s_db s))"
  using assms(3)
proof (induction rule: rtranclp_induct)
  case (step u u')
  have inv: "db_inv E (s_db u)" using store.inv_rtranclp [of E s u] step(1) reachable_inv [OF assms(1,2)] assms(2) by blast
  have "b_runs (board_of (s_db u)) i = Some (mr_state r, mr_version r)" "lock_released (mr_state r)"
    using step(3) assms(5) by (simp_all add: board_of_simps lock_released_def)
  from board_frozen [OF op_step_board [OF step(2) inv] this] this(1)
  have "maintenance_by_id i (s_db u') = Some r \<and> (\<forall>t. target_by_id i t (s_db u') = target_by_id i t (s_db u))"
    using run_stays target_stays op_step_history [OF step(2) inv] step(3) by metis
  then show ?case using step(3) by simp
qed (use assms(4) in simp)

lemma sample_created_ops:
  "\<exists>agg s'. TransitionMaintenance sample_env ''r1'' (sample_change ''cancelled'') sample_any sample_audit sample_created = (Inr agg, s')"
  "\<exists>c s'. CaptureMaintenance sample_env ''r1'' sample_capture sample_audit sample_created = (Inr \<lparr>cres_Capture = c, cres_Created = True\<rparr>, s')"
proof -
  have db: "s_db sample_created = log_event (created_event (sample_run\<lparr>m_State := ''new'', m_Metadata := ''{}'', m_Version := 1,
      m_CreatedAt := 63800000000000000000, m_UpdatedAt := 63800000000000000000\<rparr>) sample_audit)
    (add_maintenance (sample_run\<lparr>m_State := ''new'', m_Metadata := ''{}'', m_Version := 1,
      m_CreatedAt := 63800000000000000000, m_UpdatedAt := 63800000000000000000\<rparr>) (s_db sample_start))"
    using CreateMaintenance_Inr(7) [OF sample_create] .
  note created = db log_event_def logged_row_def created_event_def add_maintenance_def sample_start_def empty_db_def sample_run_def
    zero_Maintenance_def maintenance_row_of_def event_row_of_def same_observation_def same_aggregate_version_def
  show "\<exists>agg s'. TransitionMaintenance sample_env ''r1'' (sample_change ''cancelled'') sample_any sample_audit sample_created = (Inr agg, s')"
    by (simp add: TransitionMaintenance_def op_defs sample_defs tx_defs sample_payload created)
  show "\<exists>c s'. CaptureMaintenance sample_env ''r1'' sample_capture sample_audit sample_created = (Inr \<lparr>cres_Capture = c, cres_Created = True\<rparr>, s')"
    by (simp add: CaptureMaintenance_def sample_capture_def op_defs sample_defs tx_defs sample_object sample_targets sample_capture_detail created)
qed

theorem finished_runs_frozen_witness:
  "\<exists>s r. reachable sample_env s \<and> maintenance_by_id ''r1'' (s_db s) = Some r \<and> mr_state r = ''cancelled''
    \<and> (\<forall>s'. (op_step sample_env)\<^sup>*\<^sup>* s s' \<longrightarrow> maintenance_by_id ''r1'' (s_db s') = Some r)"
proof -
  obtain agg s where t: "TransitionMaintenance sample_env ''r1'' (sample_change ''cancelled'') sample_any sample_audit sample_created = (Inr agg, s)"
    using sample_created_ops(1) by blast
  have "op_step sample_env sample_created s" by (rule op_step.transition [OF t]) (simp add: change_args_def sample_change_def)
  then have s: "reachable sample_env s" using sample_reachable unfolding reachable_def by (meson rtranclp.rtrancl_into_rtrancl)
  have u: "run_unique (s_db sample_created)" by (rule db_inv_unique(1) [OF reachable_inv [OF sample_reachable sample_env_ok(1)]])
  obtain r where r: "maintenance_by_id ''r1'' (s_db s) = Some r" "mr_state r = ''cancelled''"
    using t u
  proof (cases rule: TransitionMaintenance_Inr)
    case (1 r0 payload now n)
    have "b_runs (board_of (s_db s)) ''r1'' = Some (''cancelled'', wrap64 (mr_version r0 + 1))"
      using run_key [OF 1(1)] runs_set_run [OF 1(1)] by (simp add: 1(8) board_parts moved_run_def scan_simps bump_targets_def sample_change_def)
    then show ?thesis using that by (auto simp: board_of_simps)
  qed
  have "maintenance_by_id ''r1'' (s_db s') = Some r" if "(op_step sample_env)\<^sup>*\<^sup>* s s'" for s'
    using finished_runs_frozen [OF s sample_env_ok(1) that r(1)] r(2) by blast
  with s r show ?thesis by blast
qed

section \<open>Captures are written once\<close>

text \<open>What was stored for a capture is found unchanged after any operations.\<close>

lemma capture_stays:
  assumes "reachable E s" "env_ok E" "(op_step E)\<^sup>*\<^sup>* s s'" "capture_by_id i (s_db s) = Some row" "maintenance_by_id i (s_db s) \<noteq> None"
  shows "capture_by_id i (s_db s') = Some row \<and> maintenance_by_id i (s_db s') \<noteq> None"
  using assms(3)
proof (induction rule: rtranclp_induct)
  case (step u u')
  have "db_inv E (s_db u)" using store.inv_rtranclp [of E s u] step(1) reachable_inv [OF assms(1,2)] assms(2) by blast
  then have h: "history_kept (s_db u) (s_db u')" using op_step_history [OF step(2)] by blast
  have "find P (xs @ ys) = Some x" if "find P xs = Some x" for P xs ys and x :: capture_row
    using that by (induction xs) (auto split: if_splits)
  then have "capture_by_id i (s_db u') = Some row" using h step(3) by (auto simp: history_kept_def capture_by_id_def)
  moreover obtain r where "maintenance_by_id i (s_db u) = Some r" using step(3) by auto
  then have "maintenance_by_id i (s_db u') \<noteq> None"
    using kept_find [of run_kept "maintenance_t (s_db u)" "maintenance_t (s_db u')" "\<lambda>x. mr_id x = i" r] h
    by (auto simp: history_kept_def maintenance_by_id_def run_kept_def maintenance_identity_changed_def)
  ultimately show ?case by simp
qed (use assms(4,5) in simp)

text \<open>C18: Saving a capture is idempotent: once a capture has succeeded, a request with the same canonical payload, by
  whomever and after whatever operations came between, answers without a fault with exactly the capture
  that was saved, its time included, creates nothing and changes nothing. A time of capture that the caller
  gives is to be in the years that its text form covers; the API gives none.\<close>

theorem capture_idempotent:
  assumes "reachable E s" "env_ok E" "CaptureMaintenance E i c audit s = (Inr res, s1)" "capture_args c"
    and "c_CapturedAt c = 0 \<or> time_ok (c_CapturedAt c)" "(op_step E)\<^sup>*\<^sup>* s1 s2"
    and "canonicalJSONObject (c_Payload c') = canonicalJSONObject (c_Payload c)"
  shows "\<exists>s3. CaptureMaintenance (E\<lparr>fault := (\<lambda>n. False)\<rparr>) i c' audit' s2
    = (Inr \<lparr>cres_Capture = cres_Capture res, cres_Created = False\<rparr>, s3) \<and> s_db s3 = s_db s2"
proof -
  have "op_step E s s1" by (rule op_step.capture [OF assms(3,4)])
  then have s1: "reachable E s1" using assms(1) unfolding reachable_def by (meson rtranclp.rtrancl_into_rtrancl)
  have u: "run_unique (s_db s)" by (rule db_inv_unique(1) [OF reachable_inv [OF assms(1,2)]])
  obtain payload ts row where v: "validID i" "canonicalJSONObject (c_Payload c) = Inr payload" "parseCaptureTargets payload = Inr ts"
    and stored: "maintenance_by_id i (s_db s1) \<noteq> None" "capture_by_id i (s_db s1) = Some row"
      "cr_sha256 row = sha256_hex E payload" "cr_payload_json row = payload" "scanCapture row = cres_Capture res"
    by (rule capture_stored [OF assms(3) u assms(2,5)])
  obtain r where r: "maintenance_by_id i (s_db s2) = Some r" and row: "capture_by_id i (s_db s2) = Some row"
    using capture_stays [OF s1 assms(2,6) stored(2,1)] by auto
  have "canonicalJSONObject (c_Payload c') = Inr payload" using assms(7) v(2) by simp
  from capture_found [OF v(1) this v(3) _ r row, of "E\<lparr>fault := (\<lambda>n. False)\<rparr>" audit'] stored(3-5) show ?thesis by simp
qed

theorem capture_idempotent_witness:
  "\<exists>res s1. CaptureMaintenance sample_env ''r1'' sample_capture sample_audit sample_created = (Inr res, s1) \<and> cres_Created res
    \<and> (\<exists>s3. CaptureMaintenance (sample_env\<lparr>fault := (\<lambda>n. False)\<rparr>) ''r1'' sample_capture sample_audit s1
        = (Inr \<lparr>cres_Capture = cres_Capture res, cres_Created = False\<rparr>, s3))"
proof -
  obtain c s1 where c: "CaptureMaintenance sample_env ''r1'' sample_capture sample_audit sample_created = (Inr \<lparr>cres_Capture = c, cres_Created = True\<rparr>, s1)"
    using sample_created_ops(2) by blast
  have a: "capture_args sample_capture" "c_CapturedAt sample_capture = 0"
    by (simp_all add: capture_args_def sample_capture_def sample_object sample_targets max_int64_def)
  from capture_idempotent [OF sample_reachable sample_env_ok(1) c a(1) _ rtranclp.rtrancl_refl refl, of sample_audit] a(2)
  obtain s3 where "CaptureMaintenance (sample_env\<lparr>fault := (\<lambda>n. False)\<rparr>) ''r1'' sample_capture sample_audit s1 = (Inr \<lparr>cres_Capture = c, cres_Created = False\<rparr>, s3)"
    by auto
  with c show ?thesis by fastforce
qed

end
